(* ===== verification/Prelude.thy ===== *)
theory Prelude
  imports Complex_Main "HOL-Library.Multiset" "HOL-Library.Char_ord" "HOL-Library.List_Lexorder"
    "HOL-Library.Product_Lexorder"
begin

text \<open>
  Shared vocabulary of the development: the JavaScript collection operations the client code
  relies on (\<open>Array.prototype.sort\<close>, insertion-ordered \<open>Set\<close> and \<open>Map\<close>, \<open>findIndex\<close>),
  the result type of fallible operations, and the locales that several components share
  (a reducer with an invariant, a keyed store, an id-keyed timeline).
\<close>

named_theorems store_simps \<open>lookup-after-update laws of the keyed stores\<close>
named_theorems js_simps \<open>characteristic laws of the JavaScript collection operations\<close>

section \<open>Fallible operations\<close>

text \<open>
  A thrown \<open>Error\<close> carries its message; an operation that may throw returns \<open>Inl\<close> of the
  message. \<open>throw_if\<close> is the guard \<open>if (c) throw new Error(msg)\<close>.
\<close>

type_synonym js_error = string
type_synonym 'a result = "js_error + 'a"

abbreviation ok :: "'a \<Rightarrow> 'a result" where
  "ok \<equiv> Inr"

abbreviation throw :: "js_error \<Rightarrow> 'a result" where
  "throw \<equiv> Inl"

definition bind_result :: "'a result \<Rightarrow> ('a \<Rightarrow> 'b result) \<Rightarrow> 'b result" where
  "bind_result r f = (case r of Inl e \<Rightarrow> Inl e | Inr x \<Rightarrow> f x)"

definition throw_if :: "bool \<Rightarrow> js_error \<Rightarrow> 'a result \<Rightarrow> 'a result" where
  "throw_if c e r = (if c then Inl e else r)"

section \<open>Array.prototype.sort\<close>

text \<open>
  ECMAScript requires \<open>sort\<close> to be stable and to order by the comparator: \<open>x\<close> stays before
  \<open>y\<close> when \<open>cmp x y \<le> 0\<close>. The stable result is unique when the comparator is consistent,
  so insertion sort computes it.
\<close>

fun js_insort :: "('a \<Rightarrow> 'a \<Rightarrow> int) \<Rightarrow> 'a \<Rightarrow> 'a list \<Rightarrow> 'a list" where
  "js_insort cmp x [] = [x]"
| "js_insort cmp x (y # ys) = (if cmp x y \<le> 0 then x # y # ys else y # js_insort cmp x ys)"

fun js_sort :: "('a \<Rightarrow> 'a \<Rightarrow> int) \<Rightarrow> 'a list \<Rightarrow> 'a list" where
  "js_sort cmp [] = []"
| "js_sort cmp (x # xs) = js_insort cmp x (js_sort cmp xs)"

text \<open>
  The default comparator of \<open>sort()\<close> on an array of strings: code-unit lexicographic order.
\<close>

definition string_cmp :: "string \<Rightarrow> string \<Rightarrow> int" where
  "string_cmp a b = (if a < b then -1 else if b < a then 1 else 0)"

text \<open>The comparator \<open>(a, b) => a.created_at - b.created_at || (a.id < b.id ? -1 : 1)\<close>.\<close>

definition time_id_cmp :: "('m \<Rightarrow> int) \<Rightarrow> ('m \<Rightarrow> string) \<Rightarrow> 'm \<Rightarrow> 'm \<Rightarrow> int" where
  "time_id_cmp ts ident a b =
     (if ts a - ts b \<noteq> 0 then ts a - ts b else if ident a < ident b then -1 else 1)"

section \<open>Insertion-ordered Set and Map\<close>

text \<open>
  A JavaScript \<open>Set\<close> iterates in insertion order, and adding a present element changes
  nothing: a list without duplicates.
\<close>

definition set_add :: "'a list \<Rightarrow> 'a \<Rightarrow> 'a list" where
  "set_add xs x = (if x \<in> set xs then xs else xs @ [x])"

definition set_delete :: "'a list \<Rightarrow> 'a \<Rightarrow> 'a list" where
  "set_delete xs x = filter (\<lambda>y. y \<noteq> x) xs"

definition set_of_array :: "'a list \<Rightarrow> 'a list" where
  "set_of_array xs = foldl set_add [] xs"

text \<open>
  A \<open>Map\<close> keeps the position of a key that is set again; its entries are an association list.
\<close>

fun map_set :: "('k \<times> 'v) list \<Rightarrow> 'k \<Rightarrow> 'v \<Rightarrow> ('k \<times> 'v) list" where
  "map_set [] k v = [(k, v)]"
| "map_set ((k', v') # m) k v = (if k' = k then (k, v) # m else (k', v') # map_set m k v)"

definition map_delete :: "('k \<times> 'v) list \<Rightarrow> 'k \<Rightarrow> ('k \<times> 'v) list" where
  "map_delete m k = filter (\<lambda>e. fst e \<noteq> k) m"

section \<open>Array search and update\<close>

fun find_index :: "('a \<Rightarrow> bool) \<Rightarrow> 'a list \<Rightarrow> nat option" where
  "find_index p [] = None"
| "find_index p (x # xs) = (if p x then Some 0 else map_option Suc (find_index p xs))"

text \<open>\<open>array.slice(0, n)\<close> and truncation by \<open>array.length = n\<close> are \<open>take\<close>.\<close>

section \<open>Laws of sort\<close>

lemma mset_js_insort [simp]: "mset (js_insort cmp x xs) = add_mset x (mset xs)"
  by (induction xs) auto

lemma mset_js_sort [simp]: "mset (js_sort cmp xs) = mset xs"
  by (induction xs) auto

lemma set_js_insort [simp]: "set (js_insort cmp x xs) = insert x (set xs)"
  by (metis mset_js_insort set_mset_add_mset_insert set_mset_mset)

lemma set_js_sort [simp]: "set (js_sort cmp xs) = set xs"
  by (metis mset_js_sort set_mset_mset)

lemma length_js_sort [simp]: "length (js_sort cmp xs) = length xs"
  by (metis mset_js_sort size_mset)

lemma distinct_js_sort [simp]: "distinct (js_sort cmp xs) = distinct xs"
  by (metis mset_js_sort mset_eq_imp_distinct_iff)

text \<open>
  Two comparators that agree on the elements of the array sort it the same way.
\<close>

lemma js_insort_cong:
  assumes "\<And>y. y \<in> set ys \<Longrightarrow> (c x y \<le> 0) = (d x y \<le> 0)"
  shows "js_insort c x ys = js_insort d x ys"
  using assms by (induction ys) auto

lemma js_sort_sorted_wrt:
  assumes "\<And>x y. x \<in> set xs \<Longrightarrow> y \<in> set xs \<Longrightarrow> x \<noteq> y \<Longrightarrow> (cmp x y \<le> 0) = R x y"
    and "\<And>x y z. R x y \<Longrightarrow> R y z \<Longrightarrow> R x z"
    and "\<And>x y. x \<in> set xs \<Longrightarrow> y \<in> set xs \<Longrightarrow> x \<noteq> y \<Longrightarrow> R x y \<or> R y x"
    and "distinct xs"
  shows "sorted_wrt R (js_sort cmp xs)"
proof -
  have ins: "sorted_wrt R (js_insort cmp x ys)"
    if "sorted_wrt R ys" "x \<notin> set ys"
      "\<And>a b. a \<in> insert x (set ys) \<Longrightarrow> b \<in> insert x (set ys) \<Longrightarrow> a \<noteq> b \<Longrightarrow> (cmp a b \<le> 0) = R a b"
      "\<And>a b. a \<in> insert x (set ys) \<Longrightarrow> b \<in> insert x (set ys) \<Longrightarrow> a \<noteq> b \<Longrightarrow> R a b \<or> R b a"
    for x ys
    using that
  proof (induction ys)
    case Nil
    then show ?case by simp
  next
    case (Cons y ys)
    have xy: "x \<noteq> y" using Cons.prems(2) by auto
    show ?case
    proof (cases "cmp x y \<le> 0")
      case True
      with Cons.prems(3)[of x y] xy have "R x y" by simp
      with Cons.prems(1) assms(2) True show ?thesis by auto
    next
      case False
      with Cons.prems(3)[of x y] Cons.prems(4)[of x y] xy have "R y x" by auto
      moreover have "sorted_wrt R (js_insort cmp x ys)"
        using Cons.prems by (intro Cons.IH) auto
      ultimately show ?thesis using Cons.prems(1) False by auto
    qed
  qed
  show ?thesis using assms(1,3,4)
  proof (induction xs)
    case (Cons x xs)
    then have "sorted_wrt R (js_sort cmp xs)" by auto
    moreover have "x \<notin> set (js_sort cmp xs)" using Cons.prems(3) by simp
    ultimately have "sorted_wrt R (js_insort cmp x (js_sort cmp xs))"
      using Cons.prems(1,2) by (intro ins) (simp_all only: set_js_sort list.set not_False_eq_True)
    then show ?case by simp
  qed simp
qed

lemma sorted_wrt_strict_unique:
  assumes "sorted_wrt R xs" "sorted_wrt R ys" "mset xs = mset ys"
    and asym: "\<And>x y. R x y \<Longrightarrow> \<not> R y x"
  shows "xs = ys"
  using assms(1-3)
proof (induction xs arbitrary: ys)
  case (Cons x xs)
  then obtain y ys' where ys: "ys = y # ys'" by (cases ys) auto
  have "x = y"
  proof (rule ccontr)
    assume "x \<noteq> y"
    with Cons.prems(3) ys have "x \<in> set ys'" "y \<in> set xs"
      by (metis set_mset_mset list.set_intros(1) set_ConsD)+
    with Cons.prems(1,2) ys asym show False by auto
  qed
  with Cons ys show ?case by simp
qed simp

section \<open>Laws of the ordered collections\<close>

lemma set_set_add [simp, js_simps]: "set (set_add xs x) = insert x (set xs)"
  by (auto simp: set_add_def)

lemma distinct_set_add [simp]: "distinct xs \<Longrightarrow> distinct (set_add xs x)"
  by (simp add: set_add_def)

lemma set_set_delete [simp, js_simps]: "set (set_delete xs x) = set xs - {x}"
  by (auto simp: set_delete_def)

lemma distinct_set_delete [simp]: "distinct xs \<Longrightarrow> distinct (set_delete xs x)"
  by (simp add: set_delete_def)

lemma foldl_set_add:
  "set (foldl set_add acc xs) = set acc \<union> set xs"
  "distinct acc \<Longrightarrow> distinct (foldl set_add acc xs)"
  by (induction xs arbitrary: acc) auto

lemma foldl_set_delete:
  "set (foldl set_delete acc xs) = set acc - set xs"
  "distinct acc \<Longrightarrow> distinct (foldl set_delete acc xs)"
  by (induction xs arbitrary: acc) auto

lemma set_set_of_array [simp, js_simps]: "set (set_of_array xs) = set xs"
  by (simp add: set_of_array_def foldl_set_add)

lemma distinct_set_of_array [simp]: "distinct (set_of_array xs)"
  by (simp add: set_of_array_def foldl_set_add)

lemma foldl_set_add_distinct:
  "distinct xs \<Longrightarrow> set xs \<inter> set acc = {} \<Longrightarrow> foldl set_add acc xs = acc @ xs"
  by (induction xs arbitrary: acc) (auto simp: set_add_def)

lemma set_of_array_distinct [simp]: "distinct xs \<Longrightarrow> set_of_array xs = xs"
  by (simp add: set_of_array_def foldl_set_add_distinct)

lemma map_of_map_set [simp, js_simps]: "map_of (map_set m k v) = (map_of m)(k \<mapsto> v)"
  by (induction m k v rule: map_set.induct) auto

lemma keys_map_set [simp]: "set (map fst (map_set m k v)) = insert k (set (map fst m))"
  by (induction m k v rule: map_set.induct) auto

lemma distinct_map_set [simp]: "distinct (map fst m) \<Longrightarrow> distinct (map fst (map_set m k v))"
proof (induction m k v rule: map_set.induct)
  case (2 k' v' m k v)
  then show ?case using keys_map_set[of m k v] by auto
qed simp

lemma map_set_fresh: "k \<notin> fst ` set m \<Longrightarrow> map_set m k v = m @ [(k, v)]"
  by (induction m k v rule: map_set.induct) auto

lemma map_of_map_delete [simp, js_simps]: "map_of (map_delete m k) = (map_of m)(k := None)"
  by (induction m) (auto simp: map_delete_def)

lemma distinct_map_delete [simp]: "distinct (map fst m) \<Longrightarrow> distinct (map fst (map_delete m k))"
  by (simp add: map_delete_def distinct_map_filter)

lemma map_values_map_set:
  "v' \<in> snd ` set (map_set m k v) \<Longrightarrow> v' = v \<or> v' \<in> snd ` set m"
  by (induction m k v rule: map_set.induct) (auto split: if_splits)

lemma find_index_Some:
  "find_index p xs = Some i \<Longrightarrow> i < length xs \<and> p (xs ! i) \<and> (\<forall>j<i. \<not> p (xs ! j))"
proof (induction xs arbitrary: i)
  case (Cons x xs)
  then show ?case by (auto split: if_splits simp: less_Suc_eq_0_disj)
qed simp

lemma find_index_None: "find_index p xs = None \<longleftrightarrow> (\<forall>x\<in>set xs. \<not> p x)"
  by (induction xs) auto

lemma find_index_update:
  assumes "find_index p xs = Some i"
  shows "set (xs[i := y]) \<subseteq> insert y (set xs)" "length (xs[i := y]) = length xs"
  by (simp_all add: set_update_subset_insert)

lemma bind_result_simps [simp]:
  "bind_result (Inl e) f = Inl e" "bind_result (Inr x) f = f x"
  by (simp_all add: bind_result_def)

lemma bind_result_ok_iff:
  "bind_result r f = Inr y \<longleftrightarrow> (\<exists>x. r = Inr x \<and> f x = Inr y)"
  by (cases r) auto

lemma throw_if_ok_iff [simp]: "throw_if c e r = Inr y \<longleftrightarrow> \<not> c \<and> r = Inr y"
  by (simp add: throw_if_def)

lemma throw_if_simps [simp]:
  "c \<Longrightarrow> throw_if c e r = Inl e" "\<not> c \<Longrightarrow> throw_if c e r = r"
  by (simp_all add: throw_if_def)

section \<open>Interfaces\<close>

text \<open>
  A Redux slice: an initial state, a reducer, and an invariant that the initial state has and
  every action keeps. Whatever sequence of actions the UI, the sockets and the sync hooks
  dispatch, the invariant holds afterwards.
\<close>

locale reducer =
  fixes init :: 's
    and step :: "'s \<Rightarrow> 'a \<Rightarrow> 's"
    and inv :: "'s \<Rightarrow> bool"
  assumes inv_init: "inv init"
    and inv_step: "inv s \<Longrightarrow> inv (step s a)"
begin

lemma inv_run: "inv s \<Longrightarrow> inv (foldl step s as)"
  by (induction as arbitrary: s) (auto intro: inv_step)

lemma inv_reachable: "inv (foldl step init as)"
  by (rule inv_run) (rule inv_init)

end

text \<open>
  An object store of IndexedDB or an entry of localStorage, as its clients use it: \<open>get\<close>
  after \<open>put\<close> and \<open>del\<close>.
\<close>

locale keyed_store =
  fixes get :: "'s \<Rightarrow> 'k \<Rightarrow> 'v option"
    and put :: "'s \<Rightarrow> 'k \<Rightarrow> 'v \<Rightarrow> 's"
    and del :: "'s \<Rightarrow> 'k \<Rightarrow> 's"
  assumes get_put: "get (put s k v) k' = (if k' = k then Some v else get s k')"
    and get_del: "get (del s k) k' = (if k' = k then None else get s k')"
begin

lemma get_put_same: "get (put s k v) k = Some v"
  by (simp add: get_put)

lemma get_del_foldl: "get (foldl del s ks) k' = (if k' \<in> set ks then None else get s k')"
  by (induction ks arbitrary: s) (auto simp: get_del)

lemma put_overwrites: "get (put (put s k v) k w) = get (put s k w)"
  by (auto simp: get_put)

text \<open>Inserting only when absent keeps what is stored, and afterwards the key is present.\<close>

lemma put_if_absent:
  assumes "s' = (case get s k of None \<Rightarrow> put s k v | Some _ \<Rightarrow> s)"
  shows "get s' k = Some (case get s k of None \<Rightarrow> v | Some w \<Rightarrow> w)"
    and "k' \<noteq> k \<Longrightarrow> get s' k' = get s k'"
  using assms by (auto simp: get_put split: option.splits)

end

text \<open>
  A list of records keyed by an id, updated in place or extended: what \<open>upsert\<close> promises to the
  slices. The first contract bounds the ids that can appear; the second adds that nothing is lost.
\<close>

locale id_upsert =
  fixes ident :: "'m \<Rightarrow> string"
    and upsert :: "'m list \<Rightarrow> 'm \<Rightarrow> 'm list"
  assumes upsert_ids_sub: "ident ` set (upsert xs x) \<subseteq> insert (ident x) (ident ` set xs)"
    and upsert_distinct: "distinct (map ident xs) \<Longrightarrow> distinct (map ident (upsert xs x))"
begin

lemma foldl_upsert_distinct:
  "distinct (map ident xs) \<Longrightarrow> distinct (map ident (foldl upsert xs ys))"
  by (induction ys arbitrary: xs) (auto intro: upsert_distinct)

lemma foldl_upsert_ids_sub:
  "ident ` set (foldl upsert xs ys) \<subseteq> ident ` set xs \<union> ident ` set ys"
proof (induction ys arbitrary: xs)
  case (Cons y ys)
  from Cons [of "upsert xs y"] upsert_ids_sub [of xs y] show ?case by auto
qed simp

end

locale id_upsert_total = id_upsert +
  assumes upsert_ids_sup: "insert (ident x) (ident ` set xs) \<subseteq> ident ` set (upsert xs x)"
begin

lemma upsert_ids: "ident ` set (upsert xs x) = insert (ident x) (ident ` set xs)"
  using upsert_ids_sub upsert_ids_sup by (rule subset_antisym)

lemma foldl_upsert_ids:
  "ident ` set (foldl upsert xs ys) = ident ` set xs \<union> ident ` set ys"
  by (induction ys arbitrary: xs) (auto simp: upsert_ids)

end

text \<open>
  Writing at the position \<open>findIndex\<close> returned keeps the list of ids when the new record has the
  id searched for.
\<close>

lemma map_ident_update:
  assumes "find_index (\<lambda>e. ident e = k) xs = Some i" "ident y = k"
  shows "map ident (xs[i := y]) = map ident xs"
proof -
  from find_index_Some [OF assms(1)] assms(2) have "map ident xs ! i = ident y" "i < length xs" by auto
  then show ?thesis by (metis list_update_id map_update)
qed

lemma find_append:
  "find p (xs @ ys) = (case find p xs of Some x \<Rightarrow> Some x | None \<Rightarrow> find p ys)"
  by (induction xs) auto

lemma find_SomeD: "find p xs = Some x \<Longrightarrow> x \<in> set xs \<and> p x"
  by (induction xs) (auto split: if_splits)

lemma find_index_find:
  "find p xs = (case find_index p xs of None \<Rightarrow> None | Some i \<Rightarrow> Some (xs ! i))"
  by (induction xs) (auto split: option.splits)

text \<open>
  A time-ordered message list with unique ids: what \<open>insertSorted\<close> promises to the chat
  and direct-message slices.
\<close>

definition timeline_before :: "('m \<Rightarrow> int) \<Rightarrow> ('m \<Rightarrow> string) \<Rightarrow> 'm \<Rightarrow> 'm \<Rightarrow> bool" where
  "timeline_before ts ident a b \<longleftrightarrow> (ts a, ident a) < (ts b, ident b)"

definition timeline_ok :: "('m \<Rightarrow> int) \<Rightarrow> ('m \<Rightarrow> string) \<Rightarrow> 'm list \<Rightarrow> bool" where
  "timeline_ok ts ident ms \<longleftrightarrow>
     sorted_wrt (timeline_before ts ident) ms \<and> distinct (map ident ms)"

locale timeline =
  fixes ts :: "'m \<Rightarrow> int"
    and ident :: "'m \<Rightarrow> string"
    and insert_msg :: "'m list \<Rightarrow> 'm \<Rightarrow> 'm list"
  assumes insert_known: "ident m \<in> ident ` set ms \<Longrightarrow> insert_msg ms m = ms"
    and insert_fresh:
      "timeline_ok ts ident ms \<Longrightarrow> ident m \<notin> ident ` set ms \<Longrightarrow>
         timeline_ok ts ident (insert_msg ms m) \<and> mset (insert_msg ms m) = add_mset m (mset ms)"
begin

lemma insert_ok: "timeline_ok ts ident ms \<Longrightarrow> timeline_ok ts ident (insert_msg ms m)"
  using insert_known insert_fresh by metis

lemma foldl_insert_ok: "timeline_ok ts ident ms \<Longrightarrow> timeline_ok ts ident (foldl insert_msg ms xs)"
  by (induction xs arbitrary: ms) (auto intro: insert_ok)

lemma insert_ids:
  assumes "timeline_ok ts ident ms"
  shows "ident ` set (insert_msg ms m) = insert (ident m) (ident ` set ms)"
proof (cases "ident m \<in> ident ` set ms")
  case True
  then show ?thesis by (auto simp: insert_known)
next
  case False
  with assms have "set_mset (mset (insert_msg ms m)) = insert m (set ms)"
    using insert_fresh by simp
  then show ?thesis by simp
qed

lemma foldl_insert_ids:
  "timeline_ok ts ident ms \<Longrightarrow>
     ident ` set (foldl insert_msg ms xs) = ident ` set ms \<union> ident ` set xs"
  by (induction xs arbitrary: ms) (auto simp: insert_ids insert_ok)

lemma insert_subset:
  assumes "timeline_ok ts ident ms"
  shows "set (insert_msg ms m) \<subseteq> insert m (set ms)"
proof (cases "ident m \<in> ident ` set ms")
  case True
  then show ?thesis by (auto simp: insert_known)
next
  case False
  with assms have "set_mset (mset (insert_msg ms m)) = insert m (set ms)"
    using insert_fresh by simp
  then show ?thesis by simp
qed

lemma foldl_insert_subset:
  "timeline_ok ts ident ms \<Longrightarrow> set (foldl insert_msg ms xs) \<subseteq> set ms \<union> set xs"
proof (induction xs arbitrary: ms)
  case (Cons x xs)
  from Cons.IH[OF insert_ok[OF Cons.prems]] insert_subset[OF Cons.prems, of x]
  show ?case by auto
qed simp

lemma insert_length:
  assumes "timeline_ok ts ident ms"
  shows "length (insert_msg ms m) = (if ident m \<in> ident ` set ms then length ms else Suc (length ms))"
proof (cases "ident m \<in> ident ` set ms")
  case False
  with assms have "size (mset (insert_msg ms m)) = Suc (length ms)"
    using insert_fresh by simp
  with False show ?thesis by simp
qed (simp add: insert_known)

text \<open>
  A well-formed timeline is determined by its set of messages: hence the result of loading
  messages does not depend on the order in which they arrive.
\<close>

lemma timeline_unique:
  assumes "timeline_ok ts ident xs" "timeline_ok ts ident ys" "set xs = set ys"
  shows "xs = ys"
proof (rule sorted_wrt_strict_unique [where R = "timeline_before ts ident"])
  show "mset xs = mset ys"
    using assms by (metis distinct_map set_eq_iff_mset_eq_distinct timeline_ok_def)
qed (use assms in \<open>auto simp: timeline_ok_def timeline_before_def\<close>)

lemma foldl_insert_set:
  assumes "timeline_ok ts ident ms" "inj_on ident (set ms \<union> set xs)"
  shows "set (foldl insert_msg ms xs) = set ms \<union> set xs"
proof
  show "set (foldl insert_msg ms xs) \<subseteq> set ms \<union> set xs"
    using assms(1) by (rule foldl_insert_subset)
  show "set ms \<union> set xs \<subseteq> set (foldl insert_msg ms xs)"
  proof
    fix m assume m: "m \<in> set ms \<union> set xs"
    then have "ident m \<in> ident ` set (foldl insert_msg ms xs)"
      using foldl_insert_ids[OF assms(1)] by blast
    then obtain m' where m': "m' \<in> set (foldl insert_msg ms xs)" "ident m = ident m'" by auto
    with foldl_insert_subset[OF assms(1), of xs] have "m' \<in> set ms \<union> set xs" by blast
    with m m' assms(2) have "m = m'" by (meson inj_onD)
    with m' show "m \<in> set (foldl insert_msg ms xs)" by simp
  qed
qed

lemma arrival_order_irrelevant:
  assumes "timeline_ok ts ident ms" "inj_on ident (set ms \<union> set xs)" "set xs = set ys"
  shows "foldl insert_msg ms xs = foldl insert_msg ms ys"
proof (rule timeline_unique)
  show "set (foldl insert_msg ms xs) = set (foldl insert_msg ms ys)"
    using assms by (simp add: foldl_insert_set)
qed (simp_all add: assms(1) foldl_insert_ok)

end

text \<open>
  The contract is met by sorting with the time-then-id comparator: on messages with distinct
  ids the comparator agrees with the strict order \<open>timeline_before\<close>.
\<close>

lemma time_id_cmp_le:
  "ident a \<noteq> ident b \<Longrightarrow> (time_id_cmp ts ident a b \<le> 0) = timeline_before ts ident a b"
  by (auto simp: time_id_cmp_def timeline_before_def less_prod_def')

lemma timeline_before_total:
  "ident a \<noteq> ident b \<Longrightarrow> timeline_before ts ident a b \<or> timeline_before ts ident b a"
  by (auto simp: timeline_before_def less_prod_def')

lemma sort_timeline:
  assumes "distinct (map ident xs)"
  shows "timeline_ok ts ident (js_sort (time_id_cmp ts ident) xs)"
proof -
  have inj: "x \<noteq> y \<Longrightarrow> x \<in> set xs \<Longrightarrow> y \<in> set xs \<Longrightarrow> ident x \<noteq> ident y" for x y
    using assms by (auto simp: distinct_map inj_on_def)
  have "sorted_wrt (timeline_before ts ident) (js_sort (time_id_cmp ts ident) xs)"
  proof (rule js_sort_sorted_wrt)
    show "distinct xs" using assms by (simp add: distinct_map)
    show "\<And>x y. x \<in> set xs \<Longrightarrow> y \<in> set xs \<Longrightarrow> x \<noteq> y \<Longrightarrow>
        (time_id_cmp ts ident x y \<le> 0) = timeline_before ts ident x y"
      using inj by (simp add: time_id_cmp_le)
    show "\<And>x y. x \<in> set xs \<Longrightarrow> y \<in> set xs \<Longrightarrow> x \<noteq> y \<Longrightarrow>
        timeline_before ts ident x y \<or> timeline_before ts ident y x"
      using inj by (simp add: timeline_before_total)
  qed (auto simp: timeline_before_def)
  moreover have "distinct (map ident (js_sort (time_id_cmp ts ident) xs))"
    using assms by (simp add: distinct_map)
  ultimately show ?thesis by (simp add: timeline_ok_def)
qed

end
