(* ===== verification/ChatSlice.thy ===== *)
theory ChatSlice
  imports Prelude
begin

text \<open>
  The Redux slices of chat: \<open>store/chatSlice.ts\<close> (public NIP-29 channels) and
  \<open>store/dmSlice.ts\<close> (encrypted NIP-17 conversations). A \<open>Record<string, T>\<close> is a map from
  its keys; each reducer is one definition, and \<open>chat_reducer\<close>, \<open>dm_reducer\<close> dispatch on
  the action type as \<open>createSlice\<close> does. The lemmas show that every reachable state keeps
  strictly ordered message lists without duplicate ids, that unread counters never exceed
  the messages stored, and that arrival order and redelivery do not matter.
\<close>

section \<open>Public channels\<close>

record chat_message =
  cm_id :: string
  cm_channel_id :: string
  cm_sender_pubkey :: string
  cm_created_at :: int
  cm_content :: string

record chat_channel_state =
  ch_id :: string
  ch_group_id :: string
  ch_relay_url :: string
  ch_name :: string
  ch_about :: string
  ch_admins :: "string list"
  ch_members :: "string list"

record chat_state =
  chat_channels :: "string \<rightharpoonup> chat_channel_state"
  chat_messages :: "string \<rightharpoonup> chat_message list"
  chat_unread :: "string \<rightharpoonup> nat"
  chat_synced :: "string \<rightharpoonup> bool"
  chat_active :: "string option"

definition chat_initialState :: chat_state where
  "chat_initialState =
     \<lparr>chat_channels = Map.empty, chat_messages = Map.empty, chat_unread = Map.empty,
      chat_synced = Map.empty, chat_active = None\<rparr>"

definition chat_insertSorted :: "chat_message list \<Rightarrow> chat_message \<Rightarrow> chat_message list" where
  "chat_insertSorted ms m =
     (if list_ex (\<lambda>x. cm_id x = cm_id m) ms then ms
      else js_sort (time_id_cmp cm_created_at cm_id) (ms @ [m]))"

definition channelStateLoaded :: "chat_state \<Rightarrow> chat_channel_state \<Rightarrow> chat_state" where
  "channelStateLoaded s channel =
     s\<lparr>chat_channels := (chat_channels s)(ch_id channel \<mapsto> channel),
       chat_active := Some (ch_id channel)\<rparr>"

definition channelMessageReceived :: "chat_state \<Rightarrow> string \<Rightarrow> chat_message \<Rightarrow> chat_state" where
  "channelMessageReceived s channel_id message =
     (let existing = (case chat_messages s channel_id of None \<Rightarrow> [] | Some ms \<Rightarrow> ms);
          nxt = chat_insertSorted existing message
      in if length nxt \<noteq> length existing then
           (let s1 = s\<lparr>chat_messages := (chat_messages s)(channel_id \<mapsto> nxt)\<rparr>
            in if Some channel_id \<noteq> chat_active s then
                 s1\<lparr>chat_unread := (chat_unread s)(channel_id \<mapsto>
                   (case chat_unread s channel_id of None \<Rightarrow> 0 | Some n \<Rightarrow> n) + 1)\<rparr>
               else s1)
         else s)"

definition channelHistoryLoaded :: "chat_state \<Rightarrow> string \<Rightarrow> chat_message list \<Rightarrow> chat_state" where
  "channelHistoryLoaded s channel_id messages =
     s\<lparr>chat_messages := (chat_messages s)(channel_id \<mapsto>
        foldl chat_insertSorted
          (case chat_messages s channel_id of None \<Rightarrow> [] | Some ms \<Rightarrow> ms) messages)\<rparr>"

definition channelSynced :: "chat_state \<Rightarrow> string \<Rightarrow> chat_state" where
  "channelSynced s c = s\<lparr>chat_synced := (chat_synced s)(c \<mapsto> True)\<rparr>"

definition channelUnreadCleared :: "chat_state \<Rightarrow> string \<Rightarrow> chat_state" where
  "channelUnreadCleared s c = s\<lparr>chat_unread := (chat_unread s)(c \<mapsto> 0)\<rparr>"

text \<open>\<open>if (action.payload)\<close>: neither null nor the empty string.\<close>

definition activeChannelChanged :: "chat_state \<Rightarrow> string option \<Rightarrow> chat_state" where
  "activeChannelChanged s c =
     (let s1 = s\<lparr>chat_active := c\<rparr>
      in case c of
           None \<Rightarrow> s1
         | Some c' \<Rightarrow> if c' = '''' then s1
                     else s1\<lparr>chat_unread := (chat_unread s1)(c' \<mapsto> 0)\<rparr>)"

definition chatReset :: "chat_state \<Rightarrow> chat_state" where
  "chatReset s =
     s\<lparr>chat_channels := Map.empty, chat_messages := Map.empty, chat_unread := Map.empty,
       chat_synced := Map.empty, chat_active := None\<rparr>"

datatype chat_action =
    ChannelStateLoaded chat_channel_state
  | ChannelMessageReceived string chat_message
  | ChannelHistoryLoaded string "chat_message list"
  | ChannelSynced string
  | ChannelUnreadCleared string
  | ActiveChannelChanged "string option"
  | ChatReset

fun chat_reducer :: "chat_state \<Rightarrow> chat_action \<Rightarrow> chat_state" where
  "chat_reducer s (ChannelStateLoaded c) = channelStateLoaded s c"
| "chat_reducer s (ChannelMessageReceived c m) = channelMessageReceived s c m"
| "chat_reducer s (ChannelHistoryLoaded c ms) = channelHistoryLoaded s c ms"
| "chat_reducer s (ChannelSynced c) = channelSynced s c"
| "chat_reducer s (ChannelUnreadCleared c) = channelUnreadCleared s c"
| "chat_reducer s (ActiveChannelChanged c) = activeChannelChanged s c"
| "chat_reducer s ChatReset = chatReset s"

section \<open>Encrypted conversations\<close>

datatype dm_kind = KindDm | KindCircle

record dm_conversation =
  dc_id :: string
  dc_kind :: dm_kind
  dc_title :: string
  dc_participants :: "string list"

record dm_message =
  dm_id :: string
  dm_conversation_id :: string
  dm_sender_pubkey :: string
  dm_created_at :: int
  dm_content :: string

record dm_state =
  dm_conversations :: "string \<rightharpoonup> dm_conversation"
  dm_messages :: "string \<rightharpoonup> dm_message list"
  dm_unread :: "string \<rightharpoonup> nat"
  dm_active :: "string option"

definition dm_initialState :: dm_state where
  "dm_initialState =
     \<lparr>dm_conversations = Map.empty, dm_messages = Map.empty, dm_unread = Map.empty,
      dm_active = None\<rparr>"

definition dm_insertSorted :: "dm_message list \<Rightarrow> dm_message \<Rightarrow> dm_message list" where
  "dm_insertSorted ms m =
     (if list_ex (\<lambda>x. dm_id x = dm_id m) ms then ms
      else js_sort (time_id_cmp dm_created_at dm_id) (ms @ [m]))"

definition conversationAdded :: "dm_state \<Rightarrow> dm_conversation \<Rightarrow> dm_state" where
  "conversationAdded s c =
     (case dm_conversations s (dc_id c) of
        None \<Rightarrow> s\<lparr>dm_conversations := (dm_conversations s)(dc_id c \<mapsto> c)\<rparr>
      | Some _ \<Rightarrow> s)"

definition messageReceived :: "dm_state \<Rightarrow> string \<Rightarrow> dm_message \<Rightarrow> dm_state" where
  "messageReceived s conversation_id message =
     (let existing = (case dm_messages s conversation_id of None \<Rightarrow> [] | Some ms \<Rightarrow> ms);
          nxt = dm_insertSorted existing message
      in if length nxt \<noteq> length existing then
           (let s1 = s\<lparr>dm_messages := (dm_messages s)(conversation_id \<mapsto> nxt)\<rparr>
            in if Some conversation_id \<noteq> dm_active s then
                 s1\<lparr>dm_unread := (dm_unread s)(conversation_id \<mapsto>
                   (case dm_unread s conversation_id of None \<Rightarrow> 0 | Some n \<Rightarrow> n) + 1)\<rparr>
               else s1)
         else s)"

definition historyLoaded :: "dm_state \<Rightarrow> string \<Rightarrow> dm_message list \<Rightarrow> dm_state" where
  "historyLoaded s conversation_id messages =
     s\<lparr>dm_messages := (dm_messages s)(conversation_id \<mapsto>
        foldl dm_insertSorted
          (case dm_messages s conversation_id of None \<Rightarrow> [] | Some ms \<Rightarrow> ms) messages)\<rparr>"

definition activeConversationChanged :: "dm_state \<Rightarrow> string option \<Rightarrow> dm_state" where
  "activeConversationChanged s c =
     (let s1 = s\<lparr>dm_active := c\<rparr>
      in case c of
           None \<Rightarrow> s1
         | Some c' \<Rightarrow> if c' = '''' then s1
                     else s1\<lparr>dm_unread := (dm_unread s1)(c' \<mapsto> 0)\<rparr>)"

definition dmReset :: "dm_state \<Rightarrow> dm_state" where
  "dmReset s =
     s\<lparr>dm_conversations := Map.empty, dm_messages := Map.empty, dm_unread := Map.empty,
       dm_active := None\<rparr>"

datatype dm_action =
    ConversationAdded dm_conversation
  | MessageReceived string dm_message
  | HistoryLoaded string "dm_message list"
  | ActiveConversationChanged "string option"
  | DmReset

fun dm_reducer :: "dm_state \<Rightarrow> dm_action \<Rightarrow> dm_state" where
  "dm_reducer s (ConversationAdded c) = conversationAdded s c"
| "dm_reducer s (MessageReceived c m) = messageReceived s c m"
| "dm_reducer s (HistoryLoaded c ms) = historyLoaded s c ms"
| "dm_reducer s (ActiveConversationChanged c) = activeConversationChanged s c"
| "dm_reducer s DmReset = dmReset s"

section \<open>Invariants\<close>

text \<open>The messages and the unread counter of a channel or conversation, absent read as empty.\<close>

definition messages_of :: "(string \<rightharpoonup> 'm list) \<Rightarrow> string \<Rightarrow> 'm list" where
  "messages_of f c = (case f c of None \<Rightarrow> [] | Some ms \<Rightarrow> ms)"

definition count_of :: "(string \<rightharpoonup> nat) \<Rightarrow> string \<Rightarrow> nat" where
  "count_of f c = (case f c of None \<Rightarrow> 0 | Some n \<Rightarrow> n)"

definition chat_inv :: "chat_state \<Rightarrow> bool" where
  "chat_inv s \<longleftrightarrow>
     (\<forall>c. timeline_ok cm_created_at cm_id (messages_of (chat_messages s) c)
        \<and> count_of (chat_unread s) c \<le> length (messages_of (chat_messages s) c))"

definition dm_inv :: "dm_state \<Rightarrow> bool" where
  "dm_inv s \<longleftrightarrow>
     (\<forall>c. timeline_ok dm_created_at dm_id (messages_of (dm_messages s) c)
        \<and> count_of (dm_unread s) c \<le> length (messages_of (dm_messages s) c))
     \<and> (\<forall>c conv. dm_conversations s c = Some conv \<longrightarrow> dc_id conv = c)"

lemmas chat_defs = channelStateLoaded_def channelMessageReceived_def channelHistoryLoaded_def
  channelSynced_def channelUnreadCleared_def activeChannelChanged_def chatReset_def Let_def

lemmas dm_defs = conversationAdded_def messageReceived_def historyLoaded_def
  activeConversationChanged_def dmReset_def Let_def

lemma messages_of_upd [simp]:
  "messages_of (f(c \<mapsto> ms)) c' = (if c' = c then ms else messages_of f c')"
  "messages_of Map.empty c' = []"
  by (simp_all add: messages_of_def)

lemma count_of_upd [simp]:
  "count_of (f(c \<mapsto> n)) c' = (if c' = c then n else count_of f c')"
  "count_of Map.empty c' = 0"
  by (simp_all add: count_of_def)

lemmas fold_readers = messages_of_def [symmetric] count_of_def [symmetric]

lemma timeline_ok_Nil [simp]: "timeline_ok ts ident []"
  by (simp add: timeline_ok_def)

text \<open>Both copies of \<open>insertSorted\<close> meet the timeline contract.\<close>

lemma insertSorted_fresh:
  assumes "timeline_ok ts ident ms" "ident m \<notin> ident ` set ms"
  shows "timeline_ok ts ident (js_sort (time_id_cmp ts ident) (ms @ [m]))"
    and "mset (js_sort (time_id_cmp ts ident) (ms @ [m])) = add_mset m (mset ms)"
  using assms by (auto simp: timeline_ok_def [of ts ident ms] intro!: sort_timeline)

interpretation chat_tl: timeline cm_created_at cm_id chat_insertSorted
  by unfold_locales
    (auto simp: chat_insertSorted_def list_ex_iff insertSorted_fresh [simplified] image_iff)

interpretation dm_tl: timeline dm_created_at dm_id dm_insertSorted
  by unfold_locales
    (auto simp: dm_insertSorted_def list_ex_iff insertSorted_fresh [simplified] image_iff)


lemma chat_received_readers:
  "messages_of (chat_messages (channelMessageReceived s c m)) c' =
     (if c' = c then chat_insertSorted (messages_of (chat_messages s) c)  m
      else messages_of (chat_messages s) c')"
  if "chat_inv s"
proof -
  from that have "timeline_ok cm_created_at cm_id (messages_of (chat_messages s) c)"
    by (simp add: chat_inv_def)
  from chat_tl.insert_length [OF this, of m] chat_tl.insert_known
  show ?thesis
    by (auto simp: channelMessageReceived_def Let_def fold_readers split: if_splits)
qed

lemma dm_received_readers:
  "messages_of (dm_messages (messageReceived s c m)) c' =
     (if c' = c then dm_insertSorted (messages_of (dm_messages s) c) m
      else messages_of (dm_messages s) c')"
  if "dm_inv s"
proof -
  from that have "timeline_ok dm_created_at dm_id (messages_of (dm_messages s) c)"
    by (simp add: dm_inv_def)
  from dm_tl.insert_length [OF this, of m] dm_tl.insert_known
  show ?thesis
    by (auto simp: messageReceived_def Let_def fold_readers split: if_splits)
qed

text \<open>Loading a batch only makes a well-formed list longer.\<close>

context timeline
begin

lemma foldl_insert_length:
  "timeline_ok ts ident ms \<Longrightarrow> length ms \<le> length (foldl insert_msg ms xs)"
proof (induction xs arbitrary: ms)
  case (Cons x xs)
  have "length ms \<le> length (insert_msg ms x)"
    using Cons.prems by (simp add: insert_length)
  also have "\<dots> \<le> length (foldl insert_msg (insert_msg ms x) xs)"
    using Cons by (simp add: insert_ok)
  finally show ?case by simp
qed simp

end

lemma chat_step_inv:
  assumes "chat_inv s"
  shows "chat_inv (chat_reducer s a)"
proof -
  have tl: "timeline_ok cm_created_at cm_id (messages_of (chat_messages s) c)"
    and cnt: "count_of (chat_unread s) c \<le> length (messages_of (chat_messages s) c)" for c
    using assms by (simp_all add: chat_inv_def)
  have le_fold: "count_of (chat_unread s) c
      \<le> length (foldl chat_insertSorted (messages_of (chat_messages s) c) ms)" for c ms
    using cnt [of c] chat_tl.foldl_insert_length [OF tl [of c], of ms] by (rule le_trans)
  have len: "length (chat_insertSorted (messages_of (chat_messages s) c) m)
      \<noteq> length (messages_of (chat_messages s) c) \<Longrightarrow>
      length (chat_insertSorted (messages_of (chat_messages s) c) m)
      = Suc (length (messages_of (chat_messages s) c))" for c m
    using chat_tl.insert_length [OF tl [of c], of m] by (auto split: if_splits)
  show ?thesis
  proof (cases a)
    case (ChannelMessageReceived c m)
    show ?thesis
      unfolding chat_inv_def ChannelMessageReceived
      using tl cnt chat_tl.insert_ok [OF tl [of c], of m] len [of c m]
      by (auto simp: channelMessageReceived_def Let_def fold_readers le_SucI)
  next
    case (ChannelHistoryLoaded c ms)
    then show ?thesis
      using tl cnt le_fold
      by (auto simp: chat_inv_def channelHistoryLoaded_def fold_readers chat_tl.foldl_insert_ok)
  next
    case (ActiveChannelChanged c)
    then show ?thesis using tl cnt by (auto simp: chat_inv_def chat_defs split: option.splits)
  qed (use tl cnt in \<open>auto simp: chat_inv_def chat_defs\<close>)
qed

lemma dm_step_inv:
  assumes "dm_inv s"
  shows "dm_inv (dm_reducer s a)"
proof -
  have tl: "timeline_ok dm_created_at dm_id (messages_of (dm_messages s) c)"
    and cnt: "count_of (dm_unread s) c \<le> length (messages_of (dm_messages s) c)"
    and ids: "dm_conversations s c = Some conv \<Longrightarrow> dc_id conv = c" for c conv
    using assms by (simp_all add: dm_inv_def)
  have le_fold: "count_of (dm_unread s) c
      \<le> length (foldl dm_insertSorted (messages_of (dm_messages s) c) ms)" for c ms
    using cnt [of c] dm_tl.foldl_insert_length [OF tl [of c], of ms] by (rule le_trans)
  have len: "length (dm_insertSorted (messages_of (dm_messages s) c) m)
      \<noteq> length (messages_of (dm_messages s) c) \<Longrightarrow>
      length (dm_insertSorted (messages_of (dm_messages s) c) m)
      = Suc (length (messages_of (dm_messages s) c))" for c m
    using dm_tl.insert_length [OF tl [of c], of m] by (auto split: if_splits)
  show ?thesis
  proof (cases a)
    case (MessageReceived c m)
    show ?thesis
      unfolding dm_inv_def MessageReceived
      using tl cnt ids dm_tl.insert_ok [OF tl [of c], of m] len [of c m]
      by (auto simp: messageReceived_def Let_def fold_readers le_SucI)
  next
    case (HistoryLoaded c ms)
    then show ?thesis
      using tl cnt ids le_fold
      by (auto simp: dm_inv_def historyLoaded_def fold_readers dm_tl.foldl_insert_ok)
  next
    case (ActiveConversationChanged c)
    then show ?thesis using tl cnt ids by (auto simp: dm_inv_def dm_defs split: option.splits)
  next
    case (ConversationAdded c)
    then show ?thesis using tl cnt ids by (auto simp: dm_inv_def dm_defs split: option.splits)
  qed (use tl cnt ids in \<open>auto simp: dm_inv_def dm_defs\<close>)
qed

interpretation chat_red: reducer chat_initialState chat_reducer chat_inv
  by (unfold_locales, simp add: chat_inv_def chat_initialState_def, rule chat_step_inv)

interpretation dm_red: reducer dm_initialState dm_reducer dm_inv
  by (unfold_locales, simp add: dm_inv_def dm_initialState_def, rule dm_step_inv)

section \<open>Properties\<close>

text \<open>
  C16: whatever actions are dispatched, in whatever order, every public channel's message
  list is strictly ordered by time then id, holds no id twice, and its unread counter never
  exceeds the number of messages stored.
\<close>

theorem chat_always_ordered:
  "chat_inv (foldl chat_reducer chat_initialState actions)"
  by (rule chat_red.inv_reachable)

text \<open>
  The same for encrypted conversations; moreover every conversation is filed under its id.
\<close>

theorem dm_always_ordered:
  "dm_inv (foldl dm_reducer dm_initialState actions)"
  by (rule dm_red.inv_reachable)

text \<open>
  C28: loading a channel's history gives the same state whatever order and multiplicity the
  relays deliver it in, provided an id names one message (ids are content hashes).
\<close>

theorem channel_history_convergent:
  assumes "chat_inv s"
    and "inj_on cm_id (set (messages_of (chat_messages s) c) \<union> set xs)"
    and "set xs = set ys"
  shows "channelHistoryLoaded s c xs = channelHistoryLoaded s c ys"
proof -
  have "timeline_ok cm_created_at cm_id (messages_of (chat_messages s) c)"
    using assms(1) by (simp add: chat_inv_def)
  from chat_tl.arrival_order_irrelevant [OF this assms(2,3)]
  show ?thesis by (simp add: channelHistoryLoaded_def fold_readers)
qed

theorem channel_history_convergent_witness:
  "let a = \<lparr>cm_id = ''a'', cm_channel_id = ''c'', cm_sender_pubkey = ''p'', cm_created_at = 5, cm_content = ''hi''\<rparr>;
       b = \<lparr>cm_id = ''b'', cm_channel_id = ''c'', cm_sender_pubkey = ''p'', cm_created_at = 3, cm_content = ''yo''\<rparr>
   in channelHistoryLoaded chat_initialState ''c'' [a, b]
      = channelHistoryLoaded chat_initialState ''c'' [b, a, b]"
  unfolding Let_def
  by (rule channel_history_convergent)
    (auto simp: chat_inv_def chat_initialState_def inj_on_def)

text \<open>
  A message delivered again (to a channel or a conversation) changes nothing: neither the
  list nor the unread counter.
\<close>

theorem redelivery_ignored:
  assumes "chat_inv s" and "dm_inv d"
  shows "channelMessageReceived (channelMessageReceived s c m) c m = channelMessageReceived s c m
    \<and> messageReceived (messageReceived d c k) c k = messageReceived d c k"
proof
  have "timeline_ok cm_created_at cm_id (messages_of (chat_messages s) c)"
    using assms(1) by (simp add: chat_inv_def)
  then have "cm_id m \<in> cm_id ` set (messages_of (chat_messages (channelMessageReceived s c m)) c)"
    by (simp add: chat_received_readers [OF assms(1)] chat_tl.insert_ids)
  then show "channelMessageReceived (channelMessageReceived s c m) c m = channelMessageReceived s c m"
    by (simp add: channelMessageReceived_def [of "channelMessageReceived s c m"] fold_readers
        chat_tl.insert_known)
  have "timeline_ok dm_created_at dm_id (messages_of (dm_messages d) c)"
    using assms(2) by (simp add: dm_inv_def)
  then have "dm_id k \<in> dm_id ` set (messages_of (dm_messages (messageReceived d c k)) c)"
    by (simp add: dm_received_readers [OF assms(2)] dm_tl.insert_ids)
  then show "messageReceived (messageReceived d c k) c k = messageReceived d c k"
    by (simp add: messageReceived_def [of "messageReceived d c k"] fold_readers dm_tl.insert_known)
qed

theorem redelivery_ignored_witness:
  "let m = \<lparr>cm_id = ''a'', cm_channel_id = ''c'', cm_sender_pubkey = ''p'', cm_created_at = 5, cm_content = ''hi''\<rparr>;
       k = \<lparr>dm_id = ''a'', dm_conversation_id = ''c'', dm_sender_pubkey = ''p'', dm_created_at = 5, dm_content = ''hi''\<rparr>;
       s = channelMessageReceived chat_initialState ''c'' m;
       d = messageReceived dm_initialState ''c'' k
   in channelMessageReceived s ''c'' m = s \<and> messageReceived d ''c'' k = d"
proof -
  have "chat_inv chat_initialState" "dm_inv dm_initialState"
    by (rule chat_red.inv_init, rule dm_red.inv_init)
  from redelivery_ignored [OF this] show ?thesis by (simp add: Let_def)
qed

end
