(* ===== verification/Text.thy ===== *)
theory Text
  imports Prelude "HOL-Library.Word"
begin

text \<open>
  Strings, digits, bytes and their text encodings, as the client code uses them: case folding,
  the \<open>/^[0-9a-f]{64}$/\<close> test of Nostr keys, decimal numerals (\<open>String(n)\<close>, \<open>Number(s)\<close> on
  \<open>/^\d+$/\<close>), \<open>trim\<close>, \<open>join\<close>, and the base64 and hex encodings of byte arrays. A string is a
  list of characters, its code units; the model covers code units below 256.
\<close>

type_synonym bytes = "8 word list"

section \<open>Characters\<close>

definition is_digit :: "char \<Rightarrow> bool" where
  "is_digit c \<longleftrightarrow> CHR ''0'' \<le> c \<and> c \<le> CHR ''9''"

definition is_lower_hex :: "char \<Rightarrow> bool" where
  "is_lower_hex c \<longleftrightarrow> is_digit c \<or> (CHR ''a'' \<le> c \<and> c \<le> CHR ''f'')"

definition to_lower_char :: "char \<Rightarrow> char" where
  "to_lower_char c =
     (if (CHR ''A'' \<le> c \<and> c \<le> CHR ''Z'') \<or> (CHR 0xC0 \<le> c \<and> c \<le> CHR 0xDE \<and> c \<noteq> CHR 0xD7)
      then char_of (of_char c + 32 :: nat) else c)"

definition toLowerCase :: "string \<Rightarrow> string" where
  "toLowerCase s = map to_lower_char s"

definition js_whitespace :: "char \<Rightarrow> bool" where
  "js_whitespace c \<longleftrightarrow> c \<in> {CHR '' '', CHR 0x09, CHR 0x0A, CHR 0x0B, CHR 0x0C, CHR 0x0D, CHR 0xA0}"

definition trim :: "string \<Rightarrow> string" where
  "trim s = rev (dropWhile js_whitespace (rev (dropWhile js_whitespace s)))"

definition startsWith :: "string \<Rightarrow> string \<Rightarrow> bool" where
  "startsWith s p \<longleftrightarrow> take (length p) s = p"

fun join :: "string \<Rightarrow> string list \<Rightarrow> string" where
  "join sep [] = []"
| "join sep [x] = x"
| "join sep (x # y # ys) = x @ sep @ join sep (y # ys)"

section \<open>Decimal numerals\<close>

definition digit_char :: "nat \<Rightarrow> char" where
  "digit_char d = char_of (48 + d)"

definition char_digit :: "char \<Rightarrow> nat" where
  "char_digit c = of_char c - 48"

fun nat_str :: "nat \<Rightarrow> string" where
  "nat_str n = (if n < 10 then [digit_char n] else nat_str (n div 10) @ [digit_char (n mod 10)])"

declare nat_str.simps [simp del]

definition digits_val :: "string \<Rightarrow> nat" where
  "digits_val s = foldl (\<lambda>v c. v * 10 + char_digit c) 0 s"

text \<open>\<open>String(n)\<close> of an integer.\<close>

definition int_str :: "int \<Rightarrow> string" where
  "int_str n = (if n < 0 then CHR ''-'' # nat_str (nat (- n)) else nat_str (nat n))"

text \<open>The test \<open>/^\d+$/\<close> and the number read from such a string.\<close>

definition all_digits :: "string \<Rightarrow> bool" where
  "all_digits s \<longleftrightarrow> s \<noteq> [] \<and> list_all is_digit s"

section \<open>Hexadecimal and base64\<close>

definition hex_digit :: "nat \<Rightarrow> char" where
  "hex_digit d = (if d < 10 then char_of (48 + d) else char_of (87 + d))"

text \<open>\<open>b.toString(16).padStart(2, '0')\<close>\<close>

definition byte_hex :: "8 word \<Rightarrow> string" where
  "byte_hex b = [hex_digit (unat b div 16), hex_digit (unat b mod 16)]"

definition bytes_hex :: "bytes \<Rightarrow> string" where
  "bytes_hex bs = concat (map byte_hex bs)"

text \<open>The base64 alphabet, and \<open>btoa(String.fromCharCode(...bytes))\<close> in groups of three bytes.\<close>

definition b64_char :: "nat \<Rightarrow> char" where
  "b64_char v =
     (if v < 26 then char_of (65 + v) else if v < 52 then char_of (71 + v)
      else if v < 62 then char_of (v - 4) else if v = 62 then CHR ''+'' else CHR ''/'')"

definition b64_val :: "char \<Rightarrow> nat option" where
  "b64_val c =
     (let n = of_char c :: nat
      in if 65 \<le> n \<and> n \<le> 90 then Some (n - 65)
         else if 97 \<le> n \<and> n \<le> 122 then Some (n - 71)
         else if 48 \<le> n \<and> n \<le> 57 then Some (n + 4)
         else if n = 43 then Some 62 else if n = 47 then Some 63 else None)"

fun btoa :: "bytes \<Rightarrow> string" where
  "btoa [] = []"
| "btoa [a] =
     (let n = unat a * 65536
      in [b64_char (n div 262144), b64_char (n div 4096 mod 64), CHR ''='', CHR ''=''])"
| "btoa [a, b] =
     (let n = unat a * 65536 + unat b * 256
      in [b64_char (n div 262144), b64_char (n div 4096 mod 64), b64_char (n div 64 mod 64), CHR ''=''])"
| "btoa (a # b # c # rest) =
     (let n = unat a * 65536 + unat b * 256 + unat c
      in [b64_char (n div 262144), b64_char (n div 4096 mod 64), b64_char (n div 64 mod 64),
          b64_char (n mod 64)] @ btoa rest)"

text \<open>
  \<open>Uint8Array.from(atob(s), c => c.charCodeAt(0))\<close>. Per the forgiving-base64 decode of the
  HTML standard, ASCII whitespace is removed, up to two \<open>=\<close> are removed when the length is a
  multiple of four, and any other character outside the alphabet (or a remainder of one)
  throws: \<open>None\<close>.
\<close>

fun b64_groups :: "nat list \<Rightarrow> bytes option" where
  "b64_groups [] = Some []"
| "b64_groups [u] = None"
| "b64_groups [u, v] = Some [word_of_nat ((u * 262144 + v * 4096) div 65536)]"
| "b64_groups [u, v, w] =
     (let n = u * 262144 + v * 4096 + w * 64
      in Some [word_of_nat (n div 65536), word_of_nat (n div 256)])"
| "b64_groups (u # v # w # x # rest) =
     (let n = u * 262144 + v * 4096 + w * 64 + x
      in map_option (\<lambda>bs. [word_of_nat (n div 65536), word_of_nat (n div 256), word_of_nat n] @ bs)
           (b64_groups rest))"

definition ascii_whitespace :: "char \<Rightarrow> bool" where
  "ascii_whitespace c \<longleftrightarrow> c \<in> {CHR 0x09, CHR 0x0A, CHR 0x0C, CHR 0x0D, CHR '' ''}"

definition strip_padding :: "string \<Rightarrow> string" where
  "strip_padding s =
     (if length s mod 4 = 0 then
        (if 2 \<le> length s \<and> drop (length s - 2) s = ''=='' then take (length s - 2) s
         else if 1 \<le> length s \<and> drop (length s - 1) s = ''='' then take (length s - 1) s
         else s)
      else s)"

definition atob :: "string \<Rightarrow> bytes option" where
  "atob s =
     (let t = strip_padding (filter (\<lambda>c. \<not> ascii_whitespace c) s); vs = map b64_val t
      in if None \<in> set vs then None else b64_groups (map the vs))"

section \<open>The 64-digit key test\<close>

definition isLowercaseHex64 :: "string \<Rightarrow> bool" where
  "isLowercaseHex64 value \<longleftrightarrow> length value = 64 \<and> list_all is_lower_hex value"

text \<open>The case-insensitive variant \<open>/^[0-9a-f]{64}$/i\<close>.\<close>

definition isHex64_ci :: "string \<Rightarrow> bool" where
  "isHex64_ci value \<longleftrightarrow> isLowercaseHex64 (toLowerCase value)"

section \<open>Lemmas on text\<close>

lemma of_char_less_iff [simp]: "(of_char c :: nat) < of_char d \<longleftrightarrow> c < d"
  by (simp add: less_char_def)

lemma char_le_iff: "c \<le> d \<longleftrightarrow> (of_char c :: nat) \<le> of_char d"
  by (simp add: less_eq_char_def)

lemma to_lower_idem [simp]: "to_lower_char (to_lower_char c) = to_lower_char c"
  by (auto simp: to_lower_char_def char_le_iff)

lemma toLowerCase_idem [simp]: "toLowerCase (toLowerCase s) = toLowerCase s"
  by (simp add: toLowerCase_def)

lemma lower_hex_fixed: "is_lower_hex c \<Longrightarrow> to_lower_char c = c"
  by (auto simp: is_lower_hex_def is_digit_def to_lower_char_def char_le_iff)

lemma hex64_toLowerCase [simp]: "isLowercaseHex64 s \<Longrightarrow> toLowerCase s = s"
  by (auto simp: isLowercaseHex64_def toLowerCase_def list_all_iff lower_hex_fixed intro: map_idI)

lemma length_toLowerCase [simp]: "length (toLowerCase s) = length s"
  by (simp add: toLowerCase_def)

lemma startsWith_iff: "startsWith s p \<longleftrightarrow> (\<exists>r. s = p @ r)"
  unfolding startsWith_def by (metis append_eq_conv_conj append_take_drop_id)


lemma of_char_digit_char [simp]: "d < 10 \<Longrightarrow> (of_char (digit_char d) :: nat) = 48 + d"
  by (simp add: digit_char_def)

lemma char_digit_digit_char [simp]: "d < 10 \<Longrightarrow> char_digit (digit_char d) = d"
  by (simp add: char_digit_def)

lemma is_digit_digit_char [simp]: "d < 10 \<Longrightarrow> is_digit (digit_char d)"
  by (simp add: is_digit_def char_le_iff)

lemma nat_str_digits: "list_all is_digit (nat_str n) \<and> nat_str n \<noteq> []"
proof (induction n rule: nat_str.induct)
  case (1 n)
  then show ?case by (subst (1 2) nat_str.simps) simp
qed

lemma nat_str_nonempty [simp]: "nat_str n \<noteq> []"
  and nat_str_all_digits [simp]: "list_all is_digit (nat_str n)" "all_digits (nat_str n)"
  by (simp_all add: nat_str_digits all_digits_def)

lemma digits_val_nat_str [simp]: "digits_val (nat_str n) = n"
proof (induction n rule: nat_str.induct)
  case (1 n)
  then show ?case by (subst nat_str.simps) (simp add: digits_val_def)
qed

lemma nat_str_inject [simp]: "nat_str m = nat_str n \<longleftrightarrow> m = n"
  by (metis digits_val_nat_str)

lemma hd_nat_str_digit: "is_digit (hd (nat_str n))"
  using nat_str_digits [of n] by (cases "nat_str n") auto

lemma int_str_inject [simp]: "int_str m = int_str n \<longleftrightarrow> m = n"
proof -
  have "CHR ''-'' # xs \<noteq> nat_str k" for xs k
    using hd_nat_str_digit [of k] by (cases "nat_str k") (auto simp: is_digit_def char_le_iff)
  then have "nat_str k \<noteq> CHR ''-'' # xs" for xs k by metis
  with \<open>\<And>xs k. CHR ''-'' # xs \<noteq> nat_str k\<close> show ?thesis
    by (auto simp: int_str_def split: if_splits)
qed

section \<open>Base64 round trip\<close>

lemma b64_char_val [simp]: "v < 64 \<Longrightarrow> b64_val (b64_char v) = Some v"
  by (auto simp: b64_char_def b64_val_def Let_def)

lemma b64_char_not_pad [simp]: "v < 64 \<Longrightarrow> b64_char v \<noteq> CHR ''=''" 
  using b64_char_val [of v] by (auto simp: b64_val_def)

lemma b64_char_not_ws [simp]: "v < 64 \<Longrightarrow> \<not> ascii_whitespace (b64_char v)"
  using b64_char_val [of v] by (auto simp: b64_val_def ascii_whitespace_def)

lemma unat_byte [simp]: "unat (a :: 8 word) < 256"
  using unsigned_less [of a] by simp

text \<open>The encoder's output: an unpadded body of digits and at most two pad characters.\<close>

fun btoa_digits :: "bytes \<Rightarrow> nat list" where
  "btoa_digits [] = []"
| "btoa_digits [a] = [unat a div 4, unat a mod 4 * 16]"
| "btoa_digits [a, b] = [unat a div 4, unat a mod 4 * 16 + unat b div 16, unat b mod 16 * 4]"
| "btoa_digits (a # b # c # rest) =
     [unat a div 4, unat a mod 4 * 16 + unat b div 16, unat b mod 16 * 4 + unat c div 64,
      unat c mod 64] @ btoa_digits rest"

fun btoa_pad :: "bytes \<Rightarrow> string" where
  "btoa_pad [] = []"
| "btoa_pad [a] = ''==''"
| "btoa_pad [a, b] = ''=''"
| "btoa_pad (a # b # c # rest) = btoa_pad rest"

lemma byte_split_arith:
  fixes a b c :: nat
  assumes "a < 256" "b < 256" "c < 256"
  shows "(a * 65536 + b * 256 + c) div 262144 = a div 4"
    "(a * 65536 + b * 256 + c) div 4096 mod 64 = a mod 4 * 16 + b div 16"
    "(a * 65536 + b * 256 + c) div 64 mod 64 = b mod 16 * 4 + c div 64"
    "(a * 65536 + b * 256 + c) mod 64 = c mod 64"
proof -
  obtain q r s t u v where d: "q = a div 4" "r = a mod 4" "s = b div 16" "t = b mod 16"
    "u = c div 64" "v = c mod 64" by simp
  have e: "a = 4 * q + r" "b = 16 * s + t" "c = 64 * u + v" by (simp_all add: d)
  have l: "r < 4" "s < 16" "t < 16" "u < 4" "v < 64" using assms by (auto simp: d)
  let ?n = "a * 65536 + b * 256 + c"
  have n: "?n = 262144 * q + 65536 * r + 4096 * s + 256 * t + 64 * u + v" by (simp add: e)
  have "?n div 262144 = q" unfolding n using l by (intro div_nat_eqI) simp_all
  then show "?n div 262144 = a div 4" by (simp add: d)
  have "?n div 4096 = 64 * q + (16 * r + s)" unfolding n using l by (intro div_nat_eqI) simp_all
  with l show "?n div 4096 mod 64 = a mod 4 * 16 + b div 16" by (simp add: d [symmetric])
  have "?n div 64 = 64 * (64 * q + 16 * r + s) + (4 * t + u)"
    unfolding n using l by (intro div_nat_eqI) simp_all
  then have "?n div 64 mod 64 = (4 * t + u) mod 64" by (simp only: mod_mult_self4)
  with l show "?n div 64 mod 64 = b mod 16 * 4 + c div 64" by (simp add: d [symmetric])
  have "?n = 64 * (4096 * q + 1024 * r + 64 * s + 4 * t + u) + v" by (simp add: n)
  then have "?n mod 64 = v mod 64" by (simp only: mod_mult_self4)
  with l show "?n mod 64 = c mod 64" by (simp add: d [symmetric])
qed

lemma btoa_split: "btoa bs = map b64_char (btoa_digits bs) @ btoa_pad bs"
proof (induction bs rule: btoa.induct)
  case (2 a)
  then show ?case using byte_split_arith [of "unat a" 0 0] by simp
next
  case (3 a b)
  then show ?case using byte_split_arith [of "unat a" "unat b" 0] by simp
next
  case (4 a b c rest)
  then show ?case using byte_split_arith [of "unat a" "unat b" "unat c"] by (simp add: Let_def)
qed simp

lemma btoa_digits_less: "d \<in> set (btoa_digits bs) \<Longrightarrow> d < 64"
proof (induction bs rule: btoa_digits.induct)
  case (2 a)
  have "unat a div 4 < 64" using unat_byte [of a] by linarith
  with 2 show ?case by auto
next
  case (3 a b)
  have "unat a div 4 < 64" "unat b div 16 < 16" using unat_byte [of a] unat_byte [of b] by linarith+
  then have "unat a mod 4 * 16 + unat b div 16 < 64" by linarith
  with 3 \<open>unat a div 4 < 64\<close> show ?case by auto
next
  case (4 a b c rest)
  have "unat a div 4 < 64" "unat b div 16 < 16" "unat c div 64 < 4"
    using unat_byte [of a] unat_byte [of b] unat_byte [of c] by linarith+
  then have "unat a mod 4 * 16 + unat b div 16 < 64" "unat b mod 16 * 4 + unat c div 64 < 64"
    by linarith+
  with 4 \<open>unat a div 4 < 64\<close> show ?case by auto
qed simp

lemma btoa_length:
  "(length (btoa_digits bs) + length (btoa_pad bs)) mod 4 = 0"
  "length (btoa_pad bs) \<le> 2"
  by (induction bs rule: btoa_digits.induct) auto

lemma word_of_nat_mod256: "(word_of_nat n :: 8 word) = word_of_nat (n mod 256)"
  by (simp add: word_of_nat_eq_iff take_bit_eq_mod)

lemma regroup3:
  fixes a b c :: nat
  shows "a div 4 * 262144 + (a mod 4 * 16 + b div 16) * 4096 + (b mod 16 * 4 + c div 64) * 64 + c mod 64
    = a * 65536 + b * 256 + c"
proof -
  obtain q r s t u v where d: "q = a div 4" "r = a mod 4" "s = b div 16" "t = b mod 16"
    "u = c div 64" "v = c mod 64" by simp
  have e: "a = 4 * q + r" "b = 16 * s + t" "c = 64 * u + v" by (simp_all add: d)
  show ?thesis unfolding d [symmetric] unfolding e by simp
qed

lemma bytes_of_group:
  fixes a b c :: "8 word"
  defines "n \<equiv> unat a * 65536 + unat b * 256 + unat c"
  shows "word_of_nat (n div 65536) = a" "word_of_nat (n div 256) = b" "word_of_nat n = c"
proof -
  have "unat b * 256 + unat c < 65536" using unat_byte [of b] unat_byte [of c] by linarith
  then have "n div 65536 = unat a" unfolding n_def by (intro div_nat_eqI) simp_all
  then show "word_of_nat (n div 65536) = a" by simp
  have "n div 256 = 256 * unat a + unat b"
    unfolding n_def using unat_byte [of c] by (intro div_nat_eqI) simp_all
  then have "n div 256 mod 256 = unat b" by simp
  then show "word_of_nat (n div 256) = b" by (simp add: word_of_nat_mod256 [of "n div 256"])
  have "n = 256 * (256 * unat a + unat b) + unat c" by (simp add: n_def)
  then have "n mod 256 = unat c mod 256" by (simp only: mod_mult_self4)
  then have "n mod 256 = unat c" by simp
  then show "word_of_nat n = c" by (simp add: word_of_nat_mod256 [of n])
qed

lemma b64_groups_digits: "b64_groups (btoa_digits bs) = Some bs"
proof (induction bs rule: btoa_digits.induct)
  case (2 a)
  then show ?case
    using regroup3 [of "unat a" 0 0] bytes_of_group(1) [of a 0 0] by simp
next
  case (3 a b)
  then show ?case
    using regroup3 [of "unat a" "unat b" 0] bytes_of_group(1,2) [of a b 0] by (simp add: Let_def)
next
  case (4 a b c rest)
  then show ?case
    by (simp only: btoa_digits.simps append.simps b64_groups.simps Let_def regroup3 option.map
        bytes_of_group)
qed simp

lemma btoa_not_ws: "c \<in> set (btoa bs) \<Longrightarrow> \<not> ascii_whitespace c"
proof -
  have "c \<in> set (btoa_pad bs) \<Longrightarrow> c = CHR ''=''" 
    by (induction bs rule: btoa_pad.induct) auto
  then show "c \<in> set (btoa bs) \<Longrightarrow> \<not> ascii_whitespace c"
    by (auto simp: btoa_split btoa_digits_less ascii_whitespace_def [of "CHR ''=''"])
qed

lemma strip_padding_btoa: "strip_padding (btoa bs) = map b64_char (btoa_digits bs)"
proof -
  let ?d = "map b64_char (btoa_digits bs)"
  have nopad: "x \<in> set ?d \<Longrightarrow> x \<noteq> CHR ''=''" for x by (auto simp: btoa_digits_less)
  have len: "(length ?d + length (btoa_pad bs)) mod 4 = 0" using btoa_length by simp
  have pad: "btoa_pad bs = [] \<or> btoa_pad bs = ''='' \<or> btoa_pad bs = ''==''"
    by (induction bs rule: btoa_pad.induct) auto
  have last1: "drop (length ?d - 1) ?d \<noteq> ''=''" and last2: "drop (length ?d - 2) ?d \<noteq> ''==''"
    using nopad by (metis in_set_dropD list.set_intros(1))+
  have last3: "drop (length ?d - 1) (?d @ ''='') \<noteq> ''==''" 
  proof
    assume e: "drop (length ?d - 1) (?d @ ''='') = ''==''"
    then have "drop (length ?d - 1) ?d = ''=''" by (cases ?d rule: rev_cases) auto
    with last1 show False by contradiction
  qed
  from pad show ?thesis
    using len last1 last2 last3 by (auto simp: strip_padding_def btoa_split)
qed

text \<open>Decoding what \<open>btoa\<close> encoded gives back the bytes.\<close>

lemma atob_btoa [simp]: "atob (btoa bs) = Some bs"
proof -
  have "filter (\<lambda>c. \<not> ascii_whitespace c) (btoa bs) = btoa bs"
    using btoa_not_ws by simp
  moreover have "map b64_val (map b64_char (btoa_digits bs)) = map Some (btoa_digits bs)"
    using btoa_digits_less by auto
  moreover have "None \<notin> set (map Some (btoa_digits bs))" by auto
  moreover have "map the (map Some (btoa_digits bs)) = btoa_digits bs" by (simp add: o_def)
  ultimately show ?thesis
    by (simp only: atob_def Let_def strip_padding_btoa b64_groups_digits if_False)
qed

lemma btoa_inject [simp]: "btoa xs = btoa ys \<longleftrightarrow> xs = ys"
  by (metis atob_btoa option.inject)

section \<open>Joining and sizes\<close>

text \<open>
  Fields that do not contain the separator can be read back from a joined string.
\<close>

lemma append_sep_inject:
  assumes "a @ c # u = b @ c # v" "c \<notin> set a" "c \<notin> set b"
  shows "a = b \<and> u = v"
  using assms
proof (induction a arbitrary: b)
  case Nil
  then show ?case by (cases b) auto
next
  case (Cons x a)
  then show ?case by (cases b) auto
qed

lemma join_inject:
  assumes "join [c] xs = join [c] ys" "\<forall>x\<in>set xs \<union> set ys. x \<noteq> [] \<and> c \<notin> set x"
  shows "xs = ys"
  using assms
proof (induction "[c]" xs arbitrary: ys rule: join.induct)
  case 1
  then show ?case by (cases "([c], ys)" rule: join.cases) auto
next
  case (2 x)
  then show ?case by (cases "([c], ys)" rule: join.cases) auto
next
  case (3 x y zs)
  from "3.prems" obtain a b us where ys: "ys = a # b # us"
    by (cases "([c], ys)" rule: join.cases) auto
  from append_sep_inject [of x c "join [c] (y # zs)" a "join [c] (b # us)"] "3.prems" ys
  have eq: "x = a" "join [c] (y # zs) = join [c] (b # us)" by auto
  moreover have "y # zs = b # us" by (rule "3.hyps" [OF eq(2)]) (use "3.prems" ys in auto)
  ultimately show ?case using ys by simp
qed

lemma length_nat_str: "n < 10 ^ k \<Longrightarrow> 0 < k \<Longrightarrow> length (nat_str n) \<le> k"
proof (induction n arbitrary: k rule: nat_str.induct)
  case (1 n)
  show ?case
  proof (cases "n < 10")
    case True
    then show ?thesis using "1.prems" by (subst nat_str.simps) simp
  next
    case False
    with "1.prems" have "k \<noteq> 0" "k \<noteq> 1" by auto
    then obtain j where k: "k = Suc j" "0 < j" by (cases k) auto
    with "1.prems" False have "n div 10 < 10 ^ j" by auto
    with 1(1) [OF False, of j] k False show ?thesis by (subst nat_str.simps) simp
  qed
qed

lemma length_byte_hex [simp]: "length (bytes_hex bs) = 2 * length bs"
  by (induction bs) (simp_all add: bytes_hex_def byte_hex_def)

end
