(* ===== verification/Json.thy ===== *)
theory Json
  imports Text
begin

text \<open>
  \<open>JSON.stringify\<close> and \<open>JSON.parse\<close> (ECMA-262, RFC 8259) on the values the client code
  exchanges. A finite number is a decimal literal: a mantissa and a count of fraction digits;
  a string is a list of code units below 256, so an escape above \<open>\u00ff\<close> is outside the
  model and rejected. An object is the list of its entries in order, a key that is repeated
  in the text keeping its first position and its last value, as \<open>JSON.parse\<close> has it. The main
  results: parsing what was stringified gives the value back, hence \<open>stringify\<close> is injective,
  and the recursion budget of the parser is never what makes it fail.
\<close>

datatype jnum = Dec (mantissa: int) (scale: nat)

datatype json =
    JNull
  | JBool bool
  | JNum jnum
  | JStr string
  | JArr "json list"
  | JObj "(string \<times> json) list"

abbreviation JInt :: "int \<Rightarrow> json" where
  "JInt n \<equiv> JNum (Dec n 0)"

definition jnum_val :: "jnum \<Rightarrow> real" where
  "jnum_val x = of_int (mantissa x) / 10 ^ scale x"

definition jget :: "string \<Rightarrow> json \<Rightarrow> json option" where
  "jget k v = (case v of JObj kvs \<Rightarrow> map_of kvs k | _ \<Rightarrow> None)"

text \<open>A value used as a condition.\<close>

definition json_truthy :: "json \<Rightarrow> bool" where
  "json_truthy v = (case v of
      JNull \<Rightarrow> False | JBool b \<Rightarrow> b | JNum x \<Rightarrow> mantissa x \<noteq> 0 | JStr s \<Rightarrow> s \<noteq> '''' | _ \<Rightarrow> True)"

section \<open>Printing\<close>

definition esc_char :: "char \<Rightarrow> string" where
  "esc_char c =
     (let n = of_char c :: nat; bs = CHR 0x5C
      in if c = CHR 0x22 then [bs, CHR 0x22]
         else if c = bs then [bs, bs]
         else if n = 8 then [bs, CHR ''b'']
         else if n = 12 then [bs, CHR ''f'']
         else if n = 10 then [bs, CHR ''n'']
         else if n = 13 then [bs, CHR ''r'']
         else if n = 9 then [bs, CHR ''t'']
         else if n < 32 then [bs, CHR ''u'', CHR ''0'', CHR ''0'', hex_digit (n div 16), hex_digit (n mod 16)]
         else [c])"

definition quote :: "string \<Rightarrow> string" where
  "quote s = CHR 0x22 # concat (map esc_char s) @ [CHR 0x22]"

fun pad_zeros :: "nat \<Rightarrow> nat \<Rightarrow> string" where
  "pad_zeros 0 n = []"
| "pad_zeros (Suc d) n = pad_zeros d (n div 10) @ [digit_char (n mod 10)]"

definition jnum_str :: "jnum \<Rightarrow> string" where
  "jnum_str x =
     (let m = mantissa x; d = scale x; a = nat \<bar>m\<bar>
      in (if m < 0 then ''-'' else []) @ nat_str (a div 10 ^ d)
         @ (if d = 0 then [] else CHR ''.'' # pad_zeros d (a mod 10 ^ d)))"

fun stringify :: "json \<Rightarrow> string" where
  "stringify JNull = ''null''"
| "stringify (JBool b) = (if b then ''true'' else ''false'')"
| "stringify (JNum x) = jnum_str x"
| "stringify (JStr s) = quote s"
| "stringify (JArr xs) = ''['' @ join '','' (map stringify xs) @ '']''"
| "stringify (JObj kvs) =
     CHR 0x7B # join '','' (map (\<lambda>(k, v). quote k @ '':'' @ stringify v) kvs) @ [CHR 0x7D]"

section \<open>Parsing\<close>

definition json_ws :: "char \<Rightarrow> bool" where
  "json_ws c \<longleftrightarrow> c = CHR '' '' \<or> c = CHR 0x09 \<or> c = CHR 0x0A \<or> c = CHR 0x0D"

definition skip_ws :: "string \<Rightarrow> string" where
  "skip_ws s = dropWhile json_ws s"

definition hex_val :: "char \<Rightarrow> nat option" where
  "hex_val c =
     (let n = of_char c :: nat
      in if 48 \<le> n \<and> n \<le> 57 then Some (n - 48)
         else if 97 \<le> n \<and> n \<le> 102 then Some (n - 87)
         else if 65 \<le> n \<and> n \<le> 70 then Some (n - 55) else None)"

definition unicode_escape :: "char \<Rightarrow> char \<Rightarrow> char \<Rightarrow> char \<Rightarrow> char option" where
  "unicode_escape a b c d =
     (case (hex_val a, hex_val b, hex_val c, hex_val d) of
        (Some h3, Some h2, Some h1, Some h0) \<Rightarrow>
          (if h3 = 0 \<and> h2 = 0 then Some (char_of (16 * h1 + h0)) else None)
      | _ \<Rightarrow> None)"

definition simple_escape :: "char \<Rightarrow> char option" where
  "simple_escape c =
     (if c = CHR 0x22 \<or> c = CHR 0x5C \<or> c = CHR ''/'' then Some c
      else if c = CHR ''b'' then Some (CHR 0x08) else if c = CHR ''f'' then Some (CHR 0x0C)
      else if c = CHR ''n'' then Some (CHR 0x0A) else if c = CHR ''r'' then Some (CHR 0x0D)
      else if c = CHR ''t'' then Some (CHR 0x09) else None)"

text \<open>The characters of a string literal up to its closing quote.\<close>

fun parse_chars :: "string \<Rightarrow> (string \<times> string) option" where
  "parse_chars [] = None"
| "parse_chars (x # xs) =
     (if x = CHR 0x22 then Some ([], xs)
      else if x = CHR 0x5C then
        (case xs of
           [] \<Rightarrow> None
         | e # ys \<Rightarrow>
             if e = CHR ''u'' then
               (case ys of
                  a # b # c # d # zs \<Rightarrow>
                    (case unicode_escape a b c d of
                       None \<Rightarrow> None
                     | Some ch \<Rightarrow> map_option (\<lambda>(t, r). (ch # t, r)) (parse_chars zs))
                | _ \<Rightarrow> None)
             else (case simple_escape e of
                     None \<Rightarrow> None
                   | Some ch \<Rightarrow> map_option (\<lambda>(t, r). (ch # t, r)) (parse_chars ys)))
      else if of_char x < (32 :: nat) then None
      else map_option (\<lambda>(t, r). (x # t, r)) (parse_chars xs))"

definition num_char :: "char \<Rightarrow> bool" where
  "num_char c \<longleftrightarrow> is_digit c \<or> c \<in> {CHR ''-'', CHR ''+'', CHR ''.'', CHR ''e'', CHR ''E''}"

definition read_frac :: "string \<Rightarrow> (string \<times> string) option" where
  "read_frac t =
     (case t of
        c # r \<Rightarrow> if c = CHR ''.'' then
                  (if takeWhile is_digit r = [] then None
                   else Some (takeWhile is_digit r, dropWhile is_digit r))
                else Some ([], t)
      | [] \<Rightarrow> Some ([], []))"

definition read_exp :: "string \<Rightarrow> int option" where
  "read_exp t =
     (case t of
        [] \<Rightarrow> Some 0
      | c # r \<Rightarrow>
          if c = CHR ''e'' \<or> c = CHR ''E'' then
            (let neg = (r \<noteq> [] \<and> hd r = CHR ''-'');
                 d = (if r \<noteq> [] \<and> (hd r = CHR ''-'' \<or> hd r = CHR ''+'') then tl r else r)
             in if all_digits d then Some (if neg then - int (digits_val d) else int (digits_val d))
                else None)
          else None)"

definition scale_dec :: "bool \<Rightarrow> nat \<Rightarrow> nat \<Rightarrow> int \<Rightarrow> jnum" where
  "scale_dec neg m d e =
     (let v = (if neg then - int m else int m)
      in if e < 0 then Dec v (d + nat (- e))
         else if nat e \<le> d then Dec v (d - nat e)
         else Dec (v * 10 ^ (nat e - d)) 0)"

definition read_num :: "string \<Rightarrow> jnum option" where
  "read_num t =
     (let neg = (t \<noteq> [] \<and> hd t = CHR ''-''); t1 = (if neg then tl t else t);
          ip = takeWhile is_digit t1
      in if ip = [] \<or> (1 < length ip \<and> hd ip = CHR ''0'') then None
         else (case read_frac (dropWhile is_digit t1) of
                 None \<Rightarrow> None
               | Some (fp, t3) \<Rightarrow>
                   map_option (scale_dec neg (digits_val (ip @ fp)) (length fp)) (read_exp t3)))"

text \<open>
  Recursive descent. Each call spends one unit of the budget \<open>f\<close>; \<open>parse_elems\<close> and
  \<open>parse_members\<close> read the rest of a non-empty array or object, the latter adding to the
  entries read so far.
\<close>

fun parse_value :: "nat \<Rightarrow> string \<Rightarrow> (json \<times> string) option"
  and parse_elems :: "nat \<Rightarrow> string \<Rightarrow> (json list \<times> string) option"
  and parse_members :: "nat \<Rightarrow> (string \<times> json) list \<Rightarrow> string \<Rightarrow> ((string \<times> json) list \<times> string) option"
where
  "parse_value 0 s = None"
| "parse_value (Suc f) s =
     (case skip_ws s of
        [] \<Rightarrow> None
      | c # cs \<Rightarrow>
          if c = CHR 0x22 then map_option (\<lambda>(t, r). (JStr t, r)) (parse_chars cs)
          else if c = CHR ''['' then
            (case skip_ws cs of
               [] \<Rightarrow> None
             | d # ds \<Rightarrow> if d = CHR '']'' then Some (JArr [], ds)
                        else map_option (\<lambda>(xs, r). (JArr xs, r)) (parse_elems f cs))
          else if c = CHR 0x7B then
            (case skip_ws cs of
               [] \<Rightarrow> None
             | d # ds \<Rightarrow> if d = CHR 0x7D then Some (JObj [], ds)
                        else map_option (\<lambda>(m, r). (JObj m, r)) (parse_members f [] cs))
          else if startsWith (c # cs) ''null'' then Some (JNull, drop 3 cs)
          else if startsWith (c # cs) ''true'' then Some (JBool True, drop 3 cs)
          else if startsWith (c # cs) ''false'' then Some (JBool False, drop 4 cs)
          else map_option (\<lambda>x. (JNum x, dropWhile num_char (c # cs)))
                 (read_num (takeWhile num_char (c # cs))))"
| "parse_elems 0 s = None"
| "parse_elems (Suc f) s =
     (case parse_value f s of
        None \<Rightarrow> None
      | Some (v, r) \<Rightarrow>
          (case skip_ws r of
             [] \<Rightarrow> None
           | c # cs \<Rightarrow>
               if c = CHR '']'' then Some ([v], cs)
               else if c = CHR '','' then map_option (\<lambda>(vs, t). (v # vs, t)) (parse_elems f cs)
               else None))"
| "parse_members 0 acc s = None"
| "parse_members (Suc f) acc s =
     (case skip_ws s of
        [] \<Rightarrow> None
      | q # qs \<Rightarrow>
          if q \<noteq> CHR 0x22 then None
          else (case parse_chars qs of
                  None \<Rightarrow> None
                | Some (k, r) \<Rightarrow>
                    (case skip_ws r of
                       [] \<Rightarrow> None
                     | c # cs \<Rightarrow>
                         if c \<noteq> CHR '':'' then None
                         else (case parse_value f cs of
                                 None \<Rightarrow> None
                               | Some (v, t) \<Rightarrow>
                                   (case skip_ws t of
                                      [] \<Rightarrow> None
                                    | d # ds \<Rightarrow>
                                        if d = CHR 0x7D then Some (map_set acc k v, ds)
                                        else if d = CHR '','' then parse_members f (map_set acc k v) ds
                                        else None)))))"

definition json_parse :: "string \<Rightarrow> json option" where
  "json_parse s =
     (case parse_value (2 * length s + 2) s of
        Some (v, r) \<Rightarrow> if skip_ws r = [] then Some v else None
      | None \<Rightarrow> None)"


section \<open>Strings survive the round trip\<close>

lemma hex_val_hex_digit [simp]: "d < 16 \<Longrightarrow> hex_val (hex_digit d) = Some d"
  by (auto simp: hex_val_def hex_digit_def Let_def)

lemma unicode_escape_control:
  assumes "n < 32"
  shows "unicode_escape (CHR ''0'') (CHR ''0'') (hex_digit (n div 16)) (hex_digit (n mod 16))
    = Some (char_of n)"
proof -
  have "hex_val (CHR ''0'') = Some 0" by (simp add: hex_val_def)
  moreover have "n div 16 < 16" "n mod 16 < 16" using assms by auto
  moreover have "16 * (n div 16) + n mod 16 = n" by simp
  ultimately show ?thesis by (simp add: unicode_escape_def)
qed

lemma parse_chars_esc:
  "parse_chars (esc_char c @ rest) = map_option (\<lambda>(t, r). (c # t, r)) (parse_chars rest)"
proof -
  let ?n = "of_char c :: nat"
  have code: "?n = 8 \<Longrightarrow> c = CHR 0x08" "?n = 9 \<Longrightarrow> c = CHR 0x09" "?n = 10 \<Longrightarrow> c = CHR 0x0A"
    "?n = 12 \<Longrightarrow> c = CHR 0x0C" "?n = 13 \<Longrightarrow> c = CHR 0x0D"
    using of_char_eq_iff [of c "CHR 0x08", where 'a = nat] of_char_eq_iff [of c "CHR 0x09", where 'a = nat]
      of_char_eq_iff [of c "CHR 0x0A", where 'a = nat] of_char_eq_iff [of c "CHR 0x0C", where 'a = nat]
      of_char_eq_iff [of c "CHR 0x0D", where 'a = nat] by auto
  show ?thesis
  proof (cases "c = CHR 0x22 \<or> c = CHR 0x5C \<or> ?n \<in> {8, 9, 10, 12, 13} \<or> \<not> ?n < 32")
    case True
    then show ?thesis
      by (auto simp: esc_char_def simple_escape_def Let_def dest!: code)
  next
    case False
    then have "esc_char c = [CHR 0x5C, CHR ''u'', CHR ''0'', CHR ''0'', hex_digit (?n div 16), hex_digit (?n mod 16)]"
      by (auto simp: esc_char_def Let_def)
    with False show ?thesis
      by (simp add: unicode_escape_control)
  qed
qed

lemma parse_chars_quoted:
  "parse_chars (concat (map esc_char s) @ CHR 0x22 # rest) = Some (s, rest)"
  by (induction s) (simp_all add: parse_chars_esc)

section \<open>Numbers survive the round trip\<close>

lemma length_pad_zeros [simp]: "length (pad_zeros d n) = d"
  by (induction d n rule: pad_zeros.induct) auto

lemma pad_zeros_digits [simp]: "list_all is_digit (pad_zeros d n)"
  by (induction d n rule: pad_zeros.induct) auto

lemma digits_val_snoc: "digits_val (s @ [c]) = digits_val s * 10 + char_digit c"
  by (simp add: digits_val_def)

lemma digits_val_append_pad:
  "digits_val (s @ pad_zeros d n) = digits_val s * 10 ^ d + n mod 10 ^ d"
proof (induction d n arbitrary: s rule: pad_zeros.induct)
  case (2 d n)
  have "n mod 10 ^ Suc d = (n div 10) mod 10 ^ d * 10 + n mod 10"
    by (simp add: mod_mult2_eq mult.commute)
  with 2 show ?case
    by (simp add: append_assoc [symmetric] digits_val_snoc algebra_simps del: append_assoc)
qed simp

lemma nat_str_leading:
  "1 < length (nat_str n) \<Longrightarrow> hd (nat_str n) \<noteq> CHR ''0''"
proof (induction n rule: nat_str.induct)
  case (1 n)
  show ?case
  proof (cases "n < 10")
    case True
    then show ?thesis using 1 by (simp add: nat_str.simps [of n])
  next
    case False
    then have eq: "nat_str n = nat_str (n div 10) @ [digit_char (n mod 10)]"
      by (simp add: nat_str.simps [of n])
    have "hd (nat_str (n div 10)) \<noteq> CHR ''0''"
    proof (cases "n div 10 < 10")
      case True
      then have "of_char (hd (nat_str (n div 10))) = 48 + n div 10"
        by (simp add: nat_str.simps [of "n div 10"])
      with False show ?thesis by auto
    next
      case big: False
      then have "1 < length (nat_str (n div 10))"
        by (subst nat_str.simps) (simp add: Suc_lessI)
      with 1 False show ?thesis by simp
    qed
    with eq show ?thesis by simp
  qed
qed

lemma takeWhile_digits:
  assumes "list_all is_digit xs" "ys = [] \<or> \<not> is_digit (hd ys)"
  shows "takeWhile is_digit (xs @ ys) = xs" "dropWhile is_digit (xs @ ys) = ys"
  using assms by (auto simp: list_all_iff takeWhile_append2 dropWhile_append2) (cases ys; simp)+

lemma not_digit_consts [simp]: "\<not> is_digit (CHR ''.'')" "\<not> is_digit (CHR ''-'')" "is_digit (CHR ''0'')"
  by (simp_all add: is_digit_def char_le_iff)

lemma hd_digits: "list_all is_digit xs \<Longrightarrow> xs \<noteq> [] \<Longrightarrow> is_digit (hd xs)"
  by (cases xs) auto

lemma read_num_jnum_str [simp]: "read_num (jnum_str x) = Some x"
proof (cases x)
  case (Dec m d)
  define a where "a = nat \<bar>m\<bar>"
  define tail where "tail = (if d = 0 then [] else CHR ''.'' # pad_zeros d (a mod 10 ^ d))"
  let ?ip = "nat_str (a div 10 ^ d)"
  have sign: "hd (?ip @ tail) \<noteq> CHR ''-''" "?ip @ tail \<noteq> []"
    using hd_nat_str_digit [of "a div 10 ^ d"] by (auto simp: is_digit_def char_le_iff)
  have body: "takeWhile is_digit (?ip @ tail) = ?ip" "dropWhile is_digit (?ip @ tail) = tail"
    by (rule takeWhile_digits; auto simp: tail_def)+
  have frac: "read_frac tail = Some (pad_zeros d (a mod 10 ^ d), [])"
  proof (cases d)
    case (Suc k)
    have "takeWhile is_digit (pad_zeros d (a mod 10 ^ d) @ []) = pad_zeros d (a mod 10 ^ d)"
      "dropWhile is_digit (pad_zeros d (a mod 10 ^ d) @ []) = []"
      by (rule takeWhile_digits; simp)+
    moreover have "pad_zeros d (a mod 10 ^ d) \<noteq> []"
      using Suc length_pad_zeros [of d "a mod 10 ^ d"] by (metis Zero_not_Suc list.size(3))
    moreover from this have "is_digit (hd (pad_zeros d (a mod 10 ^ d)))"
      by (rule hd_digits [OF pad_zeros_digits])
    ultimately show ?thesis
      using Suc by (simp add: read_frac_def tail_def takeWhile_eq_Nil_iff del: pad_zeros.simps)
  qed (simp add: read_frac_def tail_def)
  have val: "digits_val (?ip @ pad_zeros d (a mod 10 ^ d)) = a"
    by (simp add: digits_val_append_pad div_mult_mod_eq)
  have restore: "(if m < 0 then - int a else int a) = m" by (simp add: a_def)
  have lead: "\<not> (1 < length ?ip \<and> hd ?ip = CHR ''0'')" using nat_str_leading by blast
  have str: "jnum_str x = (if m < 0 then ''-'' else []) @ ?ip @ tail"
    by (simp add: jnum_str_def Dec a_def tail_def Let_def)
  have "read_num (jnum_str x) = map_option (scale_dec (m < 0) a d) (read_exp [])"
    unfolding str read_num_def Let_def using sign body frac val lead by (cases "m < 0") auto
  with restore Dec show ?thesis by (simp add: read_exp_def scale_dec_def Let_def)
qed

lemma jnum_str_chars: "list_all num_char (jnum_str x)"
proof -
  have "is_digit c \<Longrightarrow> num_char c" for c by (simp add: num_char_def)
  then have "list_all is_digit s \<Longrightarrow> list_all num_char s" for s by (auto simp: list_all_iff)
  then show ?thesis by (auto simp: jnum_str_def Let_def num_char_def)
qed

lemma jnum_str_nonempty [simp]: "jnum_str x \<noteq> []"
  by (simp add: jnum_str_def Let_def)


section \<open>Values survive the round trip\<close>

text \<open>A JavaScript object has each key once; so do the objects of a well-formed value.\<close>

fun jwf :: "json \<Rightarrow> bool" where
  "jwf (JArr xs) \<longleftrightarrow> list_all jwf xs"
| "jwf (JObj kvs) \<longleftrightarrow> distinct (map fst kvs) \<and> list_all (\<lambda>(k, v). jwf v) kvs"
| "jwf _ \<longleftrightarrow> True"

definition number_stop :: "string \<Rightarrow> bool" where
  "number_stop r \<longleftrightarrow> r = [] \<or> \<not> num_char (hd r)"

lemma number_stop_consts [simp]:
  "number_stop []" "number_stop (CHR '','' # r)" "number_stop (CHR '']'' # r)" "number_stop (CHR 0x7D # r)"
  by (simp_all add: number_stop_def num_char_def is_digit_def char_le_iff)

lemma takeWhile_jnum:
  assumes "number_stop r"
  shows "takeWhile num_char (jnum_str x @ r) = jnum_str x" "dropWhile num_char (jnum_str x @ r) = r"
  using jnum_str_chars [of x] assms
  by (auto simp: list_all_iff number_stop_def takeWhile_append2 dropWhile_append2) (cases r; simp)+

text \<open>No value starts with white space, a closing bracket or a comma.\<close>

definition value_start :: "char \<Rightarrow> bool" where
  "value_start c \<longleftrightarrow> \<not> json_ws c \<and> c \<noteq> CHR '']'' \<and> c \<noteq> CHR 0x7D"

lemma jnum_str_start: "num_char (hd (jnum_str x)) \<and> value_start (hd (jnum_str x))
    \<and> hd (jnum_str x) \<notin> {CHR 0x22, CHR ''['', CHR 0x7B, CHR ''n'', CHR ''t'', CHR ''f''}"
proof -
  have "hd (jnum_str x) = CHR ''-'' \<or> is_digit (hd (jnum_str x))"
    using hd_nat_str_digit by (auto simp: jnum_str_def Let_def)
  then show ?thesis
    by (auto simp: value_start_def json_ws_def num_char_def is_digit_def char_le_iff)
qed

lemma stringify_start: "\<exists>c cs. stringify v = c # cs \<and> value_start c"
proof (cases v)
  case (JNum x)
  with jnum_str_start [of x] jnum_str_nonempty [of x] show ?thesis
    by (cases "jnum_str x") auto
qed (auto simp: value_start_def json_ws_def quote_def)

lemma skip_ws_stringify [simp]: "skip_ws (stringify v @ r) = stringify v @ r"
  using stringify_start [of v] by (auto simp: skip_ws_def value_start_def)

lemma skip_ws_consts [simp]:
  "skip_ws (CHR '','' # r) = CHR '','' # r" "skip_ws (CHR '']'' # r) = CHR '']'' # r"
  "skip_ws (CHR 0x7D # r) = CHR 0x7D # r" "skip_ws (CHR '':'' # r) = CHR '':'' # r"
  "skip_ws (CHR 0x22 # r) = CHR 0x22 # r" "skip_ws (CHR ''['' # r) = CHR ''['' # r"
  "skip_ws (CHR 0x7B # r) = CHR 0x7B # r"
  by (simp_all add: skip_ws_def json_ws_def)

text \<open>\<open>parses p x r\<close>: with every large enough budget, parser \<open>p\<close> reads \<open>x\<close> and leaves \<open>r\<close>.\<close>

definition parses :: "(nat \<Rightarrow> ('x \<times> string) option) \<Rightarrow> 'x \<Rightarrow> string \<Rightarrow> bool" where
  "parses p x r \<longleftrightarrow> (\<exists>n. \<forall>f\<ge>n. p f = Some (x, r))"

lemma parsesI: "(\<And>f. p (Suc f) = Some (x, r)) \<Longrightarrow> parses p x r"
  unfolding parses_def by (metis Suc_le_D)

lemma parses_bind:
  assumes "parses q y t" "\<And>f. q f = Some (y, t) \<Longrightarrow> p (Suc f) = Some (x, r)"
  shows "parses p x r"
proof -
  from assms(1) obtain n where "\<forall>f\<ge>n. q f = Some (y, t)" by (auto simp: parses_def)
  then have "\<forall>f\<ge>Suc n. p f = Some (x, r)" using assms(2) by (metis Suc_le_D Suc_le_mono)
  then show ?thesis by (auto simp: parses_def)
qed

lemma parses_bind2:
  assumes "parses q y t" "parses q' y' t'"
    and "\<And>f. q f = Some (y, t) \<Longrightarrow> q' f = Some (y', t') \<Longrightarrow> p (Suc f) = Some (x, r)"
  shows "parses p x r"
proof -
  from assms(1,2) obtain n n' where "\<forall>f\<ge>n. q f = Some (y, t)" "\<forall>f\<ge>n'. q' f = Some (y', t')"
    by (auto simp: parses_def)
  then have "\<forall>f\<ge>max n n'. q f = Some (y, t) \<and> q' f = Some (y', t')" by simp
  then have "\<forall>f\<ge>Suc (max n n'). p f = Some (x, r)" using assms(3) by (metis Suc_le_D Suc_le_mono)
  then show ?thesis by (auto simp: parses_def)
qed

lemma parses_elems:
  assumes "\<And>v r. v \<in> set xs \<Longrightarrow> number_stop r \<Longrightarrow> parses (\<lambda>f. parse_value f (stringify v @ r)) v r"
    and "xs \<noteq> []"
  shows "parses (\<lambda>f. parse_elems f (join '','' (map stringify xs) @ CHR '']'' # rest)) xs rest"
  using assms(2,1)
proof (induction xs rule: list_nonempty_induct)
  case (single v)
  have "parses (\<lambda>f. parse_value f (stringify v @ CHR '']'' # rest)) v (CHR '']'' # rest)"
    by (rule single.prems(1)) simp_all
  then show ?case by (rule parses_bind) simp
next
  case (cons v xs)
  obtain w ws where xs: "xs = w # ws" using cons.hyps by (cases xs) auto
  have "parses (\<lambda>f. parse_value f (stringify v @ CHR '','' # join '','' (map stringify xs) @ CHR '']'' # rest))
      v (CHR '','' # join '','' (map stringify xs) @ CHR '']'' # rest)"
    by (rule cons.prems(1)) simp_all
  moreover have "parses (\<lambda>f. parse_elems f (join '','' (map stringify xs) @ CHR '']'' # rest)) xs rest"
    by (rule cons.IH) (auto intro: cons.prems(1))
  ultimately show ?case by (rule parses_bind2) (simp add: xs)
qed

lemma parses_members:
  assumes "\<And>k v r. (k, v) \<in> set kvs \<Longrightarrow> number_stop r \<Longrightarrow> parses (\<lambda>f. parse_value f (stringify v @ r)) v r"
    and "kvs \<noteq> []" "distinct (map fst (acc @ kvs))"
  shows "parses (\<lambda>f. parse_members f acc
      (join '','' (map (\<lambda>(k, v). quote k @ '':'' @ stringify v) kvs) @ CHR 0x7D # rest)) (acc @ kvs) rest"
  using assms(2,1,3)
proof (induction kvs arbitrary: acc rule: list_nonempty_induct)
  case (single kv)
  obtain k v where kv: "kv = (k, v)" by fastforce
  have "parses (\<lambda>f. parse_value f (stringify v @ CHR 0x7D # rest)) v (CHR 0x7D # rest)"
    by (rule single.prems(1) [of k]) (simp_all add: kv)
  then show ?case
    by (rule parses_bind) (use single.prems(2) in \<open>simp add: kv quote_def parse_chars_quoted map_set_fresh\<close>)
next
  case (cons kv kvs)
  obtain k v where kv: "kv = (k, v)" by fastforce
  obtain w ws where kvs: "kvs = w # ws" using cons.hyps by (cases kvs) auto
  let ?tl = "join '','' (map (\<lambda>(k, v). quote k @ '':'' @ stringify v) kvs) @ CHR 0x7D # rest"
  have "parses (\<lambda>f. parse_value f (stringify v @ CHR '','' # ?tl)) v (CHR '','' # ?tl)"
    by (rule cons.prems(1) [of k]) (simp_all add: kv)
  moreover have "parses (\<lambda>f. parse_members f (acc @ [kv]) ?tl) ((acc @ [kv]) @ kvs) rest"
    by (rule cons.IH) (use cons.prems in \<open>auto\<close>)
  ultimately show ?case
    by (rule parses_bind2)
      (use cons.prems(2) in \<open>simp add: kv kvs quote_def parse_chars_quoted map_set_fresh\<close>)
qed

lemma parses_stringify:
  "jwf v \<Longrightarrow> number_stop r \<Longrightarrow> parses (\<lambda>f. parse_value f (stringify v @ r)) v r"
proof (induction v arbitrary: r rule: stringify.induct)
  case (2 b)
  then show ?case by (cases b) (auto intro!: parsesI simp: startsWith_def skip_ws_def json_ws_def)
next
  case (3 x)
  from jnum_str_nonempty [of x] obtain c cs where c: "jnum_str x = c # cs" by (cases "jnum_str x") auto
  with jnum_str_start [of x] have ws: "\<not> json_ws c"
    "c \<notin> {CHR 0x22, CHR ''['', CHR 0x7B, CHR ''n'', CHR ''t'', CHR ''f''}"
    by (simp_all add: value_start_def)
  have "parse_value (Suc f) (jnum_str x @ r) = Some (JNum x, r)" for f
    using ws takeWhile_jnum [OF 3(2), of x] read_num_jnum_str [of x]
    by (simp add: c skip_ws_def startsWith_def del: read_num_jnum_str)
  then show ?case by (auto intro: parsesI)
next
  case (4 s)
  then show ?case by (auto intro!: parsesI simp: quote_def parse_chars_quoted)
next
  case (5 xs)
  show ?case
  proof (cases xs)
    case Nil
    then show ?thesis by (auto intro!: parsesI)
  next
    case (Cons v vs)
    have "parses (\<lambda>f. parse_elems f (join '','' (map stringify xs) @ CHR '']'' # r)) xs r"
      by (rule parses_elems) (use 5 Cons in \<open>auto simp: list_all_iff\<close>)
    moreover obtain c cs where "join '','' (map stringify xs) @ CHR '']'' # r = c # cs" "value_start c"
      using stringify_start [of v] by (cases vs) (auto simp: Cons)
    moreover from this have "skip_ws (c # cs) = c # cs" by (simp add: skip_ws_def value_start_def)
    ultimately show ?thesis
      by (auto elim!: parses_bind simp: value_start_def)
  qed
next
  case (6 kvs)
  show ?case
  proof (cases kvs)
    case Nil
    then show ?thesis by (auto intro!: parsesI)
  next
    case (Cons kv rest)
    obtain k v where kv: "kv = (k, v)" by fastforce
    have "parses (\<lambda>f. parse_members f []
        (join '','' (map (\<lambda>(k, v). quote k @ '':'' @ stringify v) kvs) @ CHR 0x7D # r)) ([] @ kvs) r"
    proof (rule parses_members)
      fix k v r' assume "(k, v) \<in> set kvs" "number_stop r'"
      with 6 show "parses (\<lambda>f. parse_value f (stringify v @ r')) v r'"
        by (fastforce simp: list_all_iff)
    qed (use 6 Cons in simp_all)
    moreover obtain cs where "join '','' (map (\<lambda>(k, v). quote k @ '':'' @ stringify v) kvs) @ CHR 0x7D # r
        = CHR 0x22 # cs"
      by (cases rest) (auto simp: Cons kv quote_def)
    ultimately show ?thesis by (auto elim!: parses_bind)
  qed
qed (auto intro!: parsesI simp: startsWith_def skip_ws_def json_ws_def)


section \<open>The recursion budget is always enough\<close>

lemma skip_ws_length: "skip_ws s = c # cs \<Longrightarrow> length cs < length s"
  using length_dropWhile_le [of json_ws s] by (simp add: skip_ws_def)

lemma parse_chars_length: "parse_chars s = Some (t, r) \<Longrightarrow> length r < length s"
proof (induction s arbitrary: t r rule: parse_chars.induct)
  case (2 x xs)
  then show ?case by (fastforce split: if_splits list.splits option.splits)
qed simp

lemma number_length:
  assumes "read_num (takeWhile num_char s) = Some x"
  shows "length (dropWhile num_char s) < length s"
proof -
  have "takeWhile num_char s \<noteq> []" using assms by (auto simp: read_num_def Let_def)
  moreover have "length (takeWhile num_char s) + length (dropWhile num_char s) = length s"
    by (metis length_append takeWhile_dropWhile_id)
  ultimately show ?thesis by (metis add.commute less_add_same_cancel1 length_greater_0_conv)
qed

lemma parse_length:
  "parse_value f s = Some (v, r) \<Longrightarrow> length r < length s"
  "parse_elems f s = Some (vs, r) \<Longrightarrow> length r < length s"
  "parse_members f acc s = Some (m, r) \<Longrightarrow> length r < length s"
proof (induction f s and f s and f acc s arbitrary: v r and vs r and m r
    rule: parse_value_parse_elems_parse_members.induct)
  case (2 f s)
  obtain c cs where c: "skip_ws s = c # cs" using "2.prems" by (cases "skip_ws s") auto
  have len: "length cs < length s" using skip_ws_length [OF c] .
  have drop: "length (drop n cs) < length s" for n using len by simp
  have num: "read_num (takeWhile num_char (c # cs)) = Some x \<Longrightarrow>
      length (dropWhile num_char (c # cs)) < length s" for x
    using number_length [of "c # cs" x] len by simp
  show ?case
  proof (cases "c = CHR ''[''  \<or> c = CHR 0x7B")
    case True
    then obtain d ds where d: "skip_ws cs = d # ds" using "2.prems" c by (cases "skip_ws cs") auto
    from skip_ws_length [OF d] True "2.prems" "2.IH" c d len show ?thesis
      by (fastforce split: if_splits)
  next
    case False
    with "2.prems" c len drop num show ?thesis
      by (auto split: if_splits dest!: parse_chars_length)
  qed
next
  case (4 f s)
  then obtain w t where w: "parse_value f s = Some (w, t)" by (cases "parse_value f s") auto
  then obtain c cs where c: "skip_ws t = c # cs" using "4.prems" by (cases "skip_ws t") auto
  have "length t < length s" using "4.IH"(1) w by blast
  then have "length cs < length s" using skip_ws_length [OF c] by simp
  with "4.prems" "4.IH"(2) [OF w _ c] w c show ?case by (fastforce split: if_splits)
next
  case (6 f acc s)
  then obtain qs where q: "skip_ws s = CHR 0x22 # qs"
    by (cases "skip_ws s") (auto split: if_splits)
  with "6.prems" obtain k r1 where k: "parse_chars qs = Some (k, r1)"
    by (cases "parse_chars qs") auto
  with "6.prems" q obtain cs where c: "skip_ws r1 = CHR '':'' # cs"
    by (cases "skip_ws r1") (auto split: if_splits)
  with "6.prems" q k obtain w t where w: "parse_value f cs = Some (w, t)"
    by (cases "parse_value f cs") auto
  with "6.prems" q k c obtain d ds where d: "skip_ws t = d # ds"
    by (cases "skip_ws t") auto
  have "length ds < length s"
    using skip_ws_length [OF q] parse_chars_length [OF k] skip_ws_length [OF c]
      "6.IH"(1) [OF q _ k _ c _ w] skip_ws_length [OF d] by simp
  with "6.prems" "6.IH"(2) q k c w d show ?case by (fastforce split: if_splits)
qed simp_all


lemma parse_budget:
  "2 * length s + 2 \<le> f \<Longrightarrow> 2 * length s + 2 \<le> g \<Longrightarrow> parse_value f s = parse_value g s"
  "2 * length s + 3 \<le> f \<Longrightarrow> 2 * length s + 3 \<le> g \<Longrightarrow> parse_elems f s = parse_elems g s"
  "2 * length s + 2 \<le> f \<Longrightarrow> 2 * length s + 2 \<le> g \<Longrightarrow> parse_members f acc s = parse_members g acc s"
proof (induction f s and f s and f acc s arbitrary: g and g and g
    rule: parse_value_parse_elems_parse_members.induct)
  case (2 f s)
  obtain g' where g: "g = Suc g'" using "2.prems" by (cases g) auto
  show ?case
  proof (cases "skip_ws s")
    case (Cons c cs)
    have len: "length cs < length s" using skip_ws_length [OF Cons] .
    show ?thesis
    proof (cases "skip_ws cs")
      case inner: (Cons d ds)
      have "c = CHR ''['' \<Longrightarrow> d \<noteq> CHR '']'' \<Longrightarrow> parse_elems f cs = parse_elems g' cs"
        using "2.IH"(1) [OF Cons _ _ inner] "2.prems" len g by simp
      moreover have "c = CHR 0x7B \<Longrightarrow> d \<noteq> CHR 0x7D \<Longrightarrow> parse_members f [] cs = parse_members g' [] cs"
        using "2.IH"(2) [OF Cons _ _ _ inner] "2.prems" len g by simp
      ultimately show ?thesis by (simp add: g Cons inner)
    qed (simp add: g Cons)
  qed (simp add: g)
next
  case (4 f s)
  obtain g' where g: "g = Suc g'" using "4.prems" by (cases g) auto
  have v: "parse_value f s = parse_value g' s" using "4.IH"(1) [of g'] "4.prems" g by simp
  show ?case
  proof (cases "parse_value f s")
    case (Some p)
    obtain w t where p: "p = (w, t)" by fastforce
    show ?thesis
    proof (cases "skip_ws t")
      case (Cons c cs)
      have "length cs < length s"
        using skip_ws_length [OF Cons] parse_length(1) [OF Some [unfolded p]] by simp
      then have "c = CHR '','' \<Longrightarrow> parse_elems f cs = parse_elems g' cs"
        using "4.IH"(2) [OF Some p [symmetric] Cons] "4.prems" g by simp
      with Some p Cons v g show ?thesis by simp
    qed (use Some p v g in simp)
  qed (use v g in simp)
next
  case (6 f acc s)
  obtain g' where g: "g = Suc g'" using "6.prems" by (cases g) auto
  show ?case
  proof (cases "\<exists>qs k r cs. skip_ws s = CHR 0x22 # qs \<and> parse_chars qs = Some (k, r)
      \<and> skip_ws r = CHR '':'' # cs")
    case True
    then obtain qs k r cs where h: "skip_ws s = CHR 0x22 # qs" "parse_chars qs = Some (k, r)"
      "skip_ws r = CHR '':'' # cs" by blast
    have len: "length cs < length s"
      using skip_ws_length [OF h(1)] parse_chars_length [OF h(2)] skip_ws_length [OF h(3)] by simp
    have v: "parse_value f cs = parse_value g' cs"
      by (rule "6.IH"(1) [OF h(1) _ h(2) _ h(3)]) (use "6.prems" len g in simp_all)
    show ?thesis
    proof (cases "parse_value f cs")
      case (Some p)
      obtain w t where p: "p = (w, t)" by fastforce
      show ?thesis
      proof (cases "skip_ws t")
        case (Cons d ds)
        have "length ds < length s"
          using skip_ws_length [OF Cons] parse_length(1) [OF Some [unfolded p]] len by simp
        then have "d = CHR '','' \<Longrightarrow> parse_members f (map_set acc k w) ds = parse_members g' (map_set acc k w) ds"
          by (intro "6.IH"(2) [OF h(1) _ h(2) _ h(3) _ Some p [symmetric] Cons])
            (use "6.prems" g in simp_all)
        with Some p Cons v g h show ?thesis by simp
      qed (use Some p v g h in simp)
    qed (use v g h in simp)
  next
    case False
    then show ?thesis by (auto simp: g split: list.splits option.splits)
  qed
qed simp_all

text \<open>\<open>JSON.parse\<close> inverts \<open>JSON.stringify\<close>.\<close>

lemma json_roundtrip: "jwf v \<Longrightarrow> json_parse (stringify v) = Some v"
proof -
  assume "jwf v"
  from parses_stringify [OF this, of "[]"] obtain n where
    n: "\<forall>f\<ge>n. parse_value f (stringify v) = Some (v, [])" by (auto simp: parses_def)
  define f where "f = max n (2 * length (stringify v) + 2)"
  have "parse_value (2 * length (stringify v) + 2) (stringify v) = parse_value f (stringify v)"
    by (rule parse_budget) (simp_all add: f_def)
  also have "\<dots> = Some (v, [])" using n by (simp add: f_def)
  finally show ?thesis by (simp add: json_parse_def skip_ws_def)
qed

lemma stringify_inject: "jwf v \<Longrightarrow> jwf w \<Longrightarrow> stringify v = stringify w \<Longrightarrow> v = w"
  by (metis json_roundtrip option.inject)

section \<open>Sizes\<close>

lemma length_esc_char: "1 \<le> length (esc_char c) \<and> length (esc_char c) \<le> 6"
  by (simp add: esc_char_def Let_def)

lemma length_quote: "length (quote s) \<le> 6 * length s + 2"
proof -
  have "length (concat (map esc_char s)) \<le> 6 * length s"
  proof (induction s)
    case (Cons c s)
    then show ?case using length_esc_char [of c] by simp
  qed simp
  then show ?thesis by (simp add: quote_def)
qed

lemma esc_lower_hex: "is_lower_hex c \<Longrightarrow> esc_char c = [c]"
  by (auto simp: esc_char_def Let_def is_lower_hex_def is_digit_def char_le_iff)

lemma length_quote_hex: "list_all is_lower_hex s \<Longrightarrow> length (quote s) = length s + 2"
  by (induction s) (auto simp: quote_def esc_lower_hex)

lemma length_stringify_nat:
  "0 \<le> n \<Longrightarrow> n < 10 ^ k \<Longrightarrow> 0 < k \<Longrightarrow> length (stringify (JInt n)) \<le> k"
proof -
  assume "0 \<le> n" "n < 10 ^ k" "0 < k"
  then have "nat \<bar>n\<bar> < 10 ^ k" by (simp add: nat_less_iff)
  from length_nat_str [OF this \<open>0 < k\<close>] \<open>0 \<le> n\<close> show ?thesis by (simp add: jnum_str_def Let_def)
qed

end
