(* ===== verification/NostrEvents.thy ===== *)
theory NostrEvents
  imports Json
begin

text \<open>
  Nostr events as the chat services see them: the event and template records of nostr-tools, the
  validation primitives (\<open>services/chat/eventValidation.ts\<close>), conversation identity
  (\<open>conversationId.ts\<close>, \<open>dmConversation.ts\<close>, \<open>circleChat.ts\<close>), the NIP-29 channel messages and
  relay state (\<open>nip29.ts\<close>, \<open>publicChannel.ts\<close>), relay lists and relay authentication
  (\<open>services/relay/relayDiscovery.ts\<close>, \<open>relayAuth.ts\<close>, \<open>relayConnection.ts\<close>, \<open>relayPool.ts\<close>).
  Signature verification, hashing, \<open>nip19\<close> and \<open>URL\<close> parsing are arguments of the definitions. Kinds and
  timestamps are integers, as NIP-01 requires.
\<close>

section \<open>Events\<close>

record nostr_template =
  nt_kind :: int
  nt_created_at :: int
  nt_tags :: "string list list"
  nt_content :: string

record nostr_event =
  ne_id :: string
  ne_pubkey :: string
  ne_created_at :: int
  ne_kind :: int
  ne_tags :: "string list list"
  ne_content :: string
  ne_sig :: string

text \<open>\<open>tag[i]\<close>, undefined beyond the end.\<close>

definition tag_at :: "string list \<Rightarrow> nat \<Rightarrow> string option" where
  "tag_at tag i = (if i < length tag then Some (tag ! i) else None)"

text \<open>A string used as a condition: undefined and the empty string are falsy.\<close>

definition truthy :: "string option \<Rightarrow> bool" where
  "truthy v \<longleftrightarrow> v \<noteq> None \<and> v \<noteq> Some ''''"

definition tags_json :: "string list list \<Rightarrow> json" where
  "tags_json tags = JArr (map (\<lambda>t. JArr (map JStr t)) tags)"

section \<open>Validation primitives\<close>

definition MAX_EVENT_BYTES :: nat where "MAX_EVENT_BYTES = 100000"
definition MAX_MESSAGE_BYTES :: nat where "MAX_MESSAGE_BYTES = 16384"
definition MAX_CREATED_AT_SKEW_SECONDS :: int where "MAX_CREATED_AT_SKEW_SECONDS = 2 * 24 * 60 * 60"
definition MAX_TAGS :: nat where "MAX_TAGS = 256"
definition MAX_ROOM_PARTICIPANTS :: nat where "MAX_ROOM_PARTICIPANTS = 10"

definition eventSizeBytes :: "nostr_event \<Rightarrow> nat" where
  "eventSizeBytes e =
     length (stringify (JArr [JInt 0, JStr (ne_pubkey e), JInt (ne_created_at e), JInt (ne_kind e),
       tags_json (ne_tags e), JStr (ne_content e)]))"

text \<open>The options argument carries \<open>maxBytes\<close> and \<open>maxSkew\<close>, absent when undefined.\<close>

definition withinEventBounds :: "nostr_event \<Rightarrow> int \<Rightarrow> nat option \<Rightarrow> int option \<Rightarrow> bool" where
  "withinEventBounds e now maxBytes maxSkew =
     (if eventSizeBytes e > (case maxBytes of Some n \<Rightarrow> n | None \<Rightarrow> MAX_EVENT_BYTES) then False
      else if length (ne_tags e) > MAX_TAGS then False
      else if \<not> isLowercaseHex64 (ne_pubkey e) then False
      else if \<bar>now - ne_created_at e\<bar> > (case maxSkew of Some n \<Rightarrow> n | None \<Rightarrow> MAX_CREATED_AT_SKEW_SECONDS) then False
      else True)"

fun singleTag_from :: "string option \<Rightarrow> string list list \<Rightarrow> string \<Rightarrow> string option" where
  "singleTag_from found [] name = found"
| "singleTag_from found (tag # tags) name =
     (if tag_at tag 0 = Some name then
        (if found \<noteq> None then None else singleTag_from (tag_at tag 1) tags name)
      else singleTag_from found tags name)"

definition singleTag :: "string list list \<Rightarrow> string \<Rightarrow> string option" where
  "singleTag tags name = singleTag_from None tags name"

text \<open>\<open>verifyEvent\<close> may throw: \<open>None\<close>.\<close>

definition isSignatureValid :: "(nostr_event \<Rightarrow> bool option) \<Rightarrow> nostr_event \<Rightarrow> bool" where
  "isSignatureValid verifyEvent e = (case verifyEvent e of Some b \<Rightarrow> b | None \<Rightarrow> False)"

definition validMessageContent :: "string \<Rightarrow> bool" where
  "validMessageContent content \<longleftrightarrow> length content > 0 \<and> length content \<le> MAX_MESSAGE_BYTES"

section \<open>Conversation identity\<close>

definition VERSION_PREFIX :: string where "VERSION_PREFIX = ''sentinelmesh:chat:v1''"

definition normalizeParticipants :: "string list \<Rightarrow> string list" where
  "normalizeParticipants pubkeys =
     js_sort string_cmp (set_of_array (filter isLowercaseHex64 (map toLowerCase pubkeys)))"

definition participantKey :: "string list \<Rightarrow> string" where
  "participantKey pubkeys = VERSION_PREFIX @ '':'' @ join '','' (normalizeParticipants pubkeys)"

text \<open>\<open>sha256\<close> and \<open>TextEncoder\<close> are platform functions.\<close>

definition conversationIdFor :: "(bytes \<Rightarrow> bytes) \<Rightarrow> (string \<Rightarrow> bytes) \<Rightarrow> string list \<Rightarrow> string" where
  "conversationIdFor sha256 encode pubkeys = bytes_hex (sha256 (encode (participantKey pubkeys)))"

definition channelConversationId :: "string \<Rightarrow> string \<Rightarrow> string" where
  "channelConversationId relayUrl groupId = VERSION_PREFIX @ '':channel:'' @ relayUrl @ '':'' @ groupId"

record direct_conversation =
  cv_id :: string
  cv_participants :: "string list"
  cv_title :: string

definition directConversationId :: "(bytes \<Rightarrow> bytes) \<Rightarrow> (string \<Rightarrow> bytes) \<Rightarrow> string \<Rightarrow> string \<Rightarrow> string" where
  "directConversationId sha256 encode a b = conversationIdFor sha256 encode [a, b]"

definition roomConversationId :: "(bytes \<Rightarrow> bytes) \<Rightarrow> (string \<Rightarrow> bytes) \<Rightarrow> string list \<Rightarrow> string" where
  "roomConversationId sha256 encode participants = conversationIdFor sha256 encode participants"

definition peerParticipants :: "string \<Rightarrow> string list \<Rightarrow> string list" where
  "peerParticipants myPubkey others =
     (let mine = toLowerCase myPubkey in filter (\<lambda>p. p \<noteq> mine) (normalizeParticipants others))"

definition buildDirectConversation ::
  "(bytes \<Rightarrow> bytes) \<Rightarrow> (string \<Rightarrow> bytes) \<Rightarrow> string \<Rightarrow> string \<Rightarrow> string option \<Rightarrow> direct_conversation result" where
  "buildDirectConversation sha256 encode myPubkey recipientPubkey title =
     throw_if (\<not> isLowercaseHex64 recipientPubkey) ''invalid recipient public key''
       (let participants = normalizeParticipants [myPubkey, recipientPubkey]
        in ok \<lparr>cv_id = conversationIdFor sha256 encode participants, cv_participants = participants,
               cv_title = (case title of Some t \<Rightarrow> t | None \<Rightarrow> take 12 recipientPubkey)\<rparr>)"

datatype membership_state = Pending | Active

record circle_chat_member =
  ccm_pubkey :: string
  ccm_membership_state :: "membership_state option"

definition MAX_CIRCLE_CHAT_PARTICIPANTS :: nat where "MAX_CIRCLE_CHAT_PARTICIPANTS = 10"

definition circleChatParticipants :: "string \<Rightarrow> circle_chat_member list \<Rightarrow> string list" where
  "circleChatParticipants ownerPubkey members =
     (let owner = toLowerCase ownerPubkey;
          active = filter (\<lambda>p. p \<noteq> owner)
            (map (\<lambda>m. toLowerCase (ccm_pubkey m))
              (filter (\<lambda>m. ccm_membership_state m \<noteq> Some Pending) members))
      in normalizeParticipants (owner # active))"

definition circleChatFeasible :: "string list \<Rightarrow> bool" where
  "circleChatFeasible participants \<longleftrightarrow>
     length participants \<ge> 2 \<and> length participants \<le> MAX_CIRCLE_CHAT_PARTICIPANTS"

section \<open>NIP-29 channel messages\<close>

definition NIP29_KIND_MESSAGE :: int where "NIP29_KIND_MESSAGE = 9"
definition NIP29_KIND_METADATA :: int where "NIP29_KIND_METADATA = 39000"
definition NIP29_KIND_ADMINS :: int where "NIP29_KIND_ADMINS = 39001"
definition NIP29_KIND_MEMBERS :: int where "NIP29_KIND_MEMBERS = 39002"
definition NIP29_KIND_ROLES :: int where "NIP29_KIND_ROLES = 39003"
definition NIP29_STATE_KINDS :: "int list" where
  "NIP29_STATE_KINDS = [NIP29_KIND_METADATA, NIP29_KIND_ADMINS, NIP29_KIND_MEMBERS, NIP29_KIND_ROLES]"
definition NIP29_KIND_REMOVE_USER :: int where "NIP29_KIND_REMOVE_USER = 9001"
definition NIP29_KIND_SET_METADATA :: int where "NIP29_KIND_SET_METADATA = 9002"
definition NIP29_KIND_DELETE_EVENT :: int where "NIP29_KIND_DELETE_EVENT = 9005"
definition NIP29_KIND_CREATE_GROUP :: int where "NIP29_KIND_CREATE_GROUP = 9007"
definition NIP29_KIND_PIN :: int where "NIP29_KIND_PIN = 9010"

text \<open>The clock \<open>Math.floor(Date.now() / 1000)\<close> and random bytes are arguments.\<close>

definition buildManagementTemplate ::
  "int \<Rightarrow> int \<Rightarrow> string \<Rightarrow> string list list \<Rightarrow> string \<Rightarrow> nostr_template" where
  "buildManagementTemplate now kind groupId tags content =
     \<lparr>nt_kind = kind, nt_created_at = now, nt_tags = [''h'', groupId] # tags, nt_content = content\<rparr>"

definition newGroupId :: "bytes \<Rightarrow> string" where
  "newGroupId random16 = bytes_hex random16"

definition createGroupTemplate :: "int \<Rightarrow> string \<Rightarrow> nostr_template" where
  "createGroupTemplate now groupId = buildManagementTemplate now NIP29_KIND_CREATE_GROUP groupId [] ''''"

definition deleteMessageTemplate :: "int \<Rightarrow> string \<Rightarrow> string \<Rightarrow> nostr_template" where
  "deleteMessageTemplate now groupId eventId =
     buildManagementTemplate now NIP29_KIND_DELETE_EVENT groupId [[''e'', eventId]] ''''"

definition removeUserTemplate :: "int \<Rightarrow> string \<Rightarrow> string \<Rightarrow> nostr_template" where
  "removeUserTemplate now groupId pubkey =
     buildManagementTemplate now NIP29_KIND_REMOVE_USER groupId [[''p'', toLowerCase pubkey]] ''''"

definition setMetadataTemplate :: "int \<Rightarrow> string \<Rightarrow> json \<Rightarrow> nostr_template" where
  "setMetadataTemplate now groupId metadata =
     buildManagementTemplate now NIP29_KIND_SET_METADATA groupId [] (stringify metadata)"

definition pinMessageTemplate :: "int \<Rightarrow> string \<Rightarrow> string \<Rightarrow> nostr_template" where
  "pinMessageTemplate now groupId eventId =
     buildManagementTemplate now NIP29_KIND_PIN groupId [[''e'', eventId]] ''''"

record channel_message =
  chm_groupId :: string
  chm_template :: nostr_template

definition createChannelMessage :: "int \<Rightarrow> string \<Rightarrow> string \<Rightarrow> string \<Rightarrow> channel_message result" where
  "createChannelMessage now signerPubkey groupId content =
     throw_if (\<not> validMessageContent content) ''invalid message content''
       (throw_if (groupId = '''') ''missing group id''
         (ok \<lparr>chm_groupId = groupId,
              chm_template = \<lparr>nt_kind = NIP29_KIND_MESSAGE, nt_created_at = now,
                nt_tags = [[''h'', groupId]], nt_content = content\<rparr>\<rparr>))"

definition validateChannelMessage ::
  "(nostr_event \<Rightarrow> bool option) \<Rightarrow> int \<Rightarrow> nostr_event \<Rightarrow> string \<Rightarrow> bool" where
  "validateChannelMessage verifyEvent now e groupId =
     (if ne_kind e \<noteq> NIP29_KIND_MESSAGE then False
      else if \<not> withinEventBounds e now None None then False
      else if \<not> isSignatureValid verifyEvent e then False
      else if singleTag (ne_tags e) ''h'' \<noteq> Some groupId then False
      else validMessageContent (ne_content e))"

definition validateGroupStateEvent ::
  "(nostr_event \<Rightarrow> bool option) \<Rightarrow> int \<Rightarrow> nostr_event \<Rightarrow> string \<Rightarrow> string option \<Rightarrow> bool" where
  "validateGroupStateEvent verifyEvent now e groupId relaySelfPubkey =
     (if ne_kind e \<notin> set NIP29_STATE_KINDS then False
      else if \<not> withinEventBounds e now None None then False
      else if \<not> isSignatureValid verifyEvent e then False
      else if singleTag (ne_tags e) ''d'' \<noteq> Some groupId \<and> singleTag (ne_tags e) ''h'' \<noteq> Some groupId then False
      else if truthy relaySelfPubkey \<and> Some (ne_pubkey e) \<noteq> relaySelfPubkey then False
      else True)"

text \<open>
  The active signer (\<open>NostrSigner\<close> of \<open>signerService.ts\<close>): its public key and its sign, encrypt
  and decrypt operations, each of which may throw.
\<close>

record nostr_signer =
  sg_pubkey :: "string result"
  sg_signEvent :: "nostr_template \<Rightarrow> nostr_event result"
  sg_nip44Encrypt :: "string \<Rightarrow> string \<Rightarrow> string result"
  sg_nip44Decrypt :: "string \<Rightarrow> string \<Rightarrow> string result"

definition signChannelMessage :: "nostr_signer \<Rightarrow> channel_message \<Rightarrow> nostr_event result" where
  "signChannelMessage signer message = sg_signEvent signer (chm_template message)"

section \<open>Relay client\<close>

record relay_filter =
  rf_kinds :: "int list"
  rf_authors :: "string list option"
  rf_d :: "string list option"
  rf_h :: "string list option"
  rf_p :: "string list option"
  rf_since :: "int option"
  rf_limit :: "int option"

record publish_result =
  pr_url :: string
  pr_ok :: bool
  pr_message :: "string option"

record relay_client =
  rc_publish :: "string list \<Rightarrow> nostr_event \<Rightarrow> publish_result list result"
  rc_query :: "string list \<Rightarrow> relay_filter \<Rightarrow> nostr_event list result"

text \<open>
  \<open>RelayPool.publish\<close>: \<open>results\<close> are the messages the pool's promises resolve to, one per relay.
\<close>

definition pool_publish_results :: "string list \<Rightarrow> string list \<Rightarrow> publish_result list" where
  "pool_publish_results relays results =
     map (\<lambda>i. let message = (if i < length results then Some (results ! i) else None)
              in \<lparr>pr_url = relays ! i,
                  pr_ok = (message = Some ''success'' \<or> message = Some ''duplicate''),
                  pr_message = message\<rparr>) [0..<length relays]"

definition NIP42_AUTH_KIND :: int where "NIP42_AUTH_KIND = 22242"

definition nip42AuthTemplate :: "int \<Rightarrow> string \<Rightarrow> string \<Rightarrow> nostr_template" where
  "nip42AuthTemplate now relayUrl challenge =
     \<lparr>nt_kind = NIP42_AUTH_KIND, nt_created_at = now,
      nt_tags = [[''relay'', relayUrl], [''challenge'', challenge]], nt_content = ''''\<rparr>"

definition signNip42Auth :: "int \<Rightarrow> nostr_signer \<Rightarrow> string \<Rightarrow> string \<Rightarrow> nostr_event result" where
  "signNip42Auth now signer relayUrl challenge = sg_signEvent signer (nip42AuthTemplate now relayUrl challenge)"

definition automaticAuth :: "nostr_signer \<Rightarrow> string \<Rightarrow> nostr_template \<Rightarrow> nostr_event result" where
  "automaticAuth signer relayUrl e = sg_signEvent signer e"

definition DM_RELAY_LIST_KIND :: int where "DM_RELAY_LIST_KIND = 10050"

fun urls_of_tags :: "string list list \<Rightarrow> string list" where
  "urls_of_tags [] = []"
| "urls_of_tags (tag # tags) =
     (if tag_at tag 0 = Some ''r'' \<and> truthy (tag_at tag 1)
      then the (tag_at tag 1) # urls_of_tags tags else urls_of_tags tags)"

definition parseRelayUrls :: "nostr_event \<Rightarrow> string list" where
  "parseRelayUrls e = urls_of_tags (ne_tags e)"

fun groups_of_tags :: "string list list \<Rightarrow> (string \<times> string) list" where
  "groups_of_tags [] = []"
| "groups_of_tags (tag # tags) =
     (if tag_at tag 0 = Some ''g'' \<and> truthy (tag_at tag 1) then
        (let i = the (tag_at tag 1); relayUrl = (case tag_at tag 2 of Some u \<Rightarrow> u | None \<Rightarrow> '''')
         in if relayUrl \<noteq> '''' then (relayUrl, i) # groups_of_tags tags else groups_of_tags tags)
      else groups_of_tags tags)"

definition parseGroupList :: "nostr_event \<Rightarrow> (string \<times> string) list" where
  "parseGroupList e = groups_of_tags (ne_tags e)"

definition relay_fallback :: "string option \<Rightarrow> string list" where
  "relay_fallback fallbackRelay = (if truthy fallbackRelay then [the fallbackRelay] else [])"

definition resolveRecipientRelays ::
  "relay_client \<Rightarrow> string \<Rightarrow> string list \<Rightarrow> string option \<Rightarrow> string list" where
  "resolveRecipientRelays client recipientPubkey discoveryRelays fallbackRelay =
     (if discoveryRelays = [] then relay_fallback fallbackRelay
      else
        (let events = (case rc_query client discoveryRelays
               \<lparr>rf_kinds = [DM_RELAY_LIST_KIND], rf_authors = Some [toLowerCase recipientPubkey],
                rf_d = None, rf_h = None, rf_p = None, rf_since = None, rf_limit = Some 1\<rparr> of
               Inr es \<Rightarrow> es | Inl _ \<Rightarrow> [])
         in case events of
              [] \<Rightarrow> relay_fallback fallbackRelay
            | latest # _ \<Rightarrow>
                (let relays = parseRelayUrls latest
                 in if relays \<noteq> [] then relays else relay_fallback fallbackRelay)))"

section \<open>Relay URLs\<close>

text \<open>
  \<open>new URL(s)\<close> is a platform parser: it throws (\<open>None\<close>) or gives the components and the
  serialization.
\<close>

record parsed_url =
  pu_pathname :: string
  pu_username :: string
  pu_password :: string
  pu_toString :: string

definition strip_slashes :: "string \<Rightarrow> string" where
  "strip_slashes s = rev (dropWhile (\<lambda>c. c = CHR ''/'') (rev s))"

definition strip_slash :: "string \<Rightarrow> string" where
  "strip_slash s = (if s \<noteq> [] \<and> last s = CHR ''/'' then butlast s else s)"

definition normalizeRelayUrl :: "(string \<Rightarrow> parsed_url option) \<Rightarrow> string \<Rightarrow> string result" where
  "normalizeRelayUrl URL url =
     (case URL (strip_slashes (trim url)) of
        None \<Rightarrow> throw ''Invalid URL''
      | Some parsed \<Rightarrow>
          throw_if (pu_pathname parsed \<noteq> '''' \<and> pu_pathname parsed \<noteq> ''/'')
              (''relay URL must not include a path: '' @ url)
            (throw_if (pu_username parsed \<noteq> '''' \<or> pu_password parsed \<noteq> '''')
                (''relay URL must not include credentials: '' @ url)
              (ok (strip_slash (pu_toString parsed)))))"

definition assertSecureRelayUrl :: "(string \<Rightarrow> parsed_url option) \<Rightarrow> string \<Rightarrow> bool \<Rightarrow> unit result" where
  "assertSecureRelayUrl URL url allowInsecure =
     bind_result (normalizeRelayUrl URL url) (\<lambda>normalized.
       throw_if (startsWith normalized ''ws://'' \<and> \<not> allowInsecure)
           (''relay URL must use wss:// outside development: '' @ url)
         (throw_if (\<not> startsWith normalized ''ws://'' \<and> \<not> startsWith normalized ''wss://'')
             (''relay URL must use ws:// or wss://: '' @ url)
           (ok ())))"

text \<open>
  The NIP-11 document: \<open>fetch\<close> answers the address with a status and a body, or fails. The document
  is the JSON the relay chose; its supported NIPs are read when they are a list of numbers.
\<close>

definition relay_info_url :: "string \<Rightarrow> string" where
  "relay_info_url normalized =
     (if startsWith normalized ''ws:'' then ''http:'' @ drop 3 normalized
      else if startsWith normalized ''wss:'' then ''https:'' @ drop 4 normalized
      else normalized)"

definition fetchRelayInfo ::
  "(string \<Rightarrow> parsed_url option) \<Rightarrow> (string \<Rightarrow> (nat \<times> string) result) \<Rightarrow> string \<Rightarrow> json result" where
  "fetchRelayInfo URL fetch url =
     bind_result (normalizeRelayUrl URL url) (\<lambda>normalized.
     bind_result (fetch (relay_info_url normalized)) (\<lambda>(status, body).
       throw_if (\<not> (200 \<le> status \<and> status < 300)) (''relay information request failed ('' @ nat_str status @ '')'')
         (case json_parse body of None \<Rightarrow> throw ''invalid JSON'' | Some info \<Rightarrow> ok info)))"

definition relaySupportsNips :: "int list option option \<Rightarrow> int list \<Rightarrow> bool" where
  "relaySupportsNips info required =
     (case info of
        Some (Some nips) \<Rightarrow> list_all (\<lambda>nip. nip \<in> set nips) required
      | _ \<Rightarrow> False)"

section \<open>Channel state\<close>

datatype nip19_data =
    Naddr (na_identifier: "string option") (na_relays: "string list option")
  | Npub string
  | Nsec bytes
  | Nip19_other

record parsed_channel_ref =
  pc_groupId :: string
  pc_relayUrl :: "string option"

definition parseChannelRef :: "(string \<Rightarrow> nip19_data option) \<Rightarrow> string \<Rightarrow> parsed_channel_ref option" where
  "parseChannelRef nip19_decode input =
     (let trimmed = trim input
      in if trimmed = '''' then None
         else if startsWith trimmed ''naddr1'' then
           (case nip19_decode trimmed of
              Some (Naddr identifier relays) \<Rightarrow>
                (if \<not> truthy identifier then None
                 else Some \<lparr>pc_groupId = the identifier,
                            pc_relayUrl = (case relays of Some (r # _) \<Rightarrow> Some r | _ \<Rightarrow> None)\<rparr>)
            | _ \<Rightarrow> None)
         else if length trimmed > 256 then None
         else Some \<lparr>pc_groupId = trimmed, pc_relayUrl = None\<rparr>)"

definition fetchState ::
  "(nostr_event \<Rightarrow> bool option) \<Rightarrow> int \<Rightarrow> relay_client \<Rightarrow> string \<Rightarrow> string \<Rightarrow> int \<Rightarrow> string option
     \<Rightarrow> nostr_event list result" where
  "fetchState verifyEvent now client relayUrl groupId kind relaySelfPubkey =
     bind_result
       (rc_query client [relayUrl]
         \<lparr>rf_kinds = [kind], rf_authors = None, rf_d = Some [groupId], rf_h = None, rf_p = None,
          rf_since = None, rf_limit = Some 50\<rparr>)
       (\<lambda>events. ok (filter (\<lambda>e. validateGroupStateEvent verifyEvent now e groupId relaySelfPubkey) events))"

text \<open>
  The relay chooses the JSON of the metadata: a name or description that is truthy is taken as it
  is, so both fields are JSON values.
\<close>

record channel_state =
  cst_relayUrl :: string
  cst_groupId :: string
  cst_name :: json
  cst_about :: json
  cst_admins :: "string list"
  cst_members :: "string list"

definition meta_field :: "json option \<Rightarrow> string \<Rightarrow> json \<Rightarrow> json" where
  "meta_field meta k dflt =
     (case meta of
        None \<Rightarrow> dflt
      | Some v \<Rightarrow> (case jget k v of Some x \<Rightarrow> if json_truthy x then x else dflt | None \<Rightarrow> dflt))"

definition tagPubkeys :: "nostr_event list \<Rightarrow> string list" where
  "tagPubkeys events =
     set_of_array (map (\<lambda>t. the (tag_at t 1))
       (filter (\<lambda>t. tag_at t 0 = Some ''p'' \<and> truthy (tag_at t 1)) (concat (map ne_tags events))))"

definition loadChannelState ::
  "(nostr_event \<Rightarrow> bool option) \<Rightarrow> int \<Rightarrow> relay_client \<Rightarrow> string \<Rightarrow> string \<Rightarrow> string option
     \<Rightarrow> channel_state result" where
  "loadChannelState verifyEvent now client relayUrl groupId relaySelfPubkey =
     bind_result (fetchState verifyEvent now client relayUrl groupId NIP29_KIND_METADATA relaySelfPubkey) (\<lambda>metadata.
     bind_result (fetchState verifyEvent now client relayUrl groupId NIP29_KIND_ADMINS relaySelfPubkey) (\<lambda>admins.
     bind_result (fetchState verifyEvent now client relayUrl groupId NIP29_KIND_MEMBERS relaySelfPubkey) (\<lambda>members.
       let meta = json_parse (case metadata of e # _ \<Rightarrow> ne_content e | [] \<Rightarrow> [CHR 0x7B, CHR 0x7D])
       in ok \<lparr>cst_relayUrl = relayUrl, cst_groupId = groupId,
              cst_name = meta_field meta ''name'' (JStr (take 12 groupId)),
              cst_about = meta_field meta ''about'' (JStr ''''),
              cst_admins = tagPubkeys admins, cst_members = tagPubkeys members\<rparr>)))"

definition publishChannelMessage ::
  "relay_client \<Rightarrow> string \<Rightarrow> nostr_event \<Rightarrow> publish_result list result" where
  "publishChannelMessage client relayUrl e = rc_publish client [relayUrl] e"

section \<open>Normalized participant sets\<close>

lemma js_sort_string_sorted: "distinct xs \<Longrightarrow> sorted_wrt (<) (js_sort string_cmp xs)"
  by (rule js_sort_sorted_wrt) (auto simp: string_cmp_def)

lemma set_normalizeParticipants:
  "set (normalizeParticipants xs) = {p. isLowercaseHex64 p \<and> p \<in> toLowerCase ` set xs}"
  by (auto simp: normalizeParticipants_def)

lemma normalizeParticipants_sorted: "sorted_wrt (<) (normalizeParticipants xs)"
  by (simp add: normalizeParticipants_def js_sort_string_sorted)

lemma normalizeParticipants_distinct [simp]: "distinct (normalizeParticipants xs)"
  by (simp add: normalizeParticipants_def)

lemma sorted_string_unique:
  assumes "sorted_wrt (<) xs" "sorted_wrt (<) ys" "set xs = set (ys :: string list)"
  shows "xs = ys"
proof (rule sorted_wrt_strict_unique [OF assms(1,2)])
  have "distinct xs" "distinct ys" using assms(1,2) by (simp_all add: strict_sorted_iff)
  with assms(3) show "mset xs = mset ys" by (simp add: set_eq_iff_mset_eq_distinct)
qed auto

lemma normalizeParticipants_eq_iff:
  "normalizeParticipants xs = normalizeParticipants ys \<longleftrightarrow>
     set (normalizeParticipants xs) = set (normalizeParticipants ys)"
  by (metis normalizeParticipants_sorted sorted_string_unique)

lemma normalizeParticipants_idem [simp]:
  "normalizeParticipants (normalizeParticipants xs) = normalizeParticipants xs"
  by (subst normalizeParticipants_eq_iff) (auto simp: set_normalizeParticipants)

lemma normalizeParticipants_swap: "normalizeParticipants [a, b] = normalizeParticipants [b, a]"
  by (subst normalizeParticipants_eq_iff) (auto simp: set_normalizeParticipants)

lemma hex64_no_comma: "isLowercaseHex64 p \<Longrightarrow> p \<noteq> [] \<and> CHR '','' \<notin> set p"
  by (auto simp: isLowercaseHex64_def list_all_iff is_lower_hex_def is_digit_def char_le_iff)

lemma participantKey_eq_iff:
  "participantKey xs = participantKey ys \<longleftrightarrow> normalizeParticipants xs = normalizeParticipants ys"
proof
  assume "participantKey xs = participantKey ys"
  then have "join '','' (normalizeParticipants xs) = join '','' (normalizeParticipants ys)"
    by (simp add: participantKey_def)
  then show "normalizeParticipants xs = normalizeParticipants ys"
    by (rule join_inject) (auto simp: set_normalizeParticipants dest: hex64_no_comma)
qed (simp add: participantKey_def)

section \<open>Tags\<close>

lemma singleTag_from_Some:
  "singleTag_from (Some v) tags name = (if filter (\<lambda>t. tag_at t 0 = Some name) tags = [] then Some v else None)"
  by (induction tags) auto

lemma singleTag_eq:
  "singleTag tags name =
     (case dropWhile (\<lambda>t. tag_at t 1 = None) (filter (\<lambda>t. tag_at t 0 = Some name) tags) of
        [t] \<Rightarrow> tag_at t 1 | _ \<Rightarrow> None)"
  unfolding singleTag_def
proof (induction tags)
  case (Cons t tags)
  show ?case
  proof (cases "tag_at t 0 = Some name")
    case True
    show ?thesis
    proof (cases "tag_at t 1")
      case None
      with True Cons show ?thesis by simp
    next
      case (Some v)
      with True show ?thesis
        by (simp add: singleTag_from_Some split: list.splits)
    qed
  qed (use Cons in simp)
qed simp

lemma singleTag_single [simp]:
  "singleTag [[n, v]] name = (if n = name then Some v else None)"
  by (simp add: singleTag_def tag_at_def)

section \<open>Size of an own message\<close>

lemma eventSize_bound:
  assumes "isLowercaseHex64 (ne_pubkey e)" "0 \<le> ne_created_at e" "ne_created_at e < 10 ^ 12"
    and "ne_kind e = NIP29_KIND_MESSAGE" "ne_tags e = [[''h'', g]]"
    and "length g \<le> 256" "length (ne_content e) \<le> MAX_MESSAGE_BYTES"
  shows "eventSizeBytes e \<le> MAX_EVENT_BYTES"
proof -
  have pk: "length (quote (ne_pubkey e)) = 66"
    using assms(1) by (simp add: isLowercaseHex64_def length_quote_hex)
  have at: "length (jnum_str (Dec (ne_created_at e) 0)) \<le> 12"
    using length_stringify_nat [OF assms(2,3)] by simp
  have k: "length (jnum_str (Dec 9 0)) \<le> 1"
    using length_stringify_nat [of 9 1] by simp
  have z: "length (jnum_str (Dec 0 0)) \<le> 1"
    using length_stringify_nat [of 0 1] by simp
  have h: "length (quote ''h'') \<le> 8" using length_quote [of "''h''"] by simp
  have "length (quote g) \<le> 6 * 256 + 2" "length (quote (ne_content e)) \<le> 6 * 16384 + 2"
    using length_quote [of g] length_quote [of "ne_content e"] assms(6,7)
    by (simp_all add: MAX_MESSAGE_BYTES_def)
  with pk at k z h assms(4,5) show ?thesis
    by (simp add: eventSizeBytes_def tags_json_def NIP29_KIND_MESSAGE_def MAX_EVENT_BYTES_def)
qed

lemma set_circleChatParticipants:
  "set (circleChatParticipants owner members) =
     {p. isLowercaseHex64 p \<and>
         (p = toLowerCase owner \<or>
          (\<exists>m\<in>set members. ccm_membership_state m \<noteq> Some Pending \<and> p = toLowerCase (ccm_pubkey m)))}"
proof -
  let ?act = "filter (\<lambda>p. p \<noteq> toLowerCase owner) (map (\<lambda>m. toLowerCase (ccm_pubkey m))
      (filter (\<lambda>m. ccm_membership_state m \<noteq> Some Pending) members))"
  have "toLowerCase ` set ?act = set ?act" by (force simp: image_iff)
  then show ?thesis
    by (auto simp: circleChatParticipants_def Let_def set_normalizeParticipants)
qed

section \<open>Properties\<close>

text \<open>
  A room's identity is exactly its set of participants. Two participant lists get the same
  room key if and only if they name the same set of valid public keys, whatever the order, letter
  case and repetitions; a direct conversation has the same id from both ends, and deriving the
  id from the normalized list changes nothing.
\<close>

theorem room_identity:
  "(participantKey xs = participantKey ys \<longleftrightarrow>
      {p. isLowercaseHex64 p \<and> p \<in> toLowerCase ` set xs} = {p. isLowercaseHex64 p \<and> p \<in> toLowerCase ` set ys})
   \<and> directConversationId sha256 encode a b = directConversationId sha256 encode b a
   \<and> roomConversationId sha256 encode (normalizeParticipants xs) = roomConversationId sha256 encode xs"
proof (intro conjI)
  show "participantKey xs = participantKey ys \<longleftrightarrow>
      {p. isLowercaseHex64 p \<and> p \<in> toLowerCase ` set xs} = {p. isLowercaseHex64 p \<and> p \<in> toLowerCase ` set ys}"
    by (simp only: participantKey_eq_iff normalizeParticipants_eq_iff set_normalizeParticipants)
qed (simp_all add: directConversationId_def roomConversationId_def conversationIdFor_def
    participantKey_def normalizeParticipants_swap [of a b])

text \<open>
  A Circle's chat room holds the owner and exactly the members whose membership is not
  pending, each valid key once; so a pending invitation never enters the room and accepting or
  removing a member changes its participant set.
\<close>

theorem circle_room_roster:
  "distinct (circleChatParticipants owner members)
   \<and> set (circleChatParticipants owner members) =
       {p. isLowercaseHex64 p \<and>
           (p = toLowerCase owner \<or>
            (\<exists>m\<in>set members. ccm_membership_state m \<noteq> Some Pending \<and> p = toLowerCase (ccm_pubkey m)))}"
  by (simp add: set_circleChatParticipants) (simp add: circleChatParticipants_def Let_def)

text \<open>
  Every channel message the client composes for a group id of at most 256 characters passes
  the client's own inbound validation once signed: the content bound keeps the serialized event
  below the event size limit whatever characters it holds.
\<close>

theorem own_channel_message_accepted:
  assumes "createChannelMessage tm pk groupId content = ok m"
    and "length groupId \<le> 256" "0 \<le> tm" "tm < 10 ^ 12" "\<bar>now - tm\<bar> \<le> MAX_CREATED_AT_SKEW_SECONDS"
    and "ne_kind e = nt_kind (chm_template m)" "ne_created_at e = nt_created_at (chm_template m)"
      "ne_tags e = nt_tags (chm_template m)" "ne_content e = nt_content (chm_template m)"
    and "isLowercaseHex64 (ne_pubkey e)" "verifyEvent e = Some True"
  shows "validateChannelMessage verifyEvent now e groupId"
proof -
  from assms(1) have m: "chm_template m = \<lparr>nt_kind = NIP29_KIND_MESSAGE, nt_created_at = tm,
      nt_tags = [[''h'', groupId]], nt_content = content\<rparr>" "validMessageContent content"
    by (auto simp: createChannelMessage_def)
  with assms have "eventSizeBytes e \<le> MAX_EVENT_BYTES"
    by (intro eventSize_bound) (simp_all add: validMessageContent_def)
  with assms m show ?thesis
    by (simp add: validateChannelMessage_def withinEventBounds_def isSignatureValid_def MAX_TAGS_def)
qed

theorem own_channel_message_accepted_witness:
  "validateChannelMessage (\<lambda>e. Some True) 1700000100
     \<lparr>ne_id = ''x'', ne_pubkey = replicate 64 (CHR ''a''), ne_created_at = 1700000000, ne_kind = 9,
      ne_tags = [[''h'', ''town'']], ne_content = ''road closed'', ne_sig = ''s''\<rparr> ''town''"
  by (rule own_channel_message_accepted [where tm = 1700000000 and content = "''road closed''" and pk = "''''"
        and m = "\<lparr>chm_groupId = ''town'', chm_template = \<lparr>nt_kind = 9, nt_created_at = 1700000000,
           nt_tags = [[''h'', ''town'']], nt_content = ''road closed''\<rparr>\<rparr>"])
    (simp_all add: createChannelMessage_def validMessageContent_def MAX_MESSAGE_BYTES_def
      NIP29_KIND_MESSAGE_def MAX_CREATED_AT_SKEW_SECONDS_def isLowercaseHex64_def list_all_iff
      is_lower_hex_def is_digit_def char_le_iff)

text \<open>
  \<open>singleTag\<close> returns a value exactly when, after the leading tags of that name that carry no
  value, one tag of that name is left; a tag without value does not count as a duplicate.
\<close>

theorem single_tag_exact:
  "singleTag tags name =
     (case dropWhile (\<lambda>t. length t < 2) (filter (\<lambda>t. t \<noteq> [] \<and> hd t = name) tags) of
        [t] \<Rightarrow> Some (t ! 1) | _ \<Rightarrow> None)"
proof -
  have hd: "(\<lambda>t. tag_at t 0 = Some name) = (\<lambda>t. t \<noteq> [] \<and> hd t = name)"
    by (auto simp: tag_at_def fun_eq_iff hd_conv_nth)
  have val: "(\<lambda>t. tag_at t 1 = None) = (\<lambda>t. length t < 2)"
    by (auto simp: tag_at_def fun_eq_iff)
  have tag: "tag_at t 1 = Some (t ! 1)" if "dropWhile (\<lambda>t. length t < 2) xs = [t]" for t xs
    using that hd_dropWhile [of "\<lambda>t. length t < 2" xs] by (auto simp: tag_at_def)
  show ?thesis unfolding singleTag_eq hd val
    by (simp add: tag del: dropWhile_eq_Nil_conv One_nat_def split: list.split)
qed

text \<open>
  Channel state is only taken from events of the last two days: when every state event the
  relay has is older, loading the channel gives the default name, no description and empty admin
  and member lists, however valid those events are.
\<close>

theorem old_channel_state_dropped:
  assumes "\<And>f. rc_query client [relayUrl] f = ok (events f)"
    and "\<And>f e. e \<in> set (events f) \<Longrightarrow> ne_created_at e < now - MAX_CREATED_AT_SKEW_SECONDS"
  shows "loadChannelState verifyEvent now client relayUrl groupId self =
    ok \<lparr>cst_relayUrl = relayUrl, cst_groupId = groupId, cst_name = JStr (take 12 groupId), cst_about = JStr '''',
        cst_admins = [], cst_members = []\<rparr>"
proof -
  have "\<not> validateGroupStateEvent verifyEvent now e groupId self" if "e \<in> set (events f)" for e f
  proof -
    have "MAX_CREATED_AT_SKEW_SECONDS < \<bar>now - ne_created_at e\<bar>" using assms(2) [OF that] by linarith
    then show ?thesis by (simp add: validateGroupStateEvent_def withinEventBounds_def)
  qed
  then have fetch: "fetchState verifyEvent now client relayUrl groupId kind self = ok []" for kind
    by (simp add: fetchState_def assms(1) filter_empty_conv)
  have "json_parse (stringify (JObj [])) = Some (JObj [])" by (rule json_roundtrip) simp
  then have "json_parse [CHR 0x7B, CHR 0x7D] = Some (JObj [])" by simp
  then show ?thesis
    by (simp add: loadChannelState_def fetch Let_def meta_field_def jget_def tagPubkeys_def set_of_array_def)
qed

definition old_state_event :: nostr_event where
  "old_state_event = \<lparr>ne_id = ''i'', ne_pubkey = replicate 64 (CHR ''a''), ne_created_at = 1000, ne_kind = 39000,
     ne_tags = [[''d'', ''town'']], ne_content = [CHR 0x7B, CHR 0x7D], ne_sig = ''s''\<rparr>"

theorem old_channel_state_dropped_witness:
  "loadChannelState (\<lambda>e. Some True) 1700000000
     \<lparr>rc_publish = (\<lambda>r e. ok []), rc_query = (\<lambda>r f. ok [old_state_event])\<rparr> ''wss://h'' ''town'' None =
   ok \<lparr>cst_relayUrl = ''wss://h'', cst_groupId = ''town'', cst_name = JStr ''town'', cst_about = JStr '''',
       cst_admins = [], cst_members = []\<rparr>"
proof -
  have "loadChannelState (\<lambda>e. Some True) 1700000000
     \<lparr>rc_publish = (\<lambda>r e. ok []), rc_query = (\<lambda>r f. ok [old_state_event])\<rparr> ''wss://h'' ''town'' None =
   ok \<lparr>cst_relayUrl = ''wss://h'', cst_groupId = ''town'', cst_name = JStr (take 12 ''town''), cst_about = JStr '''',
       cst_admins = [], cst_members = []\<rparr>"
    by (rule old_channel_state_dropped [where events = "\<lambda>f. [old_state_event]"])
      (simp_all add: old_state_event_def MAX_CREATED_AT_SKEW_SECONDS_def)
  then show ?thesis by simp
qed

end
