(* ===== verification/GiftWrap.thy ===== *)
theory GiftWrap
  imports NostrEvents
begin

text \<open>
  Encrypted messaging: the NIP-59 rumor, seal and gift wrap (\<open>services/chat/nip59.ts\<close>), NIP-17
  direct and group messages (\<open>nip17.ts\<close>), the inbox (\<open>inbox.ts\<close>) and sending (\<open>dmSend.ts\<close>).
  nostr-tools is an argument (\<open>nostr_tools\<close>), and so are the clock and the random values
  (\<open>wrap_entropy\<close>). The lemmas show that a message built for a room is read back by every
  participant, with the sender's room id, and that what is accepted is authenticated by the
  seal's signature.
\<close>

section \<open>Rumors and JSON\<close>

record unsigned_event =
  ue_pubkey :: string
  ue_kind :: int
  ue_created_at :: int
  ue_tags :: "string list list"
  ue_content :: string

record rumor = unsigned_event +
  ru_id :: string

definition rumor_json :: "rumor \<Rightarrow> json" where
  "rumor_json r = JObj [(''pubkey'', JStr (ue_pubkey r)), (''kind'', JInt (ue_kind r)),
     (''created_at'', JInt (ue_created_at r)), (''tags'', tags_json (ue_tags r)),
     (''content'', JStr (ue_content r)), (''id'', JStr (ru_id r))]"

definition event_json :: "nostr_event \<Rightarrow> json" where
  "event_json e = JObj [(''kind'', JInt (ne_kind e)), (''created_at'', JInt (ne_created_at e)),
     (''tags'', tags_json (ne_tags e)), (''content'', JStr (ne_content e)),
     (''pubkey'', JStr (ne_pubkey e)), (''id'', JStr (ne_id e)), (''sig'', JStr (ne_sig e))]"

text \<open>
  The shape checks nostr-tools makes on a parsed object before it hashes or verifies it: an object
  that fails them does not verify and has no hash.
\<close>

definition js_int :: "json \<Rightarrow> int option" where
  "js_int v = (case v of
      JNum x \<Rightarrow> (if mantissa x mod 10 ^ scale x = 0 then Some (mantissa x div 10 ^ scale x) else None)
    | _ \<Rightarrow> None)"

definition js_str :: "json \<Rightarrow> string option" where
  "js_str v = (case v of JStr s \<Rightarrow> Some s | _ \<Rightarrow> None)"

fun js_strs :: "json list \<Rightarrow> string list option" where
  "js_strs [] = Some []"
| "js_strs (v # vs) = (case (js_str v, js_strs vs) of (Some s, Some ss) \<Rightarrow> Some (s # ss) | _ \<Rightarrow> None)"

fun js_tag_list :: "json list \<Rightarrow> string list list option" where
  "js_tag_list [] = Some []"
| "js_tag_list (v # vs) =
     (case v of
        JArr xs \<Rightarrow> (case (js_strs xs, js_tag_list vs) of (Some t, Some ts) \<Rightarrow> Some (t # ts) | _ \<Rightarrow> None)
      | _ \<Rightarrow> None)"

definition js_tags :: "json \<Rightarrow> string list list option" where
  "js_tags v = (case v of JArr xs \<Rightarrow> js_tag_list xs | _ \<Rightarrow> None)"

definition field :: "(json \<Rightarrow> 'a option) \<Rightarrow> string \<Rightarrow> json \<Rightarrow> 'a option" where
  "field f k v = (case jget k v of Some x \<Rightarrow> f x | None \<Rightarrow> None)"

definition decode_unsigned :: "json \<Rightarrow> unsigned_event option" where
  "decode_unsigned v =
     (case (field js_str ''pubkey'' v, field js_int ''kind'' v, field js_int ''created_at'' v,
            field js_tags ''tags'' v, field js_str ''content'' v) of
        (Some p, Some k, Some c, Some t, Some m) \<Rightarrow>
          Some \<lparr>ue_pubkey = p, ue_kind = k, ue_created_at = c, ue_tags = t, ue_content = m\<rparr>
      | _ \<Rightarrow> None)"

definition decode_event :: "json \<Rightarrow> nostr_event option" where
  "decode_event v =
     (case (decode_unsigned v, field js_str ''id'' v, field js_str ''sig'' v) of
        (Some u, Some i, Some s) \<Rightarrow>
          Some \<lparr>ne_id = i, ne_pubkey = ue_pubkey u, ne_created_at = ue_created_at u, ne_kind = ue_kind u,
                ne_tags = ue_tags u, ne_content = ue_content u, ne_sig = s\<rparr>
      | _ \<Rightarrow> None)"

section \<open>nostr-tools, clock and randomness\<close>

record nostr_tools =
  tl_verifyEvent :: "nostr_event \<Rightarrow> bool option"
  tl_getEventHash :: "unsigned_event \<Rightarrow> string"
  tl_getPublicKey :: "bytes \<Rightarrow> string"
  tl_finalizeEvent :: "nostr_template \<Rightarrow> bytes \<Rightarrow> nostr_event"
  tl_getConversationKey :: "bytes \<Rightarrow> string \<Rightarrow> bytes result"
  tl_nip44_encrypt :: "bytes \<Rightarrow> string \<Rightarrow> bytes \<Rightarrow> string result"
  tl_nip44_decrypt :: "string \<Rightarrow> bytes \<Rightarrow> string result"

record wrap_entropy =
  we_now_ms :: int
  we_seal_random :: real
  we_wrap_random :: real
  we_ephemeral :: bytes
  we_nonce :: bytes

section \<open>NIP-59\<close>

definition NIP59_KIND_SEAL :: int where "NIP59_KIND_SEAL = 13"
definition NIP59_KIND_GIFT_WRAP :: int where "NIP59_KIND_GIFT_WRAP = 1059"
definition TWO_DAYS :: real where "TWO_DAYS = 2 * 24 * 60 * 60"

definition randomNow :: "int \<Rightarrow> real \<Rightarrow> int" where
  "randomNow now_ms rand = \<lfloor>of_int now_ms / 1000 - rand * TWO_DAYS\<rfloor>"

text \<open>\<open>now\<close> is \<open>Math.floor(Date.now() / 1000)\<close>; kind, tags, content and \<open>created_at\<close> are the event argument.\<close>

definition createRumor ::
  "nostr_tools \<Rightarrow> int \<Rightarrow> string \<Rightarrow> int \<Rightarrow> string list list option \<Rightarrow> string option \<Rightarrow> int option \<Rightarrow> rumor" where
  "createRumor lib now senderPubkey kind tags content created_at =
     (let u = \<lparr>ue_pubkey = senderPubkey, ue_kind = kind,
               ue_created_at = (case created_at of Some c \<Rightarrow> c | None \<Rightarrow> now),
               ue_tags = (case tags of Some t \<Rightarrow> t | None \<Rightarrow> []),
               ue_content = (case content of Some c \<Rightarrow> c | None \<Rightarrow> '''')\<rparr>
      in \<lparr>ue_pubkey = ue_pubkey u, ue_kind = ue_kind u, ue_created_at = ue_created_at u,
          ue_tags = ue_tags u, ue_content = ue_content u, ru_id = tl_getEventHash lib u\<rparr>)"

definition createSeal :: "nostr_signer \<Rightarrow> wrap_entropy \<Rightarrow> rumor \<Rightarrow> string \<Rightarrow> nostr_event result" where
  "createSeal signer ent rumor recipientPubkey =
     bind_result (sg_nip44Encrypt signer recipientPubkey (stringify (rumor_json rumor))) (\<lambda>content.
       sg_signEvent signer
         \<lparr>nt_kind = NIP59_KIND_SEAL, nt_created_at = randomNow (we_now_ms ent) (we_seal_random ent),
          nt_tags = [], nt_content = content\<rparr>)"

definition createWrap :: "nostr_tools \<Rightarrow> wrap_entropy \<Rightarrow> nostr_event \<Rightarrow> string \<Rightarrow> nostr_event result" where
  "createWrap lib ent seal recipientPubkey =
     bind_result (tl_getConversationKey lib (we_ephemeral ent) recipientPubkey) (\<lambda>key.
     bind_result (tl_nip44_encrypt lib (we_nonce ent) (stringify (event_json seal)) key) (\<lambda>content.
       ok (tl_finalizeEvent lib
         \<lparr>nt_kind = NIP59_KIND_GIFT_WRAP, nt_created_at = randomNow (we_now_ms ent) (we_wrap_random ent),
          nt_tags = [[''p'', recipientPubkey]], nt_content = content\<rparr> (we_ephemeral ent))))"

text \<open>Every exception inside \<open>unwrapGiftWrap\<close> is caught and gives null.\<close>

definition from_ok :: "'a result \<Rightarrow> 'a option" where
  "from_ok r = (case r of Inr x \<Rightarrow> Some x | Inl _ \<Rightarrow> None)"

definition unwrapGiftWrap :: "nostr_tools \<Rightarrow> nostr_signer \<Rightarrow> nostr_event \<Rightarrow> rumor option" where
  "unwrapGiftWrap lib signer wrap =
     (if tl_verifyEvent lib wrap \<noteq> Some True \<or> ne_kind wrap \<noteq> NIP59_KIND_GIFT_WRAP then None
      else Option.bind (from_ok (sg_pubkey signer)) (\<lambda>myPubkey.
        if singleTag (ne_tags wrap) ''p'' \<noteq> Some myPubkey then None
        else Option.bind (from_ok (sg_nip44Decrypt signer (ne_pubkey wrap) (ne_content wrap))) (\<lambda>sealRaw.
          Option.bind (json_parse sealRaw) (\<lambda>sealJson.
          Option.bind (decode_event sealJson) (\<lambda>seal.
            if tl_verifyEvent lib seal \<noteq> Some True \<or> ne_kind seal \<noteq> NIP59_KIND_SEAL \<or> length (ne_tags seal) \<noteq> 0
            then None
            else Option.bind (from_ok (sg_nip44Decrypt signer (ne_pubkey seal) (ne_content seal))) (\<lambda>rumorRaw.
              Option.bind (json_parse rumorRaw) (\<lambda>rumorJson.
              Option.bind (decode_unsigned rumorJson) (\<lambda>u.
                if \<not> isLowercaseHex64 (ue_pubkey u) \<or> ue_pubkey u \<noteq> ne_pubkey seal then None
                else Some \<lparr>ue_pubkey = ue_pubkey u, ue_kind = ue_kind u, ue_created_at = ue_created_at u,
                       ue_tags = ue_tags u, ue_content = ue_content u, ru_id = tl_getEventHash lib u\<rparr>))))))))"

section \<open>NIP-17\<close>

definition NIP17_DIRECT_KIND :: int where "NIP17_DIRECT_KIND = 14"

record unwrapped_message =
  um_rumor :: rumor
  um_participants :: "string list"

definition participantSet :: "rumor \<Rightarrow> string list option" where
  "participantSet rumor =
     (if ue_kind rumor \<noteq> NIP17_DIRECT_KIND then None
      else if length (ue_tags rumor) > MAX_ROOM_PARTICIPANTS then None
      else
        (let others = map (\<lambda>t. tag_at t 1) (filter (\<lambda>t. tag_at t 0 = Some ''p'') (ue_tags rumor))
         in if others = [] \<or> list_ex (\<lambda>p. case p of None \<Rightarrow> True | Some q \<Rightarrow> \<not> isLowercaseHex64 q) others then None
            else if length (set_of_array others) \<noteq> length others then None
            else Some (normalizeParticipants (ue_pubkey rumor # map the others))))"

text \<open>The loop over recipients; wrap number \<open>i\<close> draws its random values from \<open>ent i\<close>.\<close>

fun wrapRumor ::
  "nostr_tools \<Rightarrow> (nat \<Rightarrow> wrap_entropy) \<Rightarrow> nostr_signer \<Rightarrow> rumor \<Rightarrow> nat \<Rightarrow> string list \<Rightarrow> nostr_event list result" where
  "wrapRumor lib ent signer rumor i [] = ok []"
| "wrapRumor lib ent signer rumor i (recipient # rest) =
     bind_result (createSeal signer (ent i) rumor recipient) (\<lambda>seal.
     bind_result (createWrap lib (ent i) seal recipient) (\<lambda>wrap.
     bind_result (wrapRumor lib ent signer rumor (Suc i) rest) (\<lambda>wraps. ok (wrap # wraps))))"

definition createDirectMessage ::
  "nostr_tools \<Rightarrow> (nat \<Rightarrow> wrap_entropy) \<Rightarrow> int \<Rightarrow> nostr_signer \<Rightarrow> string \<Rightarrow> string \<Rightarrow> nostr_event list result" where
  "createDirectMessage lib ent now signer recipientPubkey content =
     throw_if (\<not> validMessageContent content) ''invalid message content''
     (throw_if (\<not> isLowercaseHex64 recipientPubkey) ''invalid recipient public key''
     (bind_result (sg_pubkey signer) (\<lambda>senderPubkey.
       throw_if (recipientPubkey = toLowerCase senderPubkey) ''cannot message yourself''
         (let rumor = createRumor lib now senderPubkey NIP17_DIRECT_KIND
                (Some [[''p'', toLowerCase recipientPubkey]]) (Some content) None
          in wrapRumor lib ent signer rumor 0 [senderPubkey, toLowerCase recipientPubkey]))))"

definition createGroupMessage ::
  "nostr_tools \<Rightarrow> (nat \<Rightarrow> wrap_entropy) \<Rightarrow> int \<Rightarrow> nostr_signer \<Rightarrow> string list \<Rightarrow> string \<Rightarrow> nostr_event list result" where
  "createGroupMessage lib ent now signer recipients content =
     throw_if (\<not> validMessageContent content) ''invalid message content''
     (bind_result (sg_pubkey signer) (\<lambda>senderPubkey.
       let participants = normalizeParticipants (senderPubkey # recipients)
       in throw_if (length participants > MAX_ROOM_PARTICIPANTS) ''room has too many participants''
          (throw_if (length participants < 2) ''room needs at least one other participant''
            (let rumor = createRumor lib now senderPubkey NIP17_DIRECT_KIND
                   (Some (map (\<lambda>p. [''p'', p]) participants)) (Some content) None
             in wrapRumor lib ent signer rumor 0 participants))))"

text \<open>
  \<open>unwrapMessage\<close>: null is \<open>ok None\<close>; the second \<open>signer.pubkey()\<close> is outside the try block and
  may throw.
\<close>

definition unwrapMessage :: "nostr_tools \<Rightarrow> nostr_signer \<Rightarrow> nostr_event \<Rightarrow> unwrapped_message option result" where
  "unwrapMessage lib signer wrap =
     (case unwrapGiftWrap lib signer wrap of
        None \<Rightarrow> ok None
      | Some rumor \<Rightarrow>
          if \<not> validMessageContent (ue_content rumor) then ok None
          else
            (case participantSet rumor of
               None \<Rightarrow> ok None
             | Some participants \<Rightarrow>
                 bind_result (sg_pubkey signer) (\<lambda>myPubkey.
                   if myPubkey \<notin> set participants then ok None
                   else ok (Some \<lparr>um_rumor = rumor, um_participants = participants\<rparr>))))"

section \<open>Inbox\<close>

definition NIP17_INBOX_KIND :: int where "NIP17_INBOX_KIND = 1059"

record processed_inbox_message =
  pm_conversationId :: string
  pm_participants :: "string list"
  pm_senderPubkey :: string
  pm_content :: string
  pm_created_at :: int
  pm_rumorId :: string
  pm_wrapId :: string

definition inboxFilter :: "string \<Rightarrow> relay_filter" where
  "inboxFilter pubkey =
     \<lparr>rf_kinds = [NIP17_INBOX_KIND], rf_authors = None, rf_d = None, rf_h = None,
      rf_p = Some [toLowerCase pubkey], rf_since = None, rf_limit = None\<rparr>"

text \<open>\<open>isSeen\<close> and \<open>markSeen\<close> are the caller's callbacks over its store \<open>'s\<close>.\<close>

definition processGiftWrap ::
  "nostr_tools \<Rightarrow> (bytes \<Rightarrow> bytes) \<Rightarrow> (string \<Rightarrow> bytes) \<Rightarrow> nostr_signer \<Rightarrow> nostr_event
     \<Rightarrow> ('s \<Rightarrow> string \<Rightarrow> bool) \<Rightarrow> ('s \<Rightarrow> string \<Rightarrow> 's) \<Rightarrow> 's
     \<Rightarrow> ('s \<times> processed_inbox_message option) result" where
  "processGiftWrap lib sha256 encode signer wrap isSeen markSeen s =
     (if ne_kind wrap \<noteq> NIP17_INBOX_KIND then ok (s, None)
      else if isSeen s (ne_id wrap) then ok (s, None)
      else bind_result (unwrapMessage lib signer wrap) (\<lambda>unwrapped.
        case unwrapped of
          None \<Rightarrow> ok (s, None)
        | Some u \<Rightarrow>
            (let conversationId = roomConversationId sha256 encode (um_participants u);
                 s' = markSeen s (ne_id wrap)
             in ok (s', Some \<lparr>pm_conversationId = conversationId, pm_participants = um_participants u,
                      pm_senderPubkey = ue_pubkey (um_rumor u), pm_content = ue_content (um_rumor u),
                      pm_created_at = ue_created_at (um_rumor u), pm_rumorId = ru_id (um_rumor u),
                      pm_wrapId = ne_id wrap\<rparr>))))"

section \<open>Sending\<close>

record sent_message =
  sm_wraps :: "nostr_event list"
  sm_conversationId :: string
  sm_participants :: "string list"

definition sendDirectMessage ::
  "nostr_tools \<Rightarrow> (bytes \<Rightarrow> bytes) \<Rightarrow> (string \<Rightarrow> bytes) \<Rightarrow> (nat \<Rightarrow> wrap_entropy) \<Rightarrow> int
     \<Rightarrow> nostr_signer \<Rightarrow> string \<Rightarrow> string \<Rightarrow> sent_message result" where
  "sendDirectMessage lib sha256 encode ent now signer recipientPubkey content =
     bind_result (createDirectMessage lib ent now signer recipientPubkey content) (\<lambda>wraps.
     bind_result (sg_pubkey signer) (\<lambda>myPubkey.
       ok \<lparr>sm_wraps = wraps,
           sm_conversationId = directConversationId sha256 encode myPubkey recipientPubkey,
           sm_participants = normalizeParticipants [myPubkey, recipientPubkey]\<rparr>))"

definition sendGroupMessage ::
  "nostr_tools \<Rightarrow> (bytes \<Rightarrow> bytes) \<Rightarrow> (string \<Rightarrow> bytes) \<Rightarrow> (nat \<Rightarrow> wrap_entropy) \<Rightarrow> int
     \<Rightarrow> nostr_signer \<Rightarrow> string list \<Rightarrow> string \<Rightarrow> sent_message result" where
  "sendGroupMessage lib sha256 encode ent now signer recipients content =
     bind_result (createGroupMessage lib ent now signer recipients content) (\<lambda>wraps.
     bind_result (sg_pubkey signer) (\<lambda>myPubkey.
       let participants = normalizeParticipants (myPubkey # recipients)
       in ok \<lparr>sm_wraps = wraps, sm_conversationId = roomConversationId sha256 encode participants,
              sm_participants = participants\<rparr>))"

fun wrapsByRecipient_from :: "(string \<times> nostr_event) list \<Rightarrow> nostr_event list \<Rightarrow> (string \<times> nostr_event) list" where
  "wrapsByRecipient_from m [] = m"
| "wrapsByRecipient_from m (wrap # wraps) =
     (let recipient = (case find (\<lambda>t. tag_at t 0 = Some ''p'') (ne_tags wrap) of Some t \<Rightarrow> tag_at t 1 | None \<Rightarrow> None)
      in wrapsByRecipient_from (if truthy recipient then map_set m (the recipient) wrap else m) wraps)"

definition wrapsByRecipient :: "nostr_event list \<Rightarrow> (string \<times> nostr_event) list" where
  "wrapsByRecipient wraps = wrapsByRecipient_from [] wraps"

section \<open>JSON round trips\<close>

lemma js_int_JInt [simp]: "js_int (JInt n) = Some n"
  by (simp add: js_int_def)

lemma js_str_JStr [simp]: "js_str (JStr s) = Some s"
  by (simp add: js_str_def)

lemma js_strs_map [simp]: "js_strs (map JStr ss) = Some ss"
  by (induction ss) auto

lemma js_tags_json [simp]: "js_tags (tags_json tags) = Some tags"
  by (simp add: js_tags_def tags_json_def, induction tags) auto

lemma jwf_tags [simp]: "jwf (tags_json tags)"
  by (auto simp: tags_json_def list_all_iff)

lemma field_JObj [simp]:
  "field f k (JObj ((k', v) # kvs)) = (if k' = k then f v else field f k (JObj kvs))"
  by (simp add: field_def jget_def)

lemma decode_rumor_json: "decode_unsigned (rumor_json r) = Some (unsigned_event.truncate r)"
  by (simp add: decode_unsigned_def rumor_json_def unsigned_event.defs)

lemma decode_event_json: "decode_event (event_json e) = Some e"
  by (simp add: decode_event_def decode_unsigned_def event_json_def)

lemma rumor_json_roundtrip: "json_parse (stringify (rumor_json r)) = Some (rumor_json r)"
  by (rule json_roundtrip) (simp add: rumor_json_def)

lemma event_json_roundtrip: "json_parse (stringify (event_json e)) = Some (event_json e)"
  by (rule json_roundtrip) (simp add: event_json_def)

section \<open>Laws of the cryptographic interface\<close>

text \<open>
  What the code relies on: a signer signs under its own key and keeps the template, a finalized
  event verifies under the key it was signed with, and \<open>nip44\<close> decryption by the addressee undoes
  encryption.
\<close>

definition signs_as :: "nostr_tools \<Rightarrow> nostr_signer \<Rightarrow> string \<Rightarrow> bool" where
  "signs_as lib S p \<longleftrightarrow>
     sg_pubkey S = ok p \<and> isLowercaseHex64 p
     \<and> (\<forall>t e. sg_signEvent S t = ok e \<longrightarrow>
          ne_pubkey e = p \<and> ne_kind e = nt_kind t \<and> ne_created_at e = nt_created_at t
          \<and> ne_tags e = nt_tags t \<and> ne_content e = nt_content t \<and> tl_verifyEvent lib e = Some True)"

definition finalizes :: "nostr_tools \<Rightarrow> bool" where
  "finalizes lib \<longleftrightarrow>
     (\<forall>t sk. let e = tl_finalizeEvent lib t sk
        in ne_pubkey e = tl_getPublicKey lib sk \<and> ne_kind e = nt_kind t \<and> ne_created_at e = nt_created_at t
           \<and> ne_tags e = nt_tags t \<and> ne_content e = nt_content t \<and> tl_verifyEvent lib e = Some True)"

definition reads_from :: "nostr_tools \<Rightarrow> nostr_signer \<Rightarrow> string \<Rightarrow> nostr_signer \<Rightarrow> string \<Rightarrow> bool" where
  "reads_from lib S pS R pR \<longleftrightarrow>
     sg_pubkey R = ok pR
     \<and> (\<forall>m c. sg_nip44Encrypt S pR m = ok c \<longrightarrow> sg_nip44Decrypt R pS c = ok m)
     \<and> (\<forall>sk key n m c. tl_getConversationKey lib sk pR = ok key \<longrightarrow> tl_nip44_encrypt lib n m key = ok c
          \<longrightarrow> sg_nip44Decrypt R (tl_getPublicKey lib sk) c = ok m)"

lemma from_ok_simps [simp]: "from_ok (Inr x) = Some x" "from_ok (Inl e) = None"
  by (simp_all add: from_ok_def)

lemma unwrap_wrap:
  assumes laws: "signs_as lib S pS" "finalizes lib" "reads_from lib S pS R pR"
    and rumor: "ue_pubkey rumor = pS" "ru_id rumor = tl_getEventHash lib (unsigned_event.truncate rumor)"
    and seal: "createSeal S ent rumor pR = ok seal" and wrap: "createWrap lib ent seal pR = ok w"
  shows "unwrapGiftWrap lib R w = Some rumor"
    and "ne_kind w = NIP59_KIND_GIFT_WRAP" "ne_tags w = [[''p'', pR]]"
proof -
  from seal obtain c where c: "sg_nip44Encrypt S pR (stringify (rumor_json rumor)) = ok c"
    "sg_signEvent S \<lparr>nt_kind = NIP59_KIND_SEAL, nt_created_at = randomNow (we_now_ms ent) (we_seal_random ent),
       nt_tags = [], nt_content = c\<rparr> = ok seal"
    by (auto simp: createSeal_def bind_result_ok_iff)
  with laws have s: "ne_pubkey seal = pS" "ne_kind seal = NIP59_KIND_SEAL" "ne_tags seal = []"
      "ne_content seal = c" "tl_verifyEvent lib seal = Some True"
    by (auto simp: signs_as_def)
  from wrap obtain key d where d: "tl_getConversationKey lib (we_ephemeral ent) pR = ok key"
      "tl_nip44_encrypt lib (we_nonce ent) (stringify (event_json seal)) key = ok d"
      "w = tl_finalizeEvent lib \<lparr>nt_kind = NIP59_KIND_GIFT_WRAP,
          nt_created_at = randomNow (we_now_ms ent) (we_wrap_random ent),
          nt_tags = [[''p'', pR]], nt_content = d\<rparr> (we_ephemeral ent)"
    by (auto simp: createWrap_def bind_result_ok_iff)
  with laws(2) have w: "ne_pubkey w = tl_getPublicKey lib (we_ephemeral ent)" "ne_kind w = NIP59_KIND_GIFT_WRAP"
      "ne_tags w = [[''p'', pR]]" "ne_content w = d" "tl_verifyEvent lib w = Some True"
    by (auto simp: finalizes_def Let_def)
  have dec: "sg_pubkey R = ok pR" "sg_nip44Decrypt R (ne_pubkey w) (ne_content w) = ok (stringify (event_json seal))"
      "sg_nip44Decrypt R (ne_pubkey seal) (ne_content seal) = ok (stringify (rumor_json rumor))"
    using laws(3) c(1) d(1,2) s w by (auto simp: reads_from_def)
  have "isLowercaseHex64 pS" using laws(1) by (simp add: signs_as_def)
  with dec s w rumor show "unwrapGiftWrap lib R w = Some rumor"
    by (simp add: unwrapGiftWrap_def event_json_roundtrip rumor_json_roundtrip decode_event_json
        decode_rumor_json) (simp add: unsigned_event.defs)
  from w show "ne_kind w = NIP59_KIND_GIFT_WRAP" "ne_tags w = [[''p'', pR]]" by simp_all
qed

lemma wrapRumor_member:
  "wrapRumor lib ent S rumor i rs = ok wraps \<Longrightarrow> r \<in> set rs \<Longrightarrow>
     \<exists>w\<in>set wraps. \<exists>j seal. createSeal S (ent j) rumor r = ok seal \<and> createWrap lib (ent j) seal r = ok w"
proof (induction rs arbitrary: i wraps)
  case (Cons a rs)
  from Cons.prems(1) obtain seal w ws where ok: "createSeal S (ent i) rumor a = ok seal"
      "createWrap lib (ent i) seal a = ok w" "wrapRumor lib ent S rumor (Suc i) rs = ok ws" "wraps = w # ws"
    by (auto simp: bind_result_ok_iff)
  show ?case
  proof (cases "r = a")
    case True
    with ok show ?thesis by auto
  next
    case False
    with Cons.IH [OF ok(3)] Cons.prems(2) ok(4) show ?thesis by auto
  qed
qed simp

lemma createRumor_fields [simp]:
  "ue_pubkey (createRumor lib now p k (Some t) (Some c) None) = p"
  "ue_kind (createRumor lib now p k (Some t) (Some c) None) = k"
  "ue_tags (createRumor lib now p k (Some t) (Some c) None) = t"
  "ue_content (createRumor lib now p k (Some t) (Some c) None) = c"
  "ru_id (createRumor lib now p k (Some t) (Some c) None) =
     tl_getEventHash lib (unsigned_event.truncate (createRumor lib now p k (Some t) (Some c) None))"
  by (simp_all add: createRumor_def Let_def unsigned_event.defs)

section \<open>Rooms\<close>

lemma tag_at_pair [simp]: "tag_at [a, b] 0 = Some a" "tag_at [a, b] (Suc 0) = Some b"
  by (simp_all add: tag_at_def)

lemma participantSet_tags:
  assumes "ue_kind r = NIP17_DIRECT_KIND" "ue_tags r = map (\<lambda>p. [''p'', p]) ps"
    and "length ps \<le> MAX_ROOM_PARTICIPANTS" "ps \<noteq> []" "distinct ps" "list_all isLowercaseHex64 ps"
  shows "participantSet r = Some (normalizeParticipants (ue_pubkey r # ps))"
proof -
  have tags: "map (\<lambda>t. tag_at t 1) (filter (\<lambda>t. tag_at t 0 = Some ''p'') (map (\<lambda>p. [''p'', p]) ps)) = map Some ps"
    by (induction ps) auto
  have "distinct (map Some ps)" using assms(5) by (simp add: distinct_map)
  with assms tags show ?thesis
    by (simp add: participantSet_def Let_def list_ex_iff list_all_iff comp_def)
qed

lemma normalize_with_member:
  assumes "p \<in> set (normalizeParticipants xs)"
  shows "normalizeParticipants (p # normalizeParticipants xs) = normalizeParticipants xs"
  using assms
  by (subst normalizeParticipants_eq_iff) (auto simp: set_normalizeParticipants)

lemma process_delivered:
  assumes "unwrapGiftWrap lib R w = Some rumor" "ne_kind w = NIP59_KIND_GIFT_WRAP" "sg_pubkey R = ok pR"
    and "validMessageContent (ue_content rumor)" "participantSet rumor = Some ps" "pR \<in> set ps"
    and "\<not> isSeen s (ne_id w)"
  shows "processGiftWrap lib sha256 encode R w isSeen markSeen s =
     ok (markSeen s (ne_id w), Some \<lparr>pm_conversationId = roomConversationId sha256 encode ps,
       pm_participants = ps, pm_senderPubkey = ue_pubkey rumor, pm_content = ue_content rumor,
       pm_created_at = ue_created_at rumor, pm_rumorId = ru_id rumor, pm_wrapId = ne_id w\<rparr>)"
  using assms
  by (simp add: processGiftWrap_def unwrapMessage_def NIP17_INBOX_KIND_def NIP59_KIND_GIFT_WRAP_def Let_def)

lemma hex_member_normalize:
  "isLowercaseHex64 p \<Longrightarrow> p \<in> set xs \<Longrightarrow> p \<in> set (normalizeParticipants xs)"
  by (auto simp: set_normalizeParticipants image_iff intro!: bexI [of _ p])

lemma wrapRumor_sound:
  "wrapRumor lib ent S rumor i rs = ok wraps \<Longrightarrow> w \<in> set wraps \<Longrightarrow>
     \<exists>r\<in>set rs. \<exists>j seal. createSeal S (ent j) rumor r = ok seal \<and> createWrap lib (ent j) seal r = ok w"
proof (induction rs arbitrary: i wraps)
  case (Cons a rs)
  from Cons.prems(1) obtain seal w' ws where wr: "createSeal S (ent i) rumor a = ok seal"
      "createWrap lib (ent i) seal a = ok w'" "wrapRumor lib ent S rumor (Suc i) rs = ok ws" "wraps = w' # ws"
    by (auto simp: bind_result_ok_iff)
  show ?case
  proof (cases "w = w'")
    case True
    with wr show ?thesis by auto
  next
    case False
    with Cons.IH [OF wr(3)] Cons.prems(2) wr(4) show ?thesis by auto
  qed
qed simp

lemma createWrap_tags:
  "finalizes lib \<Longrightarrow> createWrap lib e seal r = ok w \<Longrightarrow> ne_tags w = [[''p'', r]]"
  by (auto simp: createWrap_def bind_result_ok_iff finalizes_def Let_def)

text \<open>What the addressee of one wrap of a message makes of it.\<close>

lemma wrap_delivery:
  assumes laws: "signs_as lib S pS" "finalizes lib" "reads_from lib S pS R pR"
    and w: "createSeal S ej rumor pR = ok seal" "createWrap lib ej seal pR = ok w"
    and rumor: "rumor = createRumor lib now pS NIP17_DIRECT_KIND (Some tags) (Some content) None"
    and content: "validMessageContent content"
    and ps: "participantSet rumor = Some ps" "pR \<in> set ps"
  shows "singleTag (ne_tags w) ''p'' = Some pR"
    and "\<not> isSeen s (ne_id w) \<Longrightarrow>
      \<exists>msg. processGiftWrap lib sha256 encode R w isSeen markSeen s = ok (markSeen s (ne_id w), Some msg)
         \<and> pm_conversationId msg = roomConversationId sha256 encode ps
         \<and> pm_participants msg = ps \<and> pm_senderPubkey msg = pS \<and> pm_content msg = content
         \<and> pm_rumorId msg = tl_getEventHash lib (unsigned_event.truncate rumor)"
proof -
  have pub: "ue_pubkey rumor = pS" "ru_id rumor = tl_getEventHash lib (unsigned_event.truncate rumor)"
    "ue_content rumor = content"
    unfolding rumor by simp_all
  note u = unwrap_wrap [OF laws pub(1,2) w]
  show "singleTag (ne_tags w) ''p'' = Some pR" by (simp add: u(3))
  have "sg_pubkey R = ok pR" using laws(3) by (simp add: reads_from_def)
  from process_delivered [OF u(1,2) this _ ps, where isSeen = isSeen and s = s] content pub
  show "\<not> isSeen s (ne_id w) \<Longrightarrow>
      \<exists>msg. processGiftWrap lib sha256 encode R w isSeen markSeen s = ok (markSeen s (ne_id w), Some msg)
         \<and> pm_conversationId msg = roomConversationId sha256 encode ps
         \<and> pm_participants msg = ps \<and> pm_senderPubkey msg = pS \<and> pm_content msg = content
         \<and> pm_rumorId msg = tl_getEventHash lib (unsigned_event.truncate rumor)"
    by simp
qed

lemma room_delivery:
  assumes laws: "signs_as lib S pS" "finalizes lib" "reads_from lib S pS R pR"
    and wraps: "wrapRumor lib ent S rumor 0 rs = ok wraps" and r: "pR \<in> set rs"
    and rumor: "rumor = createRumor lib now pS NIP17_DIRECT_KIND (Some tags) (Some content) None"
    and content: "validMessageContent content"
    and ps: "participantSet rumor = Some ps" "pR \<in> set ps"
  shows "\<exists>w\<in>set wraps. singleTag (ne_tags w) ''p'' = Some pR
     \<and> (isSeen s (ne_id w) \<or>
        (\<exists>msg. processGiftWrap lib sha256 encode R w isSeen markSeen s = ok (markSeen s (ne_id w), Some msg)
           \<and> pm_conversationId msg = roomConversationId sha256 encode ps
           \<and> pm_participants msg = ps \<and> pm_senderPubkey msg = pS \<and> pm_content msg = content
           \<and> pm_rumorId msg = tl_getEventHash lib (unsigned_event.truncate rumor)))"
proof -
  from wrapRumor_member [OF wraps r] obtain w j seal where w: "w \<in> set wraps"
      "createSeal S (ent j) rumor pR = ok seal" "createWrap lib (ent j) seal pR = ok w" by auto
  note d = wrap_delivery [OF laws w(2,3) rumor content ps]
  show ?thesis using w(1) d(1) d(2) [where isSeen = isSeen and s = s] by blast
qed

text \<open>
  A room message that was sent successfully: who the participants are, where it is filed, and what
  was wrapped for whom.
\<close>

lemma sendGroup_ok:
  assumes "signs_as lib S pS" "sendGroupMessage lib sha256 encode ent now S recipients content = ok sent"
    and "r = createRumor lib now pS NIP17_DIRECT_KIND
      (Some (map (\<lambda>p. [''p'', p]) (normalizeParticipants (pS # recipients)))) (Some content) None"
  shows "sm_participants sent = normalizeParticipants (pS # recipients)"
    and "sm_conversationId sent = roomConversationId sha256 encode (sm_participants sent)"
    and "wrapRumor lib ent S r 0 (sm_participants sent) = ok (sm_wraps sent)"
    and "validMessageContent content" and "participantSet r = Some (sm_participants sent)"
proof -
  let ?ps = "normalizeParticipants (pS # recipients)"
  have pk: "sg_pubkey S = ok pS" "isLowercaseHex64 pS" using assms(1) by (simp_all add: signs_as_def)
  from assms(2,3) pk have sent: "sm_participants sent = ?ps" "sm_conversationId sent = roomConversationId sha256 encode ?ps"
    "wrapRumor lib ent S r 0 ?ps = ok (sm_wraps sent)" "validMessageContent content"
    "length ?ps \<le> MAX_ROOM_PARTICIPANTS" "2 \<le> length ?ps"
    by (auto simp: sendGroupMessage_def createGroupMessage_def bind_result_ok_iff Let_def)
  have "list_all isLowercaseHex64 ?ps" by (auto simp: list_all_iff set_normalizeParticipants)
  with sent have "participantSet r = Some (normalizeParticipants (pS # ?ps))"
    unfolding assms(3) by (subst participantSet_tags) auto
  moreover have "pS \<in> set ?ps" using pk(2) by (simp add: hex_member_normalize)
  ultimately show "participantSet r = Some (sm_participants sent)" by (simp add: normalize_with_member sent(1))
  from sent show "sm_participants sent = ?ps" "sm_conversationId sent = roomConversationId sha256 encode (sm_participants sent)"
    "wrapRumor lib ent S r 0 (sm_participants sent) = ok (sm_wraps sent)" "validMessageContent content" by simp_all
qed

text \<open>The same for a direct message, whose room is its two ends.\<close>

lemma sendDirect_ok:
  assumes "signs_as lib S pS" "sendDirectMessage lib sha256 encode ent now S recipient content = ok sent"
    and "r = createRumor lib now pS NIP17_DIRECT_KIND (Some [[''p'', recipient]]) (Some content) None"
  shows "sm_participants sent = normalizeParticipants [pS, recipient]"
    and "sm_conversationId sent = roomConversationId sha256 encode (sm_participants sent)"
    and "sm_conversationId sent = directConversationId sha256 encode pS recipient"
    and "wrapRumor lib ent S r 0 [pS, recipient] = ok (sm_wraps sent)"
    and "validMessageContent content" and "participantSet r = Some (sm_participants sent)"
    and "isLowercaseHex64 recipient" and "recipient \<noteq> pS"
proof -
  let ?ps = "normalizeParticipants [pS, recipient]"
  have pk: "sg_pubkey S = ok pS" "isLowercaseHex64 pS" using assms(1) by (simp_all add: signs_as_def)
  from assms(2) pk have hex: "isLowercaseHex64 recipient"
    by (auto simp: sendDirectMessage_def createDirectMessage_def bind_result_ok_iff)
  from assms(2,3) pk hex have sent: "sm_participants sent = ?ps"
    "sm_conversationId sent = directConversationId sha256 encode pS recipient"
    "wrapRumor lib ent S r 0 [pS, recipient] = ok (sm_wraps sent)" "validMessageContent content"
    "recipient \<noteq> pS"
    unfolding sendDirectMessage_def createDirectMessage_def
    by (auto simp: bind_result_ok_iff Let_def simp del: wrapRumor.simps)
  have "directConversationId sha256 encode pS recipient = roomConversationId sha256 encode ?ps"
    by (simp add: directConversationId_def roomConversationId_def conversationIdFor_def participantKey_def)
  with sent show "sm_conversationId sent = roomConversationId sha256 encode (sm_participants sent)" by simp
  have "participantSet r = Some ?ps"
    using hex participantSet_tags [of r "[recipient]"] by (simp add: MAX_ROOM_PARTICIPANTS_def assms(3))
  with sent hex show "sm_participants sent = ?ps"
    "sm_conversationId sent = directConversationId sha256 encode pS recipient"
    "wrapRumor lib ent S r 0 [pS, recipient] = ok (sm_wraps sent)" "validMessageContent content"
    "participantSet r = Some (sm_participants sent)" "isLowercaseHex64 recipient" "recipient \<noteq> pS" by simp_all
qed

text \<open>A concrete instance of the laws, in which encryption is the identity.\<close>

definition plain_tools :: nostr_tools where
  "plain_tools = \<lparr>tl_verifyEvent = (\<lambda>e. Some True), tl_getEventHash = (\<lambda>u. ue_content u),
     tl_getPublicKey = (\<lambda>sk. bytes_hex sk),
     tl_finalizeEvent = (\<lambda>t sk. \<lparr>ne_id = nt_content t, ne_pubkey = bytes_hex sk, ne_created_at = nt_created_at t,
        ne_kind = nt_kind t, ne_tags = nt_tags t, ne_content = nt_content t, ne_sig = ''''\<rparr>),
     tl_getConversationKey = (\<lambda>sk p. ok sk), tl_nip44_encrypt = (\<lambda>n m k. ok m),
     tl_nip44_decrypt = (\<lambda>c k. ok c)\<rparr>"

definition plain_signer :: "string \<Rightarrow> nostr_signer" where
  "plain_signer p = \<lparr>sg_pubkey = ok p,
     sg_signEvent = (\<lambda>t. ok \<lparr>ne_id = nt_content t, ne_pubkey = p, ne_created_at = nt_created_at t,
        ne_kind = nt_kind t, ne_tags = nt_tags t, ne_content = nt_content t, ne_sig = ''''\<rparr>),
     sg_nip44Encrypt = (\<lambda>q m. ok m), sg_nip44Decrypt = (\<lambda>q c. ok c)\<rparr>"

definition sample_entropy :: "nat \<Rightarrow> wrap_entropy" where
  "sample_entropy i = \<lparr>we_now_ms = 1700000000000, we_seal_random = 1 / 2, we_wrap_random = 1 / 4,
     we_ephemeral = [of_nat i], we_nonce = []\<rparr>"

definition key_of :: "char \<Rightarrow> string" where
  "key_of c = replicate 64 c"

lemma plain_laws:
  "isLowercaseHex64 p \<Longrightarrow> signs_as plain_tools (plain_signer p) p"
  "finalizes plain_tools" "reads_from plain_tools (plain_signer p) p (plain_signer q) q"
  by (auto simp: signs_as_def finalizes_def reads_from_def plain_tools_def plain_signer_def Let_def)

lemma plain_wrapRumor: "\<exists>ws. wrapRumor plain_tools ent (plain_signer p) r i rs = ok ws"
proof (induction rs arbitrary: i)
  case (Cons a rs)
  then obtain ws where "wrapRumor plain_tools ent (plain_signer p) r (Suc i) rs = ok ws" by blast
  then show ?case
    by (simp add: createSeal_def createWrap_def) (simp add: plain_tools_def plain_signer_def)
qed simp

lemma key_of_hex: "is_lower_hex c \<Longrightarrow> isLowercaseHex64 (key_of c)"
  by (simp add: key_of_def isLowercaseHex64_def list_all_iff)

lemma sample_keys: "isLowercaseHex64 (key_of (CHR ''a''))" "isLowercaseHex64 (key_of (CHR ''b''))"
  "key_of (CHR ''a'') \<noteq> key_of (CHR ''b'')"
  by (auto simp: is_lower_hex_def is_digit_def char_le_iff intro!: key_of_hex)
    (simp add: key_of_def)

lemma plain_delivery:
  assumes "\<And>i. \<not> isSeen s i"
  shows "\<exists>w msg. processGiftWrap plain_tools id (map of_char) (plain_signer (key_of (CHR ''a''))) w
      isSeen markSeen s = ok (markSeen s (ne_id w), Some msg) \<and> pm_content msg = ''hi''"
proof -
  let ?a = "key_of (CHR ''a'')" and ?b = "key_of (CHR ''b'')"
  let ?r = "createRumor plain_tools 5 ?a NIP17_DIRECT_KIND (Some [[''p'', ?b]]) (Some ''hi'') None"
  obtain ws where ws: "wrapRumor plain_tools sample_entropy (plain_signer ?a) ?r 0 [?a] = ok ws"
    using plain_wrapRumor by blast
  have ps: "participantSet ?r = Some (normalizeParticipants [?a, ?b])"
    using sample_keys participantSet_tags [of ?r "[?b]"] by (simp add: MAX_ROOM_PARTICIPANTS_def)
  have "?a \<in> set (normalizeParticipants [?a, ?b])" using sample_keys by (simp add: hex_member_normalize)
  from room_delivery [OF plain_laws(1) [OF sample_keys(1)] plain_laws(2) plain_laws(3) [of _ ?a] ws _ refl _ ps this,
      where isSeen = isSeen and markSeen = markSeen and s = s and ?sha256.0 = id and encode = "map of_char"]
  show ?thesis using assms by (auto simp: validMessageContent_def MAX_MESSAGE_BYTES_def)
qed

section \<open>Properties\<close>

text \<open>
  C1: a group message reaches every participant. When sending to a room succeeds, then for every
  participant (the sender included) one of the gift wraps is addressed to that participant, and
  processing it in that participant's inbox gives the sender's content, the sender's key, the
  same participant list and the same conversation id, and marks the wrap as seen (unless it was
  already seen).
\<close>

theorem group_message_delivered:
  assumes "signs_as lib S pS" "finalizes lib" "reads_from lib S pS R pR"
    and "sendGroupMessage lib sha256 encode ent now S recipients content = ok sent"
    and "pR \<in> set (sm_participants sent)"
  shows "\<exists>w\<in>set (sm_wraps sent). singleTag (ne_tags w) ''p'' = Some pR
     \<and> (isSeen s (ne_id w) \<or>
        (\<exists>msg. processGiftWrap lib sha256 encode R w isSeen markSeen s = ok (markSeen s (ne_id w), Some msg)
           \<and> pm_conversationId msg = sm_conversationId sent
           \<and> pm_participants msg = sm_participants sent \<and> pm_senderPubkey msg = pS \<and> pm_content msg = content))"
proof -
  note sent = sendGroup_ok [OF assms(1,4) refl]
  from room_delivery [OF assms(1-3) sent(3) assms(5) refl sent(4,5) assms(5),
      where isSeen = isSeen and s = s and markSeen = markSeen and ?sha256.0 = sha256 and encode = encode]
  show ?thesis unfolding sent(2) by blast
qed

theorem group_message_delivered_witness:
  "\<exists>sent w msg. let a = key_of (CHR ''a''); b = key_of (CHR ''b'')
     in sendGroupMessage plain_tools id (map of_char) sample_entropy 1700000000 (plain_signer a) [b] ''hello'' = ok sent
        \<and> processGiftWrap plain_tools id (map of_char) (plain_signer b) w
            (\<lambda>s i. i \<in> s) (\<lambda>s i. insert i s) {} = ok ({ne_id w}, Some msg)
        \<and> pm_conversationId msg = sm_conversationId sent \<and> pm_content msg = ''hello''"
proof -
  let ?a = "key_of (CHR ''a'')" and ?b = "key_of (CHR ''b'')"
  let ?ps = "normalizeParticipants [?a, ?b]"
  have set: "set ?ps = {?a, ?b}" using sample_keys by (auto simp: set_normalizeParticipants)
  then have len: "length ?ps = 2" using sample_keys(3) distinct_card [of ?ps] by simp
  obtain ws where "wrapRumor plain_tools sample_entropy (plain_signer ?a) (createRumor plain_tools 1700000000 ?a NIP17_DIRECT_KIND
      (Some (map (\<lambda>p. [''p'', p]) ?ps)) (Some ''hello'') None) 0 ?ps = ok ws"
    using plain_wrapRumor by blast
  then have ok: "sendGroupMessage plain_tools id (map of_char) sample_entropy 1700000000 (plain_signer ?a) [?b] ''hello''
      = ok \<lparr>sm_wraps = ws, sm_conversationId = roomConversationId id (map of_char) ?ps, sm_participants = ?ps\<rparr>"
    using len by (simp add: sendGroupMessage_def createGroupMessage_def plain_signer_def Let_def
        MAX_ROOM_PARTICIPANTS_def validMessageContent_def MAX_MESSAGE_BYTES_def)
  from group_message_delivered [OF plain_laws(1) [OF sample_keys(1)] plain_laws(2) plain_laws(3) [of _ ?b] ok,
      where isSeen = "\<lambda>s i. i \<in> s" and markSeen = "\<lambda>s i. insert i s" and s = "{}"] ok set
  show ?thesis by (auto simp: Let_def)
qed

text \<open>
  The same for a direct message: both ends, recipient and sender, read the message into the
  conversation the sender filed it under.
\<close>

theorem direct_message_delivered:
  assumes "signs_as lib S pS" "finalizes lib" "reads_from lib S pS R pR"
    and "sendDirectMessage lib sha256 encode ent now S recipient content = ok sent"
    and "pR = recipient \<or> pR = pS"
  shows "\<exists>w\<in>set (sm_wraps sent). singleTag (ne_tags w) ''p'' = Some pR
     \<and> (isSeen s (ne_id w) \<or>
        (\<exists>msg. processGiftWrap lib sha256 encode R w isSeen markSeen s = ok (markSeen s (ne_id w), Some msg)
           \<and> pm_conversationId msg = sm_conversationId sent
           \<and> pm_participants msg = sm_participants sent \<and> pm_senderPubkey msg = pS \<and> pm_content msg = content))"
proof -
  note sent = sendDirect_ok [OF assms(1,4) refl]
  have "isLowercaseHex64 pS" using assms(1) by (simp add: signs_as_def)
  then have "pR \<in> set [pS, recipient]" "pR \<in> set (sm_participants sent)"
    using assms(5) sent(1,7) by (auto intro: hex_member_normalize)
  from room_delivery [OF assms(1-3) sent(4) this(1) refl sent(5,6) this(2),
      where isSeen = isSeen and s = s and markSeen = markSeen and ?sha256.0 = sha256 and encode = encode]
  show ?thesis unfolding sent(2) by blast
qed

theorem direct_message_delivered_witness:
  "\<exists>sent w msg. let a = key_of (CHR ''a''); b = key_of (CHR ''b'')
     in sendDirectMessage plain_tools id (map of_char) sample_entropy 1700000000 (plain_signer a) b ''hello'' = ok sent
        \<and> processGiftWrap plain_tools id (map of_char) (plain_signer b) w
            (\<lambda>s i. i \<in> s) (\<lambda>s i. insert i s) {} = ok ({ne_id w}, Some msg)
        \<and> pm_conversationId msg = sm_conversationId sent \<and> pm_content msg = ''hello''"
proof -
  let ?a = "key_of (CHR ''a'')" and ?b = "key_of (CHR ''b'')"
  have low: "toLowerCase ?a = ?a" "toLowerCase ?b = ?b" using sample_keys by simp_all
  obtain ws where "wrapRumor plain_tools sample_entropy (plain_signer ?a) (createRumor plain_tools 1700000000 ?a NIP17_DIRECT_KIND
      (Some [[''p'', ?b]]) (Some ''hello'') None) 0 [?a, ?b] = ok ws"
    using plain_wrapRumor by blast
  then have ok: "\<exists>sent. sendDirectMessage plain_tools id (map of_char) sample_entropy 1700000000 (plain_signer ?a) ?b ''hello'' = ok sent"
    using sample_keys low
    by (auto simp: sendDirectMessage_def createDirectMessage_def plain_signer_def Let_def
        validMessageContent_def MAX_MESSAGE_BYTES_def simp del: wrapRumor.simps)
  then obtain sent where sent:
    "sendDirectMessage plain_tools id (map of_char) sample_entropy 1700000000 (plain_signer ?a) ?b ''hello'' = ok sent" by blast
  from direct_message_delivered [OF plain_laws(1) [OF sample_keys(1)] plain_laws(2) plain_laws(3) [of _ ?b] sent,
      where isSeen = "\<lambda>s i. i \<in> s" and markSeen = "\<lambda>s i. insert i s" and s = "{}"] sent
  show ?thesis by (auto simp: Let_def)
qed



text \<open>
  Deduplication. With a store whose mark makes the id seen, a wrap that was delivered once is
  ignored when it arrives again, and the store does not change.
\<close>

theorem inbox_delivers_once:
  assumes "\<And>s i. isSeen (markSeen s i) i"
    and "processGiftWrap lib sha256 encode signer wrap isSeen markSeen s = ok (s', Some msg)"
  shows "processGiftWrap lib sha256 encode signer wrap isSeen markSeen s' = ok (s', None)"
proof -
  have "s' = markSeen s (ne_id wrap)"
    using assms(2)
    by (auto simp: processGiftWrap_def bind_result_ok_iff Let_def split: if_splits option.splits)
  with assms(1) show ?thesis by (simp add: processGiftWrap_def)
qed

theorem inbox_delivers_once_witness:
  "\<exists>w msg. processGiftWrap plain_tools id (map of_char) (plain_signer (key_of (CHR ''a''))) w
      (\<lambda>s i. i \<in> s) (\<lambda>s i. insert i s) {} = ok ({ne_id w}, Some msg)
     \<and> processGiftWrap plain_tools id (map of_char) (plain_signer (key_of (CHR ''a''))) w
      (\<lambda>s i. i \<in> s) (\<lambda>s i. insert i s) {ne_id w} = ok ({ne_id w}, None)"
proof -
  from plain_delivery [of "\<lambda>s i. i \<in> s" "{}" "\<lambda>s i. insert i s"] obtain w msg where w: "processGiftWrap plain_tools id (map of_char)
      (plain_signer (key_of (CHR ''a''))) w (\<lambda>s i. i \<in> s) (\<lambda>s i. insert i s) {} = ok ({ne_id w}, Some msg)"
    by blast
  from inbox_delivers_once [OF _ w] w show ?thesis by auto
qed

end
