(* ===== verification/Storage.thy ===== *)
theory Storage
  imports Text
begin

text \<open>
  The storage and cryptography the client's services share: IndexedDB object stores, localStorage and
  \<open>crypto.subtle\<close>. An object store is an association list from keys to rows; it meets the keyed-store
  interface, whose lemmas the components use.
\<close>

section \<open>Object stores\<close>

type_synonym 'v object_store = "(string \<times> 'v) list"

definition idb_get :: "'v object_store \<Rightarrow> string \<Rightarrow> 'v option" where
  "idb_get s key = map_of s key"

definition idb_put :: "'v object_store \<Rightarrow> string \<Rightarrow> 'v \<Rightarrow> 'v object_store" where
  "idb_put s key v = map_set s key v"

definition idb_del :: "'v object_store \<Rightarrow> string \<Rightarrow> 'v object_store" where
  "idb_del s key = map_delete s key"

text \<open>\<open>getAll()\<close>: the rows in ascending order of their keys.\<close>

definition idb_getAll :: "'v object_store \<Rightarrow> 'v list" where
  "idb_getAll s = map snd (js_sort (\<lambda>a b. string_cmp (fst a) (fst b)) s)"

interpretation idb: keyed_store idb_get idb_put idb_del
  by unfold_locales (auto simp: idb_get_def idb_put_def idb_del_def)

lemmas idb_simps [simp, store_simps] = idb.get_put idb.get_del

text \<open>\<open>localStorage\<close>, when there is one, maps keys to strings.\<close>

type_synonym local_storage = "string object_store"

section \<open>Stores whose rows carry their key\<close>

definition store_ok :: "('v \<Rightarrow> string) \<Rightarrow> 'v object_store \<Rightarrow> bool" where
  "store_ok ident s \<longleftrightarrow> distinct (map fst s) \<and> (\<forall>(k, v)\<in>set s. ident v = k)"

lemma store_ok_Nil [simp]: "store_ok ident []"
  by (simp add: store_ok_def)

lemma set_map_set_subset: "set (map_set m k v) \<subseteq> insert (k, v) (set m)"
  by (induction m k v rule: map_set.induct) auto

lemma store_ok_put: "store_ok ident s \<Longrightarrow> k = ident v \<Longrightarrow> store_ok ident (idb_put s k v)"
  using set_map_set_subset [of s k v] by (auto simp: store_ok_def idb_put_def)

lemma store_ok_del: "store_ok ident s \<Longrightarrow> store_ok ident (idb_del s k)"
  by (auto simp: store_ok_def idb_del_def map_delete_def distinct_map_filter)

lemma store_ok_keys: "store_ok ident s \<Longrightarrow> map fst s = map ident (map snd s)"
  by (auto simp: store_ok_def)

lemma store_ok_rows: "store_ok ident s \<Longrightarrow> v \<in> snd ` set s \<longleftrightarrow> idb_get s (ident v) = Some v"
  by (force simp: store_ok_def idb_get_def)

lemma store_ok_distinct: "store_ok ident s \<Longrightarrow> distinct (map ident (map snd s))"
  by (metis store_ok_def store_ok_keys)

lemma idb_getAll_set [simp]: "set (idb_getAll s) = snd ` set s"
  by (simp add: idb_getAll_def)

lemma idb_getAll_distinct: "store_ok ident s \<Longrightarrow> distinct (map ident (idb_getAll s))"
proof -
  assume ok: "store_ok ident s"
  let ?t = "js_sort (\<lambda>a b. string_cmp (fst a) (fst b)) s"
  have "map ident (map snd ?t) = map fst ?t" using ok by (auto simp: store_ok_def)
  moreover have "distinct (map fst ?t)"
    using ok by (simp add: store_ok_def distinct_map)
  ultimately show ?thesis by (simp only: idb_getAll_def)
qed

section \<open>Web Crypto\<close>

text \<open>
  \<open>crypto.subtle\<close> and the text codec, as the code uses them; \<open>'k\<close> is the type of \<open>CryptoKey\<close>
  handles. AES-GCM takes key, IV and additional data (empty when absent); decryption, key import
  and key export fail with \<open>None\<close>. \<open>crypto_laws\<close> is the documented behaviour the code relies on:
  decryption under the same key, IV and additional data undoes encryption, a ciphertext is 16 bytes
  longer than the plaintext, the text codec is lossless, an imported key has the extractability asked for, and an extractable
  key exports to the bytes it was imported from.
\<close>

record 'k web_crypto =
  wc_encrypt :: "'k \<Rightarrow> bytes \<Rightarrow> bytes \<Rightarrow> bytes \<Rightarrow> bytes"
  wc_decrypt :: "'k \<Rightarrow> bytes \<Rightarrow> bytes \<Rightarrow> bytes \<Rightarrow> bytes option"
  wc_importKey :: "bytes \<Rightarrow> bool \<Rightarrow> 'k option"
  wc_exportKey :: "'k \<Rightarrow> bytes option"
  wc_extractable :: "'k \<Rightarrow> bool"
  wc_deriveKey :: "string \<Rightarrow> bytes \<Rightarrow> int \<Rightarrow> 'k"
  wc_sha256 :: "bytes \<Rightarrow> bytes"
  wc_textEncode :: "string \<Rightarrow> bytes"
  wc_textDecode :: "bytes \<Rightarrow> string"

definition crypto_laws :: "'k web_crypto \<Rightarrow> bool" where
  "crypto_laws wc \<longleftrightarrow>
     (\<forall>k iv a m. wc_decrypt wc k iv a (wc_encrypt wc k iv a m) = Some m
        \<and> length (wc_encrypt wc k iv a m) = length m + 16)
     \<and> (\<forall>raw b k. wc_importKey wc raw b = Some k \<longrightarrow>
          wc_extractable wc k = b \<and> (b \<longrightarrow> wc_exportKey wc k = Some raw))
     \<and> (\<forall>s. wc_textDecode wc (wc_textEncode wc s) = s) \<and> wc_textEncode wc '''' = []"

text \<open>An instance of the laws: keys are byte strings with a flag, encryption appends a tag.\<close>

definition plain_crypto :: "(bytes \<times> bool) web_crypto" where
  "plain_crypto = \<lparr>wc_encrypt = (\<lambda>k iv a m. m @ replicate 16 0),
     wc_decrypt = (\<lambda>k iv a c. if length c < 16 then None else Some (take (length c - 16) c)),
     wc_importKey = (\<lambda>raw b. if length raw = 32 then Some (raw, b) else None),
     wc_exportKey = (\<lambda>k. if snd k then Some (fst k) else None), wc_extractable = snd,
     wc_deriveKey = (\<lambda>p s n. (s, False)), wc_sha256 = id,
     wc_textEncode = map (\<lambda>c. word_of_nat (of_char c)), wc_textDecode = map (\<lambda>b. char_of (unat b))\<rparr>"

lemma char_of_of_char_byte: "map (\<lambda>b. char_of (unat b)) (map (\<lambda>c. word_of_nat (of_char c) :: 8 word) s) = s"
proof (induction s)
  case (Cons c s)
  have "(of_char c :: nat) < 256" by simp
  then have "unat (word_of_nat (of_char c) :: 8 word) = of_char c"
    by (simp add: unsigned_of_nat take_bit_nat_eq_self)
  with Cons show ?case by simp
qed simp

lemma plain_crypto_laws: "crypto_laws plain_crypto"
  by (simp add: crypto_laws_def plain_crypto_def char_of_of_char_byte del: map_map)

lemma textEncode_nonempty: "crypto_laws wc \<Longrightarrow> s \<noteq> '''' \<Longrightarrow> wc_textEncode wc s \<noteq> []"
  by (metis crypto_laws_def)

end
