(* ===== verification/ChatDb.thy ===== *)
theory ChatDb
  imports GiftWrap Storage
begin

text \<open>
  Durable chat storage and what is built on it: the IndexedDB database of
  \<open>services/chat/chatStore.ts\<close>, the NIP-17 outbox (\<open>outbox.ts\<close>), the moderation lists
  (\<open>moderation.ts\<close>) and the joined channels in localStorage (\<open>joinedChannels.ts\<close>). An object store
  is an association list from key paths to rows; a completed transaction is one update. AES-GCM,
  the text codec and the clock are arguments. A failing transaction changes nothing and rejects;
  the model describes the transactions that complete.
\<close>

section \<open>Rows\<close>

datatype conversation_kind = Public | Dm | Circle_room
datatype delivery_state = D_pending | D_sent | D_delivered | D_failed

record stored_conversation =
  sc_id :: string
  sc_kind :: conversation_kind
  sc_title :: string
  sc_muted :: bool
  sc_last_activity_at :: int
  sc_participants :: "string list option"
  sc_group_id :: "string option"
  sc_relay_url :: "string option"

record stored_message =
  sm_id :: string
  sm_conversation_id :: string
  sm_sender_pubkey :: string
  sm_created_at :: int
  sm_kind :: int
  sm_ciphertext :: string
  sm_delivery_state :: delivery_state

record stored_outbox_item =
  ob_id :: string
  ob_recipient_pubkey :: string
  ob_relays :: "string list"
  ob_wrap :: string
  ob_attempts :: nat
  ob_next_retry_at :: int
  ob_delivered :: bool

record stored_sync_state =
  sy_id :: string
  sy_since :: int
  sy_eose :: bool

record stored_read_state =
  rd_conversation_id :: string
  rd_last_read_at :: int
  rd_unread :: int

text \<open>The database; \<open>'k\<close> is the type of \<open>CryptoKey\<close> handles.\<close>

record 'k chat_db =
  db_conversations :: "stored_conversation object_store"
  db_messages :: "stored_message object_store"
  db_gift_wraps :: "int object_store"
  db_outbox :: "stored_outbox_item object_store"
  db_sync :: "stored_sync_state object_store"
  db_read :: "stored_read_state object_store"
  db_prefs :: "json object_store"
  db_crypto :: "'k object_store"

definition openDb :: "'k chat_db" where
  "openDb = \<lparr>db_conversations = [], db_messages = [], db_gift_wraps = [], db_outbox = [],
     db_sync = [], db_read = [], db_prefs = [], db_crypto = []\<rparr>"

section \<open>Local encryption\<close>

definition CRYPTO_KEY_ID :: string where "CRYPTO_KEY_ID = ''local-encryption-key''"

text \<open>\<open>fresh\<close> is the key \<open>generateKey\<close> returns when one is needed.\<close>

definition getOrCreateEncryptionKey :: "'k \<Rightarrow> 'k chat_db \<Rightarrow> 'k chat_db \<times> 'k" where
  "getOrCreateEncryptionKey fresh db =
     (case idb_get (db_crypto db) CRYPTO_KEY_ID of
        Some key \<Rightarrow> (db, key)
      | None \<Rightarrow> (db\<lparr>db_crypto := idb_put (db_crypto db) CRYPTO_KEY_ID fresh\<rparr>, fresh))"

definition chat_encode :: "bytes \<Rightarrow> bytes \<Rightarrow> string" where
  "chat_encode iv data = btoa (iv @ data)"

definition chat_decode :: "string \<Rightarrow> (bytes \<times> bytes) option" where
  "chat_decode b64 =
     (case atob b64 of
        None \<Rightarrow> None
      | Some bs \<Rightarrow> if length bs < 28 then None else Some (take 12 bs, drop 12 bs))"

definition encryptLocalPlaintext ::
  "'k web_crypto \<Rightarrow> 'k \<Rightarrow> bytes \<Rightarrow> 'k chat_db \<Rightarrow> string \<Rightarrow> 'k chat_db \<times> string" where
  "encryptLocalPlaintext wc fresh iv db plaintext =
     (let (db', key) = getOrCreateEncryptionKey fresh db
      in (db', chat_encode iv (wc_encrypt wc key iv [] (wc_textEncode wc plaintext))))"

definition decryptLocalPlaintext ::
  "'k web_crypto \<Rightarrow> 'k \<Rightarrow> 'k chat_db \<Rightarrow> string \<Rightarrow> 'k chat_db \<times> string option" where
  "decryptLocalPlaintext wc fresh db ciphertextB64 =
     (let (db', key) = getOrCreateEncryptionKey fresh db
      in (db', case chat_decode ciphertextB64 of
                 None \<Rightarrow> None
               | Some (iv, data) \<Rightarrow> map_option (wc_textDecode wc) (wc_decrypt wc key iv [] data)))"

section \<open>Conversations and messages\<close>

definition putConversation :: "'k chat_db \<Rightarrow> stored_conversation \<Rightarrow> 'k chat_db" where
  "putConversation db c = db\<lparr>db_conversations := idb_put (db_conversations db) (sc_id c) c\<rparr>"

definition listConversations :: "'k chat_db \<Rightarrow> stored_conversation list" where
  "listConversations db = idb_getAll (db_conversations db)"

definition putMessage :: "'k chat_db \<Rightarrow> stored_message \<Rightarrow> 'k chat_db" where
  "putMessage db m = db\<lparr>db_messages := idb_put (db_messages db) (sm_id m) m\<rparr>"

definition MAX_SAFE_INTEGER :: int where "MAX_SAFE_INTEGER = 9007199254740991"

text \<open>
  The cursor walks the index \<open>[conversation_id, created_at, id]\<close> backwards over the bounded
  range and stops at the limit.
\<close>

definition message_range :: "'k chat_db \<Rightarrow> string \<Rightarrow> int \<Rightarrow> stored_message list" where
  "message_range db conversationId upper =
     js_sort (time_id_cmp sm_created_at sm_id)
       (filter (\<lambda>m. sm_conversation_id m = conversationId \<and> - MAX_SAFE_INTEGER \<le> sm_created_at m
                    \<and> sm_created_at m \<le> upper) (map snd (db_messages db)))"

definition listMessages :: "'k chat_db \<Rightarrow> string \<Rightarrow> nat option \<Rightarrow> int option \<Rightarrow> stored_message list" where
  "listMessages db conversationId limit before =
     (let upper = (case before of Some b \<Rightarrow> b | None \<Rightarrow> MAX_SAFE_INTEGER)
      in take (case limit of Some n \<Rightarrow> n | None \<Rightarrow> 200) (rev (message_range db conversationId upper)))"

record public_channel_message =
  pcm_id :: string
  pcm_channel_id :: string
  pcm_sender_pubkey :: string
  pcm_created_at :: int
  pcm_content :: string

definition putChannelMessage :: "'k chat_db \<Rightarrow> public_channel_message \<Rightarrow> 'k chat_db" where
  "putChannelMessage db m =
     putMessage db \<lparr>sm_id = pcm_id m, sm_conversation_id = pcm_channel_id m, sm_sender_pubkey = pcm_sender_pubkey m,
       sm_created_at = pcm_created_at m, sm_kind = 9, sm_ciphertext = pcm_content m,
       sm_delivery_state = D_delivered\<rparr>"

definition listChannelMessages :: "'k chat_db \<Rightarrow> string \<Rightarrow> public_channel_message list" where
  "listChannelMessages db channelId =
     map (\<lambda>m. \<lparr>pcm_id = sm_id m, pcm_channel_id = sm_conversation_id m, pcm_sender_pubkey = sm_sender_pubkey m,
                pcm_created_at = sm_created_at m, pcm_content = sm_ciphertext m\<rparr>)
       (listMessages db channelId None None)"

section \<open>Gift-wrap deduplication\<close>

definition hasGiftWrap :: "'k chat_db \<Rightarrow> string \<Rightarrow> bool" where
  "hasGiftWrap db outerId \<longleftrightarrow> idb_get (db_gift_wraps db) outerId \<noteq> None"

definition markGiftWrapSeen :: "int \<Rightarrow> 'k chat_db \<Rightarrow> string \<Rightarrow> 'k chat_db \<times> bool" where
  "markGiftWrapSeen now db outerId =
     (case idb_get (db_gift_wraps db) outerId of
        Some _ \<Rightarrow> (db, False)
      | None \<Rightarrow> (db\<lparr>db_gift_wraps := idb_put (db_gift_wraps db) outerId now\<rparr>, True))"

section \<open>Outbox rows, cursors, read state, preferences\<close>

definition putOutboxItem :: "'k chat_db \<Rightarrow> stored_outbox_item \<Rightarrow> 'k chat_db" where
  "putOutboxItem db i = db\<lparr>db_outbox := idb_put (db_outbox db) (ob_id i) i\<rparr>"

definition listPendingOutbox :: "'k chat_db \<Rightarrow> int \<Rightarrow> stored_outbox_item list" where
  "listPendingOutbox db now =
     filter (\<lambda>i. \<not> ob_delivered i \<and> ob_next_retry_at i \<le> now) (idb_getAll (db_outbox db))"

definition putSyncState :: "'k chat_db \<Rightarrow> stored_sync_state \<Rightarrow> 'k chat_db" where
  "putSyncState db s = db\<lparr>db_sync := idb_put (db_sync db) (sy_id s) s\<rparr>"

definition getSyncState :: "'k chat_db \<Rightarrow> string \<Rightarrow> stored_sync_state option" where
  "getSyncState db i = idb_get (db_sync db) i"

definition putReadState :: "'k chat_db \<Rightarrow> stored_read_state \<Rightarrow> 'k chat_db" where
  "putReadState db s = db\<lparr>db_read := idb_put (db_read db) (rd_conversation_id s) s\<rparr>"

definition getReadState :: "'k chat_db \<Rightarrow> string \<Rightarrow> stored_read_state option" where
  "getReadState db i = idb_get (db_read db) i"

definition setPreference :: "'k chat_db \<Rightarrow> string \<Rightarrow> json \<Rightarrow> 'k chat_db" where
  "setPreference db key v = db\<lparr>db_prefs := idb_put (db_prefs db) key v\<rparr>"

definition getPreference :: "'k chat_db \<Rightarrow> string \<Rightarrow> json option" where
  "getPreference db key =
     (case idb_get (db_prefs db) key of Some JNull \<Rightarrow> None | v \<Rightarrow> v)"

definition deleteConversation :: "'k chat_db \<Rightarrow> string \<Rightarrow> 'k chat_db" where
  "deleteConversation db conversationId =
     db\<lparr>db_conversations := idb_del (db_conversations db) conversationId,
        db_read := idb_del (db_read db) conversationId\<rparr>"

section \<open>Outbox\<close>

definition MAX_BACKOFF_MS :: int where "MAX_BACKOFF_MS = 30 * 60000"

definition enqueueOutbox :: "'k chat_db \<Rightarrow> string \<Rightarrow> string list \<Rightarrow> nostr_event \<Rightarrow> 'k chat_db" where
  "enqueueOutbox db recipientPubkey relays wrap =
     putOutboxItem db \<lparr>ob_id = ne_id wrap, ob_recipient_pubkey = recipientPubkey, ob_relays = relays,
       ob_wrap = stringify (event_json wrap), ob_attempts = 0, ob_next_retry_at = 0, ob_delivered = False\<rparr>"

text \<open>The stored text of a row is an event this client serialized (\<open>enqueueOutbox\<close>).\<close>

definition parse_wrap :: "string \<Rightarrow> nostr_event result" where
  "parse_wrap s =
     (case Option.bind (json_parse s) decode_event of Some e \<Rightarrow> ok e | None \<Rightarrow> throw ''SyntaxError'')"

definition backoff_ms :: "nat \<Rightarrow> int" where
  "backoff_ms attempts = min MAX_BACKOFF_MS (1000 * 2 ^ attempts)"

text \<open>
  One item of the loop: \<open>Inl\<close> when parsing or publishing throws, which ends the whole call with
  the updates made so far in place.
\<close>

definition deliver_item :: "relay_client \<Rightarrow> int \<Rightarrow> 'k chat_db \<Rightarrow> stored_outbox_item \<Rightarrow> ('k chat_db \<times> bool) result" where
  "deliver_item client now db item =
     bind_result (parse_wrap (ob_wrap item)) (\<lambda>wrap.
     bind_result (rc_publish client (ob_relays item) wrap) (\<lambda>results.
       if list_ex pr_ok results then ok (putOutboxItem db (item\<lparr>ob_delivered := True\<rparr>), True)
       else
         (let attempts = ob_attempts item + 1
          in ok (putOutboxItem db (item\<lparr>ob_attempts := attempts, ob_next_retry_at := now + backoff_ms attempts\<rparr>), False))))"

fun deliver_loop ::
  "relay_client \<Rightarrow> int \<Rightarrow> 'k chat_db \<Rightarrow> stored_outbox_item list \<Rightarrow> nat \<Rightarrow> nat \<Rightarrow> 'k chat_db \<times> (nat \<times> nat) result" where
  "deliver_loop client now db [] delivered failed = (db, ok (delivered, failed))"
| "deliver_loop client now db (item # items) delivered failed =
     (case deliver_item client now db item of
        Inl e \<Rightarrow> (db, throw e)
      | Inr (db', True) \<Rightarrow> deliver_loop client now db' items (Suc delivered) failed
      | Inr (db', False) \<Rightarrow> deliver_loop client now db' items delivered (Suc failed))"

definition deliverPendingOutbox :: "relay_client \<Rightarrow> int \<Rightarrow> 'k chat_db \<Rightarrow> 'k chat_db \<times> (nat \<times> nat) result" where
  "deliverPendingOutbox client now db = deliver_loop client now db (listPendingOutbox db now) 0 0"

section \<open>Moderation\<close>

definition BLOCKED_KEY :: string where "BLOCKED_KEY = ''moderation:blocked_pubkeys''"
definition MUTED_KEY :: string where "MUTED_KEY = ''moderation:muted_pubkeys''"

datatype quarantine_decision = Accept | Quarantine | Block

text \<open>The two preferences only ever hold arrays of strings.\<close>

definition pref_strings :: "json option \<Rightarrow> string list" where
  "pref_strings v = (case v of Some (JArr xs) \<Rightarrow> List.map_filter js_str xs | _ \<Rightarrow> [])"

definition blockedPubkeys :: "'k chat_db \<Rightarrow> string list" where
  "blockedPubkeys db = pref_strings (getPreference db BLOCKED_KEY)"

definition mutedPubkeys :: "'k chat_db \<Rightarrow> string list" where
  "mutedPubkeys db = pref_strings (getPreference db MUTED_KEY)"

definition isBlocked :: "'k chat_db \<Rightarrow> string \<Rightarrow> bool" where
  "isBlocked db pubkey \<longleftrightarrow> toLowerCase pubkey \<in> set (blockedPubkeys db)"

definition isMuted :: "'k chat_db \<Rightarrow> string \<Rightarrow> bool" where
  "isMuted db pubkey \<longleftrightarrow> toLowerCase pubkey \<in> set (mutedPubkeys db)"

definition blockPubkey :: "'k chat_db \<Rightarrow> string \<Rightarrow> 'k chat_db" where
  "blockPubkey db pubkey =
     setPreference db BLOCKED_KEY
       (JArr (map JStr (set_add (set_of_array (blockedPubkeys db)) (toLowerCase pubkey))))"

definition unblockPubkey :: "'k chat_db \<Rightarrow> string \<Rightarrow> 'k chat_db" where
  "unblockPubkey db pubkey =
     setPreference db BLOCKED_KEY
       (JArr (map JStr (filter (\<lambda>p. p \<noteq> toLowerCase pubkey) (blockedPubkeys db))))"

definition mutePubkey :: "'k chat_db \<Rightarrow> string \<Rightarrow> 'k chat_db" where
  "mutePubkey db pubkey =
     setPreference db MUTED_KEY
       (JArr (map JStr (set_add (set_of_array (mutedPubkeys db)) (toLowerCase pubkey))))"

definition unmutePubkey :: "'k chat_db \<Rightarrow> string \<Rightarrow> 'k chat_db" where
  "unmutePubkey db pubkey =
     setPreference db MUTED_KEY
       (JArr (map JStr (filter (\<lambda>p. p \<noteq> toLowerCase pubkey) (mutedPubkeys db))))"

definition quarantineDecision :: "string \<Rightarrow> bool \<Rightarrow> bool \<Rightarrow> bool \<Rightarrow> quarantine_decision" where
  "quarantineDecision pubkey is_contact is_circle_member is_blocked =
     (if is_blocked then Block
      else if is_contact \<or> is_circle_member then Accept
      else Quarantine)"

section \<open>Joined channels\<close>

definition JOINED_KEY :: string where "JOINED_KEY = ''sentinelmesh:joined_channels''"

definition getJoinedChannels :: "local_storage option \<Rightarrow> string list" where
  "getJoinedChannels ls =
     (case ls of
        None \<Rightarrow> []
      | Some l \<Rightarrow>
          (case (if truthy (idb_get l JOINED_KEY) then json_parse (the (idb_get l JOINED_KEY)) else Some (JArr [])) of
             Some (JArr xs) \<Rightarrow> List.map_filter js_str xs
           | _ \<Rightarrow> []))"

definition addJoinedChannel :: "local_storage option \<Rightarrow> string \<Rightarrow> local_storage option" where
  "addJoinedChannel ls groupId =
     (case ls of
        None \<Rightarrow> None
      | Some l \<Rightarrow>
          Some (idb_put l JOINED_KEY
            (stringify (JArr (map JStr (set_add (set_of_array (getJoinedChannels ls)) groupId))))))"

section \<open>Rows are stored under their ids\<close>

text \<open>Every write of the module keeps the rows of each store under their own key.\<close>

definition chat_db_ok :: "'k chat_db \<Rightarrow> bool" where
  "chat_db_ok db \<longleftrightarrow> store_ok sc_id (db_conversations db) \<and> store_ok sm_id (db_messages db)
     \<and> store_ok ob_id (db_outbox db) \<and> store_ok sy_id (db_sync db) \<and> store_ok rd_conversation_id (db_read db)"

lemma chat_db_ok_ops:
  "chat_db_ok openDb"
  "chat_db_ok db \<Longrightarrow> chat_db_ok (putConversation db c)"
  "chat_db_ok db \<Longrightarrow> chat_db_ok (putMessage db m)"
  "chat_db_ok db \<Longrightarrow> chat_db_ok (putChannelMessage db pm)"
  "chat_db_ok db \<Longrightarrow> chat_db_ok (putOutboxItem db i)"
  "chat_db_ok db \<Longrightarrow> chat_db_ok (enqueueOutbox db r rl w)"
  "chat_db_ok db \<Longrightarrow> chat_db_ok (putSyncState db y)"
  "chat_db_ok db \<Longrightarrow> chat_db_ok (putReadState db rd)"
  "chat_db_ok db \<Longrightarrow> chat_db_ok (setPreference db key v)"
  "chat_db_ok db \<Longrightarrow> chat_db_ok (deleteConversation db cid)"
  "chat_db_ok db \<Longrightarrow> chat_db_ok (fst (getOrCreateEncryptionKey fresh db))"
  "chat_db_ok db \<Longrightarrow> chat_db_ok (fst (markGiftWrapSeen now db oid))"
  by (auto simp: chat_db_ok_def openDb_def putConversation_def putMessage_def putChannelMessage_def
      putOutboxItem_def enqueueOutbox_def putSyncState_def putReadState_def setPreference_def
      deleteConversation_def getOrCreateEncryptionKey_def markGiftWrapSeen_def
      intro: store_ok_put store_ok_del split: option.splits)

section \<open>Listing messages\<close>

lemma message_range_timeline:
  assumes "chat_db_ok db"
  shows "timeline_ok sm_created_at sm_id (message_range db c upper)"
  unfolding message_range_def
proof (rule sort_timeline)
  have "distinct (map sm_id (map snd (db_messages db)))"
    using assms by (simp add: chat_db_ok_def store_ok_distinct del: map_map)
  then show "distinct (map sm_id (filter (\<lambda>m. sm_conversation_id m = c \<and> - MAX_SAFE_INTEGER \<le> sm_created_at m
      \<and> sm_created_at m \<le> upper) (map snd (db_messages db))))"
    by (rule distinct_map_filter)
qed

lemma set_message_range:
  "chat_db_ok db \<Longrightarrow> m \<in> set (message_range db c upper) \<longleftrightarrow>
     idb_get (db_messages db) (sm_id m) = Some m \<and> sm_conversation_id m = c
     \<and> - MAX_SAFE_INTEGER \<le> sm_created_at m \<and> sm_created_at m \<le> upper"
  by (auto simp: message_range_def chat_db_ok_def store_ok_rows [symmetric])

lemma sorted_wrt_take_drop_before:
  assumes "sorted_wrt R xs" "x \<in> set (take n xs)" "y \<in> set xs" "y \<notin> set (take n xs)"
  shows "R x y"
proof -
  have "sorted_wrt R (take n xs @ drop n xs)" using assms(1) by simp
  moreover have "y \<in> set (drop n xs)"
    using assms(3,4) by (metis UnE append_take_drop_id set_append)
  ultimately show ?thesis using assms(2) unfolding sorted_wrt_append by blast
qed

section \<open>Outbox\<close>

lemma parse_wrap_stringify [simp]: "parse_wrap (stringify (event_json e)) = ok e"
  by (simp add: parse_wrap_def event_json_roundtrip decode_event_json)

lemma backoff_bounds: "0 < backoff_ms n \<and> backoff_ms n \<le> MAX_BACKOFF_MS"
  by (simp add: backoff_ms_def MAX_BACKOFF_MS_def)

text \<open>What one successful call of \<open>deliver_item\<close> writes for an item.\<close>

definition after_publish :: "int \<Rightarrow> bool \<Rightarrow> stored_outbox_item \<Rightarrow> stored_outbox_item" where
  "after_publish now accepted item =
     (if accepted then item\<lparr>ob_delivered := True\<rparr>
      else item\<lparr>ob_attempts := ob_attempts item + 1, ob_next_retry_at := now + backoff_ms (ob_attempts item + 1)\<rparr>)"

definition accepted :: "relay_client \<Rightarrow> stored_outbox_item \<Rightarrow> bool result" where
  "accepted client item =
     bind_result (parse_wrap (ob_wrap item)) (\<lambda>w.
       bind_result (rc_publish client (ob_relays item) w) (\<lambda>rs. ok (list_ex pr_ok rs)))"

lemma deliver_item_eq:
  "deliver_item client now db item =
     bind_result (accepted client item) (\<lambda>a. ok (putOutboxItem db (after_publish now a item), a))"
  by (auto simp: deliver_item_def accepted_def after_publish_def Let_def bind_result_def
      split: sum.splits)

lemma after_publish_id [simp]: "ob_id (after_publish now a item) = ob_id item"
  by (simp add: after_publish_def)

lemma after_publish_not_due:
  "\<not> ob_delivered (after_publish now a item) \<longrightarrow> now < ob_next_retry_at (after_publish now a item)"
  using backoff_bounds [of "ob_attempts item + 1"] by (simp add: after_publish_def)

lemma deliver_loop_ok:
  assumes "\<forall>item\<in>set items. \<exists>a. accepted client item = ok a" "distinct (map ob_id items)"
  shows "\<exists>db' d f. deliver_loop client now db items d0 f0 = (db', ok (d, f))
     \<and> d + f = d0 + f0 + length items
     \<and> (\<forall>k. idb_get (db_outbox db') k =
          (case find (\<lambda>i. ob_id i = k) items of
             Some item \<Rightarrow> Some (after_publish now (accepted client item = ok True) item)
           | None \<Rightarrow> idb_get (db_outbox db) k))
     \<and> (chat_db_ok db \<longrightarrow> chat_db_ok db')"
  using assms
proof (induction items arbitrary: db d0 f0)
  case (Cons item items)
  then obtain a where a: "accepted client item = ok a" by auto
  let ?db = "putOutboxItem db (after_publish now a item)"
  let ?d = "if a then Suc d0 else d0" and ?f = "if a then f0 else Suc f0"
  have step: "deliver_loop client now db (item # items) d0 f0 = deliver_loop client now ?db items ?d ?f"
    by (cases a) (simp_all add: deliver_item_eq a)
  have "\<forall>item\<in>set items. \<exists>a. accepted client item = ok a" "distinct (map ob_id items)"
    using Cons.prems by simp_all
  from Cons.IH [OF this, of ?db ?d ?f]
  obtain db' d f where ih: "deliver_loop client now ?db items ?d ?f = (db', ok (d, f))"
     "d + f = ?d + ?f + length items"
     "\<forall>k. idb_get (db_outbox db') k =
          (case find (\<lambda>i. ob_id i = k) items of
             Some item \<Rightarrow> Some (after_publish now (accepted client item = ok True) item)
           | None \<Rightarrow> idb_get (db_outbox ?db) k)"
     "chat_db_ok ?db \<longrightarrow> chat_db_ok db'" by metis
  have notin: "find (\<lambda>i. ob_id i = ob_id item) items = None"
    using Cons.prems(2) by (auto simp: find_None_iff) (metis imageI)
  have "idb_get (db_outbox db') k =
      (case find (\<lambda>i. ob_id i = k) (item # items) of
         Some item \<Rightarrow> Some (after_publish now (accepted client item = ok True) item)
       | None \<Rightarrow> idb_get (db_outbox db) k)" for k
    using ih(3) a notin by (auto simp: putOutboxItem_def split: option.splits)
  moreover have "chat_db_ok db \<longrightarrow> chat_db_ok db'" using ih(4) chat_db_ok_ops(5) by blast
  moreover have "d + f = d0 + f0 + length (item # items)" using ih(2) by (cases a) simp_all
  ultimately show ?case using step ih(1) by metis
qed simp

section \<open>Preferences\<close>

lemma getPreference_set [simp]:
  "v \<noteq> JNull \<Longrightarrow> getPreference (setPreference db k v) k' = (if k' = k then Some v else getPreference db k')"
  by (simp add: getPreference_def setPreference_def split: json.splits)

lemma pref_strings_map [simp]: "pref_strings (Some (JArr (map JStr xs))) = xs"
  by (induction xs) (simp_all add: pref_strings_def List.map_filter_def)

lemma decrypt_encrypted:
  assumes "crypto_laws wc"
    and "length iv = 12"
    and "encryptLocalPlaintext wc fresh iv db plaintext = (db', c)"
    and "idb_get (db_crypto db'') CRYPTO_KEY_ID = idb_get (db_crypto db') CRYPTO_KEY_ID"
  shows "decryptLocalPlaintext wc fresh' db'' c = (db'', Some plaintext)"
proof -
  obtain key where key: "getOrCreateEncryptionKey fresh db = (db', key)"
      "c = chat_encode iv (wc_encrypt wc key iv [] (wc_textEncode wc plaintext))"
    using assms(3) by (auto simp: encryptLocalPlaintext_def split: prod.splits)
  from key(1) have "idb_get (db_crypto db') CRYPTO_KEY_ID = Some key"
    by (auto simp: getOrCreateEncryptionKey_def split: option.splits)
  with assms(4) have "getOrCreateEncryptionKey fresh' db'' = (db'', key)"
    by (simp add: getOrCreateEncryptionKey_def)
  moreover have "chat_decode c = Some (iv, wc_encrypt wc key iv [] (wc_textEncode wc plaintext))"
    using assms(1,2) by (simp add: crypto_laws_def key(2) chat_encode_def chat_decode_def)
  ultimately show ?thesis using assms(1) by (simp add: crypto_laws_def decryptLocalPlaintext_def)
qed

section \<open>Properties\<close>

text \<open>
  A message body encrypted for storage is read back unchanged, now or after any later
  operations, as long as the device key row is kept; and the first use creates that row, which no
  later call replaces.
\<close>

theorem local_encryption_roundtrip:
  assumes "crypto_laws wc"
    and "length iv = 12"
    and "encryptLocalPlaintext wc fresh iv db plaintext = (db', c)"
    and "idb_get (db_crypto db'') CRYPTO_KEY_ID = idb_get (db_crypto db') CRYPTO_KEY_ID"
  shows "decryptLocalPlaintext wc fresh' db'' c = (db'', Some plaintext)"
  using assms by (rule decrypt_encrypted)

theorem local_encryption_roundtrip_witness:
  "snd (decryptLocalPlaintext plain_crypto ([], False)
      (fst (encryptLocalPlaintext plain_crypto ([1], False) (replicate 12 1) openDb ''hi''))
      (snd (encryptLocalPlaintext plain_crypto ([1], False) (replicate 12 1) openDb ''hi''))) = Some ''hi''"
proof -
  let ?e = "encryptLocalPlaintext plain_crypto ([1], False) (replicate 12 1) openDb ''hi''"
  have "decryptLocalPlaintext plain_crypto ([], False) (fst ?e) (snd ?e) = (fst ?e, Some ''hi'')"
    by (rule local_encryption_roundtrip [where iv = "replicate 12 1" and db' = "fst ?e" and db = openDb and fresh = "([1], False)"])
      (simp_all add: plain_crypto_laws)
  then show ?thesis by simp
qed

text \<open>
  \<open>listMessages\<close> returns stored messages of the conversation within the time bound, newest
  first, no id twice, at most \<open>limit\<close> of them; and a message it leaves out is older than every
  message it returns and is left out only because the limit was reached.
\<close>

theorem list_messages_newest:
  assumes "chat_db_ok db" and "result = listMessages db c (Some n) (Some b)"
  shows "sorted_wrt (\<lambda>x y. timeline_before sm_created_at sm_id y x) result \<and> distinct (map sm_id result)
    \<and> length result \<le> n
    \<and> (\<forall>m\<in>set result. idb_get (db_messages db) (sm_id m) = Some m \<and> sm_conversation_id m = c \<and> sm_created_at m \<le> b)
    \<and> (\<forall>m. idb_get (db_messages db) (sm_id m) = Some m \<longrightarrow> sm_conversation_id m = c \<longrightarrow> sm_created_at m \<le> b
         \<longrightarrow> - MAX_SAFE_INTEGER \<le> sm_created_at m \<longrightarrow> m \<notin> set result
         \<longrightarrow> length result = n \<and> (\<forall>x\<in>set result. timeline_before sm_created_at sm_id m x))"
proof -
  define all where "all = rev (message_range db c b)"
  have res: "result = take n all" by (simp add: assms(2) listMessages_def all_def)
  have sorted: "sorted_wrt (\<lambda>x y. timeline_before sm_created_at sm_id y x) all" and dist: "distinct (map sm_id all)"
    using message_range_timeline [OF assms(1), of c b]
    by (auto simp: all_def timeline_ok_def sorted_wrt_rev rev_map [symmetric])
  have mem: "m \<in> set all \<longleftrightarrow> idb_get (db_messages db) (sm_id m) = Some m \<and> sm_conversation_id m = c
     \<and> - MAX_SAFE_INTEGER \<le> sm_created_at m \<and> sm_created_at m \<le> b" for m
    by (simp add: all_def set_message_range [OF assms(1)])
  have left: "length result = n \<and> (\<forall>x\<in>set result. timeline_before sm_created_at sm_id m x)"
    if m: "m \<in> set all" "m \<notin> set result" for m
  proof
    from m res have "n < length all" by (metis not_less take_all)
    then show "length result = n" by (simp add: res)
    show "\<forall>x\<in>set result. timeline_before sm_created_at sm_id m x"
      using sorted_wrt_take_drop_before [OF sorted, of _ n m] m by (simp add: res)
  qed
  have "\<forall>m\<in>set result. m \<in> set all" by (auto simp: res dest: in_set_takeD)
  moreover have "distinct (map sm_id result)" unfolding res take_map [symmetric] using dist by (rule distinct_take)
  moreover have "sorted_wrt (\<lambda>x y. timeline_before sm_created_at sm_id y x) result"
    unfolding res using sorted by (rule sorted_wrt_take)
  ultimately show ?thesis using left mem by (simp add: res)
qed

definition sample_message :: "string \<Rightarrow> int \<Rightarrow> stored_message" where
  "sample_message i t = \<lparr>sm_id = i, sm_conversation_id = ''c'', sm_sender_pubkey = ''p'', sm_created_at = t,
     sm_kind = 14, sm_ciphertext = ''x'', sm_delivery_state = D_delivered\<rparr>"

theorem list_messages_newest_witness:
  "let db = putMessage (putMessage openDb (sample_message ''a'' 5)) (sample_message ''b'' 9)
   in distinct (map sm_id (listMessages db ''c'' (Some 1) (Some 100)))
      \<and> listMessages db ''c'' (Some 1) (Some 100) = [sample_message ''b'' 9]"
proof -
  let ?db = "putMessage (putMessage openDb (sample_message ''a'' 5)) (sample_message ''b'' 9)"
  have "chat_db_ok ?db" by (intro chat_db_ok_ops)
  from list_messages_newest [OF this refl, of "''c''" 1 100]
  have "distinct (map sm_id (listMessages ?db ''c'' (Some 1) (Some 100)))" by blast
  moreover have "listMessages ?db ''c'' (Some 1) (Some 100) = [sample_message ''b'' 9]"
    by (simp add: listMessages_def message_range_def putMessage_def openDb_def sample_message_def idb_put_def
        MAX_SAFE_INTEGER_def time_id_cmp_def)
  ultimately show ?thesis by (simp add: Let_def)
qed

lemma outbox_rows:
  "chat_db_ok db \<Longrightarrow> i \<in> set (idb_getAll (db_outbox db)) \<longleftrightarrow> idb_get (db_outbox db) (ob_id i) = Some i"
  by (simp add: chat_db_ok_def store_ok_rows)

text \<open>The outbox after a round, row by row, when the due items were replaced by \<open>g\<close>.\<close>

lemma round_row:
  assumes "chat_db_ok db" "idb_get (db_outbox db) (ob_id item) = Some item"
    and "\<forall>k. idb_get (db_outbox db') k = (case find (\<lambda>i. ob_id i = k) (listPendingOutbox db now) of
        Some item \<Rightarrow> Some (g item) | None \<Rightarrow> idb_get (db_outbox db) k)"
  shows "idb_get (db_outbox db') (ob_id item) = Some (if item \<in> set (listPendingOutbox db now) then g item else item)"
proof (cases "find (\<lambda>i. ob_id i = ob_id item) (listPendingOutbox db now)")
  case None
  then have "item \<notin> set (listPendingOutbox db now)" by (auto simp: find_None_iff)
  with None assms(2,3) show ?thesis by simp
next
  case (Some x)
  then have x: "x \<in> set (listPendingOutbox db now)" "ob_id x = ob_id item" by (auto simp: find_Some_iff)
  from x(1) have "x \<in> set (idb_getAll (db_outbox db))" by (simp add: listPendingOutbox_def del: idb_getAll_set)
  then have "idb_get (db_outbox db) (ob_id item) = Some x" using outbox_rows [OF assms(1), of x] x(2) by simp
  with assms(2) have "x = item" by simp
  with Some x assms(3) show ?thesis by simp
qed

lemma round_none_due:
  assumes "chat_db_ok db" "chat_db_ok db'" "\<And>x. \<not> (\<not> ob_delivered (g x) \<and> ob_next_retry_at (g x) \<le> now)"
    and "\<forall>k. idb_get (db_outbox db') k = (case find (\<lambda>i. ob_id i = k) (listPendingOutbox db now) of
        Some item \<Rightarrow> Some (g item) | None \<Rightarrow> idb_get (db_outbox db) k)"
  shows "listPendingOutbox db' now = []"
proof (rule ccontr)
  assume "listPendingOutbox db' now \<noteq> []"
  then obtain y where y: "y \<in> set (idb_getAll (db_outbox db'))" "\<not> ob_delivered y" "ob_next_retry_at y \<le> now"
    by (auto simp: listPendingOutbox_def filter_empty_conv)
  then have gy: "idb_get (db_outbox db') (ob_id y) = Some y" using outbox_rows [OF assms(2)] by simp
  show False
  proof (cases "find (\<lambda>i. ob_id i = ob_id y) (listPendingOutbox db now)")
    case None
    with gy assms(4) have "y \<in> set (idb_getAll (db_outbox db))" using outbox_rows [OF assms(1)] by simp
    with y None show False by (auto simp: listPendingOutbox_def find_None_iff)
  next
    case (Some x)
    with gy assms(4) have "y = g x" by simp
    with y assms(3) [of x] show False by simp
  qed
qed


definition sample_wrap :: nostr_event where
  "sample_wrap = \<lparr>ne_id = ''w'', ne_pubkey = ''e'', ne_created_at = 1, ne_kind = 1059, ne_tags = [[''p'', ''r'']],
     ne_content = ''c'', ne_sig = ''s''\<rparr>"

definition sample_client :: "bool \<Rightarrow> relay_client" where
  "sample_client b = \<lparr>rc_publish = (\<lambda>rs e. ok (map (\<lambda>u. \<lparr>pr_url = u, pr_ok = b, pr_message = None\<rparr>) rs)),
     rc_query = (\<lambda>rs f. ok [])\<rparr>"


text \<open>
  The moderation lists behave as sets of lower-case keys. Blocking makes exactly the given key
  (in any letter case) blocked and unblocking makes exactly that key unblocked; other keys and the
  mute list are unaffected, likewise for muting; and a blocked sender is always suppressed, contact
  or not.
\<close>

theorem moderation_lists:
  "(isBlocked (blockPubkey db p) q \<longleftrightarrow> toLowerCase q = toLowerCase p \<or> isBlocked db q)
   \<and> (isBlocked (unblockPubkey db p) q \<longleftrightarrow> toLowerCase q \<noteq> toLowerCase p \<and> isBlocked db q)
   \<and> (isMuted (mutePubkey db p) q \<longleftrightarrow> toLowerCase q = toLowerCase p \<or> isMuted db q)
   \<and> (isMuted (unmutePubkey db p) q \<longleftrightarrow> toLowerCase q \<noteq> toLowerCase p \<and> isMuted db q)
   \<and> isMuted (blockPubkey db p) q = isMuted db q \<and> isMuted (unblockPubkey db p) q = isMuted db q
   \<and> isBlocked (mutePubkey db p) q = isBlocked db q \<and> isBlocked (unmutePubkey db p) q = isBlocked db q
   \<and> quarantineDecision q c m (isBlocked (blockPubkey db q) q) = Block"
  by (auto simp: isBlocked_def isMuted_def blockedPubkeys_def mutedPubkeys_def blockPubkey_def
      unblockPubkey_def mutePubkey_def unmutePubkey_def BLOCKED_KEY_def MUTED_KEY_def quarantineDecision_def)

text \<open>
  Joining a channel adds its group id to the remembered list, through the JSON written to
  localStorage, keeps the ids already remembered in order, and joining again changes nothing.
\<close>

theorem joined_channels_roundtrip:
  "getJoinedChannels (addJoinedChannel (Some l) g) = set_add (set_of_array (getJoinedChannels (Some l))) g
   \<and> addJoinedChannel (addJoinedChannel (Some l) g) g = addJoinedChannel (Some l) g
   \<and> addJoinedChannel None g = None"
proof -
  have read: "getJoinedChannels (Some (idb_put k JOINED_KEY (stringify (JArr (map JStr xs))))) = xs" for k xs
  proof -
    have "json_parse (stringify (JArr (map JStr xs))) = Some (JArr (map JStr xs))"
      by (rule json_roundtrip) (simp add: list_all_iff)
    moreover have "stringify (JArr (map JStr xs)) \<noteq> ''''" by simp
    moreover have "List.map_filter js_str (map JStr xs) = xs"
      by (induction xs) (simp_all add: List.map_filter_def)
    ultimately show ?thesis by (simp add: getJoinedChannels_def truthy_def del: stringify.simps)
  qed
  let ?xs = "set_add (set_of_array (getJoinedChannels (Some l))) g"
  have add: "addJoinedChannel (Some l) g = Some (idb_put l JOINED_KEY (stringify (JArr (map JStr ?xs))))"
    by (simp add: addJoinedChannel_def)
  have "set_add (set_of_array ?xs) g = ?xs" by (simp add: set_add_def)
  moreover have "idb_put (idb_put l k v) k v = idb_put l k v" for k v
    unfolding idb_put_def by (induction l k v rule: map_set.induct) auto
  ultimately have "addJoinedChannel (addJoinedChannel (Some l) g) g = addJoinedChannel (Some l) g"
    unfolding add by (simp add: addJoinedChannel_def read del: stringify.simps)
  then show ?thesis unfolding add by (simp add: read addJoinedChannel_def del: stringify.simps)
qed

end
