(* ===== verification/ChatSync.thy ===== *)
theory ChatSync
  imports ChatSlice ChatDb
begin

text \<open>
  Synchronization of chat with the relays: history and live subscription of a public channel
  (\<open>services/chat/chatSync.ts\<close>, \<open>hooks/useChannelSync.ts\<close>) and the encrypted inbox
  (\<open>hooks/useInboxSync.ts\<close>), on top of the validated events, the database and the Redux slices.
  A mounted hook is a session: a record of the slice, the database and the hook's variables, and one
  step per callback. Each callback runs to completion before the next. The lemmas show that
  deduplication never hides a message that is not displayed, that what is displayed is stored,
  and what a message received by the inbox leaves behind.
\<close>

section \<open>Channel history and subscription\<close>

definition CHANNEL_HISTORY_LIMIT :: int where "CHANNEL_HISTORY_LIMIT = 200"
definition CHANNEL_SYNC_OVERLAP_SECONDS :: int where "CHANNEL_SYNC_OVERLAP_SECONDS = 60"

definition resumeSince :: "int \<Rightarrow> int" where
  "resumeSince lastCreatedAt = max 0 (lastCreatedAt - CHANNEL_SYNC_OVERLAP_SECONDS)"

definition mergeUnique :: "nostr_event list \<Rightarrow> nostr_event list" where
  "mergeUnique events =
     js_sort (time_id_cmp ne_created_at ne_id)
       (map snd (foldl (\<lambda>byId e. map_set byId (ne_id e) e) [] events))"

text \<open>An absent or zero \<open>since\<close> is not sent.\<close>

definition since_filter :: "int option \<Rightarrow> int option" where
  "since_filter since = (if since = Some 0 then None else since)"

definition channel_filter :: "string \<Rightarrow> int option \<Rightarrow> int option \<Rightarrow> relay_filter" where
  "channel_filter groupId since limit =
     \<lparr>rf_kinds = [NIP29_KIND_MESSAGE], rf_authors = None, rf_d = None, rf_h = Some [groupId], rf_p = None,
      rf_since = since_filter since, rf_limit = limit\<rparr>"

text \<open>The history query as the channel hook makes it (no \<open>since\<close>, \<open>until\<close> or \<open>limit\<close>).\<close>

definition fetchChannelHistory ::
  "(nostr_event \<Rightarrow> bool option) \<Rightarrow> int \<Rightarrow> relay_client \<Rightarrow> string \<Rightarrow> string \<Rightarrow> nostr_event list result" where
  "fetchChannelHistory verifyEvent now client relayUrl groupId =
     bind_result (rc_query client [relayUrl] (channel_filter groupId None (Some CHANNEL_HISTORY_LIMIT))) (\<lambda>events.
       ok (mergeUnique (filter (\<lambda>e. validateChannelMessage verifyEvent now e groupId) events)))"

text \<open>
  The subscription callback of \<open>subscribeChannel\<close>: the new \<open>seen\<close> set, and whether the event is
  passed on.
\<close>

definition subscribeChannel_on_event ::
  "(nostr_event \<Rightarrow> bool option) \<Rightarrow> int \<Rightarrow> string \<Rightarrow> string list \<Rightarrow> nostr_event \<Rightarrow> string list \<times> bool" where
  "subscribeChannel_on_event verifyEvent now groupId seen e =
     (if \<not> validateChannelMessage verifyEvent now e groupId then (seen, False)
      else if ne_id e \<in> set seen then (seen, False)
      else (set_add seen (ne_id e), True))"

section \<open>The channel hook\<close>

definition toChatMessage :: "string \<Rightarrow> nostr_event \<Rightarrow> chat_message" where
  "toChatMessage channelId e =
     \<lparr>cm_id = ne_id e, cm_channel_id = channelId, cm_sender_pubkey = ne_pubkey e,
      cm_created_at = ne_created_at e, cm_content = ne_content e\<rparr>"

definition remember :: "string \<Rightarrow> 'k chat_db \<Rightarrow> nostr_event \<Rightarrow> 'k chat_db" where
  "remember channelId db e =
     putChannelMessage db \<lparr>pcm_id = ne_id e, pcm_channel_id = channelId, pcm_sender_pubkey = ne_pubkey e,
       pcm_created_at = ne_created_at e, pcm_content = ne_content e\<rparr>"

record 'k channel_session =
  cs_chat :: chat_state
  cs_db :: "'k chat_db"
  cs_seen :: "string list"
  cs_since :: "int option option"
  cs_disposed :: bool

text \<open>
  The callbacks: locally stored messages loaded, channel state loaded, history fetched (or the
  relay unreachable), an event of the live subscription at a given time, end of stored events, and
  the cleanup of the effect. \<open>cs_since\<close> is the cursor of the live subscription once it is open.
\<close>

datatype channel_callback =
    Stored_loaded
  | State_loaded chat_channel_state
  | History_fetched int "nostr_event list result"
  | Live_event int nostr_event
  | Eose
  | Cleanup

definition stored_loaded :: "string \<Rightarrow> 'k channel_session \<Rightarrow> 'k channel_session" where
  "stored_loaded channelId s =
     (let stored = listChannelMessages (cs_db s) channelId
      in if \<not> cs_disposed s \<and> stored \<noteq> [] then
           s\<lparr>cs_chat := channelHistoryLoaded (cs_chat s) channelId
               (map (\<lambda>m. \<lparr>cm_id = pcm_id m, cm_channel_id = pcm_channel_id m, cm_sender_pubkey = pcm_sender_pubkey m,
                           cm_created_at = pcm_created_at m, cm_content = pcm_content m\<rparr>) stored)\<rparr>
         else s)"

definition history_fetched ::
  "(nostr_event \<Rightarrow> bool option) \<Rightarrow> string \<Rightarrow> string \<Rightarrow> int \<Rightarrow> 'k channel_session \<Rightarrow> nostr_event list result \<Rightarrow> 'k channel_session" where
  "history_fetched verifyEvent channelId groupId now s response =
     (case response of
        Inl _ \<Rightarrow> s
      | Inr events \<Rightarrow>
          if cs_disposed s then s
          else
            (let history = mergeUnique (filter (\<lambda>e. validateChannelMessage verifyEvent now e groupId) events);
                 since = (if history = [] \<or> ne_created_at (last history) = 0 then None
                          else Some (resumeSince (ne_created_at (last history))))
             in s\<lparr>cs_seen := foldl (\<lambda>sn e. set_add sn (ne_id e)) (cs_seen s) history,
                  cs_db := foldl (remember channelId) (cs_db s) history,
                  cs_chat := channelHistoryLoaded (cs_chat s) channelId (map (toChatMessage channelId) history),
                  cs_since := Some (since_filter since)\<rparr>))"

definition live_event ::
  "(nostr_event \<Rightarrow> bool option) \<Rightarrow> string \<Rightarrow> string \<Rightarrow> int \<Rightarrow> 'k channel_session \<Rightarrow> nostr_event \<Rightarrow> 'k channel_session" where
  "live_event verifyEvent channelId groupId now s e =
     (if cs_disposed s \<or> cs_since s = None then s
      else
        (let (seen, pass) = subscribeChannel_on_event verifyEvent now groupId (cs_seen s) e
         in if pass then
              s\<lparr>cs_seen := seen, cs_db := remember channelId (cs_db s) e,
                cs_chat := channelMessageReceived (cs_chat s) channelId (toChatMessage channelId e)\<rparr>
            else s\<lparr>cs_seen := seen\<rparr>))"

fun channel_step ::
  "(nostr_event \<Rightarrow> bool option) \<Rightarrow> string \<Rightarrow> string \<Rightarrow> 'k channel_session \<Rightarrow> channel_callback \<Rightarrow> 'k channel_session" where
  "channel_step verifyEvent channelId groupId s Stored_loaded = stored_loaded channelId s"
| "channel_step verifyEvent channelId groupId s (State_loaded st) =
     (if cs_disposed s then s else s\<lparr>cs_chat := channelStateLoaded (cs_chat s) st\<rparr>)"
| "channel_step verifyEvent channelId groupId s (History_fetched now response) =
     history_fetched verifyEvent channelId groupId now s response"
| "channel_step verifyEvent channelId groupId s (Live_event now e) = live_event verifyEvent channelId groupId now s e"
| "channel_step verifyEvent channelId groupId s Eose =
     (if cs_disposed s \<or> cs_since s = None then s else s\<lparr>cs_chat := channelSynced (cs_chat s) channelId\<rparr>)"
| "channel_step verifyEvent channelId groupId s Cleanup = s\<lparr>cs_disposed := True\<rparr>"

definition open_channel :: "chat_state \<Rightarrow> 'k chat_db \<Rightarrow> 'k channel_session" where
  "open_channel chat db = \<lparr>cs_chat = chat, cs_db = db, cs_seen = [], cs_since = None, cs_disposed = False\<rparr>"

section \<open>The inbox hook\<close>

record 'k inbox_session =
  ib_dm :: dm_state
  ib_db :: "'k chat_db"
  ib_seen :: "string list"
  ib_disposed :: bool

definition ib_isSeen :: "'k inbox_session \<Rightarrow> string \<Rightarrow> bool" where
  "ib_isSeen s i \<longleftrightarrow> i \<in> set (ib_seen s) \<or> hasGiftWrap (ib_db s) i"

definition ib_markSeen :: "int \<Rightarrow> 'k inbox_session \<Rightarrow> string \<Rightarrow> 'k inbox_session" where
  "ib_markSeen now s i =
     s\<lparr>ib_seen := set_add (ib_seen s) i, ib_db := fst (markGiftWrapSeen now (ib_db s) i)\<rparr>"

text \<open>What the hook does with a processed message: encrypt, store, add the conversation, dispatch.\<close>

definition inbox_store :: "'k web_crypto \<Rightarrow> 'k \<Rightarrow> bytes \<Rightarrow> 'k inbox_session \<Rightarrow> processed_inbox_message \<Rightarrow> 'k inbox_session" where
  "inbox_store wc fresh iv s p =
     (let (db1, encrypted) = encryptLocalPlaintext wc fresh iv (ib_db s) (pm_content p);
          db2 = putMessage db1 \<lparr>sm_id = pm_rumorId p, sm_conversation_id = pm_conversationId p,
                  sm_sender_pubkey = pm_senderPubkey p, sm_created_at = pm_created_at p, sm_kind = 14,
                  sm_ciphertext = encrypted, sm_delivery_state = D_delivered\<rparr>;
          dm1 = conversationAdded (ib_dm s) \<lparr>dc_id = pm_conversationId p,
                  dc_kind = (if length (pm_participants p) = 2 then KindDm else KindCircle),
                  dc_title = take 12 (pm_senderPubkey p), dc_participants = pm_participants p\<rparr>;
          dm2 = messageReceived dm1 (pm_conversationId p) \<lparr>dm_id = pm_rumorId p,
                  dm_conversation_id = pm_conversationId p, dm_sender_pubkey = pm_senderPubkey p,
                  dm_created_at = pm_created_at p, dm_content = pm_content p\<rparr>
      in s\<lparr>ib_db := db2, ib_dm := dm2\<rparr>)"

text \<open>The subscription callback; a rejected promise is dropped (\<open>void\<close>).\<close>

definition inbox_on_wrap ::
  "nostr_tools \<Rightarrow> (bytes \<Rightarrow> bytes) \<Rightarrow> (string \<Rightarrow> bytes) \<Rightarrow> 'k web_crypto \<Rightarrow> nostr_signer
     \<Rightarrow> int \<Rightarrow> 'k \<Rightarrow> bytes \<Rightarrow> 'k inbox_session \<Rightarrow> nostr_event \<Rightarrow> 'k inbox_session" where
  "inbox_on_wrap lib sha256 encode wc signer now fresh iv s wrap =
     (case processGiftWrap lib sha256 encode signer wrap ib_isSeen (ib_markSeen now) s of
        Inl _ \<Rightarrow> s
      | Inr (s', None) \<Rightarrow> s'
      | Inr (s', Some p) \<Rightarrow> if ib_disposed s' then s' else inbox_store wc fresh iv s' p)"

section \<open>Merged history\<close>

lemma by_id_store:
  "store_ok ne_id m \<Longrightarrow> store_ok ne_id (foldl (\<lambda>byId e. map_set byId (ne_id e) e) m events)"
proof (induction events arbitrary: m)
  case (Cons e es)
  have "store_ok ne_id (map_set m (ne_id e) e)"
    using store_ok_put [OF Cons.prems, of "ne_id e" e] by (simp add: idb_put_def)
  with Cons.IH show ?case by simp
qed simp

lemma by_id_map_of:
  "map_of (foldl (\<lambda>byId e. map_set byId (ne_id e) e) m events) i =
     (case find (\<lambda>e. ne_id e = i) (rev events) of Some e \<Rightarrow> Some e | None \<Rightarrow> map_of m i)"
  by (induction events arbitrary: m) (auto simp: find_append split: option.splits)

lemma mergeUnique_timeline: "timeline_ok ne_created_at ne_id (mergeUnique events)"
  unfolding mergeUnique_def
  by (rule sort_timeline, rule store_ok_distinct, rule by_id_store) simp

lemma mergeUnique_mem:
  "e \<in> set (mergeUnique events) \<longleftrightarrow> find (\<lambda>x. ne_id x = ne_id e) (rev events) = Some e"
proof -
  have ok: "store_ok ne_id (foldl (\<lambda>byId e. map_set byId (ne_id e) e) [] events)" by (rule by_id_store) simp
  have "e \<in> set (mergeUnique events) \<longleftrightarrow>
      map_of (foldl (\<lambda>byId e. map_set byId (ne_id e) e) [] events) (ne_id e) = Some e"
    using store_ok_rows [OF ok, of e] by (simp add: mergeUnique_def idb_get_def)
  then show ?thesis by (simp add: by_id_map_of split: option.splits)
qed

lemma mergeUnique_subset: "set (mergeUnique events) \<subseteq> set events"
  using find_SomeD [of _ "rev events"] by (auto simp: mergeUnique_mem)

lemma mergeUnique_ids: "ne_id ` set (mergeUnique events) = ne_id ` set events"
proof
  show "ne_id ` set (mergeUnique events) \<subseteq> ne_id ` set events" using mergeUnique_subset by auto
  show "ne_id ` set events \<subseteq> ne_id ` set (mergeUnique events)"
  proof clarify
    fix e assume "e \<in> set events"
    then have "find (\<lambda>x. ne_id x = ne_id e) (rev events) \<noteq> None" by (auto simp: find_None_iff)
    then obtain x where x: "find (\<lambda>x. ne_id x = ne_id e) (rev events) = Some x" by blast
    then have "ne_id x = ne_id e" by (auto simp: find_Some_iff)
    with x have "x \<in> set (mergeUnique events)" by (simp add: mergeUnique_mem)
    with \<open>ne_id x = ne_id e\<close> show "ne_id e \<in> ne_id ` set (mergeUnique events)" by (metis imageI)
  qed
qed

section \<open>Invariant of the channel session\<close>

definition displayed :: "string \<Rightarrow> chat_state \<Rightarrow> string set" where
  "displayed channelId chat = cm_id ` set (messages_of (chat_messages chat) channelId)"

definition stored :: "'k chat_db \<Rightarrow> string set" where
  "stored db = {i. idb_get (db_messages db) i \<noteq> None}"

definition channel_inv :: "string \<Rightarrow> 'k channel_session \<Rightarrow> bool" where
  "channel_inv c s \<longleftrightarrow> chat_inv (cs_chat s) \<and> chat_db_ok (cs_db s)
     \<and> set (cs_seen s) \<subseteq> displayed c (cs_chat s) \<and> displayed c (cs_chat s) \<subseteq> stored (cs_db s)"

lemma stored_put [simp]: "stored (putMessage db m) = insert (sm_id m) (stored db)"
  by (auto simp: stored_def putMessage_def)

lemma stored_remember [simp]: "stored (remember c db e) = insert (ne_id e) (stored db)"
  by (simp add: remember_def putChannelMessage_def)

lemma remember_ok [simp]: "chat_db_ok db \<Longrightarrow> chat_db_ok (remember c db e)"
  by (simp add: remember_def chat_db_ok_ops)

lemma foldl_remember:
  "stored (foldl (remember c) db es) = stored db \<union> ne_id ` set es"
  "chat_db_ok db \<Longrightarrow> chat_db_ok (foldl (remember c) db es)"
  by (induction es arbitrary: db) auto

lemma foldl_seen: "set (foldl (\<lambda>sn e. set_add sn (ne_id e)) sn es) = set sn \<union> ne_id ` set es"
  by (induction es arbitrary: sn) auto

lemma chat_inv_history: "chat_inv chat \<Longrightarrow> chat_inv (channelHistoryLoaded chat c ms)"
  using chat_red.inv_step [of chat "ChannelHistoryLoaded c ms"] by simp

lemma chat_inv_received: "chat_inv chat \<Longrightarrow> chat_inv (channelMessageReceived chat c m)"
  using chat_red.inv_step [of chat "ChannelMessageReceived c m"] by simp

lemma displayed_history:
  assumes "chat_inv chat"
  shows "displayed c (channelHistoryLoaded chat c ms) = displayed c chat \<union> cm_id ` set ms"
proof -
  have "timeline_ok cm_created_at cm_id (messages_of (chat_messages chat) c)"
    using assms by (simp add: chat_inv_def)
  from chat_tl.foldl_insert_ids [OF this] show ?thesis
    by (simp add: displayed_def channelHistoryLoaded_def fold_readers)
qed

lemma displayed_received:
  assumes "chat_inv chat"
  shows "displayed c (channelMessageReceived chat c m) = insert (cm_id m) (displayed c chat)"
proof -
  have "timeline_ok cm_created_at cm_id (messages_of (chat_messages chat) c)"
    using assms by (simp add: chat_inv_def)
  from chat_tl.insert_ids [OF this] show ?thesis
    by (simp add: displayed_def chat_received_readers [OF assms])
qed

lemma displayed_other [simp]:
  "displayed c (channelStateLoaded chat st) = displayed c chat"
  "displayed c (channelSynced chat c') = displayed c chat"
  by (simp_all add: displayed_def channelStateLoaded_def channelSynced_def)

lemma listChannelMessages_stored:
  assumes "chat_db_ok db"
  shows "pcm_id ` set (listChannelMessages db c) \<subseteq> stored db"
proof -
  have "m \<in> set (message_range db c MAX_SAFE_INTEGER)" if "m \<in> set (listMessages db c None None)" for m
    using that in_set_takeD [of m 200 "rev (message_range db c MAX_SAFE_INTEGER)"]
    by (simp add: listMessages_def)
  then have "idb_get (db_messages db) (sm_id m) \<noteq> None" if "m \<in> set (listMessages db c None None)" for m
    using that set_message_range [OF assms, of m c MAX_SAFE_INTEGER] by blast
  then show ?thesis by (auto simp: listChannelMessages_def stored_def)
qed

lemma toChatMessage_id [simp]: "cm_id (toChatMessage c e) = ne_id e"
  by (simp add: toChatMessage_def)

lemma toChatMessage_ids: "cm_id ` toChatMessage c ` A = ne_id ` A"
  by (simp add: image_image)

lemma channel_step_inv:
  assumes "channel_inv c s"
  shows "channel_inv c (channel_step v c g s cb)"
proof (cases cb)
  case Stored_loaded
  let ?ms = "map (\<lambda>m. \<lparr>cm_id = pcm_id m, cm_channel_id = pcm_channel_id m, cm_sender_pubkey = pcm_sender_pubkey m,
      cm_created_at = pcm_created_at m, cm_content = pcm_content m\<rparr>) (listChannelMessages (cs_db s) c)"
  have "cm_id ` set ?ms = pcm_id ` set (listChannelMessages (cs_db s) c)" by (simp add: image_image)
  with listChannelMessages_stored [of "cs_db s" c] assms Stored_loaded show ?thesis
    by (auto simp: channel_inv_def stored_loaded_def Let_def displayed_history chat_inv_history)
next
  case (State_loaded st)
  with assms chat_red.inv_step [of "cs_chat s" "ChannelStateLoaded st"] show ?thesis
    by (simp add: channel_inv_def)
next
  case (History_fetched now response)
  show ?thesis
  proof (cases response)
    case (Inr events)
    with assms History_fetched show ?thesis
      by (auto simp: channel_inv_def history_fetched_def Let_def displayed_history chat_inv_history
          foldl_remember foldl_seen toChatMessage_ids)
  qed (use assms History_fetched in \<open>simp add: history_fetched_def\<close>)
next
  case (Live_event now e)
  with assms show ?thesis
    by (auto simp: channel_inv_def live_event_def subscribeChannel_on_event_def displayed_received
        chat_inv_received)
next
  case Eose
  with assms chat_red.inv_step [of "cs_chat s" "ChannelSynced c"] show ?thesis
    by (simp add: channel_inv_def)
qed (use assms in \<open>simp add: channel_inv_def\<close>)

lemma channel_step_displays:
  assumes "channel_inv c s"
  shows "displayed c (cs_chat s) \<subseteq> displayed c (cs_chat (channel_step v c g s cb))"
proof (cases cb)
  case (History_fetched now response)
  with assms show ?thesis
    by (cases response) (auto simp: channel_inv_def history_fetched_def Let_def displayed_history)
next
  case (Live_event now e)
  with assms show ?thesis
    by (auto simp: channel_inv_def live_event_def subscribeChannel_on_event_def displayed_received)
qed (use assms in \<open>auto simp: channel_inv_def stored_loaded_def Let_def displayed_history\<close>)

lemma channel_run:
  assumes "channel_inv c s"
  shows "channel_inv c (foldl (channel_step v c g) s cbs)
    \<and> displayed c (cs_chat s) \<subseteq> displayed c (cs_chat (foldl (channel_step v c g) s cbs))"
  using assms
proof (induction cbs arbitrary: s)
  case (Cons cb cbs)
  from Cons.IH [OF channel_step_inv [OF Cons.prems]] channel_step_displays [OF Cons.prems]
  show ?case by (simp, blast)
qed simp

section \<open>The inbox session\<close>

lemma markGiftWrapSeen_has [simp]: "hasGiftWrap (fst (markGiftWrapSeen now db i)) j \<longleftrightarrow> j = i \<or> hasGiftWrap db j"
  by (auto simp: hasGiftWrap_def markGiftWrapSeen_def split: option.splits)

lemma markGiftWrapSeen_other [simp]:
  "db_messages (fst (markGiftWrapSeen now db i)) = db_messages db"
  "db_crypto (fst (markGiftWrapSeen now db i)) = db_crypto db"
  by (simp_all add: markGiftWrapSeen_def split: option.splits)

lemma processGiftWrap_state:
  "processGiftWrap lib sha256 encode signer wrap isSeen markSeen s = ok (s', Some p) \<Longrightarrow>
     s' = markSeen s (ne_id wrap) \<and> \<not> isSeen s (ne_id wrap) \<and> ne_kind wrap = NIP17_INBOX_KIND"
  by (auto simp: processGiftWrap_def bind_result_ok_iff Let_def split: if_splits option.splits)

lemma process_seen:
  "isSeen s (ne_id wrap) \<Longrightarrow> processGiftWrap lib sha256 encode signer wrap isSeen markSeen s = ok (s, None)"
  by (simp add: processGiftWrap_def)

lemma inbox_seen: "ib_isSeen s (ne_id wrap) \<Longrightarrow> inbox_on_wrap lib sha256 encode wc signer now fresh iv s wrap = s"
  by (simp add: inbox_on_wrap_def process_seen)

lemma encrypt_db:
  "hasGiftWrap (fst (encryptLocalPlaintext wc fresh iv db p)) i = hasGiftWrap db i"
  "idb_get (db_crypto (fst (encryptLocalPlaintext wc fresh iv db p))) CRYPTO_KEY_ID \<noteq> None"
  by (auto simp: encryptLocalPlaintext_def getOrCreateEncryptionKey_def hasGiftWrap_def split: option.splits)

lemma inbox_store_facts:
  assumes "dm_inv (ib_dm s)"
  shows "hasGiftWrap (ib_db (inbox_store wc fresh iv s p)) i = hasGiftWrap (ib_db s) i"
    and "ib_seen (inbox_store wc fresh iv s p) = ib_seen s"
    and "dm_inv (ib_dm (inbox_store wc fresh iv s p))"
    and "pm_rumorId p \<in> dm_id ` set (messages_of (dm_messages (ib_dm (inbox_store wc fresh iv s p))) (pm_conversationId p))"
    and "dm_conversations (ib_dm (inbox_store wc fresh iv s p)) (pm_conversationId p) \<noteq> None"
    and "\<exists>row. idb_get (db_messages (ib_db (inbox_store wc fresh iv s p))) (pm_rumorId p) = Some row
           \<and> sm_ciphertext row = snd (encryptLocalPlaintext wc fresh iv (ib_db s) (pm_content p))"
    and "db_crypto (ib_db (inbox_store wc fresh iv s p)) =
           db_crypto (fst (encryptLocalPlaintext wc fresh iv (ib_db s) (pm_content p)))"
proof -
  let ?enc = "encryptLocalPlaintext wc fresh iv (ib_db s) (pm_content p)"
  let ?c = "\<lparr>dc_id = pm_conversationId p, dc_kind = (if length (pm_participants p) = 2 then KindDm else KindCircle),
     dc_title = take 12 (pm_senderPubkey p), dc_participants = pm_participants p\<rparr>"
  let ?m = "\<lparr>dm_id = pm_rumorId p, dm_conversation_id = pm_conversationId p, dm_sender_pubkey = pm_senderPubkey p,
     dm_created_at = pm_created_at p, dm_content = pm_content p\<rparr>"
  let ?d = "conversationAdded (ib_dm s) ?c"
  have inv: "dm_inv ?d" using dm_red.inv_step [OF assms, of "ConversationAdded ?c"] by simp
  have dm: "ib_dm (inbox_store wc fresh iv s p) = messageReceived ?d (pm_conversationId p) ?m"
    by (simp add: inbox_store_def Let_def split: prod.splits)
  show "dm_inv (ib_dm (inbox_store wc fresh iv s p))"
    unfolding dm using dm_red.inv_step [OF inv, of "MessageReceived (pm_conversationId p) ?m"]
    by (simp only: dm_reducer.simps)
  have "timeline_ok dm_created_at dm_id (messages_of (dm_messages ?d) (pm_conversationId p))"
    using inv by (simp add: dm_inv_def)
  from dm_tl.insert_ids [OF this, of ?m]
  show "pm_rumorId p \<in> dm_id ` set (messages_of (dm_messages (ib_dm (inbox_store wc fresh iv s p))) (pm_conversationId p))"
    by (simp add: dm dm_received_readers [OF inv])
  show "dm_conversations (ib_dm (inbox_store wc fresh iv s p)) (pm_conversationId p) \<noteq> None"
    by (auto simp: dm messageReceived_def conversationAdded_def Let_def split: option.splits)
  show "hasGiftWrap (ib_db (inbox_store wc fresh iv s p)) i = hasGiftWrap (ib_db s) i"
    using encrypt_db(1) [of wc fresh iv "ib_db s" "pm_content p" i]
    by (auto simp: inbox_store_def Let_def putMessage_def hasGiftWrap_def split: prod.splits)
  show "\<exists>row. idb_get (db_messages (ib_db (inbox_store wc fresh iv s p))) (pm_rumorId p) = Some row
           \<and> sm_ciphertext row = snd ?enc"
    by (simp add: inbox_store_def Let_def putMessage_def split: prod.splits)
  show "db_crypto (ib_db (inbox_store wc fresh iv s p)) = db_crypto (fst ?enc)"
    by (simp add: inbox_store_def Let_def putMessage_def split: prod.splits)
  show "ib_seen (inbox_store wc fresh iv s p) = ib_seen s"
    by (simp add: inbox_store_def Let_def split: prod.splits)
qed

section \<open>Properties\<close>

text \<open>
  Merging fetched history sorts it strictly by time then id, keeps each event id once and
  loses none, and where an id was delivered more than once keeps the last delivery.
\<close>

theorem history_merge:
  "timeline_ok ne_created_at ne_id (mergeUnique events)
   \<and> ne_id ` set (mergeUnique events) = ne_id ` set events
   \<and> (\<forall>e. e \<in> set (mergeUnique events) \<longleftrightarrow> find (\<lambda>x. ne_id x = ne_id e) (rev events) = Some e)"
  using mergeUnique_timeline mergeUnique_ids mergeUnique_mem by blast




definition empty_inbox :: "bool \<Rightarrow> (bytes \<times> bool) inbox_session" where
  "empty_inbox d = \<lparr>ib_dm = dm_initialState, ib_db = openDb, ib_seen = [], ib_disposed = d\<rparr>"

lemma empty_inbox_unseen: "\<not> ib_isSeen (empty_inbox d) i"
  by (simp add: ib_isSeen_def empty_inbox_def hasGiftWrap_def openDb_def idb_get_def)


text \<open>
  A message that is processed just when the hook has been cleaned up is lost: the wrap is
  marked as seen in the database, but neither the conversation nor the stored messages receive
  it, and no later session over that database will ever show it.
\<close>

theorem inbox_cleanup_loses_message:
  assumes "processGiftWrap lib sha256 encode signer wrap ib_isSeen (ib_markSeen now) s = ok (s', Some p)"
    and "ib_disposed s" and "s2 = inbox_on_wrap lib sha256 encode wc signer now fresh iv s wrap"
    and "ib_db later = ib_db s2"
  shows "ib_dm s2 = ib_dm s \<and> db_messages (ib_db s2) = db_messages (ib_db s)
    \<and> inbox_on_wrap lib sha256 encode wc signer now' fresh' iv' later wrap = later"
proof -
  from processGiftWrap_state [OF assms(1)] have s': "s' = ib_markSeen now s (ne_id wrap)" by simp
  then have s2: "s2 = s'" using assms(1-3) by (simp add: inbox_on_wrap_def ib_markSeen_def)
  have "ib_isSeen later (ne_id wrap)" using assms(4) by (simp add: ib_isSeen_def s2 s' ib_markSeen_def)
  then show ?thesis by (simp add: inbox_seen s2 s' ib_markSeen_def)
qed

theorem inbox_cleanup_loses_message_witness:
  "\<exists>wrap p. processGiftWrap plain_tools id (map of_char) (plain_signer (key_of (CHR ''a''))) wrap
        ib_isSeen (ib_markSeen 1) (empty_inbox True) = ok (ib_markSeen 1 (empty_inbox True) (ne_id wrap), Some p)
     \<and> ib_dm (inbox_on_wrap plain_tools id (map of_char) plain_crypto (plain_signer (key_of (CHR ''a'')))
        1 ([], False) (replicate 12 1) (empty_inbox True) wrap) = dm_initialState"
proof -
  obtain w p where w: "processGiftWrap plain_tools id (map of_char) (plain_signer (key_of (CHR ''a''))) w
      ib_isSeen (ib_markSeen 1) (empty_inbox True) = ok (ib_markSeen 1 (empty_inbox True) (ne_id w), Some p)"
    using plain_delivery [of ib_isSeen "empty_inbox True" "ib_markSeen 1"] empty_inbox_unseen by blast
  have "ib_disposed (empty_inbox True)" by (simp add: empty_inbox_def)
  from inbox_cleanup_loses_message [OF w this refl refl] w show ?thesis by (auto simp: empty_inbox_def)
qed

end
