(* ===== verification/Vault.thy ===== *)
theory Vault
  imports Json Storage
begin

text \<open>
  The device vault: \<open>services/identityStore.ts\<close> (the Nostr secret key and the circle keys,
  encrypted at rest), \<open>services/homeLocationStore.ts\<close> (a scoped record in the same database),
  \<open>services/circleIdStore.ts\<close> (circle ids and owner keys in localStorage) and
  \<open>services/bunkerStore.ts\<close> (the remote-signer connection). Writes of the vault run under one Web
  Lock, so each operation is one atomic update. The lemmas show that what is saved is loaded back,
  that an identity is created once, and that each operation on circle keys changes exactly the entry
  it names.
\<close>

section \<open>Payload\<close>

record vault_circle =
  vc_id :: string
  vc_key :: bytes
  vc_epoch :: "int option"

record vault_payload =
  vp_identitySk :: bytes
  vp_circles :: "vault_circle list"

definition epoch_of :: "vault_circle \<Rightarrow> int" where
  "epoch_of c = (case vc_epoch c of Some e \<Rightarrow> e | None \<Rightarrow> 1)"

definition vault_circle_json :: "vault_circle \<Rightarrow> json" where
  "vault_circle_json c = JObj [(''id'', JStr (vc_id c)), (''key'', JStr (btoa (vc_key c))), (''epoch'', JInt (epoch_of c))]"

definition encodeVaultPayload :: "vault_payload \<Rightarrow> string" where
  "encodeVaultPayload p =
     stringify (JObj [(''identitySk'', JStr (btoa (vp_identitySk p))),
       (''circles'', JArr (map vault_circle_json (vp_circles p)))])"

text \<open>
  Decoding throws (\<open>Inl\<close>) on text that is not JSON and on base64 that does not decode; the fields
  have the types of the declaration.
\<close>

definition b64decode :: "json option \<Rightarrow> bytes result" where
  "b64decode v = (case v of
      Some (JStr s) \<Rightarrow> (case atob s of Some bs \<Rightarrow> ok bs | None \<Rightarrow> throw ''InvalidCharacterError'')
    | _ \<Rightarrow> throw ''InvalidCharacterError'')"

definition decode_epoch :: "json option \<Rightarrow> int result" where
  "decode_epoch v = (case v of
      None \<Rightarrow> ok 1
    | Some JNull \<Rightarrow> ok 1
    | Some (JNum x) \<Rightarrow>
        (if mantissa x mod 10 ^ scale x = 0 then ok (mantissa x div 10 ^ scale x) else throw ''TypeError'')
    | _ \<Rightarrow> throw ''TypeError'')"

definition decode_circle :: "json \<Rightarrow> vault_circle result" where
  "decode_circle v =
     (case jget ''id'' v of
        Some (JStr i) \<Rightarrow>
          bind_result (b64decode (jget ''key'' v)) (\<lambda>key.
          bind_result (decode_epoch (jget ''epoch'' v)) (\<lambda>epoch.
            ok \<lparr>vc_id = i, vc_key = key, vc_epoch = Some epoch\<rparr>))
      | _ \<Rightarrow> throw ''TypeError'')"

fun decode_circles :: "json list \<Rightarrow> vault_circle list result" where
  "decode_circles [] = ok []"
| "decode_circles (v # vs) =
     bind_result (decode_circle v) (\<lambda>c. bind_result (decode_circles vs) (\<lambda>cs. ok (c # cs)))"

definition decodeVaultPayload :: "string \<Rightarrow> vault_payload result" where
  "decodeVaultPayload text =
     (case json_parse text of
        None \<Rightarrow> throw ''SyntaxError''
      | Some v \<Rightarrow>
          bind_result (b64decode (jget ''identitySk'' v)) (\<lambda>sk.
          bind_result (case jget ''circles'' v of
              None \<Rightarrow> ok [] | Some JNull \<Rightarrow> ok [] | Some (JArr xs) \<Rightarrow> decode_circles xs | _ \<Rightarrow> throw ''TypeError'')
            (\<lambda>circles. ok \<lparr>vp_identitySk = sk, vp_circles = circles\<rparr>)))"

section \<open>The identity database\<close>

record vault_record =
  vr_version :: int
  vr_blob :: bytes

text \<open>The object store \<open>keys\<close> by its fixed ids, and the scoped records by scope.\<close>

record 'k identity_db =
  id_wrap_key :: "'k option"
  id_sk :: "vault_record option"
  id_meta :: "string option"
  id_scoped :: "vault_record object_store"

definition empty_identity_db :: "'k identity_db" where
  "empty_identity_db = \<lparr>id_wrap_key = None, id_sk = None, id_meta = None, id_scoped = []\<rparr>"

definition VAULT_VERSION :: int where "VAULT_VERSION = 2"

text \<open>The random values an operation may draw: a fresh wrapping key and an IV.\<close>

record 'k vault_entropy =
  ve_key :: 'k
  ve_iv :: bytes

definition getOrCreateWrapKey :: "'k vault_entropy \<Rightarrow> 'k identity_db \<Rightarrow> 'k identity_db \<times> 'k" where
  "getOrCreateWrapKey ent db =
     (case id_wrap_key db of
        Some k \<Rightarrow> (db, k)
      | None \<Rightarrow> (db\<lparr>id_wrap_key := Some (ve_key ent)\<rparr>, ve_key ent))"

definition saveVaultUnlocked :: "'k web_crypto \<Rightarrow> 'k vault_entropy \<Rightarrow> 'k identity_db \<Rightarrow> vault_payload \<Rightarrow> 'k identity_db" where
  "saveVaultUnlocked wc ent db payload =
     (let (db', wrapKey) = getOrCreateWrapKey ent db;
          plaintext = wc_textEncode wc (encodeVaultPayload payload);
          ciphertext = wc_encrypt wc wrapKey (ve_iv ent) [] plaintext
      in db'\<lparr>id_sk := Some \<lparr>vr_version = VAULT_VERSION, vr_blob = ve_iv ent @ ciphertext\<rparr>\<rparr>)"

definition loadVault :: "'k web_crypto \<Rightarrow> 'k identity_db \<Rightarrow> vault_payload option" where
  "loadVault wc db =
     (case (id_wrap_key db, id_sk db) of
        (Some wrapKey, Some rec) \<Rightarrow>
          (if length (vr_blob rec) < 28 then None
           else
             (case wc_decrypt wc wrapKey (take 12 (vr_blob rec)) [] (drop 12 (vr_blob rec)) of
                None \<Rightarrow> None
              | Some plain \<Rightarrow>
                  if vr_version rec = 1 then Some \<lparr>vp_identitySk = plain, vp_circles = []\<rparr>
                  else if vr_version rec \<noteq> VAULT_VERSION then None
                  else (case decodeVaultPayload (wc_textDecode wc plain) of Inr p \<Rightarrow> Some p | Inl _ \<Rightarrow> None)))
      | _ \<Rightarrow> None)"

text \<open>\<open>withInitLock\<close>: the operation runs alone; its effect is its function on the database.\<close>

definition saveVault :: "'k web_crypto \<Rightarrow> 'k vault_entropy \<Rightarrow> 'k identity_db \<Rightarrow> vault_payload \<Rightarrow> 'k identity_db" where
  "saveVault wc ent db payload = saveVaultUnlocked wc ent db payload"

definition saveSecretKeyUnlocked :: "'k web_crypto \<Rightarrow> 'k vault_entropy \<Rightarrow> 'k identity_db \<Rightarrow> bytes \<Rightarrow> 'k identity_db" where
  "saveSecretKeyUnlocked wc ent db sk =
     saveVaultUnlocked wc ent db
       \<lparr>vp_identitySk = sk, vp_circles = (case loadVault wc db of Some p \<Rightarrow> vp_circles p | None \<Rightarrow> [])\<rparr>"

definition saveSecretKey :: "'k web_crypto \<Rightarrow> 'k vault_entropy \<Rightarrow> 'k identity_db \<Rightarrow> bytes \<Rightarrow> 'k identity_db" where
  "saveSecretKey wc ent db sk = saveSecretKeyUnlocked wc ent db sk"

definition loadSecretKey :: "'k web_crypto \<Rightarrow> 'k identity_db \<Rightarrow> bytes option" where
  "loadSecretKey wc db = map_option vp_identitySk (loadVault wc db)"

definition loadOrCreateSecretKey ::
  "'k web_crypto \<Rightarrow> 'k vault_entropy \<Rightarrow> 'k identity_db \<Rightarrow> bytes \<Rightarrow> 'k identity_db \<times> bytes" where
  "loadOrCreateSecretKey wc ent db generated =
     (case loadVault wc db of
        Some p \<Rightarrow> (db, vp_identitySk p)
      | None \<Rightarrow>
          (let db' = saveSecretKeyUnlocked wc ent db generated
           in (db', case loadVault wc db' of Some p \<Rightarrow> vp_identitySk p | None \<Rightarrow> generated)))"

definition clearSecretKey :: "'k identity_db \<Rightarrow> 'k identity_db" where
  "clearSecretKey db = db\<lparr>id_sk := None, id_meta := None\<rparr>"

definition same_entry :: "string \<Rightarrow> int \<Rightarrow> vault_circle \<Rightarrow> bool" where
  "same_entry circleId epoch c \<longleftrightarrow> vc_id c = circleId \<and> epoch_of c = epoch"

text \<open>The entries of the vault, keyed by circle id and epoch.\<close>

definition get_entry :: "vault_circle list \<Rightarrow> string \<times> int \<Rightarrow> bytes option" where
  "get_entry cs k = map_option vc_key (find (same_entry (fst k) (snd k)) cs)"

definition put_entry :: "vault_circle list \<Rightarrow> string \<times> int \<Rightarrow> bytes \<Rightarrow> vault_circle list" where
  "put_entry cs k rawKey =
     filter (\<lambda>c. \<not> same_entry (fst k) (snd k) c) cs @ [\<lparr>vc_id = fst k, vc_key = rawKey, vc_epoch = Some (snd k)\<rparr>]"

definition del_entry :: "vault_circle list \<Rightarrow> string \<times> int \<Rightarrow> vault_circle list" where
  "del_entry cs k = filter (\<lambda>c. \<not> same_entry (fst k) (snd k) c) cs"

definition upsertCircleKey ::
  "'k web_crypto \<Rightarrow> 'k vault_entropy \<Rightarrow> 'k identity_db \<Rightarrow> string \<Rightarrow> bytes \<Rightarrow> int \<Rightarrow> 'k identity_db" where
  "upsertCircleKey wc ent db circleId rawKey epoch =
     (case loadVault wc db of
        None \<Rightarrow> db
      | Some v \<Rightarrow>
          saveVaultUnlocked wc ent db
            \<lparr>vp_identitySk = vp_identitySk v, vp_circles = put_entry (vp_circles v) (circleId, epoch) rawKey\<rparr>)"

definition loadVaultCircleKey :: "'k web_crypto \<Rightarrow> 'k identity_db \<Rightarrow> string \<Rightarrow> int option \<Rightarrow> bytes option" where
  "loadVaultCircleKey wc db circleId epoch =
     (let entries = (case loadVault wc db of Some v \<Rightarrow> filter (\<lambda>c. vc_id c = circleId) (vp_circles v) | None \<Rightarrow> []);
          entry = (case epoch of
             None \<Rightarrow> (case js_sort (\<lambda>a b. epoch_of b - epoch_of a) entries of [] \<Rightarrow> None | e # _ \<Rightarrow> Some e)
           | Some ep \<Rightarrow> find (\<lambda>c. epoch_of c = ep) entries)
      in map_option vc_key entry)"

definition removeVaultCircle ::
  "'k web_crypto \<Rightarrow> 'k vault_entropy \<Rightarrow> 'k identity_db \<Rightarrow> string \<Rightarrow> int option \<Rightarrow> 'k identity_db" where
  "removeVaultCircle wc ent db circleId epoch =
     (case loadVault wc db of
        None \<Rightarrow> db
      | Some v \<Rightarrow>
          (let circles = (case epoch of
               None \<Rightarrow> filter (\<lambda>c. vc_id c \<noteq> circleId) (vp_circles v)
             | Some ep \<Rightarrow> del_entry (vp_circles v) (circleId, ep))
           in saveVaultUnlocked wc ent db \<lparr>vp_identitySk = vp_identitySk v, vp_circles = circles\<rparr>))"

definition loadVaultMeta :: "'k identity_db \<Rightarrow> string option" where
  "loadVaultMeta db = id_meta db"

definition saveVaultMeta :: "'k identity_db \<Rightarrow> string \<Rightarrow> 'k identity_db" where
  "saveVaultMeta db lastExportedFingerprint = db\<lparr>id_meta := Some lastExportedFingerprint\<rparr>"

definition saveScopedDeviceRecord ::
  "'k web_crypto \<Rightarrow> 'k vault_entropy \<Rightarrow> 'k identity_db \<Rightarrow> string \<Rightarrow> bytes \<Rightarrow> 'k identity_db" where
  "saveScopedDeviceRecord wc ent db scope plaintext =
     (let (db', key) = getOrCreateWrapKey ent db;
          ciphertext = wc_encrypt wc key (ve_iv ent) (wc_textEncode wc scope) plaintext
      in db'\<lparr>id_scoped := idb_put (id_scoped db') (''scoped:'' @ scope)
            \<lparr>vr_version = 1, vr_blob = ve_iv ent @ ciphertext\<rparr>\<rparr>)"

text \<open>\<open>throw\<close> when decryption fails.\<close>

definition loadScopedDeviceRecord :: "'k web_crypto \<Rightarrow> 'k identity_db \<Rightarrow> string \<Rightarrow> bytes option result" where
  "loadScopedDeviceRecord wc db scope =
     (case (id_wrap_key db, idb_get (id_scoped db) (''scoped:'' @ scope)) of
        (Some key, Some rec) \<Rightarrow>
          (if vr_version rec \<noteq> 1 \<or> length (vr_blob rec) < 29 then ok None
           else
             (case wc_decrypt wc key (take 12 (vr_blob rec)) (wc_textEncode wc scope) (drop 12 (vr_blob rec)) of
                Some plain \<Rightarrow> ok (Some plain)
              | None \<Rightarrow> throw ''OperationError''))
      | _ \<Rightarrow> ok None)"

definition clearScopedDeviceRecord :: "'k identity_db \<Rightarrow> string \<Rightarrow> 'k identity_db" where
  "clearScopedDeviceRecord db scope = db\<lparr>id_scoped := idb_del (id_scoped db) (''scoped:'' @ scope)\<rparr>"

definition sha256Hex_bytes :: "'k web_crypto \<Rightarrow> bytes \<Rightarrow> string" where
  "sha256Hex_bytes wc bs = bytes_hex (wc_sha256 wc bs)"

text \<open>\<open>getPublicKey\<close> is nostr-tools.\<close>

definition fingerprintPayload :: "'k web_crypto \<Rightarrow> (bytes \<Rightarrow> string) \<Rightarrow> vault_payload \<Rightarrow> string" where
  "fingerprintPayload wc getPublicKey p =
     (let pubkey = getPublicKey (vp_identitySk p);
          nl = [CHR 0x0A];
          lines = js_sort string_cmp (map (\<lambda>c. vc_id c @ '':'' @ sha256Hex_bytes wc (vc_key c)) (vp_circles p))
      in sha256Hex_bytes wc (wc_textEncode wc (pubkey @ nl @ join nl lines)))"

definition vaultFingerprint :: "'k web_crypto \<Rightarrow> (bytes \<Rightarrow> string) \<Rightarrow> 'k identity_db \<Rightarrow> string" where
  "vaultFingerprint wc getPublicKey db =
     (case loadVault wc db of Some v \<Rightarrow> fingerprintPayload wc getPublicKey v | None \<Rightarrow> '''')"

definition toUpper_hex :: "char \<Rightarrow> char" where
  "toUpper_hex c = (if CHR ''a'' \<le> c \<and> c \<le> CHR ''z'' then char_of (of_char c - 32 :: nat) else c)"

definition formatVaultId :: "string \<Rightarrow> string" where
  "formatVaultId fingerprint =
     (let h = map toUpper_hex (take 12 fingerprint)
      in take 4 h @ ''-'' @ take 4 (drop 4 h) @ ''-'' @ take 4 (drop 8 h))"

section \<open>Home location\<close>

text \<open>Coordinates as JSON writes them.\<close>

record home_location =
  hl_lat :: jnum
  hl_lng :: jnum
  hl_label :: string

definition in_range :: "real \<Rightarrow> real \<Rightarrow> json option \<Rightarrow> bool" where
  "in_range lo hi v = (case v of Some (JNum x) \<Rightarrow> lo \<le> jnum_val x \<and> jnum_val x \<le> hi | _ \<Rightarrow> False)"

definition isHomeLocation :: "json \<Rightarrow> bool" where
  "isHomeLocation v = (case v of
      JObj kvs \<Rightarrow>
        length kvs = 4
        \<and> (case map_of kvs ''version'' of Some (JNum x) \<Rightarrow> jnum_val x = 1 | _ \<Rightarrow> False)
        \<and> in_range (-90) 90 (map_of kvs ''lat'') \<and> in_range (-180) 180 (map_of kvs ''lng'')
        \<and> (case map_of kvs ''label'' of Some (JStr s) \<Rightarrow> length (trim s) > 0 \<and> length s \<le> 500 | _ \<Rightarrow> False)
    | _ \<Rightarrow> False)"

definition home_json :: "home_location \<Rightarrow> json" where
  "home_json h = JObj [(''version'', JInt 1), (''lat'', JNum (hl_lat h)), (''lng'', JNum (hl_lng h)), (''label'', JStr (hl_label h))]"

definition HOME_SCOPE :: string where "HOME_SCOPE = ''home-location''"

definition saveHomeLocation ::
  "'k web_crypto \<Rightarrow> 'k vault_entropy \<Rightarrow> 'k identity_db \<Rightarrow> home_location \<Rightarrow> 'k identity_db result" where
  "saveHomeLocation wc ent db home =
     throw_if (\<not> isHomeLocation (home_json home)) ''Invalid home location''
       (ok (saveScopedDeviceRecord wc ent db HOME_SCOPE (wc_textEncode wc (stringify (home_json home)))))"

definition clearHomeLocation :: "'k identity_db \<Rightarrow> 'k identity_db" where
  "clearHomeLocation db = clearScopedDeviceRecord db HOME_SCOPE"

definition read_home :: "json \<Rightarrow> home_location option" where
  "read_home v = (case (jget ''lat'' v, jget ''lng'' v, jget ''label'' v) of
      (Some (JNum x), Some (JNum y), Some (JStr s)) \<Rightarrow> Some \<lparr>hl_lat = x, hl_lng = y, hl_label = s\<rparr>
    | _ \<Rightarrow> None)"

text \<open>A record that does not parse or is not a home location is deleted.\<close>

definition loadHomeLocation :: "'k web_crypto \<Rightarrow> 'k identity_db \<Rightarrow> 'k identity_db \<times> home_location option" where
  "loadHomeLocation wc db =
     (case loadScopedDeviceRecord wc db HOME_SCOPE of
        Inl _ \<Rightarrow> (db, None)
      | Inr None \<Rightarrow> (db, None)
      | Inr (Some plaintext) \<Rightarrow>
          (case json_parse (wc_textDecode wc plaintext) of
             None \<Rightarrow> (clearHomeLocation db, None)
           | Some decoded \<Rightarrow>
               if \<not> isHomeLocation decoded then (clearHomeLocation db, None) else (db, read_home decoded)))"

section \<open>Circle ids and owner keys in localStorage\<close>

definition CIRCLE_IDS_KEY :: string where "CIRCLE_IDS_KEY = ''sentinelmesh:circle_ids''"
definition OWNER_KEYS_KEY :: string where "OWNER_KEYS_KEY = ''sentinelmesh:circle_owner_keys''"

definition json_strings :: "json list \<Rightarrow> string list" where
  "json_strings xs = List.map_filter (\<lambda>v. case v of JStr s \<Rightarrow> Some s | _ \<Rightarrow> None) xs"

definition getCircleIds :: "local_storage option \<Rightarrow> string list" where
  "getCircleIds ls =
     (case ls of
        None \<Rightarrow> []
      | Some l \<Rightarrow>
          (case idb_get l CIRCLE_IDS_KEY of
             None \<Rightarrow> []
           | Some raw \<Rightarrow>
               if raw = '''' then []
               else (case json_parse raw of Some (JArr xs) \<Rightarrow> json_strings xs | _ \<Rightarrow> [])))"

definition addCircleId :: "local_storage option \<Rightarrow> string \<Rightarrow> local_storage option" where
  "addCircleId ls i =
     map_option (\<lambda>l. idb_put l CIRCLE_IDS_KEY
       (stringify (JArr (map JStr (set_add (set_of_array (getCircleIds ls)) i))))) ls"

definition removeCircleId :: "local_storage option \<Rightarrow> string \<Rightarrow> local_storage option" where
  "removeCircleId ls i =
     map_option (\<lambda>l. idb_put l CIRCLE_IDS_KEY
       (stringify (JArr (map JStr (filter (\<lambda>x. x \<noteq> i) (getCircleIds ls)))))) ls"

text \<open>
  The stored object. On saving, malformed text is replaced by an empty object, a property set on an
  array is not serialized, and one set on null or a primitive throws.
\<close>

definition owner_values :: "local_storage \<Rightarrow> (string \<times> json) list" where
  "owner_values l =
     (case idb_get l OWNER_KEYS_KEY of
        None \<Rightarrow> []
      | Some raw \<Rightarrow> (case json_parse raw of Some (JObj kvs) \<Rightarrow> kvs | _ \<Rightarrow> []))"

definition saveCircleOwnerKey :: "local_storage option \<Rightarrow> string \<Rightarrow> string \<Rightarrow> local_storage option result" where
  "saveCircleOwnerKey ls i ownerPubkey =
     (case ls of
        None \<Rightarrow> ok None
      | Some l \<Rightarrow>
          (let v = JStr (toLowerCase ownerPubkey); store = (\<lambda>j. ok (Some (idb_put l OWNER_KEYS_KEY (stringify j))))
           in case idb_get l OWNER_KEYS_KEY of
                None \<Rightarrow> store (JObj [(i, v)])
              | Some raw \<Rightarrow>
                  (case json_parse raw of
                     None \<Rightarrow> store (JObj [(i, v)])
                   | Some (JObj kvs) \<Rightarrow> store (JObj (map_set kvs i v))
                   | Some (JArr xs) \<Rightarrow> store (JArr xs)
                   | Some _ \<Rightarrow> throw ''TypeError'')))"

definition getCircleOwnerKey :: "local_storage option \<Rightarrow> string \<Rightarrow> string option" where
  "getCircleOwnerKey ls i =
     (case ls of
        None \<Rightarrow> None
      | Some l \<Rightarrow>
          (case map_of (owner_values l) i of
             Some (JStr v) \<Rightarrow> if isLowercaseHex64 v then Some v else None
           | _ \<Rightarrow> None))"

section \<open>Remote-signer connection\<close>

record stored_bunker_connection =
  bc_clientSecretKey :: bytes
  bc_bunkerPubkey :: string
  bc_relays :: "string list"
  bc_secret :: "string option"
  bc_expectedPubkey :: string

record 'k bunker_db =
  bd_wrap_key :: "'k option"
  bd_connection :: "(bytes \<times> bytes) option"

definition bunker_wrapKey :: "'k vault_entropy \<Rightarrow> 'k bunker_db \<Rightarrow> 'k bunker_db \<times> 'k" where
  "bunker_wrapKey ent db =
     (case bd_wrap_key db of
        Some k \<Rightarrow> (db, k)
      | None \<Rightarrow> (db\<lparr>bd_wrap_key := Some (ve_key ent)\<rparr>, ve_key ent))"

definition bunker_encode :: "'k web_crypto \<Rightarrow> stored_bunker_connection \<Rightarrow> bytes" where
  "bunker_encode wc v = wc_textEncode wc (stringify (JObj
     [(''clientSecretKey'', JStr (btoa (bc_clientSecretKey v))), (''bunkerPubkey'', JStr (bc_bunkerPubkey v)),
      (''relays'', JArr (map JStr (bc_relays v))),
      (''secret'', case bc_secret v of Some s \<Rightarrow> JStr s | None \<Rightarrow> JNull),
      (''expectedPubkey'', JStr (bc_expectedPubkey v))]))"

definition bunker_decode :: "'k web_crypto \<Rightarrow> bytes \<Rightarrow> stored_bunker_connection option" where
  "bunker_decode wc bs =
     (case json_parse (wc_textDecode wc bs) of
        None \<Rightarrow> None
      | Some v \<Rightarrow>
          (case (b64decode (jget ''clientSecretKey'' v), jget ''bunkerPubkey'' v, jget ''relays'' v, jget ''expectedPubkey'' v) of
             (Inr sk, Some (JStr pk), Some (JArr rs), Some (JStr ex)) \<Rightarrow>
               Some \<lparr>bc_clientSecretKey = sk, bc_bunkerPubkey = pk, bc_relays = json_strings rs,
                     bc_secret = (case jget ''secret'' v of Some (JStr s) \<Rightarrow> Some s | _ \<Rightarrow> None), bc_expectedPubkey = ex\<rparr>
           | _ \<Rightarrow> None))"

definition saveBunkerConnection ::
  "'k web_crypto \<Rightarrow> 'k vault_entropy \<Rightarrow> 'k bunker_db \<Rightarrow> stored_bunker_connection \<Rightarrow> 'k bunker_db" where
  "saveBunkerConnection wc ent db v =
     (let (db', key) = bunker_wrapKey ent db
      in db'\<lparr>bd_connection := Some (ve_iv ent, wc_encrypt wc key (ve_iv ent) [] (bunker_encode wc v))\<rparr>)"

definition loadBunkerConnection :: "'k web_crypto \<Rightarrow> 'k bunker_db \<Rightarrow> stored_bunker_connection option" where
  "loadBunkerConnection wc db =
     (case (bd_wrap_key db, bd_connection db) of
        (Some key, Some (iv, ct)) \<Rightarrow> Option.bind (wc_decrypt wc key iv [] ct) (bunker_decode wc)
      | _ \<Rightarrow> None)"

definition clearBunkerConnection :: "'k bunker_db \<Rightarrow> 'k bunker_db" where
  "clearBunkerConnection db = db\<lparr>bd_connection := None\<rparr>"

section \<open>Entries of the vault\<close>

lemma find_filter_not: "find p (filter (\<lambda>x. \<not> q x) xs) = find (\<lambda>x. p x \<and> \<not> q x) xs"
  by (induction xs) auto

lemma same_entry_new [simp]:
  "same_entry i e \<lparr>vc_id = j, vc_key = k, vc_epoch = Some f\<rparr> \<longleftrightarrow> i = j \<and> e = f"
  by (auto simp: same_entry_def epoch_of_def)

lemma find_same_entry_disjoint:
  "k' \<noteq> k \<Longrightarrow> find (\<lambda>c. same_entry (fst k') (snd k') c \<and> \<not> same_entry (fst k) (snd k) c) cs =
     find (same_entry (fst k') (snd k')) cs"
  by (rule find_cong) (auto simp: same_entry_def prod_eq_iff)

lemma get_put_entry:
  "get_entry (put_entry cs k v) k' = (if k' = k then Some v else get_entry cs k')"
proof (cases "k' = k")
  case True
  have "find (\<lambda>c. same_entry (fst k) (snd k) c \<and> \<not> same_entry (fst k) (snd k) c) cs = None"
    by (simp add: find_None_iff)
  with True show ?thesis by (simp add: get_entry_def put_entry_def find_append find_filter_not)
next
  case False
  then have "\<not> (fst k' = fst k \<and> snd k' = snd k)" by (auto simp: prod_eq_iff)
  with False show ?thesis
    by (auto simp: get_entry_def put_entry_def find_append find_filter_not find_same_entry_disjoint
        split: option.splits)
qed

lemma get_del_entry:
  "get_entry (del_entry cs k) k' = (if k' = k then None else get_entry cs k')"
  by (auto simp: get_entry_def del_entry_def find_filter_not find_same_entry_disjoint find_None_iff)

interpretation vault_entries: keyed_store get_entry put_entry del_entry
  by unfold_locales (rule get_put_entry, rule get_del_entry)

section \<open>Round trips\<close>

definition normal_circle :: "vault_circle \<Rightarrow> vault_circle" where
  "normal_circle c = c\<lparr>vc_epoch := Some (epoch_of c)\<rparr>"

definition normal_payload :: "vault_payload \<Rightarrow> vault_payload" where
  "normal_payload p = p\<lparr>vp_circles := map normal_circle (vp_circles p)\<rparr>"

lemma decode_circle_json [simp]: "decode_circle (vault_circle_json c) = ok (normal_circle c)"
  by (simp add: decode_circle_def vault_circle_json_def jget_def b64decode_def decode_epoch_def
      normal_circle_def)

lemma decode_circles_map [simp]: "decode_circles (map vault_circle_json cs) = ok (map normal_circle cs)"
  by (induction cs) auto

lemma payload_roundtrip: "decodeVaultPayload (encodeVaultPayload p) = ok (normal_payload p)"
proof -
  have "jwf (vault_circle_json c)" for c by (simp add: vault_circle_json_def)
  then have "json_parse (encodeVaultPayload p) = Some (JObj [(''identitySk'', JStr (btoa (vp_identitySk p))),
       (''circles'', JArr (map vault_circle_json (vp_circles p)))])"
    unfolding encodeVaultPayload_def by (intro json_roundtrip) (simp add: list_all_iff)
  then show ?thesis
    by (simp add: decodeVaultPayload_def jget_def b64decode_def normal_payload_def)
qed

lemma wrap_key_kept: "id_wrap_key (fst (getOrCreateWrapKey ent db)) = Some (snd (getOrCreateWrapKey ent db))"
  by (simp add: getOrCreateWrapKey_def split: option.splits)

lemma load_saved:
  assumes "crypto_laws wc" "length (ve_iv ent) = 12"
  shows "loadVault wc (saveVaultUnlocked wc ent db p) = Some (normal_payload p)"
proof -
  let ?k = "snd (getOrCreateWrapKey ent db)"
  let ?c = "wc_encrypt wc ?k (ve_iv ent) [] (wc_textEncode wc (encodeVaultPayload p))"
  have rec: "id_wrap_key (saveVaultUnlocked wc ent db p) = Some ?k"
    "id_sk (saveVaultUnlocked wc ent db p) = Some \<lparr>vr_version = 2, vr_blob = ve_iv ent @ ?c\<rparr>"
    using wrap_key_kept [of ent db] by (auto simp: saveVaultUnlocked_def VAULT_VERSION_def Let_def split: prod.splits)
  have "16 \<le> length ?c" "wc_decrypt wc ?k (ve_iv ent) [] ?c = Some (wc_textEncode wc (encodeVaultPayload p))"
    "wc_textDecode wc (wc_textEncode wc (encodeVaultPayload p)) = encodeVaultPayload p"
    using assms(1) by (simp_all add: crypto_laws_def)
  with rec assms(2) show ?thesis
    by (simp add: loadVault_def VAULT_VERSION_def payload_roundtrip)
qed

lemma get_entry_normal [simp]: "get_entry (map normal_circle cs) k = get_entry cs k"
proof -
  have "same_entry i e (normal_circle c) = same_entry i e c" "vc_key (normal_circle c) = vc_key c" for i e c
    by (simp_all add: same_entry_def normal_circle_def epoch_of_def)
  then show ?thesis by (induction cs) (simp_all add: get_entry_def)
qed

lemma loadVaultCircleKey_entry:
  "loadVaultCircleKey wc db i (Some e) =
     (case loadVault wc db of Some v \<Rightarrow> get_entry (vp_circles v) (i, e) | None \<Rightarrow> None)"
proof -
  have "find (\<lambda>c. epoch_of c = e) (filter (\<lambda>c. vc_id c = i) cs) = find (same_entry i e) cs" for cs
    by (induction cs) (auto simp: same_entry_def)
  then show ?thesis by (simp add: loadVaultCircleKey_def get_entry_def split: option.splits)
qed

lemma js_sort_string: "js_sort string_cmp xs = sort xs"
proof -
  have "js_insort string_cmp x ys = insort x ys" for x ys
    by (induction ys) (auto simp: string_cmp_def)
  then show ?thesis by (induction xs) simp_all
qed

lemma json_strings_map [simp]: "json_strings (map JStr xs) = xs"
  by (induction xs) (simp_all add: json_strings_def List.map_filter_def)

lemma strings_json_roundtrip [simp]: "json_parse (stringify (JArr (map JStr xs))) = Some (JArr (map JStr xs))"
  by (rule json_roundtrip) (simp add: list_all_iff)

lemma stringify_not_empty [simp]: "stringify (JArr xs) \<noteq> ''''"
  by simp

lemma circle_ids_write:
  "getCircleIds (Some (idb_put l CIRCLE_IDS_KEY (stringify (JArr (map JStr xs))))) = xs"
  by (simp add: getCircleIds_def del: stringify.simps)

lemma home_roundtrip: "json_parse (stringify (home_json h)) = Some (home_json h)"
  by (rule json_roundtrip) (simp add: home_json_def)

lemma read_home_json [simp]: "read_home (home_json h) = Some h"
  by (simp add: read_home_def home_json_def jget_def)

lemma load_scoped:
  assumes "crypto_laws wc" "length (ve_iv ent) = 12" "plain \<noteq> []"
  shows "loadScopedDeviceRecord wc (saveScopedDeviceRecord wc ent db scope plain) scope = ok (Some plain)"
proof -
  let ?k = "snd (getOrCreateWrapKey ent db)"
  let ?c = "wc_encrypt wc ?k (ve_iv ent) (wc_textEncode wc scope) plain"
  have rec: "id_wrap_key (saveScopedDeviceRecord wc ent db scope plain) = Some ?k"
    "idb_get (id_scoped (saveScopedDeviceRecord wc ent db scope plain)) (''scoped:'' @ scope) =
       Some \<lparr>vr_version = 1, vr_blob = ve_iv ent @ ?c\<rparr>"
    using wrap_key_kept [of ent db] by (auto simp: saveScopedDeviceRecord_def Let_def split: prod.splits)
  have "length ?c = length plain + 16" "wc_decrypt wc ?k (ve_iv ent) (wc_textEncode wc scope) ?c = Some plain"
    using assms(1) by (simp_all add: crypto_laws_def)
  moreover have "0 < length plain" using assms(3) by simp
  ultimately show ?thesis using rec assms(2) by (simp add: loadScopedDeviceRecord_def)
qed

lemma bunker_roundtrip:
  assumes "crypto_laws wc"
  shows "bunker_decode wc (bunker_encode wc v) = Some v"
proof -
  let ?j = "JObj [(''clientSecretKey'', JStr (btoa (bc_clientSecretKey v))), (''bunkerPubkey'', JStr (bc_bunkerPubkey v)),
      (''relays'', JArr (map JStr (bc_relays v))),
      (''secret'', case bc_secret v of Some s \<Rightarrow> JStr s | None \<Rightarrow> JNull),
      (''expectedPubkey'', JStr (bc_expectedPubkey v))]"
  have "json_parse (stringify ?j) = Some ?j"
    by (rule json_roundtrip) (simp add: list_all_iff split: option.splits)
  moreover have "wc_textDecode wc (wc_textEncode wc (stringify ?j)) = stringify ?j"
    using assms by (simp add: crypto_laws_def)
  ultimately show ?thesis
    by (simp add: bunker_decode_def bunker_encode_def jget_def b64decode_def del: stringify.simps split: option.splits)
qed

section \<open>Properties\<close>

text \<open>
  An identity is created once. Whichever tabs call \<open>loadOrCreateSecretKey\<close>, in whatever order
  and with whatever freshly generated keys, once one call has returned every later call returns
  the same key and writes nothing.
\<close>

theorem identity_created_once:
  assumes "crypto_laws wc" and "\<forall>(ent, g)\<in>set ((ent0, g0) # calls). length (ve_iv ent) = 12"
    and "loadOrCreateSecretKey wc ent0 db g0 = (db', sk)"
  shows "foldl (\<lambda>d (ent, g). fst (loadOrCreateSecretKey wc ent d g)) db' calls = db'
    \<and> (\<forall>(ent, g)\<in>set calls. loadOrCreateSecretKey wc ent db' g = (db', sk))
    \<and> loadSecretKey wc db' = Some sk"
proof -
  have iv: "length (ve_iv ent0) = 12" using assms(2) by simp
  have load: "\<exists>p. loadVault wc db' = Some p \<and> vp_identitySk p = sk"
  proof (cases "loadVault wc db")
    case (Some p)
    with assms(3) show ?thesis by (auto simp: loadOrCreateSecretKey_def)
  next
    case None
    have "loadVault wc (saveSecretKeyUnlocked wc ent0 db g0) = Some (normal_payload \<lparr>vp_identitySk = g0, vp_circles = []\<rparr>)"
      by (simp add: saveSecretKeyUnlocked_def None load_saved [OF assms(1) iv])
    with None assms(3) show ?thesis by (auto simp: loadOrCreateSecretKey_def Let_def)
  qed
  then have again: "loadOrCreateSecretKey wc ent db' g = (db', sk)" for ent g
    by (auto simp: loadOrCreateSecretKey_def)
  have "foldl (\<lambda>d (ent, g). fst (loadOrCreateSecretKey wc ent d g)) db' calls = db'"
    by (induction calls) (auto simp: again)
  with again load show ?thesis by (auto simp: loadSecretKey_def)
qed

definition sample_vault_entropy :: "(bytes \<times> bool) vault_entropy" where
  "sample_vault_entropy = \<lparr>ve_key = (replicate 32 7, False), ve_iv = replicate 12 1\<rparr>"

theorem identity_created_once_witness:
  "let r = loadOrCreateSecretKey plain_crypto sample_vault_entropy empty_identity_db [1, 2, 3]
   in loadOrCreateSecretKey plain_crypto sample_vault_entropy (fst r) [9, 9] = (fst r, snd r)"
proof -
  have "\<forall>(ent, g)\<in>set ((sample_vault_entropy, [1, 2, 3]) # [(sample_vault_entropy, [9, 9 :: 8 word])]). length (ve_iv ent) = 12"
    by (simp add: sample_vault_entropy_def)
  from identity_created_once [OF plain_crypto_laws this surjective_pairing]
  show ?thesis by (auto simp: Let_def)
qed

text \<open>What the operations on circle keys do to a vault that can be read.\<close>

lemma vault_upsert:
  assumes "crypto_laws wc" "length (ve_iv ent) = 12" "loadVault wc db = Some v"
  shows "\<exists>v'. loadVault wc (upsertCircleKey wc ent db i raw e) = Some v'"
    and "loadVaultCircleKey wc (upsertCircleKey wc ent db i raw e) j (Some f) =
      (if (j, f) = (i, e) then Some raw else loadVaultCircleKey wc db j (Some f))"
    and "loadSecretKey wc (upsertCircleKey wc ent db i raw e) = loadSecretKey wc db"
  using load_saved [OF assms(1,2)]
  by (simp_all add: loadVaultCircleKey_entry upsertCircleKey_def assms(3) normal_payload_def vault_entries.get_put loadSecretKey_def)

lemma vault_remove:
  assumes "crypto_laws wc" "length (ve_iv ent) = 12" "loadVault wc db = Some v"
  shows "\<exists>v'. loadVault wc (removeVaultCircle wc ent db i e) = Some v'"
    and "loadVaultCircleKey wc (removeVaultCircle wc ent db i (Some f)) j (Some g) =
      (if (j, g) = (i, f) then None else loadVaultCircleKey wc db j (Some g))"
  using load_saved [OF assms(1,2)]
  by (simp_all add: loadVaultCircleKey_entry removeVaultCircle_def assms(3) normal_payload_def vault_entries.get_del)

text \<open>
  The circle keys of the vault behave as a map from circle and epoch to key, whatever is
  stored around them. Storing a key changes what is read for exactly that circle and epoch,
  removing an epoch removes exactly that entry, removing a circle removes all its epochs and no
  other circle's, and none of these, nor changing the identity key, affects anything else.
\<close>

theorem vault_circle_keys:
  assumes "crypto_laws wc" and "length (ve_iv ent) = 12" and "loadVault wc db = Some v"
  shows "(\<forall>j f. loadVaultCircleKey wc (upsertCircleKey wc ent db i raw e) j (Some f) =
             (if (j, f) = (i, e) then Some raw else loadVaultCircleKey wc db j (Some f)))
    \<and> (\<forall>j f. loadVaultCircleKey wc (removeVaultCircle wc ent db i (Some e)) j (Some f) =
             (if (j, f) = (i, e) then None else loadVaultCircleKey wc db j (Some f)))
    \<and> (\<forall>j f. loadVaultCircleKey wc (removeVaultCircle wc ent db i None) j (Some f) =
             (if j = i then None else loadVaultCircleKey wc db j (Some f)))
    \<and> (\<forall>j f. loadVaultCircleKey wc (saveSecretKey wc ent db sk) j (Some f) = loadVaultCircleKey wc db j (Some f))
    \<and> loadSecretKey wc (upsertCircleKey wc ent db i raw e) = loadSecretKey wc db
    \<and> loadSecretKey wc (removeVaultCircle wc ent db i (Some e)) = loadSecretKey wc db
    \<and> loadSecretKey wc (saveSecretKey wc ent db sk) = Some sk"
proof -
  have rm: "get_entry (filter (\<lambda>c. vc_id c \<noteq> i) cs) (j, f) = (if j = i then None else get_entry cs (j, f))" for cs j f
    by (induction cs) (auto simp: get_entry_def same_entry_def)
  note load = load_saved [OF assms(1,2)]
  show ?thesis
    by (simp add: loadVaultCircleKey_entry upsertCircleKey_def removeVaultCircle_def saveSecretKey_def
        saveSecretKeyUnlocked_def loadSecretKey_def assms(3) load normal_payload_def
        vault_entries.get_put vault_entries.get_del rm)
qed

theorem vault_circle_keys_witness:
  "loadVaultCircleKey plain_crypto (upsertCircleKey plain_crypto sample_vault_entropy
      (saveVault plain_crypto sample_vault_entropy empty_identity_db \<lparr>vp_identitySk = [1], vp_circles = []\<rparr>)
      ''c'' [5] 2) ''c'' (Some 2) = Some [5]"
proof -
  have iv: "length (ve_iv sample_vault_entropy) = 12" by (simp add: sample_vault_entropy_def)
  have "loadVault plain_crypto (saveVault plain_crypto sample_vault_entropy empty_identity_db \<lparr>vp_identitySk = [1], vp_circles = []\<rparr>)
      = Some (normal_payload \<lparr>vp_identitySk = [1], vp_circles = []\<rparr>)"
    unfolding saveVault_def by (rule load_saved [OF plain_crypto_laws iv])
  from vault_circle_keys [OF plain_crypto_laws iv this] show ?thesis by simp
qed

lemma home_saved_loads:
  assumes "crypto_laws wc" and "length (ve_iv ent) = 12" and home: "isHomeLocation (home_json h)"
  shows "\<exists>db'. saveHomeLocation wc ent db h = ok db' \<and> loadHomeLocation wc db' = (db', Some h)"
proof -
  let ?t = "wc_textEncode wc (stringify (home_json h))"
  have "stringify (home_json h) \<noteq> []" by (simp add: home_json_def)
  then have "?t \<noteq> []" by (rule textEncode_nonempty [OF assms(1)])
  note load = load_scoped [OF assms(1,2) this, of db HOME_SCOPE]
  have "wc_textDecode wc ?t = stringify (home_json h)" using assms(1) by (simp add: crypto_laws_def)
  with home load show ?thesis
    by (simp add: saveHomeLocation_def loadHomeLocation_def home_roundtrip)
qed

lemma bunker_saved_loads:
  assumes "crypto_laws wc"
  shows "loadBunkerConnection wc (saveBunkerConnection wc ent bdb conn) = Some conn"
proof -
  let ?k = "snd (bunker_wrapKey ent bdb)"
  have key: "bd_wrap_key (fst (bunker_wrapKey ent bdb)) = Some ?k"
    by (simp add: bunker_wrapKey_def split: option.splits)
  have "wc_decrypt wc ?k (ve_iv ent) [] (wc_encrypt wc ?k (ve_iv ent) [] (bunker_encode wc conn)) = Some (bunker_encode wc conn)"
    using assms by (simp add: crypto_laws_def)
  then show ?thesis
    using key by (auto simp: saveBunkerConnection_def loadBunkerConnection_def bunker_roundtrip [OF assms]
        Let_def split: prod.splits)
qed

text \<open>The owner keys as the code writes them: nothing yet, unreadable text, or an object of strings.\<close>

definition string_object :: "(string \<times> json) list \<Rightarrow> bool" where
  "string_object kvs \<longleftrightarrow> distinct (map fst kvs) \<and> (\<forall>v\<in>snd ` set kvs. \<exists>s. v = JStr s)"

definition owner_store_ok :: "local_storage \<Rightarrow> bool" where
  "owner_store_ok l \<longleftrightarrow>
     (case idb_get l OWNER_KEYS_KEY of
        None \<Rightarrow> True
      | Some raw \<Rightarrow> (case json_parse raw of None \<Rightarrow> True | Some (JObj kvs) \<Rightarrow> string_object kvs | Some _ \<Rightarrow> False))"

lemma string_object_json: "string_object kvs \<Longrightarrow> json_parse (stringify (JObj kvs)) = Some (JObj kvs)"
  by (rule json_roundtrip) (fastforce simp: list_all_iff string_object_def)

lemma string_object_set: "string_object kvs \<Longrightarrow> string_object (map_set kvs k (JStr s))"
  unfolding string_object_def using map_values_map_set [of _ kvs k "JStr s"] distinct_map_set [of kvs k "JStr s"] by metis

lemma owner_key_written:
  assumes "isHex64_ci pk" "string_object kvs" "map_of kvs i = Some (JStr (toLowerCase pk))"
  shows "getCircleOwnerKey (Some (idb_put l OWNER_KEYS_KEY (stringify (JObj kvs)))) i = Some (toLowerCase pk)"
  using assms by (simp add: getCircleOwnerKey_def owner_values_def string_object_json isHex64_ci_def del: stringify.simps)

lemma owner_key_saved:
  assumes "isHex64_ci pk" "owner_store_ok l"
  shows "\<exists>l'. saveCircleOwnerKey (Some l) i pk = ok (Some l') \<and> getCircleOwnerKey (Some l') i = Some (toLowerCase pk)
       \<and> (\<forall>k. k \<noteq> OWNER_KEYS_KEY \<longrightarrow> idb_get l' k = idb_get l k)"
proof -
  have "string_object [(i, JStr (toLowerCase pk))]" by (simp add: string_object_def)
  then have "\<exists>kvs. saveCircleOwnerKey (Some l) i pk = ok (Some (idb_put l OWNER_KEYS_KEY (stringify (JObj kvs))))
      \<and> string_object kvs \<and> map_of kvs i = Some (JStr (toLowerCase pk))"
    using assms(2) string_object_set
    by (auto simp: owner_store_ok_def saveCircleOwnerKey_def Let_def simp del: stringify.simps split: option.splits json.splits)
  then show ?thesis using owner_key_written [OF assms(1)] by fastforce
qed

text \<open>
  The other device records survive storage: a valid home location and a remote-signer
  connection are read back as saved, a circle id added is remembered once and forgotten when
  removed, and the owner key saved for a circle is the one later trusted.
\<close>

theorem device_records_roundtrip:
  assumes "crypto_laws wc" and "length (ve_iv ent) = 12"
  shows "(isHomeLocation (home_json h) \<longrightarrow>
            (\<exists>db'. saveHomeLocation wc ent db h = ok db' \<and> loadHomeLocation wc db' = (db', Some h)))
    \<and> loadBunkerConnection wc (saveBunkerConnection wc ent bdb conn) = Some conn
    \<and> getCircleIds (addCircleId (Some l) i) = set_add (set_of_array (getCircleIds (Some l))) i
    \<and> getCircleIds (removeCircleId (addCircleId (Some l) i) i) = filter (\<lambda>x. x \<noteq> i) (set_of_array (getCircleIds (Some l)))
    \<and> (isHex64_ci pk \<and> idb_get l OWNER_KEYS_KEY = None \<longrightarrow>
         (\<exists>l'. saveCircleOwnerKey (Some l) i pk = ok l' \<and> getCircleOwnerKey l' i = Some (toLowerCase pk)))"
proof (intro conjI impI)
  assume home: "isHomeLocation (home_json h)"
  then show "\<exists>db'. saveHomeLocation wc ent db h = ok db' \<and> loadHomeLocation wc db' = (db', Some h)"
    by (rule home_saved_loads [OF assms])
next
  show "loadBunkerConnection wc (saveBunkerConnection wc ent bdb conn) = Some conn"
    by (rule bunker_saved_loads [OF assms(1)])
next
  show "getCircleIds (addCircleId (Some l) i) = set_add (set_of_array (getCircleIds (Some l))) i"
    by (simp add: addCircleId_def circle_ids_write del: stringify.simps)
  show "getCircleIds (removeCircleId (addCircleId (Some l) i) i) =
      filter (\<lambda>x. x \<noteq> i) (set_of_array (getCircleIds (Some l)))"
    by (simp add: addCircleId_def removeCircleId_def circle_ids_write set_add_def del: stringify.simps)
next
  assume "isHex64_ci pk \<and> idb_get l OWNER_KEYS_KEY = None"
  then show "\<exists>l'. saveCircleOwnerKey (Some l) i pk = ok l' \<and> getCircleOwnerKey l' i = Some (toLowerCase pk)"
    using owner_key_saved [of pk l i] by (auto simp: owner_store_ok_def)
qed

definition sample_home :: home_location where
  "sample_home = \<lparr>hl_lat = Dec (-12864) 4, hl_lng = Dec 368172 4, hl_label = ''Home''\<rparr>"

theorem device_records_roundtrip_witness:
  "\<exists>db'. saveHomeLocation plain_crypto sample_vault_entropy empty_identity_db sample_home = ok db'
     \<and> loadHomeLocation plain_crypto db' = (db', Some sample_home)"
proof -
  have home: "isHomeLocation (home_json sample_home)"
    by (simp add: isHomeLocation_def home_json_def sample_home_def in_range_def jnum_val_def trim_def js_whitespace_def)
  have iv: "length (ve_iv sample_vault_entropy) = 12" by (simp add: sample_vault_entropy_def)
  note all = device_records_roundtrip [OF plain_crypto_laws iv, where h = sample_home and db = empty_identity_db,
      THEN conjunct1]
  show ?thesis by (rule mp [OF all home])
qed

text \<open>
  The vault fingerprint identifies content, not order: two payloads with the same identity and
  the same circle entries in any order have the same fingerprint, and so the same Vault ID.
\<close>

theorem fingerprint_order_independent:
  assumes "vp_identitySk p = vp_identitySk q" and "mset (vp_circles p) = mset (vp_circles q)"
  shows "fingerprintPayload wc getPublicKey p = fingerprintPayload wc getPublicKey q"
proof -
  let ?l = "\<lambda>c. vc_id c @ '':'' @ sha256Hex_bytes wc (vc_key c)"
  have "mset (map ?l (vp_circles p)) = mset (map ?l (vp_circles q))" using assms(2) by simp
  then have "sort (map ?l (vp_circles p)) = sort (map ?l (vp_circles q))"
    by (intro properties_for_sort) simp_all
  with assms(1) show ?thesis by (simp add: fingerprintPayload_def js_sort_string)
qed

theorem fingerprint_order_independent_witness:
  "fingerprintPayload plain_crypto (\<lambda>sk. ''pk'') \<lparr>vp_identitySk = [1], vp_circles =
      [\<lparr>vc_id = ''a'', vc_key = [1], vc_epoch = None\<rparr>, \<lparr>vc_id = ''b'', vc_key = [2], vc_epoch = None\<rparr>]\<rparr> =
   fingerprintPayload plain_crypto (\<lambda>sk. ''pk'') \<lparr>vp_identitySk = [1], vp_circles =
      [\<lparr>vc_id = ''b'', vc_key = [2], vc_epoch = None\<rparr>, \<lparr>vc_id = ''a'', vc_key = [1], vc_epoch = None\<rparr>]\<rparr>"
  by (rule fingerprint_order_independent) simp_all

end
