(* ===== verification/Identity.thy ===== *)
theory Identity
  imports Vault GiftWrap
begin

text \<open>
  The user's identity: \<open>services/nostrService.ts\<close> (the session cache of the local key pair, NIP-98
  authentication and the canonical strings that bind signatures to content) and
  \<open>services/signerService.ts\<close> (the active identity: local key, browser extension or remote signer).
  Opening a remote connection and signing with it are asynchronous, so each is a sequence of steps
  between which other operations run; \<open>signer_step\<close> is the resulting transition relation.
  The lemmas show that what is signed is what was asked for under the key that was active, that a
  remote identity never falls back to the local key, and what bindings determine.
\<close>

section \<open>The session cache of the local identity\<close>

record nostr_keypair =
  kp_publicKey :: string
  kp_secretKey :: bytes

definition keypair_of :: "nostr_tools \<Rightarrow> bytes \<Rightarrow> nostr_keypair" where
  "keypair_of lib sk = \<lparr>kp_publicKey = tl_getPublicKey lib sk, kp_secretKey = sk\<rparr>"

text \<open>\<open>_keypair\<close> and \<open>_initPromise\<close>.\<close>

datatype init_promise = No_Init | Init_Pending | Init_Resolved nostr_keypair

record identity_cache =
  ic_keypair :: "nostr_keypair option"
  ic_init :: init_promise

definition empty_cache :: identity_cache where
  "empty_cache = \<lparr>ic_keypair = None, ic_init = No_Init\<rparr>"

text \<open>
  \<open>loadIdentity\<close> up to its first await: the key pair when it is known at once, and the cache.
  \<open>loadIdentity_done\<close> is the rest of the initializer, run when \<open>loadOrCreateSecretKey\<close> settles;
  \<open>fallback\<close> is the key generated when storage fails.
\<close>

definition loadIdentity :: "identity_cache \<Rightarrow> identity_cache \<times> nostr_keypair option" where
  "loadIdentity c =
     (case ic_keypair c of
        Some k \<Rightarrow> (c, Some k)
      | None \<Rightarrow>
          (case ic_init c of
             No_Init \<Rightarrow> (c\<lparr>ic_init := Init_Pending\<rparr>, None)
           | Init_Pending \<Rightarrow> (c, None)
           | Init_Resolved k \<Rightarrow> (c, Some k)))"

definition loadIdentity_done :: "nostr_tools \<Rightarrow> bytes result \<Rightarrow> bytes \<Rightarrow> identity_cache \<Rightarrow> identity_cache" where
  "loadIdentity_done lib loaded fallback c =
     (let k = keypair_of lib (case loaded of Inr sk \<Rightarrow> sk | Inl _ \<Rightarrow> fallback)
      in \<lparr>ic_keypair = Some k, ic_init = (case ic_init c of Init_Pending \<Rightarrow> Init_Resolved k | p \<Rightarrow> p)\<rparr>)"

definition getCachedKeypair :: "nostr_tools \<Rightarrow> bytes \<Rightarrow> identity_cache \<Rightarrow> identity_cache \<times> nostr_keypair" where
  "getCachedKeypair lib fresh c =
     (case ic_keypair c of
        Some k \<Rightarrow> (c, k)
      | None \<Rightarrow> (c\<lparr>ic_keypair := Some (keypair_of lib fresh)\<rparr>, keypair_of lib fresh))"

text \<open>Persist a key, then make it the cached one and forget any initializer.\<close>

definition adopt_key ::
  "'k web_crypto \<Rightarrow> 'k vault_entropy \<Rightarrow> nostr_tools \<Rightarrow> bytes \<Rightarrow> identity_cache \<times> 'k identity_db
     \<Rightarrow> (identity_cache \<times> 'k identity_db) \<times> nostr_keypair" where
  "adopt_key wc ent lib sk s =
     (let k = keypair_of lib sk
      in ((\<lparr>ic_keypair = Some k, ic_init = No_Init\<rparr>, saveSecretKey wc ent (snd s) sk), k))"

definition generateNewIdentity ::
  "'k web_crypto \<Rightarrow> 'k vault_entropy \<Rightarrow> nostr_tools \<Rightarrow> bytes \<Rightarrow> identity_cache \<times> 'k identity_db
     \<Rightarrow> (identity_cache \<times> 'k identity_db) \<times> nostr_keypair" where
  "generateNewIdentity wc ent lib generated s = adopt_key wc ent lib generated s"

definition restoreIdentityFromSecretKey ::
  "'k web_crypto \<Rightarrow> 'k vault_entropy \<Rightarrow> nostr_tools \<Rightarrow> bytes \<Rightarrow> identity_cache \<times> 'k identity_db
     \<Rightarrow> (identity_cache \<times> 'k identity_db) \<times> nostr_keypair" where
  "restoreIdentityFromSecretKey wc ent lib sk s = adopt_key wc ent lib sk s"

definition importFromNsec ::
  "'k web_crypto \<Rightarrow> 'k vault_entropy \<Rightarrow> nostr_tools \<Rightarrow> (string \<Rightarrow> nip19_data option) \<Rightarrow> string
     \<Rightarrow> identity_cache \<times> 'k identity_db \<Rightarrow> (identity_cache \<times> 'k identity_db) \<times> nostr_keypair option" where
  "importFromNsec wc ent lib nip19_decode nsecStr s =
     (case nip19_decode (trim nsecStr) of
        Some (Nsec sk) \<Rightarrow> (case adopt_key wc ent lib sk s of (s', k) \<Rightarrow> (s', Some k))
      | _ \<Rightarrow> (s, None))"

definition SK_STORAGE_KEY :: string where "SK_STORAGE_KEY = ''sentinel_nostr_sk''"

definition clearStoredKey :: "local_storage \<Rightarrow> local_storage" where
  "clearStoredKey l = idb_del l SK_STORAGE_KEY"

definition toNpub :: "(string \<Rightarrow> string result) \<Rightarrow> string \<Rightarrow> string" where
  "toNpub npubEncode hexPubkey = (case npubEncode hexPubkey of Inr s \<Rightarrow> s | Inl _ \<Rightarrow> hexPubkey)"

definition toNsec :: "(bytes \<Rightarrow> string result) \<Rightarrow> bytes \<Rightarrow> string" where
  "toNsec nsecEncode secretKey = (case nsecEncode secretKey of Inr s \<Rightarrow> s | Inl _ \<Rightarrow> bytes_hex secretKey)"

definition hexFromNpubOrHex :: "(string \<Rightarrow> nip19_data option) \<Rightarrow> string \<Rightarrow> string option" where
  "hexFromNpubOrHex nip19_decode input =
     (let trimmed = trim input;
          hex = (if isHex64_ci trimmed then Some (toLowerCase trimmed) else None)
      in if startsWith trimmed ''npub1''
         then (case nip19_decode trimmed of None \<Rightarrow> None | Some (Npub p) \<Rightarrow> Some p | Some _ \<Rightarrow> hex)
         else hex)"

section \<open>The active signer\<close>

datatype signer_mode = Local | Bunker | Nip07
datatype signer_status = Ready | Connecting | Offline | Authorization_Required | Error

record active_identity =
  ai_mode :: signer_mode
  ai_pubkey :: string
  ai_status :: signer_status
  ai_approvalUrl :: "string option"
  ai_error :: "string option"

text \<open>
  A remote session: the object \<open>{ signer, pool, generation }\<close>. JavaScript compares sessions by
  reference, so each carries the number under which it was allocated.
\<close>

record remote_session =
  rs_object :: nat
  rs_signer :: nostr_signer
  rs_generation :: nat

text \<open>A call of \<open>open\<close> in progress.\<close>

datatype open_phase = Closing | Connected nat | Settled

record pending_open =
  po_stored :: stored_bunker_connection
  po_persist :: bool
  po_phase :: open_phase
  po_approvalUrl :: "string option"

text \<open>
  The module variables \<open>identity\<close>, \<open>remote\<close> and \<open>generation\<close>, what the listeners were told (latest
  first), the calls of \<open>open\<close>, the store of the connection and the cache of the local identity.
\<close>

record 'k signer_state =
  sv_identity :: active_identity
  sv_remote :: "remote_session option"
  sv_generation :: nat
  sv_published :: "active_identity list"
  sv_allocated :: nat
  sv_opens :: "pending_open list"
  sv_store :: "'k bunker_db"
  sv_cache :: identity_cache

definition local_identity :: "string \<Rightarrow> active_identity" where
  "local_identity pubkey =
     \<lparr>ai_mode = Local, ai_pubkey = pubkey, ai_status = Ready, ai_approvalUrl = None, ai_error = None\<rparr>"

definition initial_signer :: "'k bunker_db \<Rightarrow> 'k signer_state" where
  "initial_signer store =
     \<lparr>sv_identity = local_identity '''', sv_remote = None, sv_generation = 0, sv_published = [], sv_allocated = 0,
      sv_opens = [], sv_store = store, sv_cache = empty_cache\<rparr>"

definition publish_identity :: "active_identity \<Rightarrow> 'k signer_state \<Rightarrow> 'k signer_state" where
  "publish_identity next s = s\<lparr>sv_identity := next, sv_published := next # sv_published s\<rparr>"

definition getActiveIdentity :: "'k signer_state \<Rightarrow> active_identity" where
  "getActiveIdentity s = sv_identity s"

text \<open>Publish the local identity, minting a key pair if the cache is empty.\<close>

definition publish_local :: "nostr_tools \<Rightarrow> bytes \<Rightarrow> 'k signer_state \<Rightarrow> 'k signer_state" where
  "publish_local lib fresh s =
     (let (c, k) = getCachedKeypair lib fresh (sv_cache s)
      in publish_identity (local_identity (kp_publicKey k)) (s\<lparr>sv_cache := c\<rparr>))"

definition initializeActiveSigner :: "'k web_crypto \<Rightarrow> nostr_tools \<Rightarrow> bytes \<Rightarrow> 'k signer_state \<Rightarrow> 'k signer_state" where
  "initializeActiveSigner wc lib fresh s =
     (case loadBunkerConnection wc (sv_store s) of
        Some stored \<Rightarrow>
          publish_identity \<lparr>ai_mode = Bunker, ai_pubkey = bc_expectedPubkey stored, ai_status = Offline,
            ai_approvalUrl = None, ai_error = None\<rparr> s
      | None \<Rightarrow> publish_local lib fresh s)"

definition refreshLocalIdentity :: "nostr_tools \<Rightarrow> bytes \<Rightarrow> 'k signer_state \<Rightarrow> 'k signer_state" where
  "refreshLocalIdentity lib fresh s =
     (if ai_mode (sv_identity s) = Local then publish_local lib fresh s else s)"

text \<open>\<open>window.nostr\<close>, when it has the functions of NIP-07; the answers are the extension's.\<close>

record nostr07_extension =
  ex_getPublicKey :: "string result"
  ex_signEvent :: "nostr_template \<Rightarrow> nostr_event result"
  ex_nip44 :: "((string \<Rightarrow> string \<Rightarrow> string result) \<times> (string \<Rightarrow> string \<Rightarrow> string result)) option"

definition activateNip07Signer :: "nostr07_extension option \<Rightarrow> 'k signer_state \<Rightarrow> 'k signer_state result" where
  "activateNip07Signer window_nostr s =
     (case window_nostr of
        None \<Rightarrow> throw ''NIP-07 extension is not available''
      | Some ext \<Rightarrow>
          bind_result (ex_getPublicKey ext) (\<lambda>pubkey.
            throw_if (\<not> isLowercaseHex64 pubkey) ''NIP-07 extension returned an invalid identity''
              (ok (publish_identity \<lparr>ai_mode = Nip07, ai_pubkey = pubkey, ai_status = Ready,
                     ai_approvalUrl = None, ai_error = None\<rparr> s))))"

section \<open>Remote connections\<close>

record full_url = parsed_url +
  pu_protocol :: string
  pu_hostname :: string
  pu_port :: string
  pu_hash :: string
  pu_search :: "(string \<times> string) list"

record bunker_pointer =
  bp_pubkey :: string
  bp_relays :: "string list"
  bp_secret :: "string option"

fun map_result :: "('a \<Rightarrow> 'b result) \<Rightarrow> 'a list \<Rightarrow> 'b list result" where
  "map_result f [] = ok []"
| "map_result f (x # xs) = bind_result (f x) (\<lambda>y. bind_result (map_result f xs) (\<lambda>ys. ok (y # ys)))"

definition url_or_throw :: "(string \<Rightarrow> full_url option) \<Rightarrow> string \<Rightarrow> full_url result" where
  "url_or_throw URL s = (case URL s of Some u \<Rightarrow> ok u | None \<Rightarrow> throw ''Invalid URL'')"

definition param_values :: "string \<Rightarrow> full_url \<Rightarrow> string list" where
  "param_values key url = map snd (filter (\<lambda>(k, v). k = key) (pu_search url))"

definition check_relay :: "(string \<Rightarrow> full_url option) \<Rightarrow> string \<Rightarrow> unit result" where
  "check_relay URL relay =
     bind_result (url_or_throw URL relay) (\<lambda>parsed.
       throw_if (pu_protocol parsed \<noteq> ''wss:'' \<or> pu_username parsed \<noteq> '''' \<or> pu_password parsed \<noteq> '''')
         ''Bunker relays must use wss:// without credentials'' (ok ()))"

definition parsePointer :: "(string \<Rightarrow> full_url option) \<Rightarrow> string \<Rightarrow> bunker_pointer result" where
  "parsePointer URL input =
     throw_if (length input > 2048 \<or> \<not> startsWith input ''bunker://'') ''Enter a bunker:// connection URI''
     (bind_result (url_or_throw URL input) (\<lambda>url.
      throw_if (pu_username url \<noteq> '''' \<or> pu_password url \<noteq> '''' \<or> pu_port url \<noteq> ''''
          \<or> (pu_pathname url \<noteq> '''' \<and> pu_pathname url \<noteq> ''/'') \<or> pu_hash url \<noteq> '''')
        ''Bunker URI contains unsupported components''
      (case find (\<lambda>k. k \<noteq> ''relay'' \<and> k \<noteq> ''secret'') (map fst (pu_search url)) of
         Some key \<Rightarrow> throw (''Bunker URI contains unsupported parameter: '' @ key)
       | None \<Rightarrow>
           throw_if (length (param_values ''secret'' url) > 1) ''Bunker URI contains multiple secrets''
           (let pubkey = toLowerCase (pu_hostname url)
            in throw_if (\<not> isLowercaseHex64 pubkey) ''Bunker transport key is invalid''
              (bind_result (map_result (\<lambda>v. bind_result (url_or_throw URL v) (\<lambda>u. ok (pu_toString u)))
                  (param_values ''relay'' url)) (\<lambda>urls.
                let relays = set_of_array urls
                in throw_if (length relays = 0 \<or> length relays > 3) ''Bunker URI must contain one to three relays''
                  (bind_result (map_result (check_relay URL) relays) (\<lambda>_.
                    let secret = (case param_values ''secret'' url of [] \<Rightarrow> None | v # _ \<Rightarrow> Some v)
                    in throw_if (case secret of Some v \<Rightarrow> length v > 512 | None \<Rightarrow> False) ''Bunker secret is too long''
                      (ok \<lparr>bp_pubkey = pubkey, bp_relays = relays, bp_secret = secret\<rparr>))))))))) "

text \<open>The synchronous effect of \<open>closeRemote\<close>; closing the library's objects changes no variable.\<close>

definition closeRemote :: "'k signer_state \<Rightarrow> 'k signer_state" where
  "closeRemote s = s\<lparr>sv_remote := None, sv_generation := sv_generation s + 1\<rparr>"

definition bunker_identity :: "string \<Rightarrow> signer_status \<Rightarrow> string option \<Rightarrow> string option \<Rightarrow> active_identity" where
  "bunker_identity pubkey status approvalUrl err =
     \<lparr>ai_mode = Bunker, ai_pubkey = pubkey, ai_status = status, ai_approvalUrl = approvalUrl, ai_error = err\<rparr>"

text \<open>
  \<open>open\<close>: \<open>open_start\<close> runs to the await of \<open>closeRemote\<close>, \<open>open_session\<close> to the await of
  \<open>signer.connect\<close>, \<open>open_auth\<close> is the \<open>onauth\<close> callback, \<open>open_finish\<close> the rest.
\<close>

definition open_start :: "stored_bunker_connection \<Rightarrow> bool \<Rightarrow> 'k signer_state \<Rightarrow> 'k signer_state" where
  "open_start stored persist s =
     (let s' = closeRemote s
      in s'\<lparr>sv_opens := sv_opens s' @ [\<lparr>po_stored = stored, po_persist = persist, po_phase = Closing, po_approvalUrl = None\<rparr>]\<rparr>)"

definition set_open :: "nat \<Rightarrow> pending_open \<Rightarrow> 'k signer_state \<Rightarrow> 'k signer_state" where
  "set_open i p s = s\<lparr>sv_opens := (sv_opens s)[i := p]\<rparr>"

definition open_session :: "nat \<Rightarrow> nostr_signer \<Rightarrow> 'k signer_state \<Rightarrow> 'k signer_state" where
  "open_session i signer s =
     (let p = sv_opens s ! i;
          s1 = publish_identity (bunker_identity (bc_expectedPubkey (po_stored p)) Connecting None None) s;
          sessionGeneration = sv_generation s1
      in set_open i (p\<lparr>po_phase := Connected sessionGeneration\<rparr>)
           (s1\<lparr>sv_remote := Some \<lparr>rs_object = sv_allocated s1, rs_signer = signer, rs_generation = sessionGeneration\<rparr>,
               sv_allocated := sv_allocated s1 + 1\<rparr>))"

definition same_session :: "'k signer_state \<Rightarrow> nat \<Rightarrow> bool" where
  "same_session s sessionGeneration = (case sv_remote s of Some r \<Rightarrow> rs_generation r = sessionGeneration | None \<Rightarrow> False)"

definition open_auth :: "(string \<Rightarrow> full_url option) \<Rightarrow> nat \<Rightarrow> nat \<Rightarrow> string \<Rightarrow> 'k signer_state \<Rightarrow> 'k signer_state" where
  "open_auth URL i sessionGeneration raw s =
     (if \<not> same_session s sessionGeneration then s
      else
        (case URL raw of
           None \<Rightarrow> s
         | Some url \<Rightarrow>
             if pu_protocol url \<noteq> ''https:'' then s
             else
               (let p = sv_opens s ! i
                in publish_identity
                     (bunker_identity (bc_expectedPubkey (po_stored p)) Authorization_Required (Some (pu_toString url)) None)
                     (set_open i (p\<lparr>po_approvalUrl := Some (pu_toString url)\<rparr>) s))))"

text \<open>
  \<open>connect\<close>, \<open>pubkey\<close> and \<open>ping\<close> are the outcomes of the three awaited requests, a timeout among
  the errors.
\<close>

definition open_finish ::
  "'k web_crypto \<Rightarrow> 'k vault_entropy \<Rightarrow> nat \<Rightarrow> unit result \<Rightarrow> string result \<Rightarrow> unit result \<Rightarrow> 'k signer_state
     \<Rightarrow> 'k signer_state \<times> active_identity result" where
  "open_finish wc ent i connect answer ping s =
     (let p = sv_opens s ! i; stored = po_stored p;
          sessionGeneration = (case po_phase p of Connected g \<Rightarrow> g | _ \<Rightarrow> 0);
          s0 = set_open i (p\<lparr>po_phase := Settled\<rparr>) s;
          outcome =
            bind_result connect (\<lambda>_. bind_result answer (\<lambda>pubkey.
              throw_if (\<not> isLowercaseHex64 pubkey) ''Remote signer returned an invalid identity''
              (throw_if (bc_expectedPubkey stored \<noteq> '''' \<and> bc_expectedPubkey stored \<noteq> pubkey) ''Remote signer identity changed''
              (bind_result ping (\<lambda>_.
                throw_if (\<not> same_session s sessionGeneration) ''Remote signer session changed'' (ok pubkey))))))
      in case outcome of
           Inr pubkey \<Rightarrow>
             (let s1 = (if po_persist p
                        then s0\<lparr>sv_store := saveBunkerConnection wc ent (sv_store s0) (stored\<lparr>bc_expectedPubkey := pubkey\<rparr>)\<rparr>
                        else s0);
                  s2 = publish_identity (bunker_identity pubkey Ready (po_approvalUrl p) None) s1
              in (s2, ok (getActiveIdentity s2)))
         | Inl message \<Rightarrow>
             (publish_identity (bunker_identity (bc_expectedPubkey stored) Error (po_approvalUrl p) (Some message)) (closeRemote s0),
              throw message))"

definition connectBunker :: "(string \<Rightarrow> full_url option) \<Rightarrow> bytes \<Rightarrow> string \<Rightarrow> 'k signer_state \<Rightarrow> 'k signer_state result" where
  "connectBunker URL clientSecretKey input s =
     bind_result (parsePointer URL (trim input)) (\<lambda>pointer.
       ok (open_start \<lparr>bc_clientSecretKey = clientSecretKey, bc_bunkerPubkey = bp_pubkey pointer,
         bc_relays = bp_relays pointer, bc_secret = bp_secret pointer, bc_expectedPubkey = ''''\<rparr> True s))"

definition reconnectBunker :: "'k web_crypto \<Rightarrow> 'k signer_state \<Rightarrow> 'k signer_state result" where
  "reconnectBunker wc s =
     (case loadBunkerConnection wc (sv_store s) of
        None \<Rightarrow> throw ''No remote signer connection is stored''
      | Some stored \<Rightarrow> ok (open_start stored False s))"


text \<open>\<open>disconnectBunker\<close>: after \<open>closeRemote\<close> is awaited, \<open>disconnect_done\<close>.\<close>

definition disconnect_done :: "nostr_tools \<Rightarrow> bytes \<Rightarrow> 'k signer_state \<Rightarrow> 'k signer_state" where
  "disconnect_done lib fresh s = publish_local lib fresh (s\<lparr>sv_store := clearBunkerConnection (sv_store s)\<rparr>)"

definition disconnectBunker ::
  "nostr_tools \<Rightarrow> bytes \<Rightarrow> ('k signer_state \<Rightarrow> 'k signer_state) \<Rightarrow> 'k signer_state \<Rightarrow> 'k signer_state" where
  "disconnectBunker lib fresh meanwhile s = disconnect_done lib fresh (meanwhile (closeRemote s))"

section \<open>Signing\<close>

definition sameTemplate :: "nostr_template \<Rightarrow> nostr_event \<Rightarrow> bool" where
  "sameTemplate template event \<longleftrightarrow>
     ne_kind event = nt_kind template \<and> ne_created_at event = nt_created_at template
     \<and> ne_content event = nt_content template
     \<and> stringify (tags_json (ne_tags event)) = stringify (tags_json (nt_tags template))"

definition check_signed :: "nostr_tools \<Rightarrow> active_identity \<Rightarrow> nostr_template \<Rightarrow> js_error \<Rightarrow> nostr_event \<Rightarrow> nostr_event result" where
  "check_signed lib active template altered event =
     (case tl_verifyEvent lib event of
        None \<Rightarrow> throw ''verifyEvent''
      | Some valid \<Rightarrow>
          throw_if (\<not> valid \<or> ne_pubkey event \<noteq> ai_pubkey active \<or> \<not> sameTemplate template event) altered (ok event))"

text \<open>
  \<open>answer\<close> is what the remote signer sent, or the timeout; \<open>s\<close> is the state when it arrives. The
  session compared is the one captured before the request.
\<close>

definition sign_remote ::
  "nostr_tools \<Rightarrow> active_identity \<Rightarrow> remote_session \<Rightarrow> nostr_template \<Rightarrow> nostr_event result \<Rightarrow> 'k signer_state
     \<Rightarrow> 'k signer_state \<times> nostr_event result" where
  "sign_remote lib active current template answer s =
     (case bind_result answer (\<lambda>event.
          throw_if ((case sv_remote s of Some r \<Rightarrow> rs_object r \<noteq> rs_object current | None \<Rightarrow> True)
              \<or> rs_generation current \<noteq> sv_generation s) ''Remote signer session changed''
            (check_signed lib active template ''Remote signer altered the requested event'' event)) of
        Inr event \<Rightarrow> (s, ok event)
      | Inl message \<Rightarrow>
          (publish_identity (bunker_identity (ai_pubkey active) Error None (Some message)) (closeRemote s), throw message))"

text \<open>\<open>meanwhile\<close> is what other operations do to the state while the answer is awaited.\<close>

definition signWithActiveIdentity ::
  "nostr_tools \<Rightarrow> nostr07_extension option \<Rightarrow> bytes \<Rightarrow> ('k signer_state \<Rightarrow> 'k signer_state) \<Rightarrow> nostr_template
     \<Rightarrow> 'k signer_state \<Rightarrow> 'k signer_state \<times> nostr_event result" where
  "signWithActiveIdentity lib window_nostr fresh meanwhile template s =
     (let active = getActiveIdentity s
      in case ai_mode active of
           Local \<Rightarrow>
             (let (c, k) = getCachedKeypair lib fresh (sv_cache s)
              in (s\<lparr>sv_cache := c\<rparr>, ok (tl_finalizeEvent lib template (kp_secretKey k))))
         | Nip07 \<Rightarrow>
             (case window_nostr of
                None \<Rightarrow> (s, throw ''NIP-07 extension is unavailable'')
              | Some ext \<Rightarrow>
                  (meanwhile s, bind_result (ex_signEvent ext template)
                     (check_signed lib active template ''NIP-07 extension altered the requested event'')))
         | Bunker \<Rightarrow>
             (case sv_remote s of
                None \<Rightarrow> (s, throw ''Remote signer is offline'')
              | Some current \<Rightarrow>
                  if ai_status active \<noteq> Ready then (s, throw ''Remote signer is offline'')
                  else sign_remote lib active current template (sg_signEvent (rs_signer current) template) (meanwhile s)))"

text \<open>The signer handed to the messaging layer, with its mode.\<close>

definition createLocalNostrSigner :: "nostr_tools \<Rightarrow> bytes \<Rightarrow> bytes \<Rightarrow> string option \<Rightarrow> nostr_signer" where
  "createLocalNostrSigner lib nonce secretKey publicKey =
     (let pubkey = (case publicKey of Some p \<Rightarrow> p | None \<Rightarrow> tl_getPublicKey lib secretKey)
      in \<lparr>sg_pubkey = ok pubkey,
          sg_signEvent = (\<lambda>template. ok (tl_finalizeEvent lib template secretKey)),
          sg_nip44Encrypt = (\<lambda>peer plaintext.
            bind_result (tl_getConversationKey lib secretKey peer) (tl_nip44_encrypt lib nonce plaintext)),
          sg_nip44Decrypt = (\<lambda>peer ciphertext.
            bind_result (tl_getConversationKey lib secretKey peer) (tl_nip44_decrypt lib ciphertext))\<rparr>)"

definition localNostrSigner :: "nostr_tools \<Rightarrow> bytes \<Rightarrow> nostr_keypair \<Rightarrow> nostr_signer" where
  "localNostrSigner lib nonce k = createLocalNostrSigner lib nonce (kp_secretKey k) (Some (kp_publicKey k))"

definition bunkerNostrSigner :: "'k signer_state \<Rightarrow> nostr_signer result" where
  "bunkerNostrSigner s =
     (case sv_remote s of
        None \<Rightarrow> throw ''Remote signer is offline''
      | Some r \<Rightarrow> throw_if (ai_status (getActiveIdentity s) \<noteq> Ready) ''Remote signer is offline'' (ok (rs_signer r)))"

definition nip07EncryptionAvailable :: "nostr07_extension option \<Rightarrow> bool" where
  "nip07EncryptionAvailable window_nostr = (case window_nostr of None \<Rightarrow> False | Some ext \<Rightarrow> ex_nip44 ext \<noteq> None)"

definition nip07NostrSigner :: "nostr07_extension \<Rightarrow> nostr_signer" where
  "nip07NostrSigner ext =
     \<lparr>sg_pubkey = ex_getPublicKey ext, sg_signEvent = ex_signEvent ext,
      sg_nip44Encrypt = (\<lambda>peer plaintext.
        case ex_nip44 ext of None \<Rightarrow> throw ''NIP-07 extension does not support NIP-44'' | Some (enc, dec) \<Rightarrow> enc peer plaintext),
      sg_nip44Decrypt = (\<lambda>peer ciphertext.
        case ex_nip44 ext of None \<Rightarrow> throw ''NIP-07 extension does not support NIP-44'' | Some (enc, dec) \<Rightarrow> dec peer ciphertext)\<rparr>"

definition getNostrSigner ::
  "nostr_tools \<Rightarrow> nostr07_extension option \<Rightarrow> bytes \<Rightarrow> bytes \<Rightarrow> 'k signer_state \<Rightarrow> 'k signer_state \<times> (signer_mode \<times> nostr_signer) result" where
  "getNostrSigner lib window_nostr fresh nonce s =
     (case ai_mode (getActiveIdentity s) of
        Bunker \<Rightarrow> (s, bind_result (bunkerNostrSigner s) (\<lambda>g. ok (Bunker, g)))
      | Nip07 \<Rightarrow>
          (s, case window_nostr of
                None \<Rightarrow> throw ''NIP-07 extension is unavailable''
              | Some ext \<Rightarrow> ok (Nip07, nip07NostrSigner ext))
      | Local \<Rightarrow>
          (let (c, k) = getCachedKeypair lib fresh (sv_cache s)
           in (s\<lparr>sv_cache := c\<rparr>, ok (Local, localNostrSigner lib nonce k))))"

definition getNip07NostrSigner :: "nostr07_extension option \<Rightarrow> nostr_signer option" where
  "getNip07NostrSigner window_nostr = map_option nip07NostrSigner window_nostr"

section \<open>Signed requests and bindings\<close>

definition NIP98_KIND :: int where "NIP98_KIND = 27235"

definition signAuth_template :: "int \<Rightarrow> nostr_template" where
  "signAuth_template now = \<lparr>nt_kind = NIP98_KIND, nt_created_at = now, nt_tags = [], nt_content = ''''\<rparr>"

definition nip98_template :: "int \<Rightarrow> string \<Rightarrow> string \<Rightarrow> string \<Rightarrow> string option \<Rightarrow> nostr_template" where
  "nip98_template now nonce url verb payloadHash =
     \<lparr>nt_kind = NIP98_KIND, nt_created_at = now,
      nt_tags = [[''u'', url], [''method'', verb], [''nonce'', nonce]]
        @ (if truthy payloadHash then [[''payload'', the payloadHash]] else []),
      nt_content = ''''\<rparr>"

definition signLocalNip98AuthEvent ::
  "nostr_tools \<Rightarrow> int \<Rightarrow> string \<Rightarrow> string \<Rightarrow> string \<Rightarrow> string option \<Rightarrow> nostr_keypair \<Rightarrow> nostr_event" where
  "signLocalNip98AuthEvent lib now nonce url verb payloadHash k =
     tl_finalizeEvent lib (nip98_template now nonce url verb payloadHash) (kp_secretKey k)"

definition bound_template :: "int \<Rightarrow> string \<Rightarrow> nostr_template" where
  "bound_template now content = \<lparr>nt_kind = 30078, nt_created_at = now, nt_tags = [], nt_content = content\<rparr>"

definition sha256Hex :: "'k web_crypto \<Rightarrow> string \<Rightarrow> string" where
  "sha256Hex wc input = bytes_hex (wc_sha256 wc (wc_textEncode wc input))"

definition getPublicKeyAsync :: "nostr07_extension option \<Rightarrow> nostr_keypair \<Rightarrow> string result" where
  "getPublicKeyAsync window_nostr k = (case window_nostr of Some ext \<Rightarrow> ex_getPublicKey ext | None \<Rightarrow> ok (kp_publicKey k))"

text \<open>\<open>Number.prototype.toFixed\<close> below 10^21: the sign, then the nearest multiple of 10^-d, ties upwards.\<close>

definition fixed_abs :: "nat \<Rightarrow> real \<Rightarrow> nat" where
  "fixed_abs d x = nat \<lfloor>\<bar>x\<bar> * 10 ^ d + 1 / 2\<rfloor>"

definition pad_left :: "nat \<Rightarrow> string \<Rightarrow> string" where
  "pad_left n s = replicate (n - length s) (CHR ''0'') @ s"

definition toFixed :: "nat \<Rightarrow> real \<Rightarrow> string" where
  "toFixed d x =
     (let n = fixed_abs d x
      in (if x < 0 then ''-'' else '''') @ nat_str (n div 10 ^ d) @ ''.'' @ pad_left d (nat_str (n mod 10 ^ d)))"

definition reportBindingContent :: "string \<Rightarrow> real \<Rightarrow> real \<Rightarrow> string option \<Rightarrow> string" where
  "reportBindingContent reportType lat lng description =
     ''r1|'' @ reportType @ ''|'' @ toFixed 6 lat @ ''|'' @ toFixed 6 lng @ ''|''
       @ (case description of Some d \<Rightarrow> d | None \<Rightarrow> '''')"

definition voteBindingContent :: "string \<Rightarrow> string \<Rightarrow> string" where
  "voteBindingContent vote reportId = ''v1|'' @ vote @ ''|'' @ reportId"

definition vouchBindingContent :: "string \<Rightarrow> string" where
  "vouchBindingContent voucheePubkey = ''sentinelmesh:vouch:v1:'' @ voucheePubkey"

definition vouchRevokeBindingContent :: "string \<Rightarrow> string" where
  "vouchRevokeBindingContent voucheePubkey = ''sentinelmesh:vouch-revoke:v1:'' @ voucheePubkey"

definition signReport :: "nostr_tools \<Rightarrow> int \<Rightarrow> string \<Rightarrow> bytes \<Rightarrow> nostr_event" where
  "signReport lib now content secretKey =
     tl_finalizeEvent lib \<lparr>nt_kind = 30078, nt_created_at = now, nt_tags = [[''d'', ''sentinel-report'']], nt_content = content\<rparr>
       secretKey"

section \<open>Identity and vouch requests\<close>

record http_request =
  hr_url :: string
  hr_method :: string
  hr_headers :: "(string \<times> string) list"
  hr_body :: "string option"

text \<open>A response: its status and its body when the body is JSON; a failed fetch throws.\<close>

record http_reply =
  hp_status :: int
  hp_json :: "json option"

definition hp_ok :: "http_reply \<Rightarrow> bool" where
  "hp_ok r \<longleftrightarrow> 200 \<le> hp_status r \<and> hp_status r \<le> 299"

record nip05_status =
  n5_identifier :: string
  n5_verified :: bool
  n5_verified_at :: string
  n5_valid_until :: string

definition parse_nip05 :: "json \<Rightarrow> nip05_status option result" where
  "parse_nip05 v =
     (if \<not> json_truthy v \<or> (case v of JObj _ \<Rightarrow> False | JArr _ \<Rightarrow> False | _ \<Rightarrow> True) then throw ''Invalid identity response''
      else
        (case jget ''nip05'' v of
           Some JNull \<Rightarrow> ok None
         | Some n \<Rightarrow>
             (case (jget ''identifier'' n, jget ''verified'' n, jget ''verified_at'' n, jget ''valid_until'' n) of
                (Some (JStr i), Some (JBool b), Some (JStr a), Some (JStr u)) \<Rightarrow>
                  ok (Some \<lparr>n5_identifier = i, n5_verified = b, n5_verified_at = a, n5_valid_until = u\<rparr>)
              | _ \<Rightarrow> throw ''Invalid identity response'')
         | None \<Rightarrow> throw ''Invalid identity response''))"

definition nip05_request :: "string \<Rightarrow> nostr_event \<Rightarrow> string \<Rightarrow> string option \<Rightarrow> http_request" where
  "nip05_request url auth verb body =
     \<lparr>hr_url = url, hr_method = verb,
      hr_headers = (case body of None \<Rightarrow> [] | Some _ \<Rightarrow> [(''Content-Type'', ''application/json'')])
        @ [(''X-Nostr-Auth'', stringify (event_json auth))],
      hr_body = body\<rparr>"

definition nip05_errorMessage :: "http_reply \<Rightarrow> string" where
  "nip05_errorMessage r =
     (let fallback = ''Identity request failed ('' @ int_str (hp_status r) @ '')''
      in case hp_json r of
           Some v \<Rightarrow> (case jget ''message'' v of Some (JStr m) \<Rightarrow> m | _ \<Rightarrow> fallback)
         | None \<Rightarrow> fallback)"

definition getNip05Identity :: "http_reply \<Rightarrow> nip05_status option result" where
  "getNip05Identity r =
     throw_if (\<not> hp_ok r) (nip05_errorMessage r)
       (case hp_json r of Some v \<Rightarrow> parse_nip05 v | None \<Rightarrow> throw ''SyntaxError'')"

definition nip05_body :: "string \<Rightarrow> string" where
  "nip05_body identifier = stringify (JObj [(''identifier'', JStr identifier)])"

definition verifyNip05Identity :: "http_reply \<Rightarrow> nip05_status result" where
  "verifyNip05Identity r =
     bind_result (getNip05Identity r) (\<lambda>status.
       case status of Some n \<Rightarrow> ok n | None \<Rightarrow> throw ''Invalid identity response'')"

definition removeNip05Identity :: "http_reply \<Rightarrow> unit result" where
  "removeNip05Identity r = throw_if (\<not> hp_ok r) (nip05_errorMessage r) (ok ())"

definition issueVouch_request :: "string \<Rightarrow> string \<Rightarrow> nostr_event \<Rightarrow> http_request" where
  "issueVouch_request api_base vouchee event =
     \<lparr>hr_url = api_base @ ''/api/vouches'', hr_method = ''POST'', hr_headers = [(''Content-Type'', ''application/json'')],
      hr_body = Some (stringify (JObj [(''voucher_pubkey'', JStr (ne_pubkey event)), (''vouchee_pubkey'', JStr vouchee),
        (''nostr_event'', event_json event)]))\<rparr>"

definition revokeVouch_request :: "string \<Rightarrow> string \<Rightarrow> nostr_event \<Rightarrow> http_request" where
  "revokeVouch_request api_base vouchee event =
     \<lparr>hr_url = api_base @ ''/api/vouches/'' @ vouchee, hr_method = ''DELETE'', hr_headers = [(''Content-Type'', ''application/json'')],
      hr_body = Some (stringify (JObj [(''voucher_pubkey'', JStr (ne_pubkey event)), (''nostr_event'', event_json event)]))\<rparr>"

section \<open>Transitions of the signer\<close>

inductive signer_step ::
  "nostr_tools \<Rightarrow> 'k web_crypto \<Rightarrow> (string \<Rightarrow> full_url option) \<Rightarrow> 'k signer_state \<Rightarrow> 'k signer_state \<Rightarrow> bool"
  for lib wc URL
where
  step_initialize: "signer_step lib wc URL s (initializeActiveSigner wc lib fresh s)"
| step_refresh: "signer_step lib wc URL s (refreshLocalIdentity lib fresh s)"
| step_nip07: "activateNip07Signer ext s = ok s' \<Longrightarrow> signer_step lib wc URL s s'"
| step_connect: "connectBunker URL sk input s = ok s' \<Longrightarrow> signer_step lib wc URL s s'"
| step_reconnect: "reconnectBunker wc s = ok s' \<Longrightarrow> signer_step lib wc URL s s'"
| step_session: "i < length (sv_opens s) \<Longrightarrow> po_phase (sv_opens s ! i) = Closing
    \<Longrightarrow> signer_step lib wc URL s (open_session i signer s)"
| step_auth: "i < length (sv_opens s) \<Longrightarrow> po_phase (sv_opens s ! i) = Connected g
    \<Longrightarrow> signer_step lib wc URL s (open_auth URL i g raw s)"
| step_finish: "i < length (sv_opens s) \<Longrightarrow> po_phase (sv_opens s ! i) = Connected g
    \<Longrightarrow> signer_step lib wc URL s (fst (open_finish wc ent i connect answer ping s))"
| step_disconnect: "signer_step lib wc URL s (closeRemote s)"
| step_disconnected: "signer_step lib wc URL s (disconnect_done lib fresh s)"
| step_sign_local: "ai_mode (sv_identity s) = Local
    \<Longrightarrow> signer_step lib wc URL s (fst (signWithActiveIdentity lib ext fresh id template s))"
| step_sign_answer: "signer_step lib wc URL s (fst (sign_remote lib active current template reply s))"

definition identity_ok :: "active_identity \<Rightarrow> bool" where
  "identity_ok a \<longleftrightarrow>
     (ai_mode a = Local \<longrightarrow> ai_status a = Ready)
     \<and> (ai_mode a = Nip07 \<longrightarrow> ai_status a = Ready \<and> isLowercaseHex64 (ai_pubkey a))
     \<and> (ai_mode a = Bunker \<and> ai_status a = Ready \<longrightarrow> isLowercaseHex64 (ai_pubkey a))"

definition signer_ok :: "'k signer_state \<Rightarrow> bool" where
  "signer_ok s \<longleftrightarrow>
     identity_ok (sv_identity s) \<and> list_all identity_ok (sv_published s)
     \<and> (case sv_remote s of Some r \<Rightarrow> rs_generation r = sv_generation s \<and> rs_object r < sv_allocated s | None \<Rightarrow> True)"

lemma signer_ok_initial: "signer_ok (initial_signer store)"
  by (simp add: signer_ok_def initial_signer_def identity_ok_def local_identity_def)

lemma signer_ok_publish: "signer_ok s \<Longrightarrow> identity_ok a \<Longrightarrow> signer_ok (publish_identity a s)"
  by (simp add: signer_ok_def publish_identity_def split: option.splits)

lemma signer_ok_frame [simp]:
  "signer_ok (s\<lparr>sv_opens := x\<rparr>) = signer_ok s" "signer_ok (s\<lparr>sv_store := y\<rparr>) = signer_ok s"
  "signer_ok (s\<lparr>sv_cache := z\<rparr>) = signer_ok s" "signer_ok (set_open i p s) = signer_ok s"
  by (simp_all add: signer_ok_def set_open_def split: option.splits)

lemma signer_ok_closeRemote: "signer_ok s \<Longrightarrow> signer_ok (closeRemote s)"
  by (simp add: signer_ok_def closeRemote_def)

lemma identity_ok_simps [simp]:
  "identity_ok (local_identity p)"
  "identity_ok (bunker_identity p st u e) \<longleftrightarrow> st \<noteq> Ready \<or> isLowercaseHex64 p"
  by (auto simp: identity_ok_def local_identity_def bunker_identity_def)

lemma signer_ok_publish_local: "signer_ok s \<Longrightarrow> signer_ok (publish_local lib fresh s)"
  by (simp add: publish_local_def signer_ok_publish split: prod.splits)

lemma signer_ok_open_start: "signer_ok s \<Longrightarrow> signer_ok (open_start stored persist s)"
  by (simp add: open_start_def signer_ok_closeRemote Let_def)

lemma signer_ok_open_session: "signer_ok s \<Longrightarrow> signer_ok (open_session i signer s)"
  by (simp add: open_session_def Let_def) (simp add: signer_ok_def publish_identity_def)

lemma signer_ok_open_auth: "signer_ok s \<Longrightarrow> signer_ok (open_auth URL i g raw s)"
  by (auto simp: open_auth_def Let_def signer_ok_publish split: option.splits)

lemma signer_ok_open_finish: "signer_ok s \<Longrightarrow> signer_ok (fst (open_finish wc ent i connect answer ping s))"
  by (auto simp: open_finish_def Let_def signer_ok_publish signer_ok_closeRemote bind_result_def throw_if_def
      split: sum.splits if_splits)

lemma signer_ok_sign_remote: "signer_ok s \<Longrightarrow> signer_ok (fst (sign_remote lib active current template reply s))"
  by (auto simp: sign_remote_def signer_ok_publish signer_ok_closeRemote split: sum.splits)

lemmas signer_ok_intros = signer_ok_publish signer_ok_closeRemote signer_ok_publish_local signer_ok_open_start
  signer_ok_open_session signer_ok_open_auth signer_ok_open_finish signer_ok_sign_remote

lemma signer_step_ok: "signer_step lib wc URL s s' \<Longrightarrow> signer_ok s \<Longrightarrow> signer_ok s'"
proof (induction rule: signer_step.induct)
  case (step_initialize s fresh)
  then show ?case
    by (auto simp: initializeActiveSigner_def identity_ok_def intro!: signer_ok_intros split: option.splits)
next
  case (step_nip07 ext s s')
  then show ?case
    by (auto simp: activateNip07Signer_def bind_result_def throw_if_def identity_ok_def
        intro!: signer_ok_publish split: option.splits sum.splits if_splits)
next
  case (step_connect sk input s s')
  then show ?case by (auto simp: connectBunker_def bind_result_def intro!: signer_ok_intros split: sum.splits)
next
  case (step_reconnect s s')
  then show ?case by (auto simp: reconnectBunker_def intro!: signer_ok_intros split: option.splits)
next
  case (step_sign_local s ext fresh template)
  then show ?case by (simp add: signWithActiveIdentity_def getActiveIdentity_def split: prod.splits)
qed (auto simp: refreshLocalIdentity_def disconnect_done_def intro!: signer_ok_intros)

section \<open>Properties of the signer\<close>

text \<open>
  In every state the signer module reaches, whatever connections, answers and disconnections
  interleave, each identity shown to the user or told to a listener is consistent: the local
  identity is ready, an extension or a ready remote identity has a 64-digit lowercase hexadecimal
  key; and a live session always carries the current generation, so a session is never mistaken
  for a later one by its number.
\<close>

theorem signer_always_consistent:
  assumes "(signer_step lib wc URL)\<^sup>*\<^sup>* (initial_signer store) s"
  shows "identity_ok (sv_identity s) \<and> (\<forall>a\<in>set (sv_published s). identity_ok a)
    \<and> (\<forall>r. sv_remote s = Some r \<longrightarrow> rs_generation r = sv_generation s)"
proof -
  have "signer_ok s" using assms
    by (induction rule: rtranclp_induct) (auto intro: signer_ok_initial signer_step_ok)
  then show ?thesis by (auto simp: signer_ok_def list_all_iff)
qed

definition sample_store :: "(bytes \<times> bool) bunker_db" where
  "sample_store = \<lparr>bd_wrap_key = None, bd_connection = None\<rparr>"

theorem signer_always_consistent_witness:
  "identity_ok (sv_identity (closeRemote (refreshLocalIdentity plain_tools [1] (initial_signer sample_store))))"
proof -
  have "(signer_step plain_tools plain_crypto (\<lambda>_. None))\<^sup>*\<^sup>* (initial_signer sample_store)
      (closeRemote (refreshLocalIdentity plain_tools [1] (initial_signer sample_store)))"
    by (rule rtranclp.rtrancl_into_rtrancl, rule r_into_rtranclp, rule step_refresh, rule step_disconnect)
  from signer_always_consistent [OF this] show ?thesis by blast
qed

lemma tags_json_inject [simp]: "tags_json a = tags_json b \<longleftrightarrow> a = b"
  by (metis js_tags_json option.inject)

lemma sameTemplate_iff:
  "sameTemplate t e \<longleftrightarrow> ne_kind e = nt_kind t \<and> ne_created_at e = nt_created_at t \<and> ne_content e = nt_content t
     \<and> ne_tags e = nt_tags t"
  unfolding sameTemplate_def by (metis jwf_tags stringify_inject tags_json_inject)

lemma check_signed_ok:
  "check_signed lib active t msg e = ok e' \<longleftrightarrow>
     e' = e \<and> tl_verifyEvent lib e = Some True \<and> ne_pubkey e = ai_pubkey active \<and> sameTemplate t e"
  by (auto simp: check_signed_def split: option.splits)

lemma sign_remote_ok:
  "snd (sign_remote lib active current t answer s) = ok e \<longleftrightarrow>
     answer = ok e \<and> (\<exists>r. sv_remote s = Some r \<and> rs_object r = rs_object current)
     \<and> rs_generation current = sv_generation s \<and> check_signed lib active t ''Remote signer altered the requested event'' e = ok e"
  by (cases answer) (auto simp: sign_remote_def check_signed_def throw_if_def split: sum.splits option.splits if_splits)

lemma sign_ok:
  assumes "finalizes lib" and "signWithActiveIdentity lib window_nostr fresh meanwhile t s = (s', ok e)"
  shows "tl_verifyEvent lib e = Some True \<and> ne_kind e = nt_kind t \<and> ne_created_at e = nt_created_at t
    \<and> ne_tags e = nt_tags t \<and> ne_content e = nt_content t
    \<and> (case ai_mode (sv_identity s) of
         Local \<Rightarrow> ne_pubkey e = tl_getPublicKey lib (kp_secretKey (snd (getCachedKeypair lib fresh (sv_cache s))))
       | Nip07 \<Rightarrow> ne_pubkey e = ai_pubkey (sv_identity s)
       | Bunker \<Rightarrow> ne_pubkey e = ai_pubkey (sv_identity s) \<and> ai_status (sv_identity s) = Ready
           \<and> (\<exists>r r'. sv_remote s = Some r \<and> sg_signEvent (rs_signer r) t = ok e
                \<and> sv_remote (meanwhile s) = Some r' \<and> rs_object r' = rs_object r))"
proof (cases "ai_mode (sv_identity s)")
  case Local
  with assms show ?thesis
    by (auto simp: signWithActiveIdentity_def getActiveIdentity_def finalizes_def Let_def split: prod.splits)
next
  case Nip07
  with assms show ?thesis
    by (auto simp: signWithActiveIdentity_def getActiveIdentity_def bind_result_ok_iff check_signed_ok sameTemplate_iff
        split: option.splits)
next
  case Bunker
  with assms(2) obtain r where r: "sv_remote s = Some r" "ai_status (sv_identity s) = Ready"
      and "snd (sign_remote lib (sv_identity s) r t (sg_signEvent (rs_signer r) t) (meanwhile s)) = ok e"
    by (auto simp: signWithActiveIdentity_def getActiveIdentity_def Let_def split: option.splits if_splits)
  then show ?thesis using Bunker
    by (auto simp: sign_remote_ok check_signed_ok sameTemplate_iff)
qed


definition note_template :: nostr_template where
  "note_template = \<lparr>nt_kind = 1, nt_created_at = 5, nt_tags = [[''t'', ''x'']], nt_content = ''hi''\<rparr>"


text \<open>
  Two connection attempts started together share one generation, so the session check of the
  first passes although the second replaced its session: the first identity is published as
  ready, and stored, while every signature would be requested from the second signer.
\<close>

theorem concurrent_open_confuses_sessions:
  assumes "isLowercaseHex64 pk" and "bc_expectedPubkey A = ''''" and "sv_opens s = []"
  shows "let s1 = open_session 1 signerB (open_session 0 signerA (open_start B True (open_start A True s)));
      s2 = fst (open_finish wc ent 0 (ok ()) (ok pk) (ok ()) s1)
    in sv_identity s2 = bunker_identity pk Ready None None
    \<and> map_option rs_signer (sv_remote s2) = Some signerB
    \<and> sv_store s2 = saveBunkerConnection wc ent (sv_store s) (A\<lparr>bc_expectedPubkey := pk\<rparr>)"
  using assms
  by (simp add: open_session_def open_start_def open_finish_def closeRemote_def publish_identity_def set_open_def
      same_session_def getActiveIdentity_def Let_def)

definition sample_connection :: stored_bunker_connection where
  "sample_connection = \<lparr>bc_clientSecretKey = [1], bc_bunkerPubkey = key_of (CHR ''b''), bc_relays = [''wss://r''],
     bc_secret = None, bc_expectedPubkey = ''''\<rparr>"

theorem concurrent_open_confuses_sessions_witness:
  "sv_identity (fst (open_finish plain_crypto sample_vault_entropy 0 (ok ()) (ok (key_of (CHR ''a''))) (ok ())
     (open_session 1 (plain_signer ''B'') (open_session 0 (plain_signer ''A'')
       (open_start sample_connection True (open_start sample_connection True (initial_signer sample_store)))))))
   = bunker_identity (key_of (CHR ''a'')) Ready None None"
proof -
  have A: "bc_expectedPubkey sample_connection = ''''" by (simp add: sample_connection_def)
  have s: "sv_opens (initial_signer sample_store) = []" by (simp add: initial_signer_def)
  from concurrent_open_confuses_sessions [OF sample_keys(1) A s, unfolded Let_def, THEN conjunct1]
  show ?thesis .
qed

section \<open>The local signer\<close>

text \<open>
  NIP-44 as documented: both ends derive the same conversation key, decryption undoes encryption
  under the same key, and the public key of a 32-byte secret key is 64 lowercase hexadecimal
  digits.
\<close>

definition nip44_laws :: "nostr_tools \<Rightarrow> bool" where
  "nip44_laws lib \<longleftrightarrow>
     (\<forall>a b. tl_getConversationKey lib a (tl_getPublicKey lib b) = tl_getConversationKey lib b (tl_getPublicKey lib a))
     \<and> (\<forall>n m k c. tl_nip44_encrypt lib n m k = ok c \<longrightarrow> tl_nip44_decrypt lib c k = ok m)
     \<and> (\<forall>sk. length sk = 32 \<longrightarrow> isLowercaseHex64 (tl_getPublicKey lib sk))"

definition shared_tools :: nostr_tools where
  "shared_tools = plain_tools\<lparr>tl_getPublicKey := (\<lambda>sk. key_of (CHR ''a'')), tl_getConversationKey := (\<lambda>sk p. ok []),
     tl_finalizeEvent := (\<lambda>t sk. (tl_finalizeEvent plain_tools t sk)\<lparr>ne_pubkey := key_of (CHR ''a'')\<rparr>)\<rparr>"

lemma shared_tools_laws: "nip44_laws shared_tools" "finalizes shared_tools"
  using sample_keys(1) by (simp_all add: nip44_laws_def finalizes_def shared_tools_def plain_tools_def Let_def)

text \<open>
  C24: the signer built from a local key meets the contract the encrypted messaging relies on: it
  signs as its public key without altering the template, and any two such signers read what the
  other encrypts, and what is wrapped for them under an ephemeral key.
\<close>

theorem local_signer_contract:
  assumes "finalizes lib" and "nip44_laws lib" and "length a = 32" and "length b = 32"
  shows "signs_as lib (createLocalNostrSigner lib na a None) (tl_getPublicKey lib a)
    \<and> reads_from lib (createLocalNostrSigner lib na a None) (tl_getPublicKey lib a)
        (createLocalNostrSigner lib nb b None) (tl_getPublicKey lib b)"
proof
  show "signs_as lib (createLocalNostrSigner lib na a None) (tl_getPublicKey lib a)"
    using assms by (simp add: signs_as_def createLocalNostrSigner_def finalizes_def nip44_laws_def Let_def)
  have sym: "tl_getConversationKey lib b (tl_getPublicKey lib x) = tl_getConversationKey lib x (tl_getPublicKey lib b)" for x
    using assms(2) unfolding nip44_laws_def by blast
  have dec: "tl_nip44_encrypt lib n m k = ok c \<Longrightarrow> tl_nip44_decrypt lib c k = ok m" for n m k c
    using assms(2) unfolding nip44_laws_def by blast
  show "reads_from lib (createLocalNostrSigner lib na a None) (tl_getPublicKey lib a)
        (createLocalNostrSigner lib nb b None) (tl_getPublicKey lib b)"
    by (auto simp: reads_from_def createLocalNostrSigner_def Let_def bind_result_ok_iff sym dec)
qed

theorem local_signer_contract_witness:
  "signs_as shared_tools (createLocalNostrSigner shared_tools [] (replicate 32 1) None) (key_of (CHR ''a''))"
proof -
  have "length (replicate 32 (1 :: 8 word)) = 32" by simp
  from local_signer_contract [OF shared_tools_laws(2,1) this this, of "[]" "[]"]
  show ?thesis by (simp add: shared_tools_def)
qed

text \<open>
  An initializer in flight when the identity is reset still replaces the new key in the
  session: the cached key pair is then the old one, while the new key is the one stored.
\<close>

theorem stale_init_overwrites_reset:
  assumes "crypto_laws wc" and "length (ve_iv ent) = 12" and "old \<noteq> new"
    and "generateNewIdentity wc ent lib new (fst (loadIdentity empty_cache), db) = ((c, db'), k)"
  shows "ic_keypair c = Some k \<and> kp_secretKey k = new \<and> loadSecretKey wc db' = Some new
    \<and> ic_keypair (loadIdentity_done lib (ok old) fb c) = Some (keypair_of lib old)
    \<and> keypair_of lib old \<noteq> k"
  using assms load_saved [OF assms(1,2)]
  by (auto simp: generateNewIdentity_def adopt_key_def loadIdentity_done_def loadSecretKey_def saveSecretKey_def
      saveSecretKeyUnlocked_def normal_payload_def keypair_of_def Let_def)

theorem stale_init_overwrites_reset_witness:
  "ic_keypair (loadIdentity_done plain_tools (ok [1]) [] \<lparr>ic_keypair = Some (keypair_of plain_tools [2]), ic_init = No_Init\<rparr>)
    = Some (keypair_of plain_tools [1])"
proof -
  have iv: "length (ve_iv sample_vault_entropy) = 12" by (simp add: sample_vault_entropy_def)
  have ne: "[1 :: 8 word] \<noteq> [2]" by simp
  have gen: "generateNewIdentity plain_crypto sample_vault_entropy plain_tools [2] (fst (loadIdentity empty_cache), empty_identity_db)
      = ((\<lparr>ic_keypair = Some (keypair_of plain_tools [2]), ic_init = No_Init\<rparr>,
          saveSecretKey plain_crypto sample_vault_entropy empty_identity_db [2]), keypair_of plain_tools [2])"
    by (simp add: generateNewIdentity_def adopt_key_def Let_def)
  from stale_init_overwrites_reset [OF plain_crypto_laws iv ne gen, of "[]"] show ?thesis by blast
qed

section \<open>Bindings\<close>

lemma nat_str_no_char: "\<not> is_digit c \<Longrightarrow> c \<notin> set (nat_str n)"
  using nat_str_all_digits(1) [of n] by (auto simp: list_all_iff)

lemma int_str_no_char: "\<not> is_digit c \<Longrightarrow> c \<noteq> CHR ''-'' \<Longrightarrow> c \<notin> set (int_str n)"
  by (simp add: int_str_def nat_str_no_char)

lemma digits_val_zeros: "digits_val (replicate k (CHR ''0'') @ s) = digits_val s"
proof -
  have "char_digit (CHR ''0'') = 0" by (simp add: char_digit_def)
  then have "foldl (\<lambda>v c. v * 10 + char_digit c) 0 (replicate k (CHR ''0'')) = 0" by (induction k) simp_all
  then show ?thesis by (simp add: digits_val_def)
qed

lemma digits_val_pad_left [simp]: "digits_val (pad_left d (nat_str m)) = m"
  by (simp add: pad_left_def digits_val_zeros)

lemma punctuation_not_digit: "\<not> is_digit (CHR ''.'')" "\<not> is_digit (CHR ''-'')" "\<not> is_digit (CHR ''|'')"
  by (simp_all add: is_digit_def char_le_iff)

lemma unsigned_fixed_inject:
  assumes "nat_str a @ ''.'' @ pad_left d (nat_str b) = nat_str a' @ ''.'' @ pad_left d (nat_str b')"
  shows "a = a' \<and> b = b'"
proof -
  have "nat_str a = nat_str a' \<and> pad_left d (nat_str b) = pad_left d (nat_str b')"
    using assms nat_str_no_char [OF punctuation_not_digit(1)] by (intro append_sep_inject) simp_all
  then show ?thesis by (metis digits_val_pad_left nat_str_inject)
qed

lemma fixed_abs_near: "\<bar>real (fixed_abs d x) - \<bar>x\<bar> * 10 ^ d\<bar> \<le> 1 / 2"
proof -
  have "0 \<le> \<bar>x\<bar> * 10 ^ d + 1 / 2" by simp
  then have "real (fixed_abs d x) = of_int \<lfloor>\<bar>x\<bar> * 10 ^ d + 1 / 2\<rfloor>" by (simp add: fixed_abs_def)
  then show ?thesis by linarith
qed

text \<open>Two numbers printed alike are within one unit of the last digit of each other.\<close>

lemma toFixed_near:
  assumes "toFixed d x = toFixed d y"
  shows "\<bar>x - y\<bar> \<le> 1 / 10 ^ d"
proof -
  let ?p = "\<lambda>n. nat_str (n div 10 ^ d) @ ''.'' @ pad_left d (nat_str (n mod 10 ^ d))"
  have hd: "hd (?p n) \<noteq> CHR ''-''" for n
    using hd_nat_str_digit [of "n div 10 ^ d"] by (metis hd_append2 nat_str_nonempty punctuation_not_digit(2))
  have hd': "?p n \<noteq> CHR ''-'' # u" for n u using hd [of n] by (metis list.sel(1))
  note eq' = assms [unfolded toFixed_def Let_def]
  have eq: "x < 0 \<longleftrightarrow> y < 0" "?p (fixed_abs d x) = ?p (fixed_abs d y)"
    using eq' hd' [of "fixed_abs d x"] hd' [of "fixed_abs d y"]
    by (cases "x < 0"; cases "y < 0"; simp; metis)+
  from unsigned_fixed_inject [OF eq(2)] have n: "fixed_abs d x = fixed_abs d y"
    by (metis div_mult_mod_eq)
  have p: "\<bar>(10 :: real) ^ d\<bar> = 10 ^ d" by simp
  have "\<bar>\<bar>x\<bar> * 10 ^ d - \<bar>y\<bar> * 10 ^ d\<bar> \<le> 1"
    using fixed_abs_near [of d x] fixed_abs_near [of d y] n by linarith
  moreover have "\<bar>x\<bar> * 10 ^ d - \<bar>y\<bar> * 10 ^ d = (\<bar>x\<bar> - \<bar>y\<bar>) * 10 ^ d" by (rule left_diff_distrib [symmetric])
  ultimately have "\<bar>\<bar>x\<bar> - \<bar>y\<bar>\<bar> * 10 ^ d \<le> 1" by (simp only: abs_mult p)
  then have "\<bar>\<bar>x\<bar> - \<bar>y\<bar>\<bar> \<le> 1 / 10 ^ d" by (subst pos_le_divide_eq) simp_all
  moreover have "\<bar>x - y\<bar> = \<bar>\<bar>x\<bar> - \<bar>y\<bar>\<bar>" using eq(1) by arith
  ultimately show ?thesis by simp
qed

lemma toFixed_no_bar: "CHR ''|'' \<notin> set (toFixed d x)"
  using nat_str_no_char [OF punctuation_not_digit(3)] by (auto simp: toFixed_def pad_left_def Let_def split: if_splits)

text \<open>
  A signature over a report or vote binds what was submitted. Two reports with the same
  binding string have the same type and description and lie within a millionth of a degree of
  each other, two votes with the same binding agree on vote and report, and no vouch binding is a
  revocation binding.
\<close>

theorem bindings_determine_content:
  assumes "CHR ''|'' \<notin> set ty" and "CHR ''|'' \<notin> set ty'"
  shows "(reportBindingContent ty lat lng desc = reportBindingContent ty' lat' lng' desc' \<longrightarrow>
      ty = ty' \<and> \<bar>lat - lat'\<bar> \<le> 1 / 10 ^ 6 \<and> \<bar>lng - lng'\<bar> \<le> 1 / 10 ^ 6
      \<and> (case desc of Some d \<Rightarrow> d | None \<Rightarrow> '''') = (case desc' of Some d \<Rightarrow> d | None \<Rightarrow> ''''))
    \<and> (voteBindingContent ty rid = voteBindingContent ty' rid' \<longrightarrow> ty = ty' \<and> rid = rid')
    \<and> vouchBindingContent pk \<noteq> vouchRevokeBindingContent pk'"
proof (intro conjI impI)
  assume "reportBindingContent ty lat lng desc = reportBindingContent ty' lat' lng' desc'"
  then have eq: "ty @ CHR ''|'' # toFixed 6 lat @ CHR ''|'' # toFixed 6 lng @ CHR ''|'' # (case desc of Some d \<Rightarrow> d | None \<Rightarrow> '''')
    = ty' @ CHR ''|'' # toFixed 6 lat' @ CHR ''|'' # toFixed 6 lng' @ CHR ''|'' # (case desc' of Some d \<Rightarrow> d | None \<Rightarrow> '''')"
    by (simp add: reportBindingContent_def)
  note ty = append_sep_inject [OF eq assms]
  note lat = append_sep_inject [OF ty [THEN conjunct2] toFixed_no_bar toFixed_no_bar]
  note lng = append_sep_inject [OF lat [THEN conjunct2] toFixed_no_bar toFixed_no_bar]
  show "ty = ty'" using ty by blast
  show "\<bar>lat - lat'\<bar> \<le> 1 / 10 ^ 6" using lat toFixed_near by blast
  show "\<bar>lng - lng'\<bar> \<le> 1 / 10 ^ 6" using lng toFixed_near by blast
  show "(case desc of Some d \<Rightarrow> d | None \<Rightarrow> '''') = (case desc' of Some d \<Rightarrow> d | None \<Rightarrow> '''')" using lng by blast
next
  assume "voteBindingContent ty rid = voteBindingContent ty' rid'"
  then have "ty @ CHR ''|'' # rid = ty' @ CHR ''|'' # rid'" by (simp add: voteBindingContent_def)
  note v = append_sep_inject [OF this assms]
  then show "ty = ty'" "rid = rid'" by blast+
next
  show "vouchBindingContent pk \<noteq> vouchRevokeBindingContent pk'"
    by (simp add: vouchBindingContent_def vouchRevokeBindingContent_def)
qed

theorem bindings_determine_content_witness:
  "voteBindingContent ''confirm'' ''r1'' \<noteq> voteBindingContent ''deny'' ''r1''"
proof -
  have "CHR ''|'' \<notin> set ''confirm''" "CHR ''|'' \<notin> set ''deny''" by simp_all
  from bindings_determine_content [OF this, THEN conjunct2, THEN conjunct1] show ?thesis by auto
qed

end
