(* ===== verification/CircleKeys.thy ===== *)
theory CircleKeys
  imports Identity
begin

text \<open>
  End-to-end encryption of circles: \<open>services/e2eeService.ts\<close>. Circle keys are kept per circle and
  key epoch as non-extractable \<open>CryptoKey\<close>s in IndexedDB, with their raw bytes in the device vault;
  the owner distributes a key to a member as a signed NIP-44 event, and locations are signed, then
  encrypted under the circle key with the circle and epoch as additional data. The lemmas show that
  keys are stored per circle and epoch and never extractable, that a distributed key is the one
  received and is accepted from the owner only, and that a location read is a fresh, unexpired one
  signed by an active member.
\<close>

section \<open>Circle keys\<close>

text \<open>The store \<open>circle_keys\<close>, localStorage when there is one, and the device vault.\<close>

record 'k circle_state =
  cs_keys :: "'k object_store"
  cs_local :: "local_storage option"
  cs_vault :: "'k identity_db"

definition LEGACY_KEY_PREFIX :: string where "LEGACY_KEY_PREFIX = ''sentinelmesh:circle_key:''"

definition keyId :: "string \<Rightarrow> int \<Rightarrow> string" where
  "keyId circleId epoch = circleId @ '':'' @ int_str epoch"

definition idbPut :: "string \<Rightarrow> 'k \<Rightarrow> 'k circle_state \<Rightarrow> 'k circle_state" where
  "idbPut i key st = st\<lparr>cs_keys := idb_put (cs_keys st) i key\<rparr>"

definition idbGet :: "string \<Rightarrow> 'k circle_state \<Rightarrow> 'k option" where
  "idbGet i st = idb_get (cs_keys st) i"

definition idbDelete :: "string \<Rightarrow> 'k circle_state \<Rightarrow> 'k circle_state" where
  "idbDelete i st = st\<lparr>cs_keys := idb_del (cs_keys st) i\<rparr>"

definition remove_legacy :: "string \<Rightarrow> 'k circle_state \<Rightarrow> 'k circle_state" where
  "remove_legacy circleId st = st\<lparr>cs_local := map_option (\<lambda>l. idb_del l (LEGACY_KEY_PREFIX @ circleId)) (cs_local st)\<rparr>"

definition import_sealed :: "'k web_crypto \<Rightarrow> bytes \<Rightarrow> 'k result" where
  "import_sealed wc raw = (case wc_importKey wc raw False of Some k \<Rightarrow> ok k | None \<Rightarrow> throw ''DataError'')"

definition toNonExtractable :: "'k web_crypto \<Rightarrow> 'k \<Rightarrow> 'k result" where
  "toNonExtractable wc key =
     (if \<not> wc_extractable wc key then ok key
      else (case wc_exportKey wc key of None \<Rightarrow> throw ''InvalidAccessError'' | Some raw \<Rightarrow> import_sealed wc raw))"

definition saveCircleKey :: "'k web_crypto \<Rightarrow> string \<Rightarrow> 'k \<Rightarrow> int \<Rightarrow> 'k circle_state \<Rightarrow> 'k circle_state result" where
  "saveCircleKey wc circleId key epoch st =
     bind_result (toNonExtractable wc key) (\<lambda>storable. ok (remove_legacy circleId (idbPut (keyId circleId epoch) storable st)))"

definition upsert_in :: "'k web_crypto \<Rightarrow> 'k vault_entropy \<Rightarrow> string \<Rightarrow> bytes \<Rightarrow> int \<Rightarrow> 'k circle_state \<Rightarrow> 'k circle_state" where
  "upsert_in wc ent circleId raw epoch st = st\<lparr>cs_vault := upsertCircleKey wc ent (cs_vault st) circleId raw epoch\<rparr>"

definition remove_in :: "'k web_crypto \<Rightarrow> 'k vault_entropy \<Rightarrow> string \<Rightarrow> int option \<Rightarrow> 'k circle_state \<Rightarrow> 'k circle_state" where
  "remove_in wc ent circleId epoch st = st\<lparr>cs_vault := removeVaultCircle wc ent (cs_vault st) circleId epoch\<rparr>"

definition saveCircleKeyWithBackup ::
  "'k web_crypto \<Rightarrow> 'k vault_entropy \<Rightarrow> string \<Rightarrow> bytes \<Rightarrow> int \<Rightarrow> 'k circle_state \<Rightarrow> 'k circle_state result" where
  "saveCircleKeyWithBackup wc ent circleId rawKey epoch st =
     bind_result (import_sealed wc rawKey) (\<lambda>liveKey.
       ok (upsert_in wc ent circleId rawKey epoch (remove_legacy circleId (idbPut (keyId circleId epoch) liveKey st))))"

text \<open>The migrations of \<open>loadCircleKey\<close>: a key under the bare circle id, then one in localStorage.\<close>

definition legacy_b64 :: "string \<Rightarrow> 'k circle_state \<Rightarrow> string option" where
  "legacy_b64 circleId st = Option.bind (cs_local st) (\<lambda>l. idb_get l (LEGACY_KEY_PREFIX @ circleId))"

definition migrate_local ::
  "'k web_crypto \<Rightarrow> 'k vault_entropy \<Rightarrow> string \<Rightarrow> 'k circle_state \<Rightarrow> ('k circle_state \<times> 'k option) result" where
  "migrate_local wc ent circleId st =
     (if truthy (legacy_b64 circleId st)
      then
        (case atob (the (legacy_b64 circleId st)) of
           None \<Rightarrow> throw ''InvalidCharacterError''
         | Some raw \<Rightarrow>
             bind_result (import_sealed wc raw) (\<lambda>key.
               ok (remove_legacy circleId (upsert_in wc ent circleId raw 1 (idbPut (keyId circleId 1) key st)), Some key)))
      else ok (st, None))"

definition loadCircleKey ::
  "'k web_crypto \<Rightarrow> 'k vault_entropy \<Rightarrow> string \<Rightarrow> int \<Rightarrow> 'k circle_state \<Rightarrow> ('k circle_state \<times> 'k option) result" where
  "loadCircleKey wc ent circleId epoch st =
     (case idbGet (keyId circleId epoch) st of
        Some existing \<Rightarrow> ok (st, Some existing)
      | None \<Rightarrow>
          if epoch \<noteq> 1 then ok (st, None)
          else
            (case idbGet circleId st of
               Some legacy \<Rightarrow> ok (idbDelete circleId (idbPut (keyId circleId 1) legacy st), Some legacy)
             | None \<Rightarrow> migrate_local wc ent circleId st))"

definition clearCircleKey ::
  "'k web_crypto \<Rightarrow> 'k vault_entropy \<Rightarrow> string \<Rightarrow> int option \<Rightarrow> 'k circle_state \<Rightarrow> 'k circle_state" where
  "clearCircleKey wc ent circleId epoch st =
     (case epoch of
        None \<Rightarrow>
          (let st1 = fold (\<lambda>e. idbDelete (keyId circleId e)) [1..64] st
           in remove_in wc ent circleId None (remove_legacy circleId (idbDelete circleId st1)))
      | Some e \<Rightarrow> remove_in wc ent circleId (Some e) (remove_legacy circleId (idbDelete (keyId circleId e) st)))"

text \<open>\<open>fresh\<close> is the key \<open>generateCircleKey\<close> made, which is extractable.\<close>

definition rotateCircleKey ::
  "'k web_crypto \<Rightarrow> 'k vault_entropy \<Rightarrow> 'k \<Rightarrow> string \<Rightarrow> int \<Rightarrow> 'k circle_state \<Rightarrow> ('k circle_state \<times> 'k) result" where
  "rotateCircleKey wc ent fresh circleId nextEpoch st =
     (case wc_exportKey wc fresh of
        None \<Rightarrow> throw ''InvalidAccessError''
      | Some raw \<Rightarrow> bind_result (saveCircleKeyWithBackup wc ent circleId raw nextEpoch st) (\<lambda>st'. ok (st', fresh)))"

text \<open>\<open>ent e\<close> is what the removal of epoch \<open>e\<close> draws.\<close>

definition purge_floor :: "int \<Rightarrow> int" where
  "purge_floor currentEpoch = max 1 (currentEpoch - 1)"

definition purgeCircleKeyEpochs ::
  "'k web_crypto \<Rightarrow> (int \<Rightarrow> 'k vault_entropy) \<Rightarrow> string \<Rightarrow> int \<Rightarrow> 'k circle_state \<Rightarrow> 'k circle_state" where
  "purgeCircleKeyEpochs wc ent circleId currentEpoch st =
     fold (\<lambda>e s. remove_in wc (ent e) circleId (Some e) (idbDelete (keyId circleId e) s)) [1..purge_floor currentEpoch - 1] st"

section \<open>Distribution of circle keys\<close>

definition CIRCLE_KEY_EVENT_KIND :: int where "CIRCLE_KEY_EVENT_KIND = 30079"
definition CIRCLE_KEY_EVENT_TYPE :: string where "CIRCLE_KEY_EVENT_TYPE = ''sentinelmesh-circle-key-v2''"

definition isSafeInteger :: "int \<Rightarrow> bool" where
  "isSafeInteger n \<longleftrightarrow> \<bar>n\<bar> \<le> 9007199254740991"

definition encodeB64 :: "bytes \<Rightarrow> bytes \<Rightarrow> string" where
  "encodeB64 iv data = btoa (iv @ data)"

definition decodeB64 :: "string \<Rightarrow> (bytes \<times> bytes) option" where
  "decodeB64 b64 =
     (case atob b64 of
        None \<Rightarrow> None
      | Some bs \<Rightarrow> if length bs < 28 then None else Some (take 12 bs, drop 12 bs))"

definition decodeRawB64 :: "string \<Rightarrow> bytes result" where
  "decodeRawB64 v =
     (case atob v of
        None \<Rightarrow> throw ''InvalidCharacterError''
      | Some raw \<Rightarrow> throw_if (length raw \<noteq> 32) ''Invalid circle key package'' (ok raw))"

text \<open>This module's \<open>singleTag\<close>: the value of the only tag of that name.\<close>

definition only_tag :: "nostr_event \<Rightarrow> string \<Rightarrow> string option" where
  "only_tag event name =
     (case filter (\<lambda>t. tag_at t 0 = Some name) (ne_tags event) of [t] \<Rightarrow> tag_at t 1 | _ \<Rightarrow> None)"

definition key_package :: "string \<Rightarrow> int \<Rightarrow> bytes \<Rightarrow> int \<Rightarrow> json" where
  "key_package circleId keyEpoch rawKey issued_at =
     JObj [(''version'', JInt 2), (''type'', JStr CIRCLE_KEY_EVENT_TYPE), (''circle_id'', JStr circleId),
       (''key_epoch'', JInt keyEpoch), (''algorithm'', JStr ''AES-256-GCM''), (''key'', JStr (btoa rawKey)),
       (''issued_at'', JInt issued_at)]"

definition createNip44CircleKeyEvent ::
  "'k web_crypto \<Rightarrow> nostr_tools \<Rightarrow> nostr_keypair \<Rightarrow> int \<Rightarrow> bytes \<Rightarrow> string \<Rightarrow> string \<Rightarrow> int \<Rightarrow> 'k circle_state
     \<Rightarrow> nostr_event result" where
  "createNip44CircleKeyEvent wc lib keypair now nonce circleId recipientPubkey keyEpoch st =
     throw_if (\<not> isHex64_ci recipientPubkey) ''Invalid recipient public key''
     (throw_if (\<not> isSafeInteger keyEpoch \<or> keyEpoch < 1) ''Invalid key epoch''
     (case loadVaultCircleKey wc (cs_vault st) circleId (Some keyEpoch) of
        None \<Rightarrow> throw ''Circle key is not available in the encrypted vault''
      | Some rawKey \<Rightarrow>
          bind_result (tl_getConversationKey lib (kp_secretKey keypair) recipientPubkey) (\<lambda>conversationKey.
          bind_result (tl_nip44_encrypt lib nonce (stringify (key_package circleId keyEpoch rawKey now)) conversationKey) (\<lambda>content.
            ok (tl_finalizeEvent lib
              \<lparr>nt_kind = CIRCLE_KEY_EVENT_KIND, nt_created_at = now,
               nt_tags = [[''d'', CIRCLE_KEY_EVENT_TYPE], [''circle'', circleId], [''epoch'', int_str keyEpoch],
                 [''p'', toLowerCase recipientPubkey]],
               nt_content = content\<rparr> (kp_secretKey keypair))))))"

definition package_key :: "string \<Rightarrow> int \<Rightarrow> string \<Rightarrow> bytes result" where
  "package_key circleId keyEpoch plaintext =
     (case json_parse plaintext of
        None \<Rightarrow> throw ''SyntaxError''
      | Some v \<Rightarrow>
          (case field js_str ''key'' v of
             None \<Rightarrow> throw ''Invalid circle key package''
           | Some key \<Rightarrow>
               throw_if (field js_int ''version'' v \<noteq> Some 2 \<or> field js_str ''type'' v \<noteq> Some CIRCLE_KEY_EVENT_TYPE
                   \<or> field js_str ''circle_id'' v \<noteq> Some circleId \<or> field js_int ''key_epoch'' v \<noteq> Some keyEpoch
                   \<or> field js_str ''algorithm'' v \<noteq> Some ''AES-256-GCM'') ''Invalid circle key package''
                 (decodeRawB64 key)))"

text \<open>The \<open>catch\<close> that replaces every error by one message.\<close>

definition recast :: "js_error \<Rightarrow> 'a result \<Rightarrow> 'a result" where
  "recast msg r = (case r of Inl _ \<Rightarrow> throw msg | Inr x \<Rightarrow> ok x)"

definition unwrapNip44CircleKey ::
  "'k web_crypto \<Rightarrow> nostr_tools \<Rightarrow> 'k vault_entropy \<Rightarrow> nostr_keypair \<Rightarrow> string \<Rightarrow> string \<Rightarrow> nostr_event \<Rightarrow> 'k circle_state
     \<Rightarrow> ('k circle_state \<times> int) result" where
  "unwrapNip44CircleKey wc lib ent keypair circleId ownerPubkey event st =
     throw_if (\<not> isLowercaseHex64 ownerPubkey) ''Circle owner key is unavailable''
     (throw_if (tl_verifyEvent lib event \<noteq> Some True \<or> ne_kind event \<noteq> CIRCLE_KEY_EVENT_KIND) ''Invalid circle key envelope''
     (throw_if (ne_pubkey event \<noteq> toLowerCase ownerPubkey) ''Circle key envelope is not signed by the trusted owner''
     (throw_if (only_tag event ''d'' \<noteq> Some CIRCLE_KEY_EVENT_TYPE \<or> only_tag event ''circle'' \<noteq> Some circleId
         \<or> only_tag event ''p'' \<noteq> Some (toLowerCase (kp_publicKey keypair)))
       ''Circle key envelope is not bound to this circle and recipient''
     (case only_tag event ''epoch'' of
        None \<Rightarrow> throw ''Circle key envelope has no valid epoch''
      | Some epochTag \<Rightarrow>
          throw_if (\<not> all_digits epochTag) ''Circle key envelope has no valid epoch''
          (let keyEpoch = int (digits_val epochTag)
           in bind_result (tl_getConversationKey lib (kp_secretKey keypair) ownerPubkey) (\<lambda>conversationKey.
                recast ''Invalid circle key envelope''
                  (bind_result (tl_nip44_decrypt lib (ne_content event) conversationKey) (\<lambda>plaintext.
                   bind_result (package_key circleId keyEpoch plaintext) (\<lambda>rawKey.
                   bind_result (saveCircleKeyWithBackup wc ent circleId rawKey keyEpoch st) (\<lambda>st'.
                     ok (st', keyEpoch)))))))))))"

definition legacy_package_key :: "string \<Rightarrow> string \<Rightarrow> bytes result" where
  "legacy_package_key circleId plaintext =
     (case json_parse plaintext of
        None \<Rightarrow> throw ''SyntaxError''
      | Some v \<Rightarrow>
          (case field js_str ''key'' v of
             None \<Rightarrow> throw ''Invalid circle key envelope''
           | Some key \<Rightarrow>
               throw_if (field js_int ''version'' v \<noteq> Some 1 \<or> field js_str ''circle_id'' v \<noteq> Some circleId
                   \<or> field js_str ''algorithm'' v \<noteq> Some ''AES-256-GCM'') ''Invalid circle key envelope''
                 (decodeRawB64 key)))"

definition unwrapLegacyCircleKey ::
  "'k web_crypto \<Rightarrow> nostr_tools \<Rightarrow> 'k vault_entropy \<Rightarrow> nostr_keypair \<Rightarrow> string \<Rightarrow> string \<Rightarrow> string \<Rightarrow> 'k circle_state
     \<Rightarrow> 'k circle_state result" where
  "unwrapLegacyCircleKey wc lib ent keypair circleId ownerPubkey ciphertext st =
     throw_if (\<not> isLowercaseHex64 ownerPubkey) ''Circle owner key is unavailable''
     (bind_result (tl_getConversationKey lib (kp_secretKey keypair) ownerPubkey) (\<lambda>conversationKey.
        recast ''Invalid circle key envelope''
          (bind_result (tl_nip44_decrypt lib ciphertext conversationKey) (\<lambda>plaintext.
           bind_result (legacy_package_key circleId plaintext) (\<lambda>rawKey.
             saveCircleKeyWithBackup wc ent circleId rawKey 1 st)))))"

section \<open>Strings and locations under a circle key\<close>

definition encryptString :: "'k web_crypto \<Rightarrow> bytes \<Rightarrow> 'k \<Rightarrow> string \<Rightarrow> string" where
  "encryptString wc iv circleKey s = encodeB64 iv (wc_encrypt wc circleKey iv [] (wc_textEncode wc s))"

definition open_b64 :: "'k web_crypto \<Rightarrow> bytes \<Rightarrow> 'k \<Rightarrow> string \<Rightarrow> string option" where
  "open_b64 wc aad circleKey b64 =
     Option.bind (decodeB64 b64) (\<lambda>(iv, data). map_option (wc_textDecode wc) (wc_decrypt wc circleKey iv aad data))"

definition decryptString :: "'k web_crypto \<Rightarrow> 'k \<Rightarrow> string \<Rightarrow> string option" where
  "decryptString wc circleKey b64 = open_b64 wc [] circleKey b64"

definition encryptLocation :: "'k web_crypto \<Rightarrow> bytes \<Rightarrow> string \<Rightarrow> 'k \<Rightarrow> jnum \<Rightarrow> jnum \<Rightarrow> string" where
  "encryptLocation wc iv now_iso circleKey lat lng =
     encodeB64 iv (wc_encrypt wc circleKey iv []
       (wc_textEncode wc (stringify (JObj [(''lat'', JNum lat), (''lng'', JNum lng), (''ts'', JStr now_iso)]))))"

definition decryptLocation :: "'k web_crypto \<Rightarrow> 'k \<Rightarrow> string \<Rightarrow> json option" where
  "decryptLocation wc circleKey b64 = Option.bind (open_b64 wc [] circleKey b64) json_parse"

definition CIRCLE_LOCATION_EVENT_KIND :: int where "CIRCLE_LOCATION_EVENT_KIND = 30080"
definition LOCATION_AAD_PREFIX :: string where "LOCATION_AAD_PREFIX = ''sentinelmesh:circle-location:v1''"
definition LOCATION_MAX_AGE_SECONDS :: int where "LOCATION_MAX_AGE_SECONDS = 5 * 60"
definition LOCATION_FUTURE_SKEW_SECONDS :: int where "LOCATION_FUTURE_SKEW_SECONDS = 30"

datatype location_precision = Exact | Approximate

fun precision_str :: "location_precision \<Rightarrow> string" where
  "precision_str Exact = ''exact''"
| "precision_str Approximate = ''approximate''"

record circle_location =
  cl_lat :: jnum
  cl_lng :: jnum
  cl_accuracy_m :: jnum
  cl_captured_at :: int
  cl_precision :: location_precision

record verified_location = circle_location +
  vl_pubkey :: string
  vl_event_id :: string
  vl_expires_at :: int

text \<open>The session grid, drawn once from three 32-bit random numbers.\<close>

record session_grid =
  gr_cellM :: real
  gr_latStep :: real
  gr_lngStep :: real
  gr_latOffset :: real
  gr_lngOffset :: real

definition locationAad :: "'k web_crypto \<Rightarrow> string \<Rightarrow> int \<Rightarrow> bytes" where
  "locationAad wc circleId keyEpoch = wc_textEncode wc (LOCATION_AAD_PREFIX @ ''|'' @ circleId @ ''|'' @ int_str keyEpoch)"

definition make_grid :: "32 word \<Rightarrow> 32 word \<Rightarrow> 32 word \<Rightarrow> real \<Rightarrow> session_grid" where
  "make_grid r0 r1 r2 lat =
     (let cellM = 250 + real (unat r0 mod 251); referenceCos = max (cos (lat * pi / 180)) (1 / 100)
      in \<lparr>gr_cellM = cellM, gr_latStep = cellM / 111320, gr_lngStep = cellM / (111320 * referenceCos),
          gr_latOffset = real (unat r1) / 2 ^ 32, gr_lngOffset = real (unat r2) / 2 ^ 32\<rparr>)"

definition grid_cell :: "real \<Rightarrow> real \<Rightarrow> real \<Rightarrow> real" where
  "grid_cell step off x = (of_int \<lfloor>x / step - off\<rfloor> + off + 1 / 2) * step"

definition approximateLocationForSession ::
  "32 word \<times> 32 word \<times> 32 word \<Rightarrow> real \<Rightarrow> real \<Rightarrow> session_grid option \<Rightarrow> session_grid option \<times> real \<times> real \<times> real" where
  "approximateLocationForSession random lat lng grid =
     (let g = (case grid of Some g \<Rightarrow> g | None \<Rightarrow> (case random of (r0, r1, r2) \<Rightarrow> make_grid r0 r1 r2 lat))
      in (Some g, grid_cell (gr_latStep g) (gr_latOffset g) lat, grid_cell (gr_lngStep g) (gr_lngOffset g) lng, gr_cellM g))"

definition safe_int :: "json \<Rightarrow> int option" where
  "safe_int v = (case js_int v of Some n \<Rightarrow> if isSafeInteger n then Some n else None | None \<Rightarrow> None)"

definition precision_of :: "json \<Rightarrow> location_precision option" where
  "precision_of v =
     (if v = JStr ''exact'' then Some Exact else if v = JStr ''approximate'' then Some Approximate else None)"

text \<open>\<open>validCoordinateContent\<close>, with the typed value it establishes.\<close>

definition read_content :: "json \<Rightarrow> circle_location option" where
  "read_content v =
     (case v of
        JObj kvs \<Rightarrow>
          (if join '','' (js_sort string_cmp (map fst kvs)) \<noteq> ''accuracy_m,captured_at,lat,lng,precision'' then None
           else
             (case (map_of kvs ''lat'', map_of kvs ''lng'', map_of kvs ''accuracy_m'',
                    field safe_int ''captured_at'' v, field precision_of ''precision'' v) of
                (Some (JNum lat), Some (JNum lng), Some (JNum acc), Some t, Some p) \<Rightarrow>
                  (if -90 \<le> jnum_val lat \<and> jnum_val lat \<le> 90 \<and> -180 \<le> jnum_val lng \<and> jnum_val lng \<le> 180
                      \<and> 0 \<le> jnum_val acc \<and> jnum_val acc \<le> 100000
                   then Some \<lparr>cl_lat = lat, cl_lng = lng, cl_accuracy_m = acc, cl_captured_at = t, cl_precision = p\<rparr>
                   else None)
              | _ \<Rightarrow> None))
      | _ \<Rightarrow> None)"

definition validCoordinateContent :: "json \<Rightarrow> bool" where
  "validCoordinateContent v \<longleftrightarrow> read_content v \<noteq> None"

definition content_json :: "circle_location \<Rightarrow> json" where
  "content_json c = JObj [(''lat'', JNum (cl_lat c)), (''lng'', JNum (cl_lng c)), (''accuracy_m'', JNum (cl_accuracy_m c)),
     (''captured_at'', JInt (cl_captured_at c)), (''precision'', JStr (precision_str (cl_precision c)))]"

definition tag_map :: "string list list \<Rightarrow> (string option \<times> string list) list" where
  "tag_map tags = foldl (\<lambda>m t. map_set m (tag_at t 0) t) [] tags"

definition nonce_ok :: "string \<Rightarrow> bool" where
  "nonce_ok s \<longleftrightarrow> length s = 36 \<and> list_all (\<lambda>c. is_lower_hex (to_lower_char c) \<or> c = CHR ''-'') s"

definition tag_value :: "(string option \<times> string list) list \<Rightarrow> string \<Rightarrow> string option" where
  "tag_value m name = (case map_of m (Some name) of Some [_, v] \<Rightarrow> Some v | _ \<Rightarrow> None)"

definition exactLocationTags :: "nostr_event \<Rightarrow> string \<Rightarrow> int \<Rightarrow> int option" where
  "exactLocationTags event circleId keyEpoch =
     (if length (ne_tags event) \<noteq> 4 then None
      else
        (let expected = tag_map (ne_tags event)
         in if length expected \<noteq> 4
               \<or> list_ex (\<lambda>name. name \<notin> {Some ''circle'', Some ''epoch'', Some ''expires'', Some ''nonce''}) (map fst expected)
            then None
            else
              (case (tag_value expected ''circle'', tag_value expected ''epoch'', tag_value expected ''expires'', tag_value expected ''nonce'') of
                 (Some circle, Some epoch, Some expires, Some nonce) \<Rightarrow>
                   (if circle \<noteq> circleId \<or> epoch \<noteq> int_str keyEpoch \<or> \<not> all_digits expires \<or> \<not> nonce_ok nonce then None
                    else (let n = int (digits_val expires) in if isSafeInteger n then Some n else None))
               | _ \<Rightarrow> None)))"

record raw_location =
  rl_lat :: jnum
  rl_lng :: jnum
  rl_accuracy_m :: jnum
  rl_captured_at :: "int option"

text \<open>
  \<open>sign\<close> is \<open>signWithActiveIdentity\<close> as it answers; \<open>to_number\<close> gives the decimal that JSON prints
  for a computed number. The grid is the module variable.
\<close>

definition location_content ::
  "(real \<Rightarrow> jnum) \<Rightarrow> 32 word \<times> 32 word \<times> 32 word \<Rightarrow> int \<Rightarrow> raw_location \<Rightarrow> location_precision \<Rightarrow> session_grid option
     \<Rightarrow> session_grid option \<times> circle_location" where
  "location_content to_number random now loc precision grid =
     (let capturedAt = (case rl_captured_at loc of Some t \<Rightarrow> t | None \<Rightarrow> now)
      in case precision of
           Exact \<Rightarrow>
             (grid, \<lparr>cl_lat = rl_lat loc, cl_lng = rl_lng loc, cl_accuracy_m = rl_accuracy_m loc,
                     cl_captured_at = capturedAt, cl_precision = Exact\<rparr>)
         | Approximate \<Rightarrow>
             (case approximateLocationForSession random (jnum_val (rl_lat loc)) (jnum_val (rl_lng loc)) grid of
                (grid', lat, lng, cell_m) \<Rightarrow>
                  (grid', \<lparr>cl_lat = to_number lat, cl_lng = to_number lng,
                     cl_accuracy_m = to_number (max (jnum_val (rl_accuracy_m loc)) cell_m),
                     cl_captured_at = capturedAt, cl_precision = Approximate\<rparr>)))"

definition location_template :: "string \<Rightarrow> int \<Rightarrow> int \<Rightarrow> string \<Rightarrow> circle_location \<Rightarrow> nostr_template" where
  "location_template circleId keyEpoch expiresAt uuid content =
     \<lparr>nt_kind = CIRCLE_LOCATION_EVENT_KIND, nt_created_at = cl_captured_at content,
      nt_tags = [[''circle'', circleId], [''epoch'', int_str keyEpoch], [''expires'', int_str expiresAt], [''nonce'', uuid]],
      nt_content = stringify (content_json content)\<rparr>"

definition encryptCircleLocationV1 ::
  "'k web_crypto \<Rightarrow> (real \<Rightarrow> jnum) \<Rightarrow> (nostr_template \<Rightarrow> nostr_event result) \<Rightarrow> 32 word \<times> 32 word \<times> 32 word \<Rightarrow> bytes \<Rightarrow> string
     \<Rightarrow> int \<Rightarrow> 'k \<Rightarrow> string \<Rightarrow> int \<Rightarrow> raw_location \<Rightarrow> location_precision \<Rightarrow> int \<Rightarrow> session_grid option
     \<Rightarrow> session_grid option \<times> string result" where
  "encryptCircleLocationV1 wc to_number sign random iv uuid now circleKey circleId keyEpoch loc precision expiresAt grid =
     (if circleId = '''' \<or> \<not> isSafeInteger keyEpoch \<or> keyEpoch < 1 then (grid, throw ''Invalid circle location context'')
      else
        (case location_content to_number random now loc precision grid of
           (grid', content) \<Rightarrow>
             (grid',
              throw_if (\<not> validCoordinateContent (content_json content) \<or> \<not> isSafeInteger expiresAt
                  \<or> expiresAt \<le> cl_captured_at content \<or> expiresAt > cl_captured_at content + LOCATION_MAX_AGE_SECONDS)
                ''Invalid circle location payload''
                (bind_result (sign (location_template circleId keyEpoch expiresAt uuid content)) (\<lambda>event.
                   ok (encodeB64 iv (wc_encrypt wc circleKey iv (locationAad wc circleId keyEpoch)
                         (wc_textEncode wc (stringify (event_json event))))))))))"

definition decryptCircleLocationV1 ::
  "'k web_crypto \<Rightarrow> nostr_tools \<Rightarrow> 'k \<Rightarrow> string \<Rightarrow> string \<Rightarrow> int \<Rightarrow> string list \<Rightarrow> int \<Rightarrow> verified_location option" where
  "decryptCircleLocationV1 wc lib circleKey ciphertextB64 circleId keyEpoch activeMemberPubkeys now =
     Option.bind (open_b64 wc (locationAad wc circleId keyEpoch) circleKey ciphertextB64) (\<lambda>plaintext.
     Option.bind (json_parse plaintext) (\<lambda>v.
     Option.bind (decode_event v) (\<lambda>event.
       if tl_verifyEvent lib event \<noteq> Some True \<or> ne_kind event \<noteq> CIRCLE_LOCATION_EVENT_KIND
          \<or> ne_created_at event > now + LOCATION_FUTURE_SKEW_SECONDS
          \<or> toLowerCase (ne_pubkey event) \<notin> set activeMemberPubkeys then None
       else
         Option.bind (exactLocationTags event circleId keyEpoch) (\<lambda>expiresAt.
           if expiresAt \<le> now \<or> expiresAt > ne_created_at event + LOCATION_MAX_AGE_SECONDS then None
           else
             Option.bind (json_parse (ne_content event)) (\<lambda>cv.
             Option.bind (read_content cv) (\<lambda>content.
               if cl_captured_at content \<noteq> ne_created_at event
                  \<or> cl_captured_at content > now + LOCATION_FUTURE_SKEW_SECONDS
                  \<or> cl_captured_at content < now - LOCATION_MAX_AGE_SECONDS then None
               else Some \<lparr>cl_lat = cl_lat content, cl_lng = cl_lng content, cl_accuracy_m = cl_accuracy_m content,
                      cl_captured_at = cl_captured_at content, cl_precision = cl_precision content,
                      vl_pubkey = ne_pubkey event, vl_event_id = ne_id event, vl_expires_at = expiresAt\<rparr>))))))"

section \<open>The key store\<close>

lemma int_str_no_colon: "CHR '':'' \<notin> set (int_str n)"
  by (rule int_str_no_char) (simp_all add: is_digit_def char_le_iff)

lemma keyId_inject [simp]: "keyId c e = keyId c' e' \<longleftrightarrow> c = c' \<and> e = e'"
proof
  assume "keyId c e = keyId c' e'"
  then have "rev (int_str e) @ CHR '':'' # rev c = rev (int_str e') @ CHR '':'' # rev c'"
    by (simp add: keyId_def) (metis append.assoc append_Cons append_Nil rev_append rev_singleton_conv)
  from append_sep_inject [OF this] int_str_no_colon show "c = c' \<and> e = e'" by simp
qed simp

text \<open>Keys by circle and epoch meet the keyed-store interface.\<close>

definition get_key :: "'k circle_state \<Rightarrow> string \<times> int \<Rightarrow> 'k option" where
  "get_key st k = idbGet (keyId (fst k) (snd k)) st"

definition put_key :: "'k circle_state \<Rightarrow> string \<times> int \<Rightarrow> 'k \<Rightarrow> 'k circle_state" where
  "put_key st k v = idbPut (keyId (fst k) (snd k)) v st"

definition del_key :: "'k circle_state \<Rightarrow> string \<times> int \<Rightarrow> 'k circle_state" where
  "del_key st k = idbDelete (keyId (fst k) (snd k)) st"

interpretation circle_keys: keyed_store get_key put_key del_key
  by unfold_locales (auto simp: get_key_def put_key_def del_key_def idbGet_def idbPut_def idbDelete_def prod_eq_iff)

lemma get_key_frame [simp]:
  "get_key (remove_legacy c st) k = get_key st k" "get_key (upsert_in wc ent c raw e st) k = get_key st k"
  "get_key (remove_in wc ent c e' st) k = get_key st k"
  by (simp_all add: get_key_def idbGet_def remove_legacy_def upsert_in_def remove_in_def)

lemma cs_vault_frame [simp]:
  "cs_vault (remove_legacy c st) = cs_vault st" "cs_vault (idbPut i k st) = cs_vault st" "cs_vault (idbDelete i st) = cs_vault st"
  "cs_vault (upsert_in wc ent c raw e st) = upsertCircleKey wc ent (cs_vault st) c raw e"
  "cs_vault (remove_in wc ent c e' st) = removeVaultCircle wc ent (cs_vault st) c e'"
  by (simp_all add: remove_legacy_def idbPut_def idbDelete_def upsert_in_def remove_in_def)

lemma saveWithBackup_ok:
  "saveCircleKeyWithBackup wc ent c raw e st = ok st' \<longleftrightarrow>
     (\<exists>k. wc_importKey wc raw False = Some k
        \<and> st' = upsert_in wc ent c raw e (remove_legacy c (put_key st (c, e) k)))"
  by (auto simp: saveCircleKeyWithBackup_def import_sealed_def bind_result_ok_iff put_key_def split: option.splits)

text \<open>
  Saving a circle key for an epoch makes exactly that key the one loaded for that circle and
  epoch, as a key that cannot be exported, records its raw bytes in the vault, and leaves every
  other circle and epoch as it was, in the key store and in the vault.
\<close>

theorem circle_key_stored:
  assumes "crypto_laws wc" and "length (ve_iv ent) = 12" and "loadVault wc (cs_vault st) = Some v"
    and "saveCircleKeyWithBackup wc ent c raw e st = ok st'"
  shows "\<exists>k. wc_importKey wc raw False = Some k \<and> \<not> wc_extractable wc k
    \<and> loadCircleKey wc ent' c e st' = ok (st', Some k)
    \<and> (\<forall>c' e'. get_key st' (c', e') = (if (c', e') = (c, e) then Some k else get_key st (c', e')))
    \<and> (\<forall>c' e'. loadVaultCircleKey wc (cs_vault st') c' (Some e') =
          (if (c', e') = (c, e) then Some raw else loadVaultCircleKey wc (cs_vault st) c' (Some e')))"
proof -
  from assms(4) obtain k where k: "wc_importKey wc raw False = Some k"
      and st': "st' = upsert_in wc ent c raw e (remove_legacy c (put_key st (c, e) k))"
    by (auto simp: saveWithBackup_ok)
  have get: "get_key st' (c', e') = (if (c', e') = (c, e) then Some k else get_key st (c', e'))" for c' e'
    by (simp add: st' circle_keys.get_put)
  have load: "loadCircleKey wc ent' c e st' = ok (st', Some k)"
    using get [of c e] by (simp add: loadCircleKey_def get_key_def)
  have vault: "loadVaultCircleKey wc (cs_vault st') c' (Some e') =
      (if (c', e') = (c, e) then Some raw else loadVaultCircleKey wc (cs_vault st) c' (Some e'))" for c' e'
    using vault_upsert(2) [OF assms(1-3)] by (simp add: st' put_key_def)
  have "\<not> wc_extractable wc k" using assms(1) k by (auto simp: crypto_laws_def)
  with k load get vault show ?thesis by blast
qed

definition sample_circle_state :: "(bytes \<times> bool) circle_state" where
  "sample_circle_state = \<lparr>cs_keys = [], cs_local = None, cs_vault =
     saveVault plain_crypto sample_vault_entropy empty_identity_db \<lparr>vp_identitySk = [1], vp_circles = []\<rparr>\<rparr>"

lemma sample_iv: "length (ve_iv sample_vault_entropy) = 12"
  by (simp add: sample_vault_entropy_def)

lemma sample_vault_loads: "\<exists>v. loadVault plain_crypto (cs_vault sample_circle_state) = Some v"
  by (simp add: sample_circle_state_def saveVault_def load_saved [OF plain_crypto_laws sample_iv])

lemma sample_import: "wc_importKey plain_crypto (replicate 32 5) False = Some (replicate 32 5, False)"
  by (simp add: plain_crypto_def)

theorem circle_key_stored_witness:
  "\<exists>st'. saveCircleKeyWithBackup plain_crypto sample_vault_entropy ''c'' (replicate 32 5) 2 sample_circle_state = ok st'
     \<and> loadVaultCircleKey plain_crypto (cs_vault st') ''c'' (Some 2) = Some (replicate 32 5)"
proof -
  obtain v where v: "loadVault plain_crypto (cs_vault sample_circle_state) = Some v" using sample_vault_loads by blast
  obtain st' where st': "saveCircleKeyWithBackup plain_crypto sample_vault_entropy ''c'' (replicate 32 5) 2 sample_circle_state = ok st'"
    using sample_import by (auto simp: saveWithBackup_ok)
  from circle_key_stored [OF plain_crypto_laws sample_iv v st', of sample_vault_entropy]
  have "loadVaultCircleKey plain_crypto (cs_vault st') ''c'' (Some 2) = Some (replicate 32 5)" by (elim exE conjE) simp
  with st' show ?thesis by blast
qed

text \<open>Everything the module does to its stores.\<close>

inductive circle_step :: "'k web_crypto \<Rightarrow> nostr_tools \<Rightarrow> 'k circle_state \<Rightarrow> 'k circle_state \<Rightarrow> bool" for wc lib where
  step_save: "saveCircleKey wc c key e st = ok st' \<Longrightarrow> circle_step wc lib st st'"
| step_backup: "saveCircleKeyWithBackup wc ent c raw e st = ok st' \<Longrightarrow> circle_step wc lib st st'"
| step_load: "loadCircleKey wc ent c e st = ok (st', found) \<Longrightarrow> circle_step wc lib st st'"
| step_clear: "circle_step wc lib st (clearCircleKey wc ent c e' st)"
| step_rotate: "rotateCircleKey wc ent fresh c e st = ok (st', key) \<Longrightarrow> circle_step wc lib st st'"
| step_purge: "circle_step wc lib st (purgeCircleKeyEpochs wc ents c e st)"
| step_unwrap: "unwrapNip44CircleKey wc lib ent kp c owner event st = ok (st', e) \<Longrightarrow> circle_step wc lib st st'"
| step_unwrap_legacy: "unwrapLegacyCircleKey wc lib ent kp c owner ct st = ok st' \<Longrightarrow> circle_step wc lib st st'"

definition all_sealed :: "'k web_crypto \<Rightarrow> 'k circle_state \<Rightarrow> bool" where
  "all_sealed wc st \<longleftrightarrow> (\<forall>k\<in>snd ` set (cs_keys st). \<not> wc_extractable wc k)"

lemma sealed_put: "all_sealed wc st \<Longrightarrow> \<not> wc_extractable wc k \<Longrightarrow> all_sealed wc (idbPut i k st)"
  using set_map_set_subset [of "cs_keys st" i k] by (auto simp: all_sealed_def idbPut_def idb_put_def)

lemma sealed_delete: "all_sealed wc st \<Longrightarrow> all_sealed wc (idbDelete i st)"
  by (auto simp: all_sealed_def idbDelete_def idb_del_def map_delete_def)

lemma sealed_frame [simp]:
  "all_sealed wc (remove_legacy c st) = all_sealed wc st" "all_sealed wc (upsert_in wc' ent c raw e st) = all_sealed wc st"
  "all_sealed wc (remove_in wc' ent c e' st) = all_sealed wc st"
  by (simp_all add: all_sealed_def remove_legacy_def upsert_in_def remove_in_def)

lemma sealed_get: "all_sealed wc st \<Longrightarrow> idbGet i st = Some k \<Longrightarrow> \<not> wc_extractable wc k"
  by (auto simp: all_sealed_def idbGet_def idb_get_def dest!: map_of_SomeD)

lemma sealed_import: "crypto_laws wc \<Longrightarrow> import_sealed wc raw = ok k \<Longrightarrow> \<not> wc_extractable wc k"
  by (auto simp: import_sealed_def crypto_laws_def split: option.splits)

lemma sealed_toNonExtractable: "crypto_laws wc \<Longrightarrow> toNonExtractable wc key = ok k \<Longrightarrow> \<not> wc_extractable wc k"
  by (auto simp: toNonExtractable_def dest: sealed_import split: if_splits option.splits)

lemma sealed_backup:
  "crypto_laws wc \<Longrightarrow> all_sealed wc st \<Longrightarrow> saveCircleKeyWithBackup wc ent c raw e st = ok st' \<Longrightarrow> all_sealed wc st'"
  by (auto simp: saveCircleKeyWithBackup_def bind_result_ok_iff intro!: sealed_put dest: sealed_import)

lemma sealed_load:
  assumes "crypto_laws wc" "all_sealed wc st" "loadCircleKey wc ent c e st = ok (st', found)"
  shows "all_sealed wc st'"
  using assms
  by (auto simp: loadCircleKey_def migrate_local_def bind_result_ok_iff intro!: sealed_put sealed_delete
      dest: sealed_import sealed_get sealed_get [OF _ sym] split: option.splits if_splits)

lemma sealed_fold_delete: "all_sealed wc st \<Longrightarrow> all_sealed wc (fold (\<lambda>e. idbDelete (f e)) es st)"
  by (induction es arbitrary: st) (auto intro: sealed_delete)

lemma sealed_purge: "all_sealed wc st \<Longrightarrow> all_sealed wc (purgeCircleKeyEpochs wc ents c e st)"
proof -
  have "all_sealed wc st \<Longrightarrow>
      all_sealed wc (fold (\<lambda>x s. remove_in wc (ents x) c (Some x) (idbDelete (keyId c x) s)) es st)" for es
    by (induction es arbitrary: st) (simp_all add: sealed_delete)
  then show "all_sealed wc st \<Longrightarrow> all_sealed wc (purgeCircleKeyEpochs wc ents c e st)"
    by (simp add: purgeCircleKeyEpochs_def)
qed

lemma recast_ok [simp]: "recast msg r = ok x \<longleftrightarrow> r = ok x"
  by (cases r) (auto simp: recast_def)

lemma unwrap_saves:
  "unwrapNip44CircleKey wc lib ent kp c owner event st = ok (st', e) \<Longrightarrow>
     \<exists>raw. saveCircleKeyWithBackup wc ent c raw e st = ok st'"
  by (auto simp: unwrapNip44CircleKey_def bind_result_ok_iff Let_def split: option.splits)

lemma sealed_step: "circle_step wc lib st st' \<Longrightarrow> crypto_laws wc \<Longrightarrow> all_sealed wc st \<Longrightarrow> all_sealed wc st'"
proof (induction rule: circle_step.induct)
  case (step_save c key e st st')
  then show ?case
    by (auto simp: saveCircleKey_def bind_result_ok_iff intro!: sealed_put dest: sealed_toNonExtractable)
next
  case (step_clear st ent c e')
  then show ?case by (auto simp: clearCircleKey_def Let_def intro: sealed_delete sealed_fold_delete split: option.splits)
next
  case (step_rotate ent fresh c e st st' key)
  then show ?case by (auto simp: rotateCircleKey_def bind_result_ok_iff dest: sealed_backup split: option.splits)
next
  case (step_unwrap ent kp c owner event st st' e)
  then show ?case using unwrap_saves sealed_backup by blast
next
  case (step_unwrap_legacy ent kp c owner ct st st')
  then show ?case by (auto simp: unwrapLegacyCircleKey_def bind_result_ok_iff dest: sealed_backup)
qed (auto intro: sealed_backup sealed_load sealed_purge)

text \<open>
  C9: no key in the circle-key store can ever be exported. Whatever is generated, rotated,
  received from an owner, migrated from an old version, cleared or purged, in any order, every
  key the store holds is non-extractable, so script running in the page cannot read it.
\<close>

theorem circle_keys_never_extractable:
  assumes "crypto_laws wc" and "(circle_step wc lib)\<^sup>*\<^sup>* st0 st" and "cs_keys st0 = []" and "get_key st (c, e) = Some k"
  shows "\<not> wc_extractable wc k"
proof -
  have "all_sealed wc st0" using assms(3) by (simp add: all_sealed_def)
  with assms(2) have "all_sealed wc st"
    by (induction rule: rtranclp_induct) (auto intro: sealed_step assms(1))
  with assms(4) show ?thesis by (auto simp: get_key_def dest: sealed_get)
qed

theorem circle_keys_never_extractable_witness:
  "\<exists>st k. get_key st (''c'', 2) = Some k \<and> \<not> wc_extractable plain_crypto k"
proof -
  let ?key = "(replicate 32 5, True) :: bytes \<times> bool"
  have save: "saveCircleKey plain_crypto ''c'' ?key 2 sample_circle_state
      = ok (remove_legacy ''c'' (idbPut (keyId ''c'' 2) (replicate 32 5, False) sample_circle_state))"
    by (simp add: saveCircleKey_def toNonExtractable_def import_sealed_def plain_crypto_def)
  let ?st = "remove_legacy ''c'' (idbPut (keyId ''c'' 2) (replicate 32 5, False) sample_circle_state)"
  have run: "(circle_step plain_crypto plain_tools)\<^sup>*\<^sup>* sample_circle_state ?st"
    by (rule r_into_rtranclp) (rule step_save [OF save])
  have get: "get_key ?st (''c'', 2) = Some (replicate 32 5, False)"
    using circle_keys.get_put_same [of sample_circle_state "(''c'', 2)" "(replicate 32 5, False)"] by (simp add: put_key_def)
  have "cs_keys sample_circle_state = []" by (simp add: sample_circle_state_def)
  from circle_keys_never_extractable [OF plain_crypto_laws run this get] get show ?thesis by blast
qed

lemma get_key_delete: "get_key (idbDelete (keyId c e) st) k = (if k = (c, e) then None else get_key st k)"
  using circle_keys.get_del [of st "(c, e)" k] by (simp add: del_key_def)

lemma purge_fold:
  assumes "crypto_laws wc" "\<forall>e. length (ve_iv (ents e)) = 12" "loadVault wc (cs_vault st) = Some v"
  shows "let st' = fold (\<lambda>e s. remove_in wc (ents e) c (Some e) (idbDelete (keyId c e) s)) es st
    in get_key st' k = (if fst k = c \<and> snd k \<in> set es then None else get_key st k)
       \<and> loadVaultCircleKey wc (cs_vault st') (fst k) (Some (snd k)) =
           (if fst k = c \<and> snd k \<in> set es then None else loadVaultCircleKey wc (cs_vault st) (fst k) (Some (snd k)))"
  using assms(3)
proof (induction es arbitrary: st v)
  case (Cons e es)
  let ?st = "remove_in wc (ents e) c (Some e) (idbDelete (keyId c e) st)"
  have iv: "length (ve_iv (ents e)) = 12" using assms(2) by simp
  note rm = vault_remove [OF assms(1) iv Cons.prems]
  obtain v' where "loadVault wc (cs_vault ?st) = Some v'" using rm(1) by force
  from Cons.IH [OF this] show ?case
    using rm(2) [of c e "fst k" "snd k"] by (cases k) (auto simp: Let_def get_key_delete)
qed simp

text \<open>
  Purging for a current epoch removes exactly the epochs before the previous one. The current
  and the previous epoch of the circle, which are needed to read envelopes still in flight, and
  every other circle keep their keys, in the key store and in the vault.
\<close>

theorem purge_keeps_recent:
  assumes "crypto_laws wc" and "\<forall>e. length (ve_iv (ents e)) = 12" and "loadVault wc (cs_vault st) = Some v"
  shows "let st' = purgeCircleKeyEpochs wc ents c cur st; gone = (\<lambda>c' e'. c' = c \<and> 1 \<le> e' \<and> e' < cur - 1)
    in (\<forall>c' e'. get_key st' (c', e') = (if gone c' e' then None else get_key st (c', e')))
       \<and> (\<forall>c' e'. loadVaultCircleKey wc (cs_vault st') c' (Some e') =
            (if gone c' e' then None else loadVaultCircleKey wc (cs_vault st) c' (Some e')))"
proof -
  have "e' \<in> set [1..purge_floor cur - 1] \<longleftrightarrow> 1 \<le> e' \<and> e' < cur - 1" for e' :: int
    by (auto simp: purge_floor_def)
  moreover have "let st' = purgeCircleKeyEpochs wc ents c cur st in
      get_key st' (c', e') = (if c' = c \<and> e' \<in> set [1..purge_floor cur - 1] then None else get_key st (c', e'))
      \<and> loadVaultCircleKey wc (cs_vault st') c' (Some e') =
          (if c' = c \<and> e' \<in> set [1..purge_floor cur - 1] then None else loadVaultCircleKey wc (cs_vault st) c' (Some e'))" for c' e'
    using purge_fold [OF assms, where k = "(c', e')" and c = c and es = "[1..purge_floor cur - 1]"]
    unfolding purgeCircleKeyEpochs_def by (simp only: fst_conv snd_conv)
  ultimately show ?thesis unfolding Let_def by presburger
qed

theorem purge_keeps_recent_witness:
  "get_key (purgeCircleKeyEpochs plain_crypto (\<lambda>_. sample_vault_entropy) ''c'' 5
     (put_key (put_key sample_circle_state (''c'', 3) ([3], False)) (''c'', 4) ([4], False))) (''c'', 4) = Some ([4], False)"
proof -
  let ?st = "put_key (put_key sample_circle_state (''c'', 3) ([3], False)) (''c'', 4) ([4], False)"
  obtain v where "loadVault plain_crypto (cs_vault ?st) = Some v" using sample_vault_loads by (auto simp: put_key_def)
  moreover have "\<forall>e :: int. length (ve_iv sample_vault_entropy) = 12" using sample_iv by simp
  ultimately show ?thesis using purge_keeps_recent [OF plain_crypto_laws, where ents = "\<lambda>_. sample_vault_entropy" and st = ?st and v = v and c = "''c''" and cur = 5]
    by (simp add: Let_def circle_keys.get_put)
qed

section \<open>Key distribution\<close>

lemma all_digits_int_str: "0 \<le> n \<Longrightarrow> all_digits (int_str n)"
  by (simp add: int_str_def)

lemma digits_val_int_str: "0 \<le> n \<Longrightarrow> int (digits_val (int_str n)) = n"
  by (simp add: int_str_def)

lemma decodeRawB64_btoa: "length raw = 32 \<Longrightarrow> decodeRawB64 (btoa raw) = ok raw"
  by (simp add: decodeRawB64_def)

lemma package_roundtrip:
  "length raw = 32 \<Longrightarrow> package_key c e (stringify (key_package c e raw now)) = ok raw"
proof -
  assume raw: "length raw = 32"
  have parse: "json_parse (stringify (key_package c e raw now)) = Some (key_package c e raw now)"
    by (rule json_roundtrip) (simp add: key_package_def)
  have "field js_str ''key'' (key_package c e raw now) = Some (btoa raw)" "field js_int ''version'' (key_package c e raw now) = Some 2"
    "field js_str ''type'' (key_package c e raw now) = Some CIRCLE_KEY_EVENT_TYPE"
    "field js_str ''circle_id'' (key_package c e raw now) = Some c" "field js_int ''key_epoch'' (key_package c e raw now) = Some e"
    "field js_str ''algorithm'' (key_package c e raw now) = Some ''AES-256-GCM''"
    by (simp_all add: key_package_def)
  then show ?thesis by (simp add: package_key_def parse decodeRawB64_btoa [OF raw])
qed

lemma key_event_opens:
  assumes "finalizes lib" and "nip44_laws lib" and "length skO = 32" and "length skM = 32"
    and "loadVaultCircleKey wc (cs_vault owner) c (Some e) = Some raw" and "length raw = 32"
    and "wc_importKey wc raw False = Some k"
    and "createNip44CircleKeyEvent wc lib (keypair_of lib skO) now nonce c (tl_getPublicKey lib skM) e owner = ok event"
  shows "unwrapNip44CircleKey wc lib ent (keypair_of lib skM) c (tl_getPublicKey lib skO) event member
    = ok (upsert_in wc ent c raw e (remove_legacy c (put_key member (c, e) k)), e)"
proof -
  let ?pO = "tl_getPublicKey lib skO" and ?pM = "tl_getPublicKey lib skM"
  have hex: "isLowercaseHex64 ?pO" "isLowercaseHex64 ?pM" using assms(2-4) by (auto simp: nip44_laws_def)
  from assms(5,8) obtain ck content where e: "1 \<le> e"
      and ck: "tl_getConversationKey lib skO ?pM = ok ck"
      and content: "tl_nip44_encrypt lib nonce (stringify (key_package c e raw now)) ck = ok content"
      and event: "event = tl_finalizeEvent lib \<lparr>nt_kind = CIRCLE_KEY_EVENT_KIND, nt_created_at = now,
         nt_tags = [[''d'', CIRCLE_KEY_EVENT_TYPE], [''circle'', c], [''epoch'', int_str e], [''p'', toLowerCase ?pM]],
         nt_content = content\<rparr> skO"
    by (auto simp: createNip44CircleKeyEvent_def bind_result_ok_iff keypair_of_def)
  from event have ev: "ne_pubkey event = ?pO" "ne_kind event = CIRCLE_KEY_EVENT_KIND" "ne_content event = content"
      "tl_verifyEvent lib event = Some True"
      "ne_tags event = [[''d'', CIRCLE_KEY_EVENT_TYPE], [''circle'', c], [''epoch'', int_str e], [''p'', toLowerCase ?pM]]"
    using assms(1) by (simp_all add: finalizes_def Let_def)
  have tags: "only_tag event ''d'' = Some CIRCLE_KEY_EVENT_TYPE" "only_tag event ''circle'' = Some c"
      "only_tag event ''epoch'' = Some (int_str e)" "only_tag event ''p'' = Some (toLowerCase ?pM)"
    by (simp_all add: only_tag_def ev tag_at_def)
  have ck': "tl_getConversationKey lib skM ?pO = ok ck" "tl_nip44_decrypt lib content ck = ok (stringify (key_package c e raw now))"
    using assms(2) ck content by (auto simp: nip44_laws_def)
  have save: "saveCircleKeyWithBackup wc ent c raw e member = ok (upsert_in wc ent c raw e (remove_legacy c (put_key member (c, e) k)))"
    using assms(7) by (simp add: saveWithBackup_ok)
  show ?thesis
    using e hex by (simp add: unwrapNip44CircleKey_def ev tags ck' keypair_of_def all_digits_int_str digits_val_int_str
        package_roundtrip [OF assms(6)] save recast_def)
qed

text \<open>
  A circle key reaches the member it is sent to. If the owner's device builds the key event
  for a member, then the member's device, trusting that owner for the circle, accepts the event
  and stores exactly the owner's raw key at the owner's epoch.
\<close>

theorem circle_key_distribution:
  assumes "finalizes lib" and "nip44_laws lib" and "length skO = 32" and "length skM = 32"
    and "loadVaultCircleKey wc (cs_vault owner) c (Some e) = Some raw" and "length raw = 32"
    and "wc_importKey wc raw False = Some k"
    and "createNip44CircleKeyEvent wc lib (keypair_of lib skO) now nonce c (tl_getPublicKey lib skM) e owner = ok event"
  shows "unwrapNip44CircleKey wc lib ent (keypair_of lib skM) c (tl_getPublicKey lib skO) event member
    = ok (upsert_in wc ent c raw e (remove_legacy c (put_key member (c, e) k)), e)"
  by (rule key_event_opens [OF assms])

theorem circle_key_distribution_witness:
  "\<exists>owner event st'. createNip44CircleKeyEvent plain_crypto shared_tools (keypair_of shared_tools (replicate 32 1)) 7 [] ''c''
      (key_of (CHR ''a'')) 2 owner = ok event
    \<and> unwrapNip44CircleKey plain_crypto shared_tools sample_vault_entropy (keypair_of shared_tools (replicate 32 1)) ''c''
      (key_of (CHR ''a'')) event sample_circle_state = ok (st', 2)"
proof -
  let ?sk = "replicate 32 (1 :: 8 word)" and ?raw = "replicate 32 (5 :: 8 word)" and ?pk = "key_of (CHR ''a'')"
  let ?owner = "upsert_in plain_crypto sample_vault_entropy ''c'' ?raw 2 sample_circle_state"
  obtain v where v: "loadVault plain_crypto (cs_vault sample_circle_state) = Some v" using sample_vault_loads by blast
  have raw: "loadVaultCircleKey plain_crypto (cs_vault ?owner) ''c'' (Some 2) = Some ?raw"
    using vault_upsert(2) [OF plain_crypto_laws sample_iv v] by simp
  have pk: "tl_getPublicKey shared_tools sk = ?pk" for sk by (simp add: shared_tools_def)
  have len: "length ?sk = 32" "length ?raw = 32" by simp_all
  have "isHex64_ci ?pk" using sample_keys(1) by (simp add: isHex64_ci_def)
  then have "\<exists>event. createNip44CircleKeyEvent plain_crypto shared_tools (keypair_of shared_tools ?sk) 7 [] ''c'' ?pk 2 ?owner = ok event"
    by (simp add: createNip44CircleKeyEvent_def raw isSafeInteger_def del: cs_vault_frame)
      (simp add: shared_tools_def plain_tools_def)
  then obtain event where "createNip44CircleKeyEvent plain_crypto shared_tools (keypair_of shared_tools ?sk) 7 [] ''c''
      (tl_getPublicKey shared_tools ?sk) 2 ?owner = ok event" by (auto simp: pk)
  note event = this
  note unwrapped = circle_key_distribution [OF shared_tools_laws(2,1) len(1) len(1) raw len(2) sample_import event,
      where ent = sample_vault_entropy and member = sample_circle_state]
  show ?thesis by (intro exI conjI) (rule event [unfolded pk], rule unwrapped [unfolded pk])
qed

lemma decodeRawB64_length: "decodeRawB64 v = ok raw \<Longrightarrow> length raw = 32"
  by (auto simp: decodeRawB64_def split: option.splits)

lemma package_key_length: "package_key c e p = ok raw \<Longrightarrow> length raw = 32"
  by (auto simp: package_key_def dest: decodeRawB64_length split: option.splits)

text \<open>
  C10: a circle key is accepted only from the trusted owner and only for this circle and this
  member. An event that is accepted verifies, is signed by the owner's key, names exactly this
  circle, this recipient and the epoch under which the key is stored, and carries a 256-bit key
  that was encrypted for the pair of owner and recipient.
\<close>

theorem circle_key_from_owner_only:
  assumes "unwrapNip44CircleKey wc lib ent kp c owner event st = ok (st', e)"
  shows "tl_verifyEvent lib event = Some True \<and> ne_kind event = CIRCLE_KEY_EVENT_KIND \<and> ne_pubkey event = owner
    \<and> only_tag event ''circle'' = Some c \<and> only_tag event ''p'' = Some (toLowerCase (kp_publicKey kp)) \<and> 0 \<le> e
    \<and> (\<exists>ck plaintext raw. tl_getConversationKey lib (kp_secretKey kp) owner = ok ck
        \<and> tl_nip44_decrypt lib (ne_content event) ck = ok plaintext \<and> package_key c e plaintext = ok raw
        \<and> length raw = 32 \<and> saveCircleKeyWithBackup wc ent c raw e st = ok st')"
proof -
  from assms obtain ck plaintext raw where
      "tl_verifyEvent lib event = Some True" "ne_kind event = CIRCLE_KEY_EVENT_KIND" "ne_pubkey event = toLowerCase owner"
      "only_tag event ''circle'' = Some c" "only_tag event ''p'' = Some (toLowerCase (kp_publicKey kp))" "0 \<le> e"
      "tl_getConversationKey lib (kp_secretKey kp) owner = ok ck" "tl_nip44_decrypt lib (ne_content event) ck = ok plaintext"
      "package_key c e plaintext = ok raw" "saveCircleKeyWithBackup wc ent c raw e st = ok st'" and hex: "isLowercaseHex64 owner"
    by (auto simp: unwrapNip44CircleKey_def bind_result_ok_iff Let_def split: option.splits)
  then show ?thesis by (simp add: package_key_length hex64_toLowerCase [OF hex])
qed

theorem circle_key_from_owner_only_witness:
  "\<exists>event st' e. unwrapNip44CircleKey plain_crypto shared_tools sample_vault_entropy (keypair_of shared_tools (replicate 32 1)) ''c''
      (key_of (CHR ''a'')) event sample_circle_state = ok (st', e) \<and> ne_pubkey event = key_of (CHR ''a'')"
proof -
  let ?kp = "keypair_of shared_tools (replicate 32 1)" and ?pk = "key_of (CHR ''a'')" and ?raw = "replicate 32 (5 :: 8 word)"
  let ?event = "\<lparr>ne_id = '''', ne_pubkey = ?pk, ne_created_at = 7, ne_kind = CIRCLE_KEY_EVENT_KIND,
     ne_tags = [[''d'', CIRCLE_KEY_EVENT_TYPE], [''circle'', ''c''], [''epoch'', int_str 2], [''p'', ?pk]],
     ne_content = stringify (key_package ''c'' 2 ?raw 7), ne_sig = ''''\<rparr>"
  have "package_key ''c'' 2 (stringify (key_package ''c'' 2 ?raw 7)) = ok ?raw" by (rule package_roundtrip) simp
  moreover have "saveCircleKeyWithBackup plain_crypto sample_vault_entropy ''c'' ?raw 2 sample_circle_state \<noteq> throw x" for x
    using sample_import by (simp add: saveCircleKeyWithBackup_def import_sealed_def)
  then obtain st' where "saveCircleKeyWithBackup plain_crypto sample_vault_entropy ''c'' ?raw 2 sample_circle_state = ok st'"
    by (metis sum.exhaust)
  ultimately have "unwrapNip44CircleKey plain_crypto shared_tools sample_vault_entropy ?kp ''c'' ?pk ?event sample_circle_state = ok (st', 2)"
    using sample_keys(1) all_digits_int_str [of 2] digits_val_int_str [of 2]
    by (simp add: unwrapNip44CircleKey_def only_tag_def tag_at_def keypair_of_def recast_def CIRCLE_KEY_EVENT_TYPE_def
        del: stringify.simps) (simp add: shared_tools_def plain_tools_def del: stringify.simps)
  from circle_key_from_owner_only [OF this] this show ?thesis by blast
qed

section \<open>Locations\<close>

lemma open_sealed:
  assumes "crypto_laws wc" "length iv = 12"
  shows "open_b64 wc aad k (encodeB64 iv (wc_encrypt wc k iv aad (wc_textEncode wc s))) = Some s"
proof -
  let ?c = "wc_encrypt wc k iv aad (wc_textEncode wc s)"
  have "length ?c \<ge> 16" "wc_decrypt wc k iv aad ?c = Some (wc_textEncode wc s)" "wc_textDecode wc (wc_textEncode wc s) = s"
    using assms(1) by (simp_all add: crypto_laws_def)
  with assms(2) show ?thesis by (simp add: open_b64_def decodeB64_def encodeB64_def)
qed

lemma read_content_fields:
  assumes "read_content (JObj kvs) = Some d"
  shows "map_of kvs ''lat'' = Some (JNum (cl_lat d))" "map_of kvs ''lng'' = Some (JNum (cl_lng d))"
    "map_of kvs ''accuracy_m'' = Some (JNum (cl_accuracy_m d))"
    "field safe_int ''captured_at'' (JObj kvs) = Some (cl_captured_at d)"
    "field precision_of ''precision'' (JObj kvs) = Some (cl_precision d)"
    "\<bar>jnum_val (cl_lat d)\<bar> \<le> 90" "\<bar>jnum_val (cl_lng d)\<bar> \<le> 180" "0 \<le> jnum_val (cl_accuracy_m d)"
  using assms by (auto simp: read_content_def split: if_splits option.splits json.splits)

lemma read_content_json:
  assumes "read_content (content_json c) = Some d"
  shows "d = c"
proof -
  have prec: "precision_of (JStr (precision_str p)) = Some p" for p
    by (cases p) (simp_all add: precision_of_def)
  note fields = read_content_fields [OF assms [unfolded content_json_def]]
  have "cl_lat d = cl_lat c" "cl_lng d = cl_lng c" "cl_accuracy_m d = cl_accuracy_m c" "cl_precision d = cl_precision c"
    using fields(1-3,5) by (simp_all add: prec)
  moreover have "cl_captured_at d = cl_captured_at c" using fields(4) by (simp add: safe_int_def split: if_splits)
  ultimately show ?thesis by simp
qed

lemma content_json_roundtrip: "json_parse (stringify (content_json c)) = Some (content_json c)"
  by (rule json_roundtrip) (simp add: content_json_def)

lemma location_tags_exact:
  assumes "ne_tags event = [[''circle'', c], [''epoch'', int_str e], [''expires'', int_str x], [''nonce'', u]]"
    and "nonce_ok u" "isSafeInteger x" "0 \<le> x"
  shows "exactLocationTags event c e = Some x"
  using assms(2-4) all_digits_int_str [OF assms(4)] digits_val_int_str [OF assms(4)]
  by (simp add: exactLocationTags_def assms(1) tag_map_def tag_at_def tag_value_def)

text \<open>The key the active identity signs with.\<close>

definition signing_key :: "nostr_tools \<Rightarrow> bytes \<Rightarrow> 'k signer_state \<Rightarrow> string" where
  "signing_key lib fresh s =
     (if ai_mode (sv_identity s) = Local then tl_getPublicKey lib (kp_secretKey (snd (getCachedKeypair lib fresh (sv_cache s))))
      else ai_pubkey (sv_identity s))"

lemma signed_fields:
  assumes "finalizes lib" "snd (signWithActiveIdentity lib ext fresh meanwhile t s) = ok e"
  shows "tl_verifyEvent lib e = Some True" "ne_pubkey e = signing_key lib fresh s" "ne_kind e = nt_kind t"
    "ne_created_at e = nt_created_at t" "ne_tags e = nt_tags t" "ne_content e = nt_content t"
proof -
  obtain s' where "signWithActiveIdentity lib ext fresh meanwhile t s = (s', ok e)" using assms(2) by (metis prod.collapse)
  note all = sign_ok [OF assms(1) this]
  then show "tl_verifyEvent lib e = Some True" "ne_kind e = nt_kind t" "ne_created_at e = nt_created_at t"
    "ne_tags e = nt_tags t" "ne_content e = nt_content t" by blast+
  show "ne_pubkey e = signing_key lib fresh s"
    using all by (cases "ai_mode (sv_identity s)") (simp_all add: signing_key_def)
qed

text \<open>
  C20: a location shared with a circle is read back by every member. If a location is encrypted
  for a circle and epoch with the key of that epoch, then anyone holding the key, who counts the
  sender as an active member and looks at it before it expires, gets exactly the content that was
  signed, with the sender's key.
\<close>

theorem circle_location_roundtrip:
  assumes "crypto_laws wc" and "length iv = 12" and "nonce_ok uuid" and "0 \<le> expiresAt"
    and "finalizes lib" and "pk = signing_key lib fresh sv"
    and "encryptCircleLocationV1 wc to_number (\<lambda>t. snd (signWithActiveIdentity lib ext fresh meanwhile t sv)) random iv uuid now key c epoch loc precision expiresAt grid = (grid', ok text)"
    and "toLowerCase pk \<in> set members" and "content = snd (location_content to_number random now loc precision grid)"
    and "cl_captured_at content \<le> later + LOCATION_FUTURE_SKEW_SECONDS" and "later < expiresAt"
  shows "\<exists>v. decryptCircleLocationV1 wc lib key text c epoch members later = Some v
    \<and> circle_location.truncate v = content \<and> vl_pubkey v = pk \<and> vl_expires_at v = expiresAt"
proof -
  from assms(7,9) obtain event where valid: "validCoordinateContent (content_json content)" "isSafeInteger expiresAt"
      and exp: "cl_captured_at content < expiresAt" "expiresAt \<le> cl_captured_at content + LOCATION_MAX_AGE_SECONDS"
      and sg: "snd (signWithActiveIdentity lib ext fresh meanwhile (location_template c epoch expiresAt uuid content) sv) = ok event"
      and out: "text = encodeB64 iv (wc_encrypt wc key iv (locationAad wc c epoch) (wc_textEncode wc (stringify (event_json event))))"
    by (auto simp: encryptCircleLocationV1_def bind_result_ok_iff split: if_splits prod.splits)
  have ev: "tl_verifyEvent lib event = Some True" "ne_pubkey event = pk" "ne_kind event = CIRCLE_LOCATION_EVENT_KIND"
      "ne_created_at event = cl_captured_at content" "ne_content event = stringify (content_json content)"
      "ne_tags event = [[''circle'', c], [''epoch'', int_str epoch], [''expires'', int_str expiresAt], [''nonce'', uuid]]"
    using signed_fields [OF assms(5) sg] by (simp_all add: location_template_def assms(6))
  obtain d where "read_content (content_json content) = Some d" using valid(1) by (auto simp: validCoordinateContent_def)
  then have read: "read_content (content_json content) = Some content" using read_content_json by metis
  have tags: "exactLocationTags event c epoch = Some expiresAt"
    using location_tags_exact [OF ev(6) assms(3) valid(2) assms(4)] .
  have fresh: "later - LOCATION_MAX_AGE_SECONDS \<le> cl_captured_at content" using exp(2) assms(11) by linarith
  show ?thesis
    using assms(8,10,11) exp fresh
    by (simp add: decryptCircleLocationV1_def out open_sealed [OF assms(1,2)] event_json_roundtrip decode_event_json ev tags
        content_json_roundtrip read circle_location.defs del: stringify.simps)
qed

lemma content_keys_sorted:
  "join '','' (js_sort string_cmp [''lat'', ''lng'', ''accuracy_m'', ''captured_at'', ''precision''])
     = ''accuracy_m,captured_at,lat,lng,precision''"
  by code_simp

lemma content_json_valid:
  assumes "\<bar>jnum_val (cl_lat c)\<bar> \<le> 90" "\<bar>jnum_val (cl_lng c)\<bar> \<le> 180" "0 \<le> jnum_val (cl_accuracy_m c)"
    "jnum_val (cl_accuracy_m c) \<le> 100000" "isSafeInteger (cl_captured_at c)"
  shows "validCoordinateContent (content_json c)"
proof -
  have "precision_of (JStr (precision_str p)) = Some p" for p
    by (cases p) (simp_all add: precision_of_def)
  then show ?thesis using assms content_keys_sorted
    by (auto simp: validCoordinateContent_def read_content_def content_json_def safe_int_def abs_le_iff simp del: js_sort.simps)
qed

definition sample_location :: raw_location where
  "sample_location = \<lparr>rl_lat = Dec (-12864) 4, rl_lng = Dec 368172 4, rl_accuracy_m = Dec 12 0, rl_captured_at = Some 1000\<rparr>"

definition sample_uuid :: string where
  "sample_uuid = replicate 36 (CHR ''-'')"

theorem circle_location_roundtrip_witness:
  "\<exists>text v. decryptCircleLocationV1 plain_crypto shared_tools (replicate 32 5, False) text ''c'' 2 [key_of (CHR ''a'')] 1100 = Some v
     \<and> vl_pubkey v = key_of (CHR ''a'')"
proof -
  let ?sv = "initial_signer sample_store" and ?iv = "replicate 12 (1 :: 8 word)" and ?pk = "key_of (CHR ''a'')"
  let ?sign = "\<lambda>t. snd (signWithActiveIdentity shared_tools None [1] id t ?sv)"
  let ?content = "snd (location_content (\<lambda>x. Dec 0 0) (0, 0, 0) 1000 sample_location Exact None)"
  have content: "cl_captured_at ?content = 1000" "validCoordinateContent (content_json ?content)"
    by (auto intro!: content_json_valid simp: location_content_def sample_location_def jnum_val_def isSafeInteger_def)
  have "\<exists>e. ?sign t = ok e" for t
    by (simp add: signWithActiveIdentity_def getActiveIdentity_def initial_signer_def local_identity_def split: prod.splits)
  then obtain msg where out: "encryptCircleLocationV1 plain_crypto (\<lambda>x. Dec 0 0) ?sign (0, 0, 0) ?iv sample_uuid 1000 (replicate 32 5, False)
      ''c'' 2 sample_location Exact 1200 None = (None, ok msg)"
    using content by (auto simp: encryptCircleLocationV1_def location_content_def isSafeInteger_def LOCATION_MAX_AGE_SECONDS_def
        Let_def split: prod.splits) (metis bind_result_simps(2))
  have pk: "?pk = signing_key shared_tools [1] ?sv"
    by (simp add: signing_key_def shared_tools_def initial_signer_def local_identity_def)
  have iv: "length ?iv = 12" "nonce_ok sample_uuid" "(0 :: int) \<le> 1200" by (simp_all add: nonce_ok_def sample_uuid_def list_all_iff)
  have "toLowerCase ?pk \<in> set [?pk]" using sample_keys(1) by simp
  moreover have "cl_captured_at ?content \<le> 1100 + LOCATION_FUTURE_SKEW_SECONDS" "(1100 :: int) < 1200"
    by (simp_all add: content LOCATION_FUTURE_SKEW_SECONDS_def)
  ultimately show ?thesis
    using circle_location_roundtrip [OF plain_crypto_laws iv shared_tools_laws(2) pk out _ refl] by blast
qed

lemma sample_location_opens:
  "\<exists>msg v. decryptCircleLocationV1 plain_crypto shared_tools (replicate 32 5, False) msg ''c'' 2 [key_of (CHR ''a'')] 1100 = Some v"
proof -
  let ?pk = "key_of (CHR ''a'')"
  let ?c = "\<lparr>cl_lat = Dec 1 0, cl_lng = Dec 2 0, cl_accuracy_m = Dec 3 0, cl_captured_at = 1000, cl_precision = Exact\<rparr>"
  let ?event = "\<lparr>ne_id = '''', ne_pubkey = ?pk, ne_created_at = 1000, ne_kind = CIRCLE_LOCATION_EVENT_KIND,
     ne_tags = [[''circle'', ''c''], [''epoch'', int_str 2], [''expires'', int_str 1200], [''nonce'', sample_uuid]],
     ne_content = stringify (content_json ?c), ne_sig = ''''\<rparr>"
  have "validCoordinateContent (content_json ?c)" by (rule content_json_valid) (simp_all add: jnum_val_def isSafeInteger_def)
  then have read: "read_content (content_json ?c) = Some ?c"
    using read_content_json by (metis validCoordinateContent_def option.exhaust)
  have tags: "exactLocationTags ?event ''c'' 2 = Some 1200"
    by (rule location_tags_exact [where u = sample_uuid]) (simp_all add: nonce_ok_def sample_uuid_def list_all_iff isSafeInteger_def)
  have iv: "length (replicate 12 (1 :: 8 word)) = 12" by simp
  have "tl_verifyEvent shared_tools ?event = Some True" by (simp add: shared_tools_def plain_tools_def)
  then have "\<exists>v. decryptCircleLocationV1 plain_crypto shared_tools (replicate 32 5, False)
      (encodeB64 (replicate 12 1) (wc_encrypt plain_crypto (replicate 32 5, False) (replicate 12 1) (locationAad plain_crypto ''c'' 2)
        (wc_textEncode plain_crypto (stringify (event_json ?event))))) ''c'' 2 [?pk] 1100 = Some v"
    using sample_keys(1) tags
    by (simp add: decryptCircleLocationV1_def open_sealed [OF plain_crypto_laws iv] event_json_roundtrip decode_event_json
        content_json_roundtrip read LOCATION_MAX_AGE_SECONDS_def LOCATION_FUTURE_SKEW_SECONDS_def del: stringify.simps replicate.simps)
  then show ?thesis by blast
qed



lemma grid_cell_near:
  assumes "0 < step"
  shows "\<bar>grid_cell step off x - x\<bar> \<le> step / 2"
proof -
  let ?y = "x / step - off"
  have "grid_cell step off x - x = (of_int \<lfloor>?y\<rfloor> - ?y + 1 / 2) * step"
    using assms by (simp add: grid_cell_def field_simps)
  moreover have "\<bar>of_int \<lfloor>?y\<rfloor> - ?y + 1 / 2\<bar> \<le> 1 / 2" by linarith
  ultimately show ?thesis using assms by (simp add: abs_mult mult_right_mono)
qed

lemma grid_cell_idem:
  assumes "0 < step"
  shows "grid_cell step off (grid_cell step off x) = grid_cell step off x"
proof -
  have "grid_cell step off x / step - off = of_int \<lfloor>x / step - off\<rfloor> + 1 / 2"
    using assms by (simp add: grid_cell_def)
  then have "\<lfloor>grid_cell step off x / step - off\<rfloor> = \<lfloor>x / step - off\<rfloor>" by linarith
  then show ?thesis by (simp add: grid_cell_def)
qed

definition session_made :: "session_grid \<Rightarrow> bool" where
  "session_made g \<longleftrightarrow> (\<exists>r0 r1 r2 l. g = make_grid r0 r1 r2 l)"

lemma session_made_grid [simp]: "session_made (make_grid r0 r1 r2 l)"
  by (auto simp: session_made_def)

lemma make_grid_bounds:
  "250 \<le> gr_cellM (make_grid r0 r1 r2 lat)" "gr_cellM (make_grid r0 r1 r2 lat) \<le> 500"
  "gr_latStep (make_grid r0 r1 r2 lat) = gr_cellM (make_grid r0 r1 r2 lat) / 111320"
  "0 < gr_lngStep (make_grid r0 r1 r2 lat)"
proof -
  have "unat r0 mod 251 \<le> 250" by simp
  then show "250 \<le> gr_cellM (make_grid r0 r1 r2 lat)" "gr_cellM (make_grid r0 r1 r2 lat) \<le> 500"
    by (simp_all add: make_grid_def Let_def)
  show "gr_latStep (make_grid r0 r1 r2 lat) = gr_cellM (make_grid r0 r1 r2 lat) / 111320"
    by (simp add: make_grid_def Let_def)
  have "0 < max (cos (lat * pi / 180)) (1 / 100)" by (simp add: less_max_iff_disj)
  then show "0 < gr_lngStep (make_grid r0 r1 r2 lat)"
    by (simp add: make_grid_def Let_def add_pos_nonneg)
qed



end
