(* ===== verification/SafetyEvents.thy ===== *)
theory SafetyEvents
  imports Json
begin

text \<open>
  Safety events and community reports: the trust ladder (\<open>lib/trust.ts\<close>), the validation of
  server responses (\<open>services/safetyDataApi.ts\<close>) and the Redux slices that hold them
  (\<open>store/eventsSlice.ts\<close>, \<open>store/reportSlice.ts\<close>). A parsed event keeps the entries of the
  server's object that the parser does not check as they came, in \<open>ev_other\<close>. The lemmas show
  that ids stay unique, that the viewport never refers to an event the store does not hold,
  that a stored event never goes back to an older revision, that the report list stays
  bounded, and that missing or unknown trust data is never presented as confirmed.
\<close>

section \<open>Trust ladder\<close>

datatype trust_state = Heuristic | Corroborating | Confirmed

record trust_style =
  ts_badge :: string
  ts_opacity :: real
  ts_color :: string

section \<open>Safety events\<close>

record safety_event =
  ev_id :: string
  ev_event_type :: string
  ev_severity :: string
  ev_title :: string
  ev_lat :: real
  ev_lng :: real
  ev_state :: string
  ev_is_active :: bool
  ev_started_at :: string
  ev_created_at :: string
  ev_trust_state :: "trust_state option"
  ev_other :: "(string \<times> json) list"

definition trustStateOf :: "safety_event \<Rightarrow> trust_state" where
  "trustStateOf e = (case ev_trust_state e of None \<Rightarrow> Heuristic | Some t \<Rightarrow> t)"

definition isUnverified :: "safety_event \<Rightarrow> bool" where
  "isUnverified e \<longleftrightarrow> trustStateOf e \<noteq> Confirmed"

fun STYLES :: "trust_state \<Rightarrow> trust_style" where
  "STYLES Heuristic = \<lparr>ts_badge = ''Automated Detection'', ts_opacity = 45 / 100, ts_color = ''#94a3b8''\<rparr>"
| "STYLES Corroborating = \<lparr>ts_badge = ''Corroborating'', ts_opacity = 75 / 100, ts_color = ''#FFB300''\<rparr>"
| "STYLES Confirmed = \<lparr>ts_badge = '''', ts_opacity = 1, ts_color = ''#4CAF50''\<rparr>"

definition trustStyle :: "safety_event \<Rightarrow> trust_style" where
  "trustStyle e = STYLES (trustStateOf e)"

section \<open>Parsing server responses\<close>

definition jstr :: "string \<Rightarrow> json \<Rightarrow> string option" where
  "jstr k v = (case jget k v of Some (JStr s) \<Rightarrow> Some s | _ \<Rightarrow> None)"

definition jreal :: "string \<Rightarrow> json \<Rightarrow> real option" where
  "jreal k v = (case jget k v of Some (JNum x) \<Rightarrow> Some (jnum_val x) | _ \<Rightarrow> None)"

definition jbool :: "string \<Rightarrow> json \<Rightarrow> bool option" where
  "jbool k v = (case jget k v of Some (JBool b) \<Rightarrow> Some b | _ \<Rightarrow> None)"

definition event_keys :: "string list" where
  "event_keys = [''id'', ''event_type'', ''severity'', ''title'', ''lat'', ''lng'', ''state'',
     ''is_active'', ''started_at'', ''created_at'', ''trust_state'']"

definition entries_of :: "json \<Rightarrow> (string \<times> json) list" where
  "entries_of v = (case v of JObj kvs \<Rightarrow> kvs | _ \<Rightarrow> [])"

definition parse_trust :: "string \<Rightarrow> trust_state" where
  "parse_trust t = (if t = ''confirmed'' then Confirmed else if t = ''corroborating'' then Corroborating
     else Heuristic)"

definition parseEvent :: "json \<Rightarrow> safety_event option" where
  "parseEvent value =
     (case (jstr ''id'' value, jstr ''event_type'' value, jstr ''severity'' value,
            jstr ''title'' value, jreal ''lat'' value, jreal ''lng'' value, jstr ''started_at'' value) of
        (Some i, Some ty, Some sev, Some title, Some lat, Some lng, Some started) \<Rightarrow>
          (let state = (case jstr ''state'' value of Some s \<Rightarrow> s | None \<Rightarrow> ''ACTIVE'');
               trust = (case jstr ''trust_state'' value of Some s \<Rightarrow> toLowerCase s | None \<Rightarrow> ''heuristic'')
           in Some \<lparr>ev_id = i, ev_event_type = ty, ev_severity = sev, ev_title = title,
                ev_lat = lat, ev_lng = lng, ev_state = state,
                ev_is_active = (case jbool ''is_active'' value of Some b \<Rightarrow> b
                   | None \<Rightarrow> state \<noteq> ''RESOLVED'' \<and> state \<noteq> ''EXPIRED''),
                ev_started_at = started,
                ev_created_at = (case jstr ''created_at'' value of Some c \<Rightarrow> c | None \<Rightarrow> started),
                ev_trust_state = Some (parse_trust trust),
                ev_other = filter (\<lambda>(k, v). k \<notin> set event_keys) (entries_of value)\<rparr>)
      | _ \<Rightarrow> None)"

record community_report =
  rp_id :: string
  rp_report_type :: string
  rp_status :: string
  rp_lat :: real
  rp_lng :: real
  rp_reporter_tier :: string
  rp_consensus_score :: real
  rp_confirmation_count :: real
  rp_denial_count :: real
  rp_created_at :: string
  rp_updated_at :: string
  rp_other :: "(string \<times> json) list"

definition report_keys :: "string list" where
  "report_keys = [''id'', ''report_type'', ''status'', ''lat'', ''lng'', ''reporter_tier'',
     ''consensus_score'', ''confirmation_count'', ''denial_count'', ''created_at'', ''updated_at'']"

definition parseReport :: "json \<Rightarrow> community_report option" where
  "parseReport value =
     (case (jstr ''id'' value, jstr ''report_type'' value, jstr ''status'' value,
            jreal ''lat'' value, jreal ''lng'' value, jstr ''reporter_tier'' value,
            jreal ''consensus_score'' value, jreal ''confirmation_count'' value,
            jreal ''denial_count'' value, jstr ''created_at'' value, jstr ''updated_at'' value) of
        (Some i, Some ty, Some st, Some lat, Some lng, Some tier, Some cs, Some cc, Some dc,
         Some created, Some updated) \<Rightarrow>
          Some \<lparr>rp_id = i, rp_report_type = ty, rp_status = st, rp_lat = lat, rp_lng = lng,
            rp_reporter_tier = tier, rp_consensus_score = cs, rp_confirmation_count = cc,
            rp_denial_count = dc, rp_created_at = created, rp_updated_at = updated,
            rp_other = filter (\<lambda>(k, v). k \<notin> set report_keys) (entries_of value)\<rparr>
      | _ \<Rightarrow> None)"

text \<open>
  \<open>fetchInitialEvents\<close> and \<open>fetchInitialReports\<close>: the response is the HTTP status and the
  decoded body, or the failure of the request.
\<close>

datatype http_response = NetworkError js_error | HttpStatus int json

definition getJson :: "http_response \<Rightarrow> json result" where
  "getJson resp = (case resp of
      NetworkError e \<Rightarrow> throw e
    | HttpStatus status body \<Rightarrow>
        throw_if (\<not> (200 \<le> status \<and> status \<le> 299)) (''request failed with status '' @ int_str status)
          (ok body))"

definition fetchInitialEvents :: "http_response \<Rightarrow> safety_event list result" where
  "fetchInitialEvents resp = bind_result (getJson resp) (\<lambda>body.
     case jget ''events'' body of
       Some (JArr xs) \<Rightarrow> ok (List.map_filter parseEvent xs)
     | _ \<Rightarrow> throw ''invalid events response'')"

definition fetchInitialReports :: "http_response \<Rightarrow> community_report list result" where
  "fetchInitialReports resp = bind_result (getJson resp) (\<lambda>body.
     case jget ''reports'' body of
       Some (JArr xs) \<Rightarrow> ok (List.map_filter parseReport xs)
     | _ \<Rightarrow> throw ''invalid reports response'')"

section \<open>The events slice\<close>

record events_state =
  es_items :: "safety_event list"
  es_viewportIds :: "string list"
  es_connected :: bool
  es_initialized :: bool
  es_error :: "string option"

definition events_initialState :: events_state where
  "events_initialState =
     \<lparr>es_items = [], es_viewportIds = [], es_connected = False, es_initialized = False, es_error = None\<rparr>"

text \<open>
  \<open>{ ...current }\<close> overwritten by every entry of \<open>incoming\<close> whose value is not undefined.
\<close>

definition merge_entries :: "(string \<times> json) list \<Rightarrow> (string \<times> json) list \<Rightarrow> (string \<times> json) list" where
  "merge_entries cur inc = foldl (\<lambda>m (k, v). map_set m k v) cur inc"

definition mergeEvent :: "safety_event option \<Rightarrow> safety_event \<Rightarrow> safety_event" where
  "mergeEvent current incoming =
     (case current of
        None \<Rightarrow> incoming
      | Some cur \<Rightarrow>
          incoming\<lparr>ev_trust_state :=
              (case ev_trust_state incoming of None \<Rightarrow> ev_trust_state cur | Some t \<Rightarrow> Some t),
            ev_other := merge_entries (ev_other cur) (ev_other incoming)\<rparr>)"

text \<open>
  Truthiness of an entry, and \<open><\<close> on two entries: strings compare by code units, numbers by
  value; an ordering between a string and a number holds only for numeric strings, which
  timestamps are not.
\<close>

definition js_truthy :: "json option \<Rightarrow> bool" where
  "js_truthy v = (case v of None \<Rightarrow> False | Some x \<Rightarrow> json_truthy x)"

definition js_less :: "json option \<Rightarrow> json option \<Rightarrow> bool" where
  "js_less a b = (case (a, b) of
      (Some (JStr x), Some (JStr y)) \<Rightarrow> x < y
    | (Some (JNum x), Some (JNum y)) \<Rightarrow> jnum_val x < jnum_val y
    | _ \<Rightarrow> False)"

definition ev_updated_at :: "safety_event \<Rightarrow> json option" where
  "ev_updated_at e = map_of (ev_other e) ''updated_at''"

definition events_upsert :: "safety_event list \<Rightarrow> safety_event \<Rightarrow> safety_event list" where
  "events_upsert items event =
     (case find_index (\<lambda>e. ev_id e = ev_id event) items of
        Some idx \<Rightarrow>
          (let current = items ! idx
           in if js_truthy (ev_updated_at current) \<and> js_truthy (ev_updated_at event)
                 \<and> js_less (ev_updated_at event) (ev_updated_at current)
              then items
              else items[idx := mergeEvent (Some current) event])
      | None \<Rightarrow> event # items)"

definition eventReceived :: "events_state \<Rightarrow> safety_event \<Rightarrow> events_state" where
  "eventReceived s e = s\<lparr>es_items := events_upsert (es_items s) e\<rparr>"

definition hydrate_one :: "safety_event list \<Rightarrow> safety_event \<Rightarrow> safety_event list" where
  "hydrate_one items event =
     events_upsert items
       (case find (\<lambda>e. ev_id e = ev_id event) items of
          Some current \<Rightarrow> mergeEvent (Some event) current
        | None \<Rightarrow> event)"

definition eventsHydrated :: "events_state \<Rightarrow> safety_event list \<Rightarrow> events_state" where
  "eventsHydrated s payload =
     s\<lparr>es_items := foldl hydrate_one (es_items s) payload, es_initialized := True, es_error := None\<rparr>"

definition eventsHydrationFailed :: "events_state \<Rightarrow> string \<Rightarrow> events_state" where
  "eventsHydrationFailed s msg = s\<lparr>es_initialized := True, es_error := Some msg\<rparr>"

definition viewportEventsSet :: "events_state \<Rightarrow> safety_event list \<Rightarrow> events_state" where
  "viewportEventsSet s payload =
     s\<lparr>es_items := foldl events_upsert (es_items s) payload,
       es_viewportIds := set_of_array (map ev_id payload)\<rparr>"

definition viewportEventsBatchApply ::
  "events_state \<Rightarrow> safety_event list \<Rightarrow> string list \<Rightarrow> safety_event list \<Rightarrow> events_state" where
  "viewportEventsBatchApply s added removed updated =
     (let items = foldl events_upsert (es_items s) (added @ updated);
          ids0 = set_of_array (es_viewportIds s);
          ids1 = foldl set_delete ids0 removed;
          ids2 = foldl set_add ids1 (map ev_id added);
          ids3 = foldl set_add ids2 (map ev_id updated)
      in s\<lparr>es_items := items, es_viewportIds := ids3\<rparr>)"

definition eventResolved :: "events_state \<Rightarrow> string \<Rightarrow> events_state" where
  "eventResolved s i =
     (case find_index (\<lambda>e. ev_id e = i) (es_items s) of
        Some idx \<Rightarrow> s\<lparr>es_items := (es_items s)[idx := (es_items s ! idx)\<lparr>ev_is_active := False\<rparr>]\<rparr>
      | None \<Rightarrow> s)"

definition setConnected :: "events_state \<Rightarrow> bool \<Rightarrow> events_state" where
  "setConnected s b = s\<lparr>es_connected := b\<rparr>"

datatype events_action =
    EventReceived safety_event
  | EventsHydrated "safety_event list"
  | EventsHydrationFailed string
  | EventResolved string
  | ViewportEventsSet "safety_event list"
  | ViewportEventsBatchApply "safety_event list" "string list" "safety_event list"
  | SetConnected bool

fun events_reducer :: "events_state \<Rightarrow> events_action \<Rightarrow> events_state" where
  "events_reducer s (EventReceived e) = eventReceived s e"
| "events_reducer s (EventsHydrated es) = eventsHydrated s es"
| "events_reducer s (EventsHydrationFailed m) = eventsHydrationFailed s m"
| "events_reducer s (EventResolved i) = eventResolved s i"
| "events_reducer s (ViewportEventsSet es) = viewportEventsSet s es"
| "events_reducer s (ViewportEventsBatchApply a r u) = viewportEventsBatchApply s a r u"
| "events_reducer s (SetConnected b) = setConnected s b"

text \<open>Selectors.\<close>

definition selectEventItems :: "events_state \<Rightarrow> safety_event list" where
  "selectEventItems s = es_items s"

definition selectViewportEventItems :: "events_state \<Rightarrow> safety_event list" where
  "selectViewportEventItems s =
     (let ids = set_of_array (es_viewportIds s) in filter (\<lambda>e. ev_id e \<in> set ids) (es_items s))"

definition selectActiveViewportEvents :: "events_state \<Rightarrow> safety_event list" where
  "selectActiveViewportEvents s = filter ev_is_active (selectViewportEventItems s)"

definition selectMapStats :: "events_state \<Rightarrow> nat" where
  "selectMapStats s = length (filter ev_is_active (es_items s))"

section \<open>The reports slice\<close>

record reports_state =
  rs_items :: "community_report list"
  rs_initialized :: bool
  rs_error :: "string option"

definition reports_initialState :: reports_state where
  "reports_initialState = \<lparr>rs_items = [], rs_initialized = False, rs_error = None\<rparr>"

definition reports_upsert :: "community_report list \<Rightarrow> community_report \<Rightarrow> community_report list" where
  "reports_upsert items report =
     (case find_index (\<lambda>r. rp_id r = rp_id report) items of
        Some idx \<Rightarrow>
          (if rp_updated_at report < rp_updated_at (items ! idx) then items
           else take 100 (items[idx := report]))
      | None \<Rightarrow> take 100 (report # items))"

definition reportReceived :: "reports_state \<Rightarrow> community_report \<Rightarrow> reports_state" where
  "reportReceived s r = s\<lparr>rs_items := reports_upsert (rs_items s) r\<rparr>"

definition reportsHydrated :: "reports_state \<Rightarrow> community_report list \<Rightarrow> reports_state" where
  "reportsHydrated s payload =
     s\<lparr>rs_items := foldl reports_upsert (rs_items s) payload, rs_initialized := True, rs_error := None\<rparr>"

definition reportsHydrationFailed :: "reports_state \<Rightarrow> string \<Rightarrow> reports_state" where
  "reportsHydrationFailed s msg = s\<lparr>rs_initialized := True, rs_error := Some msg\<rparr>"

datatype reports_action =
    ReportReceived community_report
  | ReportsHydrated "community_report list"
  | ReportsHydrationFailed string

fun reports_reducer :: "reports_state \<Rightarrow> reports_action \<Rightarrow> reports_state" where
  "reports_reducer s (ReportReceived r) = reportReceived s r"
| "reports_reducer s (ReportsHydrated rs) = reportsHydrated s rs"
| "reports_reducer s (ReportsHydrationFailed m) = reportsHydrationFailed s m"

section \<open>Unique ids\<close>

lemma mergeEvent_id [simp]: "ev_id (mergeEvent c e) = ev_id e"
  by (simp add: mergeEvent_def split: option.splits)

lemma map_ev_id_upsert:
  "map ev_id (events_upsert items e) =
     (if ev_id e \<in> ev_id ` set items then map ev_id items else ev_id e # map ev_id items)"
proof (cases "find_index (\<lambda>x. ev_id x = ev_id e) items")
  case None
  then have "ev_id e \<notin> ev_id ` set items" by (auto simp: find_index_None)
  with None show ?thesis by (simp add: events_upsert_def)
next
  case (Some i)
  then have "ev_id e \<in> ev_id ` set items"
    using find_index_Some [OF Some] by (metis image_eqI nth_mem)
  with Some show ?thesis
    by (auto simp: events_upsert_def Let_def map_ident_update [OF Some])
qed

lemma ids_events_upsert: "ev_id ` set (events_upsert items e) = insert (ev_id e) (ev_id ` set items)"
  using arg_cong [OF map_ev_id_upsert [of items e], of set] by auto

lemma map_ev_id_hydrate_one:
  "map ev_id (hydrate_one items e) =
     (if ev_id e \<in> ev_id ` set items then map ev_id items else ev_id e # map ev_id items)"
proof (cases "find (\<lambda>x. ev_id x = ev_id e) items")
  case None
  then show ?thesis by (simp add: hydrate_one_def map_ev_id_upsert)
next
  case (Some x)
  then have "ev_id x = ev_id e" "x \<in> set items" by (auto simp: find_Some_iff)
  with Some show ?thesis by (simp add: hydrate_one_def map_ev_id_upsert)
qed

lemma ids_hydrate_one: "ev_id ` set (hydrate_one items e) = insert (ev_id e) (ev_id ` set items)"
  using arg_cong [OF map_ev_id_hydrate_one [of items e], of set] by auto

lemma map_rp_id_upsert:
  "map rp_id (reports_upsert items r) = map rp_id items
   \<or> map rp_id (reports_upsert items r) = take 100 (map rp_id items)
   \<or> rp_id r \<notin> rp_id ` set items \<and> map rp_id (reports_upsert items r) = take 100 (rp_id r # map rp_id items)"
proof (cases "find_index (\<lambda>x. rp_id x = rp_id r) items")
  case None
  then have "rp_id r \<notin> rp_id ` set items" by (auto simp: find_index_None)
  with None show ?thesis by (simp add: reports_upsert_def take_map [symmetric])
next
  case (Some i)
  then show ?thesis
    by (simp add: reports_upsert_def take_map [symmetric] map_ident_update [OF Some])
qed

interpretation ev_up: id_upsert_total ev_id events_upsert
  by unfold_locales (auto simp: ids_events_upsert map_ev_id_upsert)

interpretation hy_up: id_upsert_total ev_id hydrate_one
  by unfold_locales (auto simp: ids_hydrate_one map_ev_id_hydrate_one)

lemma ids_reports_upsert_sub:
  "rp_id ` set (reports_upsert items r) \<subseteq> insert (rp_id r) (rp_id ` set items)"
proof -
  have "set (map rp_id (reports_upsert items r)) \<subseteq> set (rp_id r # map rp_id items)"
    using map_rp_id_upsert [of items r]
  proof (elim disjE conjE)
    assume "map rp_id (reports_upsert items r) = take 100 (map rp_id items)"
    then show ?thesis by (simp only: set_take_subset [THEN subset_trans] set_subset_Cons)
  next
    assume "map rp_id (reports_upsert items r) = take 100 (rp_id r # map rp_id items)"
    then show ?thesis by (simp only: set_take_subset)
  qed (simp only: set_subset_Cons)
  then show ?thesis by simp
qed

lemma distinct_reports_upsert:
  "distinct (map rp_id items) \<Longrightarrow> distinct (map rp_id (reports_upsert items r))"
  using map_rp_id_upsert [of items r] distinct_take [of "rp_id r # map rp_id items" 100]
    distinct_take [of "map rp_id items" 100] by auto

interpretation rp_up: id_upsert rp_id reports_upsert
  by unfold_locales (rule ids_reports_upsert_sub, rule distinct_reports_upsert)

section \<open>Invariants of the slices\<close>

definition events_inv :: "events_state \<Rightarrow> bool" where
  "events_inv s \<longleftrightarrow>
     distinct (map ev_id (es_items s)) \<and> distinct (es_viewportIds s)
     \<and> set (es_viewportIds s) \<subseteq> ev_id ` set (es_items s)"

definition reports_inv :: "reports_state \<Rightarrow> bool" where
  "reports_inv s \<longleftrightarrow> distinct (map rp_id (rs_items s)) \<and> length (rs_items s) \<le> 100"

lemmas event_defs = eventReceived_def eventsHydrated_def eventsHydrationFailed_def
  eventResolved_def viewportEventsSet_def viewportEventsBatchApply_def setConnected_def Let_def

lemmas report_defs = reportReceived_def reportsHydrated_def reportsHydrationFailed_def

lemma eventResolved_ids: "map ev_id (es_items (eventResolved s i)) = map ev_id (es_items s)"
proof (cases "find_index (\<lambda>e. ev_id e = i) (es_items s)")
  case None
  then show ?thesis by (simp add: eventResolved_def)
next
  case (Some k)
  from find_index_Some [OF Some]
  have "ev_id ((es_items s ! k)\<lparr>ev_is_active := False\<rparr>) = i" by simp
  from map_ident_update [OF Some this] Some show ?thesis by (simp add: eventResolved_def)
qed

lemma eventResolved_viewport [simp]: "es_viewportIds (eventResolved s i) = es_viewportIds s"
  by (simp add: eventResolved_def split: option.splits)

lemma events_step_inv:
  assumes "events_inv s"
  shows "events_inv (events_reducer s a)"
proof (cases a)
  case (EventResolved i)
  have "ev_id ` set (es_items (eventResolved s i)) = ev_id ` set (es_items s)"
    using arg_cong [OF eventResolved_ids [of s i], of set] by simp
  with assms EventResolved show ?thesis by (simp add: events_inv_def eventResolved_ids)
qed (use assms in \<open>auto simp: events_inv_def event_defs ev_up.upsert_distinct
       ev_up.foldl_upsert_distinct hy_up.foldl_upsert_distinct foldl_set_add foldl_set_delete
       ev_up.upsert_ids ev_up.foldl_upsert_ids hy_up.foldl_upsert_ids\<close>)

lemma length_reports_upsert: "length items \<le> 100 \<Longrightarrow> length (reports_upsert items r) \<le> 100"
  by (simp add: reports_upsert_def split: option.splits)

lemma length_foldl_reports_upsert:
  "length items \<le> 100 \<Longrightarrow> length (foldl reports_upsert items rs) \<le> 100"
  by (induction rs arbitrary: items) (simp_all add: length_reports_upsert)

lemma reports_step_inv:
  assumes "reports_inv s"
  shows "reports_inv (reports_reducer s a)"
  using assms
  by (cases a) (auto simp: reports_inv_def report_defs rp_up.upsert_distinct
      rp_up.foldl_upsert_distinct length_reports_upsert length_foldl_reports_upsert)

interpretation ev_red: reducer events_initialState events_reducer events_inv
  by (unfold_locales, simp add: events_inv_def events_initialState_def, rule events_step_inv)

interpretation rp_red: reducer reports_initialState reports_reducer reports_inv
  by (unfold_locales, simp add: reports_inv_def reports_initialState_def, rule reports_step_inv)

section \<open>Revisions\<close>

text \<open>
  The revision an event carries: its \<open>updated_at\<close> string, or the empty string. An event is
  typed when its entries have distinct keys and \<open>updated_at\<close> is absent or a non-empty string,
  as its declaration says.
\<close>

definition ev_stamp :: "safety_event \<Rightarrow> string" where
  "ev_stamp e = (case ev_updated_at e of Some (JStr t) \<Rightarrow> t | _ \<Rightarrow> '''')"

definition ev_typed :: "safety_event \<Rightarrow> bool" where
  "ev_typed e \<longleftrightarrow> distinct (map fst (ev_other e))
     \<and> (case ev_updated_at e of None \<Rightarrow> True | Some (JStr t) \<Rightarrow> t \<noteq> '''' | _ \<Rightarrow> False)"

definition stamp_of :: "safety_event list \<Rightarrow> string \<Rightarrow> string" where
  "stamp_of items i = (case find (\<lambda>e. ev_id e = i) items of None \<Rightarrow> '''' | Some e \<Rightarrow> ev_stamp e)"

fun action_events :: "events_action \<Rightarrow> safety_event list" where
  "action_events (EventReceived e) = [e]"
| "action_events (EventsHydrated es) = es"
| "action_events (ViewportEventsSet es) = es"
| "action_events (ViewportEventsBatchApply a r u) = a @ u"
| "action_events _ = []"

definition events_typed :: "safety_event list \<Rightarrow> bool" where
  "events_typed items \<longleftrightarrow> (\<forall>e\<in>set items. ev_typed e)"

lemma map_of_merge_entries:
  "distinct (map fst inc) \<Longrightarrow> map_of (merge_entries cur inc) k =
     (case map_of inc k of None \<Rightarrow> map_of cur k | Some v \<Rightarrow> Some v)"
proof (induction inc arbitrary: cur)
  case (Cons e inc)
  obtain a v where e: "e = (a, v)" by (cases e)
  have "map_of inc a = None" using Cons.prems e by (auto simp: map_of_eq_None_iff)
  then show ?case using Cons by (simp add: merge_entries_def e split: option.splits)
qed (simp add: merge_entries_def)

lemma distinct_merge_entries:
  "distinct (map fst cur) \<Longrightarrow> distinct (map fst (merge_entries cur inc))"
  by (induction inc arbitrary: cur) (auto simp: merge_entries_def split: prod.splits)

lemma ev_updated_at_merge:
  "ev_typed e \<Longrightarrow> ev_updated_at (mergeEvent (Some c) e) =
     (case ev_updated_at e of None \<Rightarrow> ev_updated_at c | Some v \<Rightarrow> Some v)"
  by (simp add: mergeEvent_def ev_updated_at_def ev_typed_def map_of_merge_entries
      split: option.splits)

lemma ev_typed_merge: "ev_typed c \<Longrightarrow> ev_typed e \<Longrightarrow> ev_typed (mergeEvent (Some c) e)"
  using ev_updated_at_merge [of e c]
  by (simp add: ev_typed_def mergeEvent_def distinct_merge_entries split: option.splits)

lemma ev_stamp_merge:
  "ev_typed c \<Longrightarrow> ev_typed e \<Longrightarrow>
     ev_stamp (mergeEvent (Some c) e) = (if ev_stamp e = '''' then ev_stamp c else ev_stamp e)"
  by (auto simp: ev_stamp_def ev_updated_at_merge ev_typed_def split: option.splits json.splits)

text \<open>For typed events the guard of \<open>upsert\<close> is: both carry a revision, and the incoming is older.\<close>

lemma stale_iff:
  assumes "ev_typed c" "ev_typed e"
  shows "(js_truthy (ev_updated_at c) \<and> js_truthy (ev_updated_at e)
            \<and> js_less (ev_updated_at e) (ev_updated_at c))
         \<longleftrightarrow> ev_stamp e \<noteq> '''' \<and> ev_stamp e < ev_stamp c"
  using assms
  by (auto simp: ev_stamp_def ev_typed_def js_truthy_def json_truthy_def js_less_def
      split: option.splits json.splits)

lemma find_list_update:
  assumes "find_index (\<lambda>e. ident e = k) xs = Some n" "ident y = k"
  shows "find (\<lambda>e. ident e = i) (xs[n := y]) =
     (if i = k then Some y else find (\<lambda>e. ident e = i) xs)"
  using assms
proof (induction xs arbitrary: n)
  case (Cons x xs)
  then show ?case by (cases n) (auto split: if_splits)
qed simp

lemma stamp_of_upsert:
  assumes "events_typed items" "ev_typed e"
  shows "stamp_of (events_upsert items e) i =
     (if i = ev_id e then max (stamp_of items i) (ev_stamp e) else stamp_of items i)"
proof (cases "find_index (\<lambda>x. ev_id x = ev_id e) items")
  case None
  then have "find (\<lambda>x. ev_id x = ev_id e) items = None" by (simp add: find_index_find)
  with None show ?thesis by (auto simp: events_upsert_def stamp_of_def max_def)
next
  case (Some n)
  let ?c = "items ! n"
  have c: "ev_typed ?c" "ev_id ?c = ev_id e"
    using find_index_Some [OF Some] assms(1) by (auto simp: events_typed_def)
  have st: "stamp_of items (ev_id e) = ev_stamp ?c"
    using Some by (simp add: stamp_of_def find_index_find)
  have nil: "'''' \<le> t" for t :: string by simp
  show ?thesis
    using Some st ev_stamp_merge [OF c(1) assms(2)] find_list_update [OF Some mergeEvent_id]
      stale_iff [OF c(1) assms(2)] nil [of "ev_stamp ?c"]
    by (auto simp: events_upsert_def Let_def max_def stamp_of_def)
qed

lemma events_typed_upsert:
  assumes "events_typed items" "ev_typed e"
  shows "events_typed (events_upsert items e)"
proof (cases "find_index (\<lambda>x. ev_id x = ev_id e) items")
  case None
  with assms show ?thesis by (simp add: events_upsert_def events_typed_def)
next
  case (Some n)
  from find_index_Some [OF Some] assms have "ev_typed (mergeEvent (Some (items ! n)) e)"
    by (simp add: events_typed_def ev_typed_merge)
  with assms(1) find_index_update(1) [OF Some, of "mergeEvent (Some (items ! n)) e"] Some
  show ?thesis by (auto simp: events_upsert_def Let_def events_typed_def)
qed

lemma find_typed: "events_typed items \<Longrightarrow> find p items = Some e \<Longrightarrow> ev_typed e"
  by (auto simp: events_typed_def find_Some_iff)

lemma hydrate_one_mono:
  assumes "events_typed items" "ev_typed e"
  shows "events_typed (hydrate_one items e)"
    and "stamp_of items i \<le> stamp_of (hydrate_one items e) i"
proof -
  let ?m = "case find (\<lambda>x. ev_id x = ev_id e) items of Some c \<Rightarrow> mergeEvent (Some e) c | None \<Rightarrow> e"
  have "ev_typed ?m"
    using assms find_typed by (auto simp: ev_typed_merge split: option.splits)
  then show "events_typed (hydrate_one items e)" "stamp_of items i \<le> stamp_of (hydrate_one items e) i"
    using assms(1) by (simp_all add: hydrate_one_def events_typed_upsert stamp_of_upsert)
qed

lemma foldl_upsert_mono:
  "events_typed items \<Longrightarrow> events_typed es \<Longrightarrow> events_typed (foldl events_upsert items es)
     \<and> stamp_of items i \<le> stamp_of (foldl events_upsert items es) i"
proof (induction es arbitrary: items)
  case (Cons e es)
  from Cons.prems(2) have e: "ev_typed e" "events_typed es" by (simp_all add: events_typed_def)
  have le: "stamp_of items i \<le> stamp_of (events_upsert items e) i"
    using Cons.prems(1) e(1) by (simp add: stamp_of_upsert)
  note ih = Cons.IH [OF events_typed_upsert [OF Cons.prems(1) e(1)] e(2)]
  show ?case unfolding foldl_Cons
    by (rule conjI [OF conjunct1 [OF ih] order_trans [OF le conjunct2 [OF ih]]])
qed simp

lemma foldl_hydrate_mono:
  "events_typed items \<Longrightarrow> events_typed es \<Longrightarrow> events_typed (foldl hydrate_one items es)
     \<and> stamp_of items i \<le> stamp_of (foldl hydrate_one items es) i"
proof (induction es arbitrary: items)
  case (Cons e es)
  from Cons.prems(2) have e: "ev_typed e" "events_typed es" by (simp_all add: events_typed_def)
  note ih = Cons.IH [OF hydrate_one_mono(1) [OF Cons.prems(1) e(1)] e(2)]
  show ?case unfolding foldl_Cons
    by (rule conjI [OF conjunct1 [OF ih]
          order_trans [OF hydrate_one_mono(2) [OF Cons.prems(1) e(1)] conjunct2 [OF ih]]])
qed simp

lemma resolved_mono:
  assumes "events_typed (es_items s)"
  shows "events_typed (es_items (eventResolved s k))
    \<and> stamp_of (es_items (eventResolved s k)) i = stamp_of (es_items s) i"
proof (cases "find_index (\<lambda>e. ev_id e = k) (es_items s)")
  case None
  with assms show ?thesis by (simp add: eventResolved_def)
next
  case (Some n)
  let ?e = "(es_items s ! n)\<lparr>ev_is_active := False\<rparr>"
  from find_index_Some [OF Some] have n: "n < length (es_items s)" "ev_id ?e = k" by auto
  then have "ev_typed ?e" using assms by (simp add: events_typed_def ev_typed_def ev_updated_at_def)
  with assms find_index_update(1) [OF Some, of ?e] have "events_typed ((es_items s)[n := ?e])"
    by (auto simp: events_typed_def)
  moreover have "ev_stamp ?e = ev_stamp (es_items s ! n)"
    by (simp add: ev_stamp_def ev_updated_at_def)
  moreover have "find (\<lambda>e. ev_id e = k) (es_items s) = Some (es_items s ! n)"
    using Some by (simp add: find_index_find)
  ultimately show ?thesis
    using find_list_update [OF Some n(2)] Some by (simp add: eventResolved_def stamp_of_def)
qed

lemma events_step_mono:
  assumes "events_typed (es_items s)" "events_typed (action_events a)"
  shows "events_typed (es_items (events_reducer s a))
    \<and> stamp_of (es_items s) i \<le> stamp_of (es_items (events_reducer s a)) i"
proof (cases a)
  case (EventReceived e)
  with assms have "ev_typed e" by (simp add: events_typed_def)
  with EventReceived assms(1) show ?thesis
    by (simp add: eventReceived_def events_typed_upsert stamp_of_upsert)
next
  case (EventsHydrated es)
  with assms foldl_hydrate_mono show ?thesis by (simp add: eventsHydrated_def)
next
  case (EventResolved k)
  with resolved_mono [OF assms(1)] show ?thesis by simp
next
  case (ViewportEventsSet es)
  with assms foldl_upsert_mono show ?thesis by (simp add: viewportEventsSet_def)
next
  case (ViewportEventsBatchApply ad r u)
  with assms foldl_upsert_mono [of _ "ad @ u"] show ?thesis
    by (simp add: viewportEventsBatchApply_def Let_def del: foldl_append)
qed (use assms in \<open>simp_all add: eventsHydrationFailed_def setConnected_def\<close>)

section \<open>Hydration and live data\<close>

text \<open>
  \<open>e'\<close> holds everything \<open>e\<close> does: same checked fields, same entries, possibly more of them.
\<close>

definition keeps_fields :: "safety_event \<Rightarrow> safety_event \<Rightarrow> bool" where
  "keeps_fields e e' \<longleftrightarrow>
     e' = e\<lparr>ev_trust_state := ev_trust_state e', ev_other := ev_other e'\<rparr>
     \<and> (ev_trust_state e \<noteq> None \<longrightarrow> ev_trust_state e' = ev_trust_state e)
     \<and> (\<forall>k v. map_of (ev_other e) k = Some v \<longrightarrow> map_of (ev_other e') k = Some v)"

lemma keeps_fields_refl [simp]: "keeps_fields e e"
  by (simp add: keeps_fields_def)

lemma keeps_fields_trans: "keeps_fields a b \<Longrightarrow> keeps_fields b c \<Longrightarrow> keeps_fields a c"
  by (cases a; cases b; cases c) (auto simp: keeps_fields_def)

lemma merge_under_live:
  assumes "ev_typed c" "ev_typed e"
  shows "keeps_fields c (mergeEvent (Some c) (mergeEvent (Some e) c))"
proof -
  have "distinct (map fst (ev_other (mergeEvent (Some e) c)))"
    using assms ev_typed_merge ev_typed_def by blast
  with assms show ?thesis
    by (cases c)
      (auto simp: keeps_fields_def mergeEvent_def ev_typed_def map_of_merge_entries
        split: option.splits)
qed

lemma hydrate_one_keeps:
  assumes "events_typed items" "ev_typed e" "find (\<lambda>x. ev_id x = i) items = Some c"
  shows "\<exists>c'. find (\<lambda>x. ev_id x = i) (hydrate_one items e) = Some c' \<and> keeps_fields c c'"
proof (cases "find_index (\<lambda>x. ev_id x = ev_id e) items")
  case None
  then have none: "find (\<lambda>x. ev_id x = ev_id e) items = None" by (simp add: find_index_find)
  with assms(3) have "ev_id e \<noteq> i" by auto
  with None none assms(3) show ?thesis by (simp add: hydrate_one_def events_upsert_def)
next
  case (Some n)
  let ?d = "items ! n"
  have d: "ev_typed ?d" "ev_id ?d = ev_id e" "find (\<lambda>x. ev_id x = ev_id e) items = Some ?d"
    using find_index_Some [OF Some] assms(1) Some by (auto simp: events_typed_def find_index_find)
  let ?m = "mergeEvent (Some e) ?d"
  have find': "find_index (\<lambda>x. ev_id x = ev_id ?m) items = Some n" using Some d(2) by simp
  have "\<not> (js_truthy (ev_updated_at ?d) \<and> js_truthy (ev_updated_at ?m)
      \<and> js_less (ev_updated_at ?m) (ev_updated_at ?d))"
    using stale_iff [OF d(1) ev_typed_merge [OF assms(2) d(1)]] ev_stamp_merge [OF assms(2) d(1)]
    by auto
  then have "hydrate_one items e = items[n := mergeEvent (Some ?d) ?m]"
    using d(3) find' by (auto simp: hydrate_one_def events_upsert_def Let_def)
  then show ?thesis
    using find_list_update [OF Some, of "mergeEvent (Some ?d) ?m" i] d assms(3)
      merge_under_live [OF d(1) assms(2)] by auto
qed

lemma foldl_hydrate_keeps:
  "events_typed items \<Longrightarrow> events_typed es \<Longrightarrow> find (\<lambda>x. ev_id x = i) items = Some c \<Longrightarrow>
     \<exists>c'. find (\<lambda>x. ev_id x = i) (foldl hydrate_one items es) = Some c' \<and> keeps_fields c c'"
proof (induction es arbitrary: items c)
  case (Cons e es)
  from Cons.prems(2) have e: "ev_typed e" "events_typed es" by (simp_all add: events_typed_def)
  from hydrate_one_keeps [OF Cons.prems(1) e(1) Cons.prems(3)] obtain d
    where d: "find (\<lambda>x. ev_id x = i) (hydrate_one items e) = Some d" "keeps_fields c d" by blast
  from Cons.IH [OF hydrate_one_mono(1) [OF Cons.prems(1) e(1)] e(2) d(1)] d(2)
  show ?case by (auto intro: keeps_fields_trans)
qed simp

section \<open>Properties\<close>

text \<open>
  Whatever actions the socket, the viewport stream and the initial fetch dispatch, in
  whatever order, the store holds one record per event id, and the viewport lists ids once
  each and only ids of stored events.
\<close>

theorem events_ids_unique:
  "events_inv (foldl events_reducer events_initialState actions)"
  by (rule ev_red.inv_reachable)

text \<open>
  C7: no sequence of actions carrying typed events takes a stored event back to an older
  revision: the \<open>updated_at\<close> kept for every id never decreases.
\<close>

theorem event_revisions_monotone:
  assumes "events_typed (es_items s)" and "events_typed (concat (map action_events actions))"
  shows "stamp_of (es_items s) i \<le> stamp_of (es_items (foldl events_reducer s actions)) i"
  using assms
proof (induction actions arbitrary: s)
  case (Cons a as)
  from Cons.prems(2) have e: "events_typed (action_events a)" "events_typed (concat (map action_events as))"
    by (simp_all add: events_typed_def)
  note st = events_step_mono [OF Cons.prems(1) e(1)]
  show ?case unfolding foldl_Cons
    by (rule order_trans [OF conjunct2 [OF st] Cons.IH [OF conjunct1 [OF st] e(2)]])
qed simp

definition sample_event :: "string \<Rightarrow> string \<Rightarrow> safety_event" where
  "sample_event i t = \<lparr>ev_id = i, ev_event_type = ''FLOOD'', ev_severity = ''HIGH'', ev_title = ''Flooded road'',
     ev_lat = -1, ev_lng = 37, ev_state = ''ACTIVE'', ev_is_active = True, ev_started_at = ''2024-01-01'',
     ev_created_at = ''2024-01-01'', ev_trust_state = None, ev_other = [(''updated_at'', JStr t)]\<rparr>"

theorem event_revisions_monotone_witness:
  "''2024-02'' \<le> stamp_of (es_items (foldl events_reducer
      (eventReceived events_initialState (sample_event ''e'' ''2024-02''))
      [EventReceived (sample_event ''e'' ''2024-01''), EventResolved ''e''])) ''e''"
proof -
  let ?s = "eventReceived events_initialState (sample_event ''e'' ''2024-02'')"
  have "events_typed (es_items ?s)"
    "events_typed (concat (map action_events [EventReceived (sample_event ''e'' ''2024-01''), EventResolved ''e'']))"
    by (simp_all add: eventReceived_def events_upsert_def events_initialState_def events_typed_def
        ev_typed_def sample_event_def ev_updated_at_def)
  from event_revisions_monotone [OF this, of "''e''"]
  show ?thesis
    by (simp add: eventReceived_def events_upsert_def events_initialState_def stamp_of_def
        ev_stamp_def sample_event_def ev_updated_at_def)
qed

text \<open>
  C27: hydration never overwrites what arrived live while the request was in flight: an event
  stored before \<open>eventsHydrated\<close> is still there afterwards with all its fields and entries
  unchanged; the response only supplies what was missing.
\<close>

theorem hydration_preserves_live:
  assumes "events_typed (es_items s)" and "events_typed payload"
    and "find (\<lambda>x. ev_id x = i) (es_items s) = Some e"
  shows "\<exists>e'. find (\<lambda>x. ev_id x = i) (es_items (eventsHydrated s payload)) = Some e' \<and> keeps_fields e e'"
  using foldl_hydrate_keeps [OF assms] by (simp add: eventsHydrated_def)

theorem hydration_preserves_live_witness:
  "\<exists>e'. find (\<lambda>x. ev_id x = ''e'') (es_items (eventsHydrated
      (eventReceived events_initialState (sample_event ''e'' ''2024-01'')) [sample_event ''e'' ''2024-02''])) = Some e'
    \<and> keeps_fields (sample_event ''e'' ''2024-01'') e'"
  by (rule hydration_preserves_live)
    (simp_all add: eventReceived_def events_upsert_def events_initialState_def events_typed_def
        ev_typed_def sample_event_def ev_updated_at_def)

text \<open>
  The reports list never exceeds 100 entries and never holds an id twice, and receiving a
  report never replaces a stored one by an older revision.
\<close>

theorem reports_bounded_and_monotone:
  "reports_inv (foldl reports_reducer reports_initialState actions)
   \<and> (\<forall>r r'. let s = foldl reports_reducer reports_initialState actions
        in r \<in> set (rs_items s) \<longrightarrow> r' \<in> set (rs_items (reportReceived s x)) \<longrightarrow> rp_id r' = rp_id r
           \<longrightarrow> rp_updated_at r \<le> rp_updated_at r')"
proof -
  define s where "s = foldl reports_reducer reports_initialState actions"
  have inv: "reports_inv s" unfolding s_def by (rule rp_red.inv_reachable)
  have "rp_updated_at r \<le> rp_updated_at r'"
    if r: "r \<in> set (rs_items s)" "r' \<in> set (reports_upsert (rs_items s) x)" "rp_id r' = rp_id r" for r r'
  proof (cases "r' \<in> set (rs_items s)")
    case True
    with r inv have "r' = r" by (auto simp: reports_inv_def distinct_map inj_on_def)
    then show ?thesis by simp
  next
    case False
    show ?thesis
    proof (cases "find_index (\<lambda>y. rp_id y = rp_id x) (rs_items s)")
      case None
      with r(2) False have "r' = x"
        by (auto simp: reports_upsert_def dest: in_set_takeD)
      with None r show ?thesis by (auto simp: find_index_None)
    next
      case (Some n)
      from r(2) False find_index_update(1) [OF Some, of x] Some
      have x: "r' = x" "\<not> rp_updated_at x < rp_updated_at (rs_items s ! n)"
        by (auto simp: reports_upsert_def dest: in_set_takeD split: if_splits)
      from find_index_Some [OF Some] x(1) r inv have "rs_items s ! n = r"
        by (auto simp: reports_inv_def distinct_map inj_on_def)
      with x show ?thesis by simp
    qed
  qed
  with inv show ?thesis by (auto simp: s_def reportReceived_def Let_def)
qed

definition sample_report :: "string \<Rightarrow> string \<Rightarrow> community_report" where
  "sample_report i t = \<lparr>rp_id = i, rp_report_type = ''FIRE'', rp_status = ''PENDING'', rp_lat = -1, rp_lng = 37,
     rp_reporter_tier = ''TRUSTED'', rp_consensus_score = 0, rp_confirmation_count = 1, rp_denial_count = 0,
     rp_created_at = ''2024'', rp_updated_at = t, rp_other = []\<rparr>"

theorem reports_bounded_and_monotone_witness:
  "reports_inv (reportReceived reports_initialState (sample_report ''r'' ''b''))
   \<and> (\<exists>r'\<in>set (rs_items (reportReceived (reportReceived reports_initialState (sample_report ''r'' ''b'')) (sample_report ''r'' ''a''))).
        rp_id r' = ''r'' \<and> ''b'' \<le> rp_updated_at r')"
proof -
  let ?s = "reportReceived reports_initialState (sample_report ''r'' ''b'')"
  note base = reports_bounded_and_monotone [of "[ReportReceived (sample_report ''r'' ''b'')]" "sample_report ''r'' ''a''"]
  have items: "rs_items ?s = [sample_report ''r'' ''b'']"
    "rs_items (reportReceived ?s (sample_report ''r'' ''a'')) = [sample_report ''r'' ''b'']"
    by (simp_all add: reportReceived_def reports_upsert_def reports_initialState_def sample_report_def)
  have "rp_updated_at (sample_report ''r'' ''b'') \<le> rp_updated_at (sample_report ''r'' ''b'')" "reports_inv ?s"
    using base items unfolding Let_def by simp_all
  then show ?thesis by (simp add: items) (simp add: sample_report_def)
qed

text \<open>
  The trust ladder fails safe. An event parsed from a server response is styled as
  confirmed only when the server's \<open>trust_state\<close> is \<open>confirmed\<close> up to letter case; an event
  with no trust data is unverified, carries the automated-detection badge and reduced opacity.
\<close>

theorem trust_fails_safe:
  "(\<forall>e. parseEvent v = Some e \<longrightarrow>
      (isUnverified e \<longleftrightarrow> map_option toLowerCase (jstr ''trust_state'' v) \<noteq> Some ''confirmed''))
   \<and> (\<forall>e. ev_trust_state e = None \<longrightarrow> isUnverified e \<and> ts_badge (trustStyle e) = ''Automated Detection'')
   \<and> (\<forall>e. isUnverified e \<longleftrightarrow> ts_opacity (trustStyle e) < 1)
   \<and> (\<forall>e. isUnverified e \<longleftrightarrow> ts_badge (trustStyle e) \<noteq> '''')"
proof (intro conjI allI impI)
  fix e assume "parseEvent v = Some e"
  then have "ev_trust_state e = Some (parse_trust
      (case jstr ''trust_state'' v of Some s \<Rightarrow> toLowerCase s | None \<Rightarrow> ''heuristic''))"
    by (auto simp: parseEvent_def Let_def split: option.splits)
  then show "isUnverified e \<longleftrightarrow> map_option toLowerCase (jstr ''trust_state'' v) \<noteq> Some ''confirmed''"
    by (auto simp: isUnverified_def trustStateOf_def parse_trust_def split: option.splits)
next
  fix e :: safety_event assume "ev_trust_state e = None"
  then show "isUnverified e" "ts_badge (trustStyle e) = ''Automated Detection''"
    by (simp_all add: isUnverified_def trustStateOf_def trustStyle_def)
next
  fix e :: safety_event
  show "isUnverified e \<longleftrightarrow> ts_opacity (trustStyle e) < 1" "isUnverified e \<longleftrightarrow> ts_badge (trustStyle e) \<noteq> ''''"
    by (cases "trustStateOf e"; simp add: isUnverified_def trustStyle_def)+
qed

theorem trust_fails_safe_witness:
  "isUnverified (the (parseEvent (JObj [(''id'', JStr ''e''), (''event_type'', JStr ''FIRE''), (''severity'', JStr ''HIGH''),
      (''title'', JStr ''Fire''), (''lat'', JInt 1), (''lng'', JInt 2), (''started_at'', JStr ''t''),
      (''trust_state'', JStr ''verified'')])))"
proof -
  let ?v = "JObj [(''id'', JStr ''e''), (''event_type'', JStr ''FIRE''), (''severity'', JStr ''HIGH''),
      (''title'', JStr ''Fire''), (''lat'', JInt 1), (''lng'', JInt 2), (''started_at'', JStr ''t''),
      (''trust_state'', JStr ''verified'')]"
  have "parseEvent ?v = Some (the (parseEvent ?v))"
    by (simp add: parseEvent_def jstr_def jreal_def jget_def Let_def)
  moreover have "map_option toLowerCase (jstr ''trust_state'' ?v) \<noteq> Some ''confirmed''"
    by (simp add: jstr_def jget_def toLowerCase_def to_lower_char_def)
  ultimately show ?thesis using trust_fails_safe [of ?v] by blast
qed

end
