(* ===== verification/Geo.thy ===== *)
theory Geo
  imports SafetyEvents Storage
begin

text \<open>
  Geography on the map: distances and bearings (\<open>utils/geo.ts\<close>), the map API client
  (\<open>services/mapApiService.ts\<close>), routes home and escape routes (\<open>services/routingService.ts\<close>), the
  nearest threat (\<open>hooks/useNearestThreat.ts\<close>) and the remembered viewport
  (\<open>hooks/useInitialViewport.ts\<close>). Numbers are real numbers; \<open>Infinity\<close> is \<open>None\<close>. The lemmas bound
  the distances, identify the loops with the minima they compute, and show what the checks on routes
  and stored viewports establish.
\<close>

section \<open>utils/geo.ts\<close>

record lat_lng =
  ll_lat :: real
  ll_lng :: real

definition DEG_TO_RAD :: real where "DEG_TO_RAD = pi / 180"
definition RAD_TO_DEG :: real where "RAD_TO_DEG = 180 / pi"
definition EARTH_RADIUS_KM :: real where "EARTH_RADIUS_KM = 6371"

text \<open>\<open>Math.atan2\<close> and \<open>Math.asin\<close>.\<close>

definition js_atan2 :: "real \<Rightarrow> real \<Rightarrow> real" where
  "js_atan2 y x =
     (if x > 0 then arctan (y / x)
      else if x < 0 then (if y \<ge> 0 then arctan (y / x) + pi else arctan (y / x) - pi)
      else if y > 0 then pi / 2 else if y < 0 then - pi / 2 else 0)"

text \<open>\<open>x % m\<close> for a non-negative number.\<close>

definition js_rem :: "real \<Rightarrow> real \<Rightarrow> real" where
  "js_rem x m = x - m * of_int \<lfloor>x / m\<rfloor>"

definition bearingBetween :: "lat_lng \<Rightarrow> lat_lng \<Rightarrow> real" where
  "bearingBetween from_pt to_pt =
     (let lat1 = ll_lat from_pt * DEG_TO_RAD; lat2 = ll_lat to_pt * DEG_TO_RAD;
          dLng = (ll_lng to_pt - ll_lng from_pt) * DEG_TO_RAD;
          y = sin dLng * cos lat2;
          x = cos lat1 * sin lat2 - sin lat1 * cos lat2 * cos dLng
      in js_rem (js_atan2 y x * RAD_TO_DEG + 360) 360)"

definition destinationPoint :: "lat_lng \<Rightarrow> real \<Rightarrow> real \<Rightarrow> lat_lng" where
  "destinationPoint origin distanceKm bearingDeg =
     (let d = distanceKm / EARTH_RADIUS_KM; bearing = bearingDeg * DEG_TO_RAD;
          lat1 = ll_lat origin * DEG_TO_RAD; lng1 = ll_lng origin * DEG_TO_RAD;
          lat2 = arcsin (sin lat1 * cos d + cos lat1 * sin d * cos bearing);
          lng2 = lng1 + js_atan2 (sin bearing * sin d * cos lat1) (cos d - sin lat1 * sin lat2)
      in \<lparr>ll_lat = lat2 * RAD_TO_DEG, ll_lng = lng2 * RAD_TO_DEG\<rparr>)"

definition haversine_h :: "lat_lng \<Rightarrow> lat_lng \<Rightarrow> real" where
  "haversine_h a b =
     (let dLat = (ll_lat b - ll_lat a) * DEG_TO_RAD; dLng = (ll_lng b - ll_lng a) * DEG_TO_RAD;
          sinDLat = sin (dLat / 2); sinDLng = sin (dLng / 2)
      in sinDLat * sinDLat + cos (ll_lat a * DEG_TO_RAD) * cos (ll_lat b * DEG_TO_RAD) * sinDLng * sinDLng)"

definition haversineKm :: "lat_lng \<Rightarrow> lat_lng \<Rightarrow> real" where
  "haversineKm a b = 2 * EARTH_RADIUS_KM * arcsin (sqrt (haversine_h a b))"

definition pointToSegmentDistance :: "lat_lng \<Rightarrow> lat_lng \<Rightarrow> lat_lng \<Rightarrow> real" where
  "pointToSegmentDistance p a b =
     (if haversineKm a b = 0 then haversineKm p a
      else
        (let t = max 0 (min 1
               (((ll_lat p - ll_lat a) * (ll_lat b - ll_lat a) + (ll_lng p - ll_lng a) * (ll_lng b - ll_lng a)) /
                ((ll_lat b - ll_lat a)\<^sup>2 + (ll_lng b - ll_lng a)\<^sup>2)))
         in haversineKm p \<lparr>ll_lat = ll_lat a + t * (ll_lat b - ll_lat a), ll_lng = ll_lng a + t * (ll_lng b - ll_lng a)\<rparr>))"

text \<open>Coordinates are pairs of longitude and latitude; the loop keeps the minimum so far.\<close>

definition coord :: "real \<times> real \<Rightarrow> lat_lng" where
  "coord c = \<lparr>ll_lat = snd c, ll_lng = fst c\<rparr>"

definition min_opt :: "real option \<Rightarrow> real \<Rightarrow> real option" where
  "min_opt m d = (case m of None \<Rightarrow> Some d | Some x \<Rightarrow> Some (min x d))"

fun segments_loop :: "lat_lng \<Rightarrow> (real \<times> real) list \<Rightarrow> real option \<Rightarrow> real option" where
  "segments_loop p (a # b # cs) m = segments_loop p (b # cs) (min_opt m (pointToSegmentDistance p (coord a) (coord b)))"
| "segments_loop p cs m = m"

definition pointToLineDistance :: "lat_lng \<Rightarrow> (real \<times> real) list \<Rightarrow> real option" where
  "pointToLineDistance p lineCoords =
     (case lineCoords of [c] \<Rightarrow> Some (haversineKm p (coord c)) | _ \<Rightarrow> segments_loop p lineCoords None)"

section \<open>Map API client\<close>

datatype fetch_outcome = Fetch_Aborted | Fetch_Failed | Fetch_Replied int "json option"

record route_result =
  rt_id :: string
  rt_coordinates :: "(real \<times> real) list"
  rt_distance :: real
  rt_duration :: real
  rt_warnings :: "json list"
  rt_degraded :: bool

definition reply_ok :: "int \<Rightarrow> bool" where
  "reply_ok status \<longleftrightarrow> 200 \<le> status \<and> status \<le> 299"

fun read_points :: "json list \<Rightarrow> (real \<times> real) list option" where
  "read_points [] = Some []"
| "read_points (v # vs) =
     (case v of
        JArr [JNum x, JNum y] \<Rightarrow> map_option (\<lambda>ps. (jnum_val x, jnum_val y) # ps) (read_points vs)
      | _ \<Rightarrow> None)"

definition read_route :: "json \<Rightarrow> route_result option" where
  "read_route v =
     (case (jget ''id'' v, jget ''coordinates'' v, jget ''distance_m'' v, jget ''duration_s'' v, jget ''warnings'' v, jget ''degraded'' v) of
        (Some (JStr i), Some (JArr ps), Some (JNum dm), Some (JNum dur), Some (JArr ws), Some (JBool b)) \<Rightarrow>
          (if i = '''' then None
           else map_option (\<lambda>cs. \<lparr>rt_id = i, rt_coordinates = cs, rt_distance = jnum_val dm, rt_duration = jnum_val dur,
                              rt_warnings = ws, rt_degraded = b\<rparr>) (read_points ps))
      | _ \<Rightarrow> None)"

fun read_routes :: "json list \<Rightarrow> route_result list option" where
  "read_routes [] = Some []"
| "read_routes (v # vs) = (case (read_route v, read_routes vs) of (Some r, Some rs) \<Rightarrow> Some (r # rs) | _ \<Rightarrow> None)"

text \<open>\<open>getRoute\<close> as a function of what the fetch gives; thrown errors carry their message.\<close>

definition getRoute :: "fetch_outcome \<Rightarrow> route_result list result" where
  "getRoute res =
     (case res of
        Fetch_Aborted \<Rightarrow> throw ''AbortError''
      | Fetch_Failed \<Rightarrow> throw ''Route provider is unavailable''
      | Fetch_Replied status body \<Rightarrow>
          throw_if (\<not> reply_ok status) (''Route request failed ('' @ int_str status @ '')'')
            (case Option.bind body (jget ''routes'') of
               Some (JArr vs) \<Rightarrow>
                 (case read_routes vs of Some rs \<Rightarrow> ok rs | None \<Rightarrow> throw ''Route provider returned an invalid response'')
             | _ \<Rightarrow> throw ''Route provider returned an invalid response''))"

text \<open>\<open>searchAddress\<close> returns the \<open>results\<close> field as it is; \<open>None\<close> is undefined.\<close>

definition searchAddress :: "fetch_outcome \<Rightarrow> json option result" where
  "searchAddress res =
     (case res of
        Fetch_Aborted \<Rightarrow> throw ''AbortError''
      | Fetch_Failed \<Rightarrow> throw ''Map search is unavailable''
      | Fetch_Replied status body \<Rightarrow>
          throw_if (\<not> reply_ok status) (''Map search failed ('' @ int_str status @ '')'')
            (case body of None \<Rightarrow> throw ''Map search is unavailable''
             | Some JNull \<Rightarrow> throw ''Map search is unavailable'' | Some v \<Rightarrow> ok (jget ''results'' v)))"

definition reverseGeocode :: "fetch_outcome \<Rightarrow> json option" where
  "reverseGeocode res =
     (case res of
        Fetch_Replied status (Some v) \<Rightarrow>
          (if \<not> reply_ok status then None
           else (case Option.bind (jget ''result'' v) (jget ''label'') of Some JNull \<Rightarrow> None | l \<Rightarrow> l))
      | _ \<Rightarrow> None)"

section \<open>Routes\<close>

datatype travel_mode = Walking | Driving | Cycling

record danger_zone =
  dz_lat :: real
  dz_lng :: real
  dz_radiusKm :: real

record home_route =
  hm_id :: string
  hm_coordinates :: "(real \<times> real) list"
  hm_distanceKm :: real
  hm_durationMin :: int
  hm_warnings :: "string list"
  hm_label :: string
  hm_mode :: travel_mode
  hm_alertIntersections :: nat

definition ROUTE_LABELS :: "string list" where
  "ROUTE_LABELS = [''Best route'', ''Route B'', ''Route C'']"

definition js_round :: "real \<Rightarrow> int" where
  "js_round x = \<lfloor>x + 1 / 2\<rfloor>"

definition at_most :: "real option \<Rightarrow> real \<Rightarrow> bool" where
  "at_most d r = (case d of Some x \<Rightarrow> x \<le> r | None \<Rightarrow> False)"

definition zone_hit :: "(real \<times> real) list \<Rightarrow> danger_zone \<Rightarrow> bool" where
  "zone_hit coords zone = at_most (pointToLineDistance \<lparr>ll_lat = dz_lat zone, ll_lng = dz_lng zone\<rparr> coords) (dz_radiusKm zone)"

fun count_hits :: "(real \<times> real) list \<Rightarrow> danger_zone list \<Rightarrow> nat \<Rightarrow> nat" where
  "count_hits coords [] n = n"
| "count_hits coords (z # zs) n = count_hits coords zs (if zone_hit coords z then n + 1 else n)"

definition route_label :: "nat \<Rightarrow> string" where
  "route_label i = (if i < length ROUTE_LABELS then ROUTE_LABELS ! i else ''Route '' @ nat_str (i + 1))"

definition to_home_route :: "danger_zone list \<Rightarrow> travel_mode \<Rightarrow> nat \<Rightarrow> route_result \<Rightarrow> home_route" where
  "to_home_route zones mode i r =
     (let hits = count_hits (rt_coordinates r) zones 0
      in \<lparr>hm_id = rt_id r, hm_coordinates = rt_coordinates r, hm_distanceKm = of_int (js_round (rt_distance r / 100)) / 10,
          hm_durationMin = js_round (rt_duration r / 60),
          hm_warnings = set_of_array (if hits \<noteq> 0 then [''Route intersects an alert area''] else []),
          hm_label = route_label i, hm_mode = mode, hm_alertIntersections = hits\<rparr>)"

definition fetchRouteToHome :: "fetch_outcome \<Rightarrow> danger_zone list \<Rightarrow> travel_mode \<Rightarrow> home_route list result" where
  "fetchRouteToHome res dangerZones mode =
     bind_result (getRoute res) (\<lambda>results.
       ok (map (\<lambda>(i, r). to_home_route dangerZones mode i r) (enumerate 0 (take 3 results))))"

definition ESCAPE_DISTANCE_KM :: real where "ESCAPE_DISTANCE_KM = 2"
definition SAFETY_BUFFER_KM :: real where "SAFETY_BUFFER_KM = 2 / 10"

record safe_route =
  sr_coordinates :: "(real \<times> real) list"
  sr_distanceKm :: real
  sr_durationMin :: int
  sr_label :: string

text \<open>\<open>String(n / 10)\<close> of an integer, and the label with its dash in UTF-8.\<close>

definition tenths_str :: "int \<Rightarrow> string" where
  "tenths_str n =
     (if n < 0 then ''-'' else '''') @ nat_str (nat \<bar>n\<bar> div 10) @ (if \<bar>n\<bar> mod 10 = 0 then '''' else ''.'' @ nat_str (nat (\<bar>n\<bar> mod 10)))"

definition safe_label :: "nat \<Rightarrow> real \<Rightarrow> string" where
  "safe_label n dm =
     ''Route '' @ nat_str n @ '' '' @ [CHR 0xE2, CHR 0x80, CHR 0x94] @ '' '' @ tenths_str (js_round (dm / 100)) @ '' km''"

definition passes_through :: "lat_lng \<Rightarrow> real \<Rightarrow> (real \<times> real) list \<Rightarrow> bool" where
  "passes_through event exclusionKm coords \<longleftrightarrow>
     list_ex (\<lambda>(lng, lat).
        (case pointToLineDistance \<lparr>ll_lat = lat, ll_lng = lng\<rparr> [(ll_lng event, ll_lat event), (ll_lng event, ll_lat event)] of
           Some d \<Rightarrow> d < exclusionKm | None \<Rightarrow> False)) coords"

definition escape_waypoints :: "lat_lng \<Rightarrow> lat_lng \<Rightarrow> lat_lng list" where
  "escape_waypoints user event =
     (let safeBearing = bearingBetween event user
      in map (destinationPoint user ESCAPE_DISTANCE_KM)
           [safeBearing, js_rem (safeBearing + 45) 360, js_rem (safeBearing - 45 + 360) 360])"

text \<open>\<open>fetch wp\<close> is the outcome of the request for waypoint \<open>wp\<close>; an error skips the waypoint.\<close>

fun safe_routes_loop :: "(lat_lng \<Rightarrow> fetch_outcome) \<Rightarrow> lat_lng \<Rightarrow> real \<Rightarrow> lat_lng list \<Rightarrow> safe_route list \<Rightarrow> safe_route list" where
  "safe_routes_loop fetch event exclusionKm [] acc = acc"
| "safe_routes_loop fetch event exclusionKm (wp # wps) acc =
     safe_routes_loop fetch event exclusionKm wps
       (case getRoute (fetch wp) of
          Inl _ \<Rightarrow> acc
        | Inr [] \<Rightarrow> acc
        | Inr (r # _) \<Rightarrow>
            if passes_through event exclusionKm (rt_coordinates r) then acc
            else acc @ [\<lparr>sr_coordinates = rt_coordinates r, sr_distanceKm = of_int (js_round (rt_distance r / 100)) / 10,
                         sr_durationMin = js_round (rt_duration r / 60), sr_label = safe_label (length acc + 1) (rt_distance r)\<rparr>])"

definition fetchSafeRoutes :: "(lat_lng \<Rightarrow> fetch_outcome) \<Rightarrow> lat_lng \<Rightarrow> lat_lng \<Rightarrow> real \<Rightarrow> safe_route list" where
  "fetchSafeRoutes fetch user event eventRadiusKm =
     take 3 (safe_routes_loop fetch event (eventRadiusKm + SAFETY_BUFFER_KM) (escape_waypoints user event) [])"

section \<open>Nearest threat\<close>

definition threat_distance :: "lat_lng \<Rightarrow> safety_event \<Rightarrow> real" where
  "threat_distance pos e =
     sqrt (((ev_lat e - ll_lat pos) * 111)\<^sup>2 + ((ev_lng e - ll_lng pos) * 111 * cos (ll_lat pos * pi / 180))\<^sup>2)"

fun nearest_loop :: "lat_lng \<Rightarrow> safety_event list \<Rightarrow> (safety_event \<times> real) option \<Rightarrow> (safety_event \<times> real) option" where
  "nearest_loop pos [] best = best"
| "nearest_loop pos (e # es) best =
     nearest_loop pos es
       (let d = threat_distance pos e
        in case best of None \<Rightarrow> Some (e, d) | Some (b, m) \<Rightarrow> if d < m then Some (e, d) else best)"

definition useNearestThreat :: "lat_lng option \<Rightarrow> safety_event list \<Rightarrow> (safety_event \<times> real) option" where
  "useNearestThreat pos items =
     (let events = filter ev_is_active items
      in case pos of None \<Rightarrow> None | Some p \<Rightarrow> nearest_loop p events None)"

text \<open>The watch callback takes at most one position a second; times are in milliseconds.\<close>

definition position_update :: "int \<Rightarrow> lat_lng \<Rightarrow> int \<times> lat_lng option \<Rightarrow> int \<times> lat_lng option" where
  "position_update now p s = (if now - fst s < 1000 then s else (now, Some p))"

section \<open>Viewport\<close>

record view_state =
  vs_longitude :: jnum
  vs_latitude :: jnum
  vs_zoom :: jnum

definition WORLD_CENTER :: view_state where
  "WORLD_CENTER = \<lparr>vs_longitude = Dec 0 0, vs_latitude = Dec 20 0, vs_zoom = Dec 2 0\<rparr>"

definition VIEWPORT_KEY :: string where "VIEWPORT_KEY = ''sentinel_last_viewport''"

definition view_ok :: "view_state \<Rightarrow> bool" where
  "view_ok v \<longleftrightarrow> \<bar>jnum_val (vs_longitude v)\<bar> \<le> 180 \<and> \<bar>jnum_val (vs_latitude v)\<bar> \<le> 90
     \<and> 0 \<le> jnum_val (vs_zoom v) \<and> jnum_val (vs_zoom v) \<le> 24"

definition isViewState :: "json \<Rightarrow> view_state option" where
  "isViewState v =
     (case (jget ''longitude'' v, jget ''latitude'' v, jget ''zoom'' v) of
        (Some (JNum x), Some (JNum y), Some (JNum z)) \<Rightarrow>
          (let s = \<lparr>vs_longitude = x, vs_latitude = y, vs_zoom = z\<rparr> in if view_ok s then Some s else None)
      | _ \<Rightarrow> None)"

definition useInitialViewport :: "local_storage option \<Rightarrow> view_state" where
  "useInitialViewport ls =
     (case Option.bind ls (\<lambda>l. idb_get l VIEWPORT_KEY) of
        None \<Rightarrow> WORLD_CENTER
      | Some saved \<Rightarrow>
          if saved = '''' then WORLD_CENTER
          else (case Option.bind (json_parse saved) isViewState of Some v \<Rightarrow> v | None \<Rightarrow> WORLD_CENTER))"

definition view_json :: "view_state \<Rightarrow> json" where
  "view_json v = JObj [(''longitude'', JNum (vs_longitude v)), (''latitude'', JNum (vs_latitude v)), (''zoom'', JNum (vs_zoom v))]"

definition persistViewport :: "view_state \<Rightarrow> local_storage option \<Rightarrow> local_storage option" where
  "persistViewport v ls = (if \<not> view_ok v then ls else map_option (\<lambda>l. idb_put l VIEWPORT_KEY (stringify (view_json v))) ls)"

section \<open>Distances\<close>

lemma sin_half_plus_cos: "(sin ((y - x) / 2))\<^sup>2 + cos x * cos y = (cos ((x + y) / 2))\<^sup>2" for x y :: real
proof -
  have "(sin u)\<^sup>2 + cos (v - u) * cos (v + u) = (cos v)\<^sup>2" for u v :: real
    unfolding cos_add cos_diff using sin_cos_squared_add [of u] sin_cos_squared_add [of v] by algebra
  note eq = this [of "(y - x) / 2" "(x + y) / 2"]
  have "(x + y) / 2 - (y - x) / 2 = x" "(x + y) / 2 + (y - x) / 2 = y"
    by (simp_all add: add_divide_distrib diff_divide_distrib)
  with eq show ?thesis by (simp only:)
qed

lemma cos_latitude: "\<bar>x\<bar> \<le> 90 \<Longrightarrow> 0 \<le> cos (x * DEG_TO_RAD)"
proof (rule cos_ge_zero)
  assume "\<bar>x\<bar> \<le> 90"
  then have "\<bar>x * DEG_TO_RAD\<bar> \<le> 90 * DEG_TO_RAD" by (simp add: DEG_TO_RAD_def abs_mult mult_right_mono)
  then show "- (pi / 2) \<le> x * DEG_TO_RAD" "x * DEG_TO_RAD \<le> pi / 2" by (simp_all add: DEG_TO_RAD_def abs_le_iff)
qed

lemma haversine_h_nonneg: "\<bar>ll_lat a\<bar> \<le> 90 \<Longrightarrow> \<bar>ll_lat b\<bar> \<le> 90 \<Longrightarrow> 0 \<le> haversine_h a b"
  by (simp add: haversine_h_def Let_def mult.assoc cos_latitude)

lemma haversine_h_le_1:
  assumes "\<bar>ll_lat a\<bar> \<le> 90" "\<bar>ll_lat b\<bar> \<le> 90"
  shows "haversine_h a b \<le> 1"
proof -
  let ?a = "ll_lat a * DEG_TO_RAD" and ?b = "ll_lat b * DEG_TO_RAD" and ?s = "sin ((ll_lng b - ll_lng a) * DEG_TO_RAD / 2)"
  have "?s * ?s \<le> 1" using abs_sin_le_one [of "(ll_lng b - ll_lng a) * DEG_TO_RAD / 2"]
    by (metis abs_square_le_1 power2_eq_square)
  then have "cos ?a * cos ?b * (?s * ?s) \<le> cos ?a * cos ?b * 1"
    using assms by (intro mult_left_mono mult_nonneg_nonneg cos_latitude)
  moreover have "(sin ((?b - ?a) / 2))\<^sup>2 + cos ?a * cos ?b = (cos ((?a + ?b) / 2))\<^sup>2" by (rule sin_half_plus_cos)
  moreover have "(cos ((?a + ?b) / 2))\<^sup>2 \<le> 1" by (simp add: abs_square_le_1)
  moreover have "(ll_lat b - ll_lat a) * DEG_TO_RAD = ?b - ?a" by (rule left_diff_distrib)
  ultimately show ?thesis unfolding haversine_h_def Let_def by (simp only: mult.assoc power2_eq_square)
qed

lemma haversine_h_sym: "haversine_h a b = haversine_h b a"
proof -
  have "sin ((x - y) * DEG_TO_RAD / 2) = - sin ((y - x) * DEG_TO_RAD / 2)" for x y
    by (metis minus_diff_eq minus_divide_left mult_minus_left sin_minus)
  note eq = this
  show ?thesis unfolding haversine_h_def Let_def
    by (subst (1 2 3 4) eq) (simp add: mult.commute mult.left_commute)
qed

text \<open>
  The distance between two points on the globe is a distance. It does not depend on the
  direction, is zero from a point to itself, is never negative and never more than half the
  circumference of the earth, so the arc sine is always taken within its domain.
\<close>

theorem haversine_is_distance:
  assumes "\<bar>ll_lat a\<bar> \<le> 90" and "\<bar>ll_lat b\<bar> \<le> 90"
  shows "haversineKm a b = haversineKm b a \<and> haversineKm a a = 0
    \<and> 0 \<le> haversineKm a b \<and> haversineKm a b \<le> pi * EARTH_RADIUS_KM \<and> 0 \<le> haversine_h a b \<and> haversine_h a b \<le> 1"
proof -
  have h: "0 \<le> haversine_h a b" "haversine_h a b \<le> 1"
    using haversine_h_nonneg [OF assms] haversine_h_le_1 [OF assms] by auto
  then have s: "0 \<le> sqrt (haversine_h a b)" "sqrt (haversine_h a b) \<le> 1" by simp_all
  have "0 \<le> arcsin (sqrt (haversine_h a b))" using s arcsin_le_mono [of 0 "sqrt (haversine_h a b)"] by simp
  moreover have "arcsin (sqrt (haversine_h a b)) \<le> pi / 2" using s by (intro arcsin_ubound) linarith+
  ultimately have "0 \<le> haversineKm a b" "haversineKm a b \<le> pi * EARTH_RADIUS_KM"
    by (simp_all add: haversineKm_def EARTH_RADIUS_KM_def)
  with h show ?thesis using haversine_h_sym [of a b] by (simp add: haversineKm_def haversine_h_def)
qed

theorem haversine_is_distance_witness:
  "haversineKm \<lparr>ll_lat = 10, ll_lng = 20\<rparr> \<lparr>ll_lat = -30, ll_lng = 170\<rparr> \<le> pi * 6371"
  using haversine_is_distance [of "\<lparr>ll_lat = 10, ll_lng = 20\<rparr>" "\<lparr>ll_lat = -30, ll_lng = 170\<rparr>"]
  by (simp add: EARTH_RADIUS_KM_def)

section \<open>Minima\<close>

fun segment_list :: "(real \<times> real) list \<Rightarrow> ((real \<times> real) \<times> (real \<times> real)) list" where
  "segment_list (a # b # cs) = (a, b) # segment_list (b # cs)"
| "segment_list cs = []"

lemma segments_loop_min:
  "segments_loop p cs m = foldl min_opt m (map (\<lambda>(a, b). pointToSegmentDistance p (coord a) (coord b)) (segment_list cs))"
  by (induction p cs m rule: segments_loop.induct) simp_all

lemma foldl_min_opt: "ds \<noteq> [] \<Longrightarrow> foldl min_opt None ds = Some (Min (set ds))"
proof -
  have some: "foldl min_opt (Some x) ds = Some (Min (insert x (set ds)))" for x ds
  proof (induction ds arbitrary: x)
    case (Cons d ds)
    have "Min (insert (min x d) (set ds)) = Min (insert x (insert d (set ds)))"
      by (cases "set ds = {}") (auto simp: min.assoc)
    with Cons show ?case by (simp add: min_opt_def)
  qed simp
  show "ds \<noteq> [] \<Longrightarrow> foldl min_opt None ds = Some (Min (set ds))"
    using some by (cases ds) (simp_all add: min_opt_def)
qed

text \<open>
  C34: the distance to a polyline is the minimum over its segments. The loop that keeps a running
  minimum, starting from infinity, returns exactly the smallest distance to any segment of a line
  of at least two points; a single point is measured directly, and an empty line is infinitely far.
\<close>

theorem line_distance_is_minimum:
  "pointToLineDistance p [] = None
   \<and> pointToLineDistance p [c] = Some (haversineKm p (coord c))
   \<and> pointToLineDistance p (a # b # cs) =
       Some (Min ((\<lambda>(x, y). pointToSegmentDistance p (coord x) (coord y)) ` set (segment_list (a # b # cs))))"
  using foldl_min_opt [of "map (\<lambda>(x, y). pointToSegmentDistance p (coord x) (coord y)) (segment_list (a # b # cs))"]
  by (simp add: pointToLineDistance_def segments_loop_min del: segments_loop.simps(1))

lemma nearest_loop_some:
  "nearest_loop pos es (Some (b, threat_distance pos b)) = Some (e, d) \<Longrightarrow>
     e \<in> insert b (set es) \<and> d = threat_distance pos e
     \<and> (\<forall>x\<in>insert b (set es). d \<le> threat_distance pos x)"
proof (induction es arbitrary: b)
  case (Cons x es)
  show ?case
  proof (cases "threat_distance pos x < threat_distance pos b")
    case True
    then have "nearest_loop pos es (Some (x, threat_distance pos x)) = Some (e, d)" using Cons.prems by (simp add: Let_def)
    from Cons.IH [OF this] True show ?thesis by fastforce
  next
    case False
    then have "nearest_loop pos es (Some (b, threat_distance pos b)) = Some (e, d)" using Cons.prems by (simp add: Let_def)
    from Cons.IH [OF this] False show ?thesis by fastforce
  qed
qed simp

lemma nearest_loop_total: "nearest_loop pos es (Some best) \<noteq> None"
  by (induction es arbitrary: best) (auto simp: Let_def split: if_splits)

text \<open>
  The threat shown as nearest is the nearest. With a known position, some event is shown
  exactly when one is active; it is an active event, the distance shown is its distance, and no
  active event is closer.
\<close>

theorem nearest_threat_correct:
  "(useNearestThreat pos items = None \<longleftrightarrow> pos = None \<or> (\<forall>e\<in>set items. \<not> ev_is_active e))
   \<and> (\<forall>p e d. pos = Some p \<and> useNearestThreat pos items = Some (e, d) \<longrightarrow>
        e \<in> set items \<and> ev_is_active e \<and> d = threat_distance p e
        \<and> (\<forall>x\<in>set items. ev_is_active x \<longrightarrow> d \<le> threat_distance p x))"
proof (cases "filter ev_is_active items")
  case Nil
  then show ?thesis by (auto simp: useNearestThreat_def filter_empty_conv split: option.splits)
next
  case (Cons b es)
  then have act: "{x \<in> set items. ev_is_active x} = insert b (set es)" by (metis list.simps(15) set_filter)
  have run: "useNearestThreat pos items = (case pos of None \<Rightarrow> None | Some p \<Rightarrow> nearest_loop p es (Some (b, threat_distance p b)))"
    by (simp add: useNearestThreat_def Cons Let_def split: option.splits)
  have ex: "\<exists>e\<in>set items. ev_is_active e" using act by blast
  show ?thesis
  proof (cases pos)
    case (Some p)
    have "e \<in> set items \<and> ev_is_active e \<and> d = threat_distance p e
        \<and> (\<forall>x\<in>set items. ev_is_active x \<longrightarrow> d \<le> threat_distance p x)"
      if "nearest_loop p es (Some (b, threat_distance p b)) = Some (e, d)" for e d
      using nearest_loop_some [OF that] unfolding act [symmetric] by blast
    with Some ex show ?thesis unfolding run by (simp add: nearest_loop_total)
  qed (simp add: useNearestThreat_def)
qed

theorem nearest_threat_correct_witness:
  "\<exists>d. useNearestThreat (Some \<lparr>ll_lat = 0, ll_lng = 0\<rparr>) [sample_event ''e'' ''2024'', (sample_event ''f'' ''2024'')\<lparr>ev_is_active := False\<rparr>]
     = Some (sample_event ''e'' ''2024'', d)"
proof -
  let ?es = "[sample_event ''e'' ''2024'', (sample_event ''f'' ''2024'')\<lparr>ev_is_active := False\<rparr>]"
  let ?pos = "\<lparr>ll_lat = 0, ll_lng = 0\<rparr> :: lat_lng"
  note t = nearest_threat_correct [of "Some ?pos" ?es]
  have act: "ev_is_active (sample_event ''e'' ''2024'')" by (simp add: sample_event_def)
  then obtain e d where "useNearestThreat (Some ?pos) ?es = Some (e, d)" using t by force
  moreover from this t have "e \<in> set ?es" "ev_is_active e" by blast+
  ultimately show ?thesis by auto
qed

section \<open>Routes and viewport\<close>

lemma count_hits_filter: "count_hits coords zs n = n + length (filter (zone_hit coords) zs)"
  by (induction coords zs n rule: count_hits.induct) auto

text \<open>
  A route home is flagged exactly when it is dangerous. Of each of the at most three routes
  shown, the number of alert areas counted is the number of areas whose centre is within their
  radius of the drawn line, and a warning is given if and only if that number is not zero; routes
  keep the provider's order, coordinates and ids.
\<close>

theorem home_routes_flagged:
  assumes "getRoute res = ok results" and "fetchRouteToHome res zones mode = ok routes"
  shows "length routes = min 3 (length results)
    \<and> (\<forall>i<length routes. hm_id (routes ! i) = rt_id (results ! i) \<and> hm_coordinates (routes ! i) = rt_coordinates (results ! i)
        \<and> hm_alertIntersections (routes ! i) = length (filter (zone_hit (rt_coordinates (results ! i))) zones)
        \<and> (hm_warnings (routes ! i) \<noteq> [] \<longleftrightarrow> (\<exists>z\<in>set zones. zone_hit (rt_coordinates (results ! i)) z)))"
proof -
  have routes: "routes = map (\<lambda>(i, r). to_home_route zones mode i r) (enumerate 0 (take 3 results))"
    using assms by (simp add: fetchRouteToHome_def)
  have "hm_warnings (to_home_route zones mode i r) \<noteq> [] \<longleftrightarrow> (\<exists>z\<in>set zones. zone_hit (rt_coordinates r) z)" for i r
    by (simp add: to_home_route_def Let_def count_hits_filter filter_empty_conv set_of_array_def set_add_def)
  then show ?thesis
    by (simp add: routes nth_enumerate_eq count_hits_filter) (simp add: to_home_route_def Let_def count_hits_filter)
qed

theorem home_routes_flagged_witness:
  "\<exists>routes. fetchRouteToHome (Fetch_Replied 200 (Some (JObj [(''routes'', JArr [])]))) [] Walking = ok routes \<and> length routes = 0"
proof -
  have g: "getRoute (Fetch_Replied 200 (Some (JObj [(''routes'', JArr [])]))) = ok []"
    by (simp add: getRoute_def reply_ok_def jget_def)
  then have f: "fetchRouteToHome (Fetch_Replied 200 (Some (JObj [(''routes'', JArr [])]))) [] Walking = ok []"
    by (simp add: fetchRouteToHome_def)
  from home_routes_flagged [OF g f] f show ?thesis by simp
qed

lemma haversine_equator:
  assumes "\<bar>x - y\<bar> \<le> 180"
  shows "haversineKm \<lparr>ll_lat = 0, ll_lng = x\<rparr> \<lparr>ll_lat = 0, ll_lng = y\<rparr> = EARTH_RADIUS_KM * (\<bar>x - y\<bar> * DEG_TO_RAD)"
proof -
  let ?t = "(y - x) * DEG_TO_RAD / 2"
  have t: "\<bar>?t\<bar> = \<bar>x - y\<bar> * DEG_TO_RAD / 2" by (simp add: DEG_TO_RAD_def abs_mult abs_minus_commute)
  have b: "\<bar>?t\<bar> \<le> pi / 2" unfolding t using assms by (simp add: DEG_TO_RAD_def field_simps)
  have "sqrt (haversine_h \<lparr>ll_lat = 0, ll_lng = x\<rparr> \<lparr>ll_lat = 0, ll_lng = y\<rparr>) = \<bar>sin ?t\<bar>"
    by (simp add: haversine_h_def Let_def flip: power2_eq_square)
  also have "\<dots> = sin \<bar>?t\<bar>"
  proof -
    have "0 \<le> sin \<bar>?t\<bar>" using b pi_ge_zero by (intro sin_ge_zero) linarith+
    moreover have "sin \<bar>?t\<bar> = sin ?t \<or> sin \<bar>?t\<bar> = - sin ?t" by (simp add: abs_if)
    ultimately show ?thesis by linarith
  qed
  finally have "arcsin (sqrt (haversine_h \<lparr>ll_lat = 0, ll_lng = x\<rparr> \<lparr>ll_lat = 0, ll_lng = y\<rparr>)) = \<bar>?t\<bar>"
    using arcsin_sin [of "\<bar>?t\<bar>"] b pi_ge_zero by simp
  then show ?thesis unfolding haversineKm_def t by simp
qed

text \<open>
  The check that keeps escape routes out of the danger zone looks at the corners of a route
  only. A straight leg along the equator from one side of an event to the other passes right
  through it, yet the route is not excluded by any radius up to 70 km.
\<close>

theorem escape_route_check_misses_crossing:
  assumes "exclusion \<le> 70"
  shows "let event = \<lparr>ll_lat = 0, ll_lng = 0\<rparr>; route = [(-1, 0), (1, 0)]
    in \<not> passes_through event exclusion route \<and> pointToLineDistance event route = Some 0"
proof -
  have deg: "70 < EARTH_RADIUS_KM * DEG_TO_RAD"
    using pi_ge_two by (simp add: EARTH_RADIUS_KM_def DEG_TO_RAD_def)
  have zero: "haversineKm p p = 0" for p by (simp add: haversineKm_def haversine_h_def)
  have d: "haversineKm \<lparr>ll_lat = 0, ll_lng = x\<rparr> \<lparr>ll_lat = 0, ll_lng = 0\<rparr> = EARTH_RADIUS_KM * DEG_TO_RAD" if "\<bar>x\<bar> = 1" for x
    using haversine_equator [of x 0] that by simp
  have "\<not> EARTH_RADIUS_KM * DEG_TO_RAD < exclusion" using deg assms by linarith
  moreover have "haversineKm \<lparr>ll_lat = 0, ll_lng = -1\<rparr> \<lparr>ll_lat = 0, ll_lng = 1\<rparr> \<noteq> 0"
    using haversine_equator [of "-1" 1] deg by auto
  ultimately show ?thesis
    by (simp add: passes_through_def pointToLineDistance_def pointToSegmentDistance_def coord_def zero d min_opt_def)
qed

theorem escape_route_check_misses_crossing_witness:
  "\<not> passes_through \<lparr>ll_lat = 0, ll_lng = 0\<rparr> (2 + SAFETY_BUFFER_KM) [(-1, 0), (1, 0)]"
  using escape_route_check_misses_crossing [of "2 + SAFETY_BUFFER_KM"] by (simp add: SAFETY_BUFFER_KM_def Let_def)

lemma isViewState_ok: "isViewState v = Some s \<Longrightarrow> view_ok s"
  by (auto simp: isViewState_def Let_def split: option.splits json.splits if_splits)

text \<open>
  The map always opens on the globe. Whatever localStorage holds, or if there is none, the
  initial viewport has a valid longitude, latitude and zoom; a viewport that was saved is opened
  again exactly, and an invalid one is never saved.
\<close>

theorem viewport_always_valid:
  "view_ok (useInitialViewport ls)
   \<and> (view_ok v \<longrightarrow> useInitialViewport (persistViewport v (Some l)) = v)
   \<and> (\<not> view_ok v \<longrightarrow> persistViewport v ls = ls)"
proof (intro conjI impI)
  have "view_ok WORLD_CENTER" by (simp add: view_ok_def WORLD_CENTER_def jnum_val_def)
  then show "view_ok (useInitialViewport ls)"
    by (auto simp: useInitialViewport_def Option.bind_eq_Some_conv dest: isViewState_ok split: option.splits)
next
  assume v: "view_ok v"
  have parse: "json_parse (stringify (view_json v)) = Some (view_json v)"
    by (rule json_roundtrip) (simp add: view_json_def)
  have "isViewState (view_json v) = Some v" using v by (simp add: isViewState_def view_json_def jget_def view_ok_def Let_def)
  moreover have "stringify (view_json v) \<noteq> ''''" by (simp add: view_json_def)
  ultimately show "useInitialViewport (persistViewport v (Some l)) = v"
    using v parse by (simp add: useInitialViewport_def persistViewport_def del: stringify.simps)
qed (simp add: persistViewport_def)

theorem viewport_always_valid_witness:
  "useInitialViewport (persistViewport \<lparr>vs_longitude = Dec 5 0, vs_latitude = Dec 6 0, vs_zoom = Dec 7 0\<rparr> (Some []))
     = \<lparr>vs_longitude = Dec 5 0, vs_latitude = Dec 6 0, vs_zoom = Dec 7 0\<rparr>"
  using viewport_always_valid [of None "\<lparr>vs_longitude = Dec 5 0, vs_latitude = Dec 6 0, vs_zoom = Dec 7 0\<rparr>" "[]"]
  by (simp add: view_ok_def jnum_val_def del: stringify.simps)

end
