(* ===== verification/Circles.thy ===== *)
theory Circles
  imports CircleKeys Geo
begin

text \<open>
  Family circles: the Redux slice (\<open>store/circlesSlice.ts\<close>), loading circles from the server
  (\<open>hooks/useCircles.ts\<close>), the location socket (\<open>services/circleWebSocket.ts\<close>), proximity alerts
  (\<open>hooks/useProximityAlerts.ts\<close>) and the location publisher (\<open>services/locationPublisher.ts\<close>). The
  asynchronous handlers are split at their awaits: an envelope is accepted against the roster of its
  arrival and settled later. The lemmas show the invariant of the slice, that a member's displayed
  location never goes back in time, that alerts are exactly those the rules ask for, and that the
  publisher sends one location at a time and never after it has stopped.
\<close>

section \<open>The slice\<close>

record circle =
  ci_id :: string
  ci_name :: "string option"
  ci_name_ciphertext :: "string option"
  ci_name_version :: "int option"
  ci_key_epoch :: "int option"
  ci_location_protocol_version :: "int option"
  ci_rekey_required :: "bool option"
  ci_membership_revision :: "int option"
  ci_self_token :: "string option"
  ci_created_at :: string
  ci_is_owner :: bool

record circle_member =
  cm_circle_id :: string
  cm_token :: "string option"
  cm_alert_radius_km :: "real option"
  cm_alert_severity :: "string option"
  cm_joined_at :: string
  cm_label_ciphertext :: "string option"
  cm_state :: "membership_state option"
  cm_accepted_at :: "string option"
  cm_key_wrap_epoch :: "int option"
  cm_pubkey :: "string option"
  cm_label :: "string option"

datatype member_status = Online | Ghost | Member_Offline

record proximity_alert =
  pa_id :: string
  pa_member_pubkey :: string
  pa_zone_name :: string
  pa_event_id :: "string option"
  pa_severity :: string
  pa_triggered_at :: string

record decrypted_location =
  dl_lat :: real
  dl_lng :: real
  dl_ts :: string
  dl_event_id :: "string option"
  dl_expires_at :: "int option"
  dl_accuracy_m :: "real option"
  dl_precision :: "location_precision option"

record circle_epoch =
  ce_key_epoch :: int
  ce_rekey_required :: bool

record circles_state =
  cs_circles :: "circle list"
  cs_activeCircleId :: "string option"
  cs_members :: "(string \<times> circle_member list) list"
  cs_epochs :: "(string \<times> circle_epoch) list"
  cs_memberStatuses :: "(string \<times> member_status) list"
  cs_decryptedLocations :: "(string \<times> decrypted_location) list"
  cs_proximityAlerts :: "proximity_alert list"
  cs_activeAlert :: "proximity_alert option"
  cs_decryptErrors :: "string list"

definition circles_initial :: circles_state where
  "circles_initial = \<lparr>cs_circles = [], cs_activeCircleId = None, cs_members = [], cs_epochs = [], cs_memberStatuses = [],
     cs_decryptedLocations = [], cs_proximityAlerts = [], cs_activeAlert = None, cs_decryptErrors = []\<rparr>"

text \<open>The roster loop of \<open>circleLoaded\<close>.\<close>

definition offline_unless_known :: "(string \<times> member_status) list \<Rightarrow> circle_member \<Rightarrow> (string \<times> member_status) list" where
  "offline_unless_known st m =
     (if truthy (cm_pubkey m) \<and> map_of st (the (cm_pubkey m)) = None then map_set st (the (cm_pubkey m)) Member_Offline else st)"

definition circleLoaded :: "circles_state \<Rightarrow> circle \<Rightarrow> circle_member list \<Rightarrow> circles_state" where
  "circleLoaded s c members =
     (let circles = (case find_index (\<lambda>x. ci_id x = ci_id c) (cs_circles s) of
           Some i \<Rightarrow> (cs_circles s)[i := c] | None \<Rightarrow> cs_circles s @ [c])
      in s\<lparr>cs_circles := circles, cs_members := map_set (cs_members s) (ci_id c) members, cs_activeCircleId := Some (ci_id c),
           cs_memberStatuses := foldl offline_unless_known (cs_memberStatuses s) members\<rparr>)"

definition circleEpochChanged :: "circles_state \<Rightarrow> string \<Rightarrow> int \<Rightarrow> bool \<Rightarrow> circles_state" where
  "circleEpochChanged s circle_id key_epoch rekey_required =
     s\<lparr>cs_epochs := map_set (cs_epochs s) circle_id \<lparr>ce_key_epoch = key_epoch, ce_rekey_required = rekey_required\<rparr>,
       cs_circles := (case find_index (\<lambda>x. ci_id x = circle_id) (cs_circles s) of
           None \<Rightarrow> cs_circles s
         | Some i \<Rightarrow> (cs_circles s)[i := ((cs_circles s) ! i)\<lparr>ci_key_epoch := Some key_epoch, ci_rekey_required := Some rekey_required\<rparr>])\<rparr>"

definition memberStatusUpdated :: "circles_state \<Rightarrow> string \<Rightarrow> member_status \<Rightarrow> circles_state" where
  "memberStatusUpdated s pubkey status = s\<lparr>cs_memberStatuses := map_set (cs_memberStatuses s) pubkey status\<rparr>"

definition locationReceived :: "circles_state \<Rightarrow> string \<Rightarrow> decrypted_location \<Rightarrow> circles_state" where
  "locationReceived s pubkey loc =
     s\<lparr>cs_decryptedLocations := map_set (cs_decryptedLocations s) pubkey loc,
       cs_memberStatuses := map_set (cs_memberStatuses s) pubkey Online\<rparr>"

definition memberRemoved :: "circles_state \<Rightarrow> string \<Rightarrow> string option \<Rightarrow> string option \<Rightarrow> circles_state" where
  "memberRemoved s circle_id pubkey token =
     (let s1 = (case map_of (cs_members s) circle_id of
           None \<Rightarrow> s
         | Some members \<Rightarrow> s\<lparr>cs_members := map_set (cs_members s) circle_id
             (filter (\<lambda>m. if pubkey \<noteq> None then cm_pubkey m \<noteq> pubkey else cm_token m \<noteq> token) members)\<rparr>)
      in if truthy pubkey
         then s1\<lparr>cs_decryptedLocations := map_delete (cs_decryptedLocations s1) (the pubkey),
                 cs_memberStatuses := map_delete (cs_memberStatuses s1) (the pubkey)\<rparr>
         else s1)"

definition memberAccepted :: "circles_state \<Rightarrow> string \<Rightarrow> string \<Rightarrow> circles_state" where
  "memberAccepted s circle_id pubkey =
     (case map_of (cs_members s) circle_id of
        None \<Rightarrow> s
      | Some members \<Rightarrow> s\<lparr>cs_members := map_set (cs_members s) circle_id
          (map (\<lambda>m. if truthy (cm_pubkey m) \<and> toLowerCase (the (cm_pubkey m)) = toLowerCase pubkey
                    then m\<lparr>cm_state := Some Active\<rparr> else m) members)\<rparr>)"

definition locationsPruned :: "circles_state \<Rightarrow> int \<Rightarrow> circles_state" where
  "locationsPruned s now =
     s\<lparr>cs_decryptedLocations := filter (\<lambda>(p, loc). case dl_expires_at loc of Some t \<Rightarrow> \<not> t \<le> now | None \<Rightarrow> True)
         (cs_decryptedLocations s)\<rparr>"

definition proximityAlertAdded :: "circles_state \<Rightarrow> proximity_alert \<Rightarrow> circles_state" where
  "proximityAlertAdded s a =
     (if list_ex (\<lambda>b. pa_id b = pa_id a) (cs_proximityAlerts s) then s
      else s\<lparr>cs_proximityAlerts := a # cs_proximityAlerts s, cs_activeAlert := Some a\<rparr>)"

definition activeAlertDismissed :: "circles_state \<Rightarrow> circles_state" where
  "activeAlertDismissed s = s\<lparr>cs_activeAlert := None\<rparr>"

definition circleDecryptError :: "circles_state \<Rightarrow> string \<Rightarrow> circles_state" where
  "circleDecryptError s e = s\<lparr>cs_decryptErrors := take 3 (e # cs_decryptErrors s)\<rparr>"

definition circleLeft :: "circles_state \<Rightarrow> circles_state" where
  "circleLeft s = circles_initial"

datatype circles_action =
    CircleLoaded circle "circle_member list"
  | CircleEpochChanged string int bool
  | MemberStatusUpdated string member_status
  | LocationReceived string decrypted_location
  | MemberRemoved string "string option" "string option"
  | MemberAccepted string string
  | LocationsPruned int
  | ProximityAlertAdded proximity_alert
  | ActiveAlertDismissed
  | CircleDecryptError string
  | CircleLeft

fun circles_reducer :: "circles_state \<Rightarrow> circles_action \<Rightarrow> circles_state" where
  "circles_reducer s (CircleLoaded c ms) = circleLoaded s c ms"
| "circles_reducer s (CircleEpochChanged i e r) = circleEpochChanged s i e r"
| "circles_reducer s (MemberStatusUpdated p st) = memberStatusUpdated s p st"
| "circles_reducer s (LocationReceived p loc) = locationReceived s p loc"
| "circles_reducer s (MemberRemoved i p t) = memberRemoved s i p t"
| "circles_reducer s (MemberAccepted i p) = memberAccepted s i p"
| "circles_reducer s (LocationsPruned now) = locationsPruned s now"
| "circles_reducer s (ProximityAlertAdded a) = proximityAlertAdded s a"
| "circles_reducer s ActiveAlertDismissed = activeAlertDismissed s"
| "circles_reducer s (CircleDecryptError e) = circleDecryptError s e"
| "circles_reducer s CircleLeft = circleLeft s"

section \<open>Loading circles\<close>

record raw_member =
  rm_circle_id :: string
  rm_token :: "string option"
  rm_label_ciphertext :: "string option"
  rm_alert_radius_km :: "real option"
  rm_alert_severity :: "string option"
  rm_state :: "membership_state option"
  rm_accepted_at :: "string option"
  rm_key_wrap_epoch :: "int option"
  rm_joined_at :: string

record key_wrap =
  kw_version :: "int option"
  kw_event :: "nostr_event option"
  kw_ciphertext :: "string option"

record raw_circle =
  rc_id :: string
  rc_name :: "string option"
  rc_name_ciphertext :: "string option"
  rc_name_version :: "int option"
  rc_key_epoch :: "int option"
  rc_location_protocol_version :: "int option"
  rc_rekey_required :: "bool option"
  rc_membership_revision :: "int option"
  rc_self_token :: "string option"
  rc_created_at :: string
  rc_is_owner :: "bool option"
  rc_members :: "raw_member list"
  rc_my_key_wrap :: "key_wrap option"

definition or_else :: "'a option \<Rightarrow> 'a \<Rightarrow> 'a" where
  "or_else v d = (case v of Some x \<Rightarrow> x | None \<Rightarrow> d)"

text \<open>The device as this component uses it; an error while unwrapping leaves it unchanged.\<close>

definition unwrap_my_key ::
  "'k web_crypto \<Rightarrow> nostr_tools \<Rightarrow> 'k vault_entropy \<Rightarrow> nostr_keypair \<Rightarrow> raw_circle \<Rightarrow> string \<Rightarrow> 'k circle_state \<Rightarrow> 'k circle_state" where
  "unwrap_my_key wc lib ent kp detail owner st =
     (case rc_my_key_wrap detail of
        None \<Rightarrow> st
      | Some w \<Rightarrow>
          (if kw_version w = Some 2 \<and> kw_event w \<noteq> None
           then (case unwrapNip44CircleKey wc lib ent kp (rc_id detail) owner (the (kw_event w)) st of
                   Inr (st', e) \<Rightarrow> st' | Inl _ \<Rightarrow> st)
           else if truthy (kw_ciphertext w)
           then (case unwrapLegacyCircleKey wc lib ent kp (rc_id detail) owner (the (kw_ciphertext w)) st of
                   Inr st' \<Rightarrow> st' | Inl _ \<Rightarrow> st)
           else st))"

definition find_key ::
  "'k web_crypto \<Rightarrow> nostr_tools \<Rightarrow> 'k vault_entropy \<Rightarrow> nostr_keypair \<Rightarrow> raw_circle \<Rightarrow> 'k circle_state \<Rightarrow> ('k circle_state \<times> 'k option) result" where
  "find_key wc lib ent kp detail st =
     (let keyEpoch = or_else (rc_key_epoch detail) 1
      in bind_result (loadCircleKey wc ent (rc_id detail) keyEpoch st) (\<lambda>(st1, key).
           if key = None \<and> rc_my_key_wrap detail \<noteq> None
           then
             (case getCircleOwnerKey (cs_local st1) (rc_id detail) of
                None \<Rightarrow> ok (st1, None)
              | Some owner \<Rightarrow> loadCircleKey wc ent (rc_id detail) keyEpoch (unwrap_my_key wc lib ent kp detail owner st1))
           else ok (st1, key)))"

definition display_name :: "'k web_crypto \<Rightarrow> 'k option \<Rightarrow> raw_circle \<Rightarrow> string" where
  "display_name wc key detail =
     (case key of
        Some k \<Rightarrow>
          (if rc_name_version detail = Some 1 \<and> truthy (rc_name_ciphertext detail)
           then or_else (decryptString wc k (the (rc_name_ciphertext detail))) ''(locked)''
           else or_else (rc_name detail) ''(unnamed)'')
      | None \<Rightarrow> or_else (rc_name detail) ''(unnamed)'')"

text \<open>
  The label of a member: the decrypted text, when not empty, is parsed and its two fields are
  taken as they are; a field that is not a string is left out here, since nothing compares equal
  to it.
\<close>

definition label_fields :: "'k web_crypto \<Rightarrow> 'k option \<Rightarrow> raw_member \<Rightarrow> string option \<times> string option" where
  "label_fields wc key m =
     (case key of
        None \<Rightarrow> (None, None)
      | Some k \<Rightarrow>
          (if truthy (rm_label_ciphertext m) \<and> truthy (decryptString wc k (the (rm_label_ciphertext m)))
           then (case json_parse (the (decryptString wc k (the (rm_label_ciphertext m)))) of
                   Some v \<Rightarrow> (field js_str ''pubkey'' v, field js_str ''name'' v)
                 | None \<Rightarrow> (None, None))
           else (None, None)))"

definition to_member :: "'k web_crypto \<Rightarrow> 'k option \<Rightarrow> raw_member \<Rightarrow> circle_member" where
  "to_member wc key m =
     \<lparr>cm_circle_id = rm_circle_id m, cm_token = rm_token m,
      cm_alert_radius_km = Some (or_else (rm_alert_radius_km m) 5),
      cm_alert_severity = Some (or_else (rm_alert_severity m) ''MEDIUM''), cm_joined_at = rm_joined_at m,
      cm_label_ciphertext = rm_label_ciphertext m, cm_state = Some (or_else (rm_state m) Active),
      cm_accepted_at = rm_accepted_at m, cm_key_wrap_epoch = rm_key_wrap_epoch m,
      cm_pubkey = fst (label_fields wc key m), cm_label = snd (label_fields wc key m)\<rparr>"

definition to_circle :: "'k web_crypto \<Rightarrow> 'k option \<Rightarrow> raw_circle \<Rightarrow> circle" where
  "to_circle wc key d =
     \<lparr>ci_id = rc_id d, ci_name = Some (display_name wc key d), ci_name_ciphertext = rc_name_ciphertext d,
      ci_name_version = rc_name_version d, ci_key_epoch = Some (or_else (rc_key_epoch d) 1),
      ci_location_protocol_version = rc_location_protocol_version d, ci_rekey_required = rc_rekey_required d,
      ci_membership_revision = rc_membership_revision d, ci_self_token = rc_self_token d,
      ci_created_at = rc_created_at d, ci_is_owner = or_else (rc_is_owner d) False\<rparr>"

definition toCircleAndMembers ::
  "'k web_crypto \<Rightarrow> nostr_tools \<Rightarrow> 'k vault_entropy \<Rightarrow> nostr_keypair \<Rightarrow> raw_circle \<Rightarrow> 'k circle_state
     \<Rightarrow> ('k circle_state \<times> circle \<times> circle_member list) result" where
  "toCircleAndMembers wc lib ent kp detail st =
     bind_result (find_key wc lib ent kp detail st) (\<lambda>(st', key).
       ok (st', to_circle wc key detail, map (to_member wc key) (rc_members detail)))"

text \<open>
  The loop of \<open>useCircles\<close>: each detail that was fetched (\<open>None\<close> when the request failed) is
  converted and, unless the effect was cleaned up meanwhile, dispatched; errors skip the circle. The
  rename of an old plaintext name sends a request and changes no local state.
\<close>

fun load_circles ::
  "'k web_crypto \<Rightarrow> nostr_tools \<Rightarrow> nostr_keypair \<Rightarrow> (raw_circle option \<times> bool \<times> 'k vault_entropy) list
     \<Rightarrow> 'k circle_state \<times> circles_state \<Rightarrow> 'k circle_state \<times> circles_state" where
  "load_circles wc lib kp [] s = s"
| "load_circles wc lib kp ((None, aborted, ent) # ds) s = load_circles wc lib kp ds s"
| "load_circles wc lib kp ((Some d, aborted, ent) # ds) (st, store) =
     load_circles wc lib kp ds
       (case toCircleAndMembers wc lib ent kp d st of
          Inl _ \<Rightarrow> (st, store)
        | Inr (st', c, ms) \<Rightarrow>
            (st', if aborted then store
                  else circles_reducer (circles_reducer store (CircleLoaded c ms))
                    (CircleEpochChanged (ci_id c) (or_else (ci_key_epoch c) 1) (or_else (ci_rekey_required c) True))))"

definition migrate_name_body :: "string \<Rightarrow> string" where
  "migrate_name_body nameCiphertext = stringify (JObj [(''name_ciphertext'', JStr nameCiphertext), (''member_labels'', JArr [])])"

definition needs_name_migration :: "raw_circle \<Rightarrow> bool" where
  "needs_name_migration d \<longleftrightarrow> rc_is_owner d = Some True \<and> rc_name_version d = Some 0 \<and> truthy (rc_name d)"

section \<open>The location socket\<close>

record roster =
  ro_pubkeys :: "string list"
  ro_epoch :: int
  ro_selfToken :: "string option"

definition roster_of :: "circles_state \<Rightarrow> string \<Rightarrow> roster" where
  "roster_of s circleId =
     (let members = or_else (map_of (cs_members s) circleId) [];
          c = find (\<lambda>x. ci_id x = circleId) (cs_circles s)
      in \<lparr>ro_pubkeys = map (\<lambda>m. toLowerCase (the (cm_pubkey m)))
            (filter (\<lambda>m. truthy (cm_pubkey m) \<and> cm_state m \<noteq> Some Pending) members),
          ro_epoch = (case map_of (cs_epochs s) circleId of
              Some e \<Rightarrow> ce_key_epoch e
            | None \<Rightarrow> or_else (Option.bind c ci_key_epoch) 1),
          ro_selfToken = Option.bind c ci_self_token\<rparr>)"

record location_envelope =
  le_circle_id :: string
  le_key_epoch :: int
  le_ciphertext :: string

datatype circle_ws_message =
    CIRCLE_LOCATION_SNAPSHOT "location_envelope list"
  | CIRCLE_LOCATION_ENVELOPE location_envelope
  | CIRCLE_EPOCH_CHANGED string int bool
  | CIRCLE_MEMBER_REMOVED string string

text \<open>
  A mounted connection: the store, the device's keys, the last location seen of each member, the
  envelopes being decrypted with the roster they arrived under, the reconnection counter, and the
  delay of the pending reconnection, if any.
\<close>

record 'k circle_session =
  cw_store :: circles_state
  cw_keys :: "'k circle_state"
  cw_seen :: "(string \<times> string \<times> int) list"
  cw_pending :: "(location_envelope \<times> string list) list"
  cw_attempt :: nat
  cw_reconnect :: "int option"
  cw_closed :: bool

text \<open>The first part of \<open>handleEnvelope\<close>.\<close>

definition envelope_arrived :: "string \<Rightarrow> location_envelope \<Rightarrow> 'k circle_session \<Rightarrow> 'k circle_session" where
  "envelope_arrived circleId env s =
     (let r = roster_of (cw_store s) circleId
      in if le_key_epoch env \<noteq> ro_epoch r then s else s\<lparr>cw_pending := cw_pending s @ [(env, ro_pubkeys r)]\<rparr>)"

definition to_location :: "(int \<Rightarrow> string) \<Rightarrow> verified_location \<Rightarrow> decrypted_location" where
  "to_location toISO loc =
     \<lparr>dl_lat = jnum_val (cl_lat loc), dl_lng = jnum_val (cl_lng loc), dl_ts = toISO (cl_captured_at loc),
      dl_event_id = Some (vl_event_id loc), dl_expires_at = Some (vl_expires_at loc),
      dl_accuracy_m = Some (jnum_val (cl_accuracy_m loc)), dl_precision = Some (cl_precision loc)\<rparr>"

definition already_seen :: "'k circle_session \<Rightarrow> string \<Rightarrow> verified_location \<Rightarrow> bool" where
  "already_seen s pubkey loc =
     (case map_of (cw_seen s) pubkey of
        Some (event_id, captured_at) \<Rightarrow> event_id = vl_event_id loc \<or> cl_captured_at loc < captured_at
      | None \<Rightarrow> False)"

definition accept_location :: "(int \<Rightarrow> string) \<Rightarrow> verified_location \<Rightarrow> 'k circle_session \<Rightarrow> 'k circle_session" where
  "accept_location toISO loc s =
     (let pubkey = toLowerCase (vl_pubkey loc)
      in if already_seen s pubkey loc then s
         else s\<lparr>cw_seen := map_set (cw_seen s) pubkey (vl_event_id loc, cl_captured_at loc),
                cw_store := circles_reducer (cw_store s) (LocationReceived pubkey (to_location toISO loc))\<rparr>)"

text \<open>
  The rest of \<open>handleEnvelope\<close> for the pending envelope \<open>i\<close>; \<open>toISO\<close> is
  \<open>new Date(t * 1000).toISOString()\<close>.
\<close>

definition envelope_settled ::
  "'k web_crypto \<Rightarrow> nostr_tools \<Rightarrow> 'k vault_entropy \<Rightarrow> (int \<Rightarrow> string) \<Rightarrow> int \<Rightarrow> nat \<Rightarrow> 'k circle_session \<Rightarrow> 'k circle_session" where
  "envelope_settled wc lib ent toISO now i s =
     (let (env, pubkeys) = cw_pending s ! i;
          s0 = s\<lparr>cw_pending := take i (cw_pending s) @ drop (Suc i) (cw_pending s)\<rparr>
      in case loadCircleKey wc ent (le_circle_id env) (le_key_epoch env) (cw_keys s0) of
           Inl _ \<Rightarrow> s0
         | Inr (keys, None) \<Rightarrow>
             s0\<lparr>cw_keys := keys, cw_store := circles_reducer (cw_store s0) (CircleDecryptError ''circle key unavailable'')\<rparr>
         | Inr (keys, Some key) \<Rightarrow>
             (let s1 = s0\<lparr>cw_keys := keys\<rparr>
              in case decryptCircleLocationV1 wc lib key (le_ciphertext env) (le_circle_id env) (le_key_epoch env) pubkeys now of
                   None \<Rightarrow> s1
                 | Some loc \<Rightarrow> accept_location toISO loc s1))"

text \<open>\<open>ws.onmessage\<close>; the flag says that the handler closed the socket with code 4003.\<close>

definition circle_message :: "string \<Rightarrow> circle_ws_message \<Rightarrow> 'k circle_session \<Rightarrow> 'k circle_session \<times> bool" where
  "circle_message circleId msg s =
     (case msg of
        CIRCLE_LOCATION_SNAPSHOT envs \<Rightarrow> (foldl (\<lambda>s' env. envelope_arrived circleId env s') s envs, False)
      | CIRCLE_LOCATION_ENVELOPE env \<Rightarrow> (envelope_arrived circleId env s, False)
      | CIRCLE_EPOCH_CHANGED i e r \<Rightarrow> (s\<lparr>cw_store := circles_reducer (cw_store s) (CircleEpochChanged i e r)\<rparr>, False)
      | CIRCLE_MEMBER_REMOVED i token \<Rightarrow>
          if Some token = ro_selfToken (roster_of (cw_store s) circleId)
          then (s\<lparr>cw_store := circles_reducer (cw_store s) CircleLeft\<rparr>, True)
          else (s\<lparr>cw_store := circles_reducer (cw_store s) (MemberRemoved i None (Some token))\<rparr>, False))"

text \<open>\<open>ws.onclose\<close>; \<open>jitter\<close> is \<open>Math.floor(Math.random() * 1000)\<close>.\<close>

definition reconnect_delay :: "nat \<Rightarrow> int \<Rightarrow> int" where
  "reconnect_delay attempt jitter = min (1000 * 2 ^ min attempt 5) 30000 + jitter"

definition circle_closed :: "int \<Rightarrow> int \<Rightarrow> 'k circle_session \<Rightarrow> 'k circle_session" where
  "circle_closed code jitter s =
     (if cw_closed s \<or> code = 4001 \<or> code = 4003 then s
      else s\<lparr>cw_attempt := cw_attempt s + 1, cw_reconnect := Some (reconnect_delay (cw_attempt s + 1) jitter)\<rparr>)"

definition circle_cleanup :: "'k circle_session \<Rightarrow> 'k circle_session" where
  "circle_cleanup s = s\<lparr>cw_closed := True, cw_reconnect := None\<rparr>"

definition circle_auth_template :: "int \<Rightarrow> string \<Rightarrow> string \<Rightarrow> string \<Rightarrow> nostr_template" where
  "circle_auth_template now url circleId uuid =
     \<lparr>nt_kind = NIP98_KIND, nt_created_at = now,
      nt_tags = [[''u'', url], [''method'', ''GET''], [''circle'', circleId], [''nonce'', uuid]], nt_content = ''''\<rparr>"

definition join_message :: "string \<Rightarrow> nostr_event \<Rightarrow> string" where
  "join_message circleId auth =
     stringify (JObj [(''type'', JStr ''join_circle''), (''circle_id'', JStr circleId), (''nostr_auth_event'', event_json auth)])"

section \<open>Proximity alerts\<close>

definition SEVERITY_RANK :: "string \<Rightarrow> nat option" where
  "SEVERITY_RANK s =
     (if s = ''LOW'' then Some 0 else if s = ''MEDIUM'' then Some 1 else if s = ''HIGH'' then Some 2
      else if s = ''CRITICAL'' then Some 3 else None)"

text \<open>\<open>SEVERITY_RANK[a] < SEVERITY_RANK[b]\<close>, false when either is undefined.\<close>

definition rank_less :: "string \<Rightarrow> string \<Rightarrow> bool" where
  "rank_less a b = (case (SEVERITY_RANK a, SEVERITY_RANK b) of (Some x, Some y) \<Rightarrow> x < y | _ \<Rightarrow> False)"

definition alert_due :: "(string \<times> decrypted_location) list \<Rightarrow> circle_member \<Rightarrow> safety_event \<Rightarrow> bool" where
  "alert_due locations m e =
     (truthy (cm_pubkey m) \<and>
      (case map_of locations (the (cm_pubkey m)) of
         None \<Rightarrow> False
       | Some loc \<Rightarrow>
           ev_is_active e \<and> \<not> rank_less (ev_severity e) (or_else (cm_alert_severity m) ''MEDIUM'')
           \<and> haversineKm \<lparr>ll_lat = dl_lat loc, ll_lng = dl_lng loc\<rparr> \<lparr>ll_lat = ev_lat e, ll_lng = ev_lng e\<rparr>
               \<le> or_else (cm_alert_radius_km m) 5))"

definition new_alert :: "string \<Rightarrow> circle_member \<Rightarrow> safety_event \<Rightarrow> string \<Rightarrow> proximity_alert" where
  "new_alert now_iso m e i =
     \<lparr>pa_id = i, pa_member_pubkey = the (cm_pubkey m), pa_zone_name = ev_title e, pa_event_id = Some (ev_id e),
      pa_severity = ev_severity e, pa_triggered_at = now_iso\<rparr>"

text \<open>The alerts, without their ids, as pairs of member and event in the order of the two loops.\<close>

fun alerts_of_member :: "(string \<times> decrypted_location) list \<Rightarrow> circle_member \<Rightarrow> safety_event list \<Rightarrow> (circle_member \<times> safety_event) list" where
  "alerts_of_member locations m [] = []"
| "alerts_of_member locations m (e # es) =
     (if alert_due locations m e then (m, e) # alerts_of_member locations m es else alerts_of_member locations m es)"

fun computeProximityAlerts ::
  "circle_member list \<Rightarrow> (string \<times> decrypted_location) list \<Rightarrow> safety_event list \<Rightarrow> (circle_member \<times> safety_event) list" where
  "computeProximityAlerts [] locations events = []"
| "computeProximityAlerts (m # ms) locations events =
     alerts_of_member locations m events @ computeProximityAlerts ms locations events"

definition alert_key :: "string \<Rightarrow> string \<Rightarrow> string" where
  "alert_key pubkey event_id = pubkey @ '':'' @ event_id"

definition existing_keys :: "circles_state \<Rightarrow> string list" where
  "existing_keys s = map (\<lambda>a. alert_key (pa_member_pubkey a) (or_else (pa_event_id a) ''null'')) (cs_proximityAlerts s)"

text \<open>
  The effect of \<open>useProximityAlerts\<close>; the keys are those of the render, the ids are random, and the
  flag says whether the locations are the very object the previous run saw.
\<close>

fun dispatch_alerts :: "string \<Rightarrow> string list \<Rightarrow> (circle_member \<times> safety_event) list \<Rightarrow> string list \<Rightarrow> circles_state \<Rightarrow> circles_state" where
  "dispatch_alerts now_iso keys ((m, e) # as) (i # ids) s =
     dispatch_alerts now_iso keys as ids
       (if alert_key (the (cm_pubkey m)) (ev_id e) \<in> set keys then s
        else circles_reducer s (ProximityAlertAdded (new_alert now_iso m e i)))"
| "dispatch_alerts now_iso keys as ids s = s"

definition proximity_effect :: "string \<Rightarrow> string list \<Rightarrow> bool \<Rightarrow> safety_event list \<Rightarrow> circles_state \<Rightarrow> circles_state" where
  "proximity_effect now_iso ids unchanged events s =
     (if unchanged then s
      else
        (let members = (case cs_activeCircleId s of None \<Rightarrow> [] | Some c \<Rightarrow> or_else (map_of (cs_members s) c) [])
         in dispatch_alerts now_iso (existing_keys s) (computeProximityAlerts members (cs_decryptedLocations s) events) ids s))"

section \<open>The location publisher\<close>

record location_publisher =
  lp_stopped :: bool
  lp_inFlight :: bool

definition buildLocationEnvelopeBody :: "(int \<Rightarrow> string) \<Rightarrow> int \<Rightarrow> string \<Rightarrow> int \<Rightarrow> string" where
  "buildLocationEnvelopeBody toISO keyEpoch ciphertext expiresAt =
     stringify (JObj [(''version'', JInt 1), (''key_epoch'', JInt keyEpoch), (''ciphertext'', JStr ciphertext),
       (''expires_at'', JStr (toISO expiresAt))])"

text \<open>\<open>publish\<close> up to its first await: the guards.\<close>

definition publish_begin :: "bool \<Rightarrow> int \<Rightarrow> location_publisher \<Rightarrow> location_publisher \<times> unit result" where
  "publish_begin enabled keyEpoch p =
     (if lp_stopped p then (p, throw ''Location publisher is stopped'')
      else if \<not> enabled then (p\<lparr>lp_stopped := True\<rparr>, throw ''Safe circle location is disabled'')
      else if lp_inFlight p then (p, throw ''Location publish already in progress'')
      else if \<not> isSafeInteger keyEpoch \<or> keyEpoch < 1 then (p\<lparr>lp_stopped := True\<rparr>, throw ''Circle epoch is unavailable'')
      else (p\<lparr>lp_inFlight := True\<rparr>, ok ()))"

text \<open>
  The rest, once every await is settled: whether the key was found, the position, the encryption,
  the signature and the status of the response; a timeout is a failed response.
\<close>

datatype publish_outcome =
    Key_Missing
  | Key_Error js_error
  | Position_Failed
  | Encrypt_Failed js_error
  | Sign_Failed js_error
  | Request_Failed js_error
  | Responded int

definition publish_end :: "publish_outcome \<Rightarrow> location_publisher \<Rightarrow> location_publisher \<times> unit result" where
  "publish_end out p =
     (let q = p\<lparr>lp_inFlight := False\<rparr>
      in case out of
           Key_Missing \<Rightarrow> (q\<lparr>lp_stopped := True\<rparr>, throw ''Circle key is unavailable'')
         | Key_Error e \<Rightarrow> (q, throw e)
         | Position_Failed \<Rightarrow> (q\<lparr>lp_stopped := True\<rparr>, throw ''Location permission or acquisition failed'')
         | Encrypt_Failed e \<Rightarrow> (q, throw e)
         | Sign_Failed e \<Rightarrow> (q, throw e)
         | Request_Failed e \<Rightarrow> (q, throw e)
         | Responded status \<Rightarrow>
             if status = 409 \<or> status = 422 \<or> status = 503
             then (q\<lparr>lp_stopped := True\<rparr>, throw ''Circle epoch or location protocol is not ready'')
             else if \<not> reply_ok status then (q, throw (''Location publish failed ('' @ int_str status @ '')''))
             else (q, ok ()))"

definition publisher_stop :: "location_publisher \<Rightarrow> location_publisher" where
  "publisher_stop p = p\<lparr>lp_stopped := True\<rparr>"

definition new_publisher :: location_publisher where
  "new_publisher = \<lparr>lp_stopped = False, lp_inFlight = False\<rparr>"

definition publish_request :: "string \<Rightarrow> string option \<Rightarrow> nostr_event \<Rightarrow> string \<Rightarrow> http_request" where
  "publish_request circleId endpoint auth body =
     \<lparr>hr_url = or_else endpoint (''/api/circles/'' @ circleId @ ''/location''), hr_method = ''POST'',
      hr_headers = [(''Content-Type'', ''application/json''), (''X-Nostr-Auth'', stringify (event_json auth))],
      hr_body = Some body\<rparr>"

section \<open>The invariant of the slice\<close>

definition circles_ok :: "circles_state \<Rightarrow> bool" where
  "circles_ok s \<longleftrightarrow>
     distinct (map ci_id (cs_circles s))
     \<and> (\<forall>i. cs_activeCircleId s = Some i \<longrightarrow> i \<in> ci_id ` set (cs_circles s))
     \<and> ci_id ` set (cs_circles s) \<subseteq> dom (map_of (cs_members s))
     \<and> dom (map_of (cs_decryptedLocations s)) \<subseteq> dom (map_of (cs_memberStatuses s))
     \<and> distinct (map pa_id (cs_proximityAlerts s))
     \<and> (\<forall>a. cs_activeAlert s = Some a \<longrightarrow> a \<in> set (cs_proximityAlerts s))
     \<and> length (cs_decryptErrors s) \<le> 3"

lemma circles_ok_initial: "circles_ok circles_initial"
  by (simp add: circles_ok_def circles_initial_def)

lemma circles_replace:
  assumes "find_index (\<lambda>x. ci_id x = k) cs = Some i" "ci_id d = k"
  shows "map ci_id (cs[i := d]) = map ci_id cs" "ci_id ` set (cs[i := d]) = ci_id ` set cs"
  using map_ident_update [OF assms] by (simp, metis list.set_map)

lemma dom_offline_unless_known: "dom (map_of st) \<subseteq> dom (map_of (foldl offline_unless_known st ms))"
proof (induction ms arbitrary: st)
  case (Cons m ms)
  have "dom (map_of st) \<subseteq> dom (map_of (offline_unless_known st m))" by (auto simp: offline_unless_known_def)
  with Cons [of "offline_unless_known st m"] show ?case by auto
qed simp

lemma located_has_status:
  assumes "circles_ok s"
  shows "dom (map_of (cs_decryptedLocations s)) \<subseteq> dom (map_of (foldl offline_unless_known (cs_memberStatuses s) ms))"
proof -
  have "dom (map_of (cs_decryptedLocations s)) \<subseteq> dom (map_of (cs_memberStatuses s))" using assms by (simp add: circles_ok_def)
  then show ?thesis using dom_offline_unless_known by (rule subset_trans)
qed

lemma circles_ok_loaded:
  assumes ok: "circles_ok s"
  shows "circles_ok (circleLoaded s c ms)"
proof -
  let ?cs = "case find_index (\<lambda>x. ci_id x = ci_id c) (cs_circles s) of Some i \<Rightarrow> (cs_circles s)[i := c] | None \<Rightarrow> cs_circles s @ [c]"
  have cs: "distinct (map ci_id ?cs) \<and> ci_id ` set ?cs = insert (ci_id c) (ci_id ` set (cs_circles s))"
  proof (cases "find_index (\<lambda>x. ci_id x = ci_id c) (cs_circles s)")
    case None
    then have "ci_id c \<notin> ci_id ` set (cs_circles s)" by (auto simp: find_index_None)
    with ok None show ?thesis by (auto simp: circles_ok_def)
  next
    case (Some i)
    have "ci_id c \<in> ci_id ` set (cs_circles s)" using find_index_Some [OF Some] nth_mem by (metis image_eqI)
    then have "insert (ci_id c) (ci_id ` set (cs_circles s)) = ci_id ` set (cs_circles s)" by (rule insert_absorb)
    with ok Some circles_replace [OF Some refl] show ?thesis by (simp add: circles_ok_def)
  qed
  have mem: "ci_id ` set (cs_circles s) \<subseteq> dom (map_of (cs_members s))" using ok by (simp add: circles_ok_def)
  show ?thesis
    unfolding circles_ok_def
  proof (intro conjI)
    show "distinct (map ci_id (cs_circles (circleLoaded s c ms)))" using cs by (simp add: circleLoaded_def Let_def)
    show "\<forall>i. cs_activeCircleId (circleLoaded s c ms) = Some i \<longrightarrow> i \<in> ci_id ` set (cs_circles (circleLoaded s c ms))"
      using cs by (simp add: circleLoaded_def Let_def)
    show "ci_id ` set (cs_circles (circleLoaded s c ms)) \<subseteq> dom (map_of (cs_members (circleLoaded s c ms)))"
      using cs mem by (simp add: circleLoaded_def Let_def) blast
    show "dom (map_of (cs_decryptedLocations (circleLoaded s c ms))) \<subseteq> dom (map_of (cs_memberStatuses (circleLoaded s c ms)))"
      using located_has_status [OF ok, of ms] by (simp add: circleLoaded_def Let_def)
  qed (use ok in \<open>simp_all add: circles_ok_def circleLoaded_def Let_def\<close>)
qed

lemma circles_ok_epoch: "circles_ok s \<Longrightarrow> circles_ok (circleEpochChanged s cid e r)"
proof (cases "find_index (\<lambda>x. ci_id x = cid) (cs_circles s)")
  case (Some i)
  let ?d = "((cs_circles s) ! i)\<lparr>ci_key_epoch := Some e, ci_rekey_required := Some r\<rparr>"
  have "ci_id ((cs_circles s) ! i) = cid" using find_index_Some [OF Some] by auto
  then have "ci_id ?d = cid" by simp
  note upd = circles_replace [OF Some this]
  assume "circles_ok s"
  with upd Some show ?thesis by (simp add: circles_ok_def circleEpochChanged_def)
qed (simp add: circles_ok_def circleEpochChanged_def)

lemma dom_map_of_filter: "dom (map_of (filter p xs)) \<subseteq> dom (map_of xs)"
  by (auto simp: dom_map_of_conv_image_fst)

lemma circles_ok_removed: "circles_ok s \<Longrightarrow> circles_ok (memberRemoved s cid p t)"
  by (auto simp: circles_ok_def memberRemoved_def Let_def split: option.splits)

lemma circles_ok_step: "circles_ok s \<Longrightarrow> circles_ok (circles_reducer s a)"
proof (cases a)
  case (LocationsPruned now)
  moreover assume "circles_ok s"
  ultimately show ?thesis
    using subset_trans [OF dom_map_of_filter, of "cs_decryptedLocations s"] by (simp add: circles_ok_def locationsPruned_def)
next
  case (MemberRemoved i p t)
  moreover assume "circles_ok s"
  ultimately show ?thesis by (simp add: circles_ok_removed)
next
  case (CircleLoaded c ms)
  moreover assume "circles_ok s"
  ultimately show ?thesis by (simp add: circles_ok_loaded)
next
  case (CircleEpochChanged i e r)
  moreover assume "circles_ok s"
  ultimately show ?thesis by (simp add: circles_ok_epoch)
qed (auto simp: circles_ok_def memberStatusUpdated_def locationReceived_def memberAccepted_def proximityAlertAdded_def
    activeAlertDismissed_def circleDecryptError_def circleLeft_def circles_initial_def list_ex_iff split: option.splits)

interpretation circles: reducer circles_initial circles_reducer circles_ok
  by unfold_locales (auto intro: circles_ok_initial circles_ok_step)

text \<open>
  Whatever is dispatched, in any order, the circles of the store stay consistent: every circle
  is listed once and has a member list, the active circle is one of them, every member with a known
  location has a status, every proximity alert is listed once, the alert being shown is in the
  list, and at most three decryption errors are kept.
\<close>

theorem circles_always_consistent:
  "let s = foldl circles_reducer circles_initial actions
   in distinct (map ci_id (cs_circles s)) \<and> ci_id ` set (cs_circles s) \<subseteq> dom (map_of (cs_members s))
      \<and> (\<forall>i. cs_activeCircleId s = Some i \<longrightarrow> i \<in> ci_id ` set (cs_circles s))
      \<and> dom (map_of (cs_decryptedLocations s)) \<subseteq> dom (map_of (cs_memberStatuses s))
      \<and> distinct (map pa_id (cs_proximityAlerts s))
      \<and> (\<forall>a. cs_activeAlert s = Some a \<longrightarrow> a \<in> set (cs_proximityAlerts s))
      \<and> length (cs_decryptErrors s) \<le> 3"
  using circles.inv_reachable [of actions] by (auto simp: circles_ok_def Let_def)

theorem circles_always_consistent_witness:
  "cs_decryptErrors (foldl circles_reducer circles_initial
     [CircleDecryptError ''a'', CircleDecryptError ''b'', CircleDecryptError ''c'', CircleDecryptError ''d'']) = [''d'', ''c'', ''b'']"
  using circles_always_consistent [of "[CircleDecryptError ''a'', CircleDecryptError ''b'', CircleDecryptError ''c'', CircleDecryptError ''d'']"]
  by (simp add: circleDecryptError_def circles_initial_def)

section \<open>A member's location never goes back in time\<close>

text \<open>
  What happens while the connection is mounted: messages, envelopes that finish decrypting in any
  order, the socket closing, the cleanup, and every dispatch other parts of the client make; only
  the connection dispatches \<open>locationReceived\<close>.
\<close>

fun is_location :: "circles_action \<Rightarrow> bool" where
  "is_location (LocationReceived p loc) = True"
| "is_location _ = False"

inductive circle_ws_step ::
  "'k web_crypto \<Rightarrow> nostr_tools \<Rightarrow> (int \<Rightarrow> string) \<Rightarrow> string \<Rightarrow> 'k circle_session \<Rightarrow> 'k circle_session \<Rightarrow> bool"
  for wc lib toISO circleId where
  message: "circle_ws_step wc lib toISO circleId s (fst (circle_message circleId msg s))"
| settled: "i < length (cw_pending s) \<Longrightarrow> circle_ws_step wc lib toISO circleId s (envelope_settled wc lib ent toISO now i s)"
| closed: "0 \<le> jitter \<Longrightarrow> jitter < 1000 \<Longrightarrow> circle_ws_step wc lib toISO circleId s (circle_closed code jitter s)"
| cleanup: "circle_ws_step wc lib toISO circleId s (circle_cleanup s)"
| store: "\<not> is_location a \<Longrightarrow> circle_ws_step wc lib toISO circleId s (s\<lparr>cw_store := circles_reducer (cw_store s) a\<rparr>)"

abbreviation circle_ws_run where
  "circle_ws_run wc lib toISO circleId \<equiv> (circle_ws_step wc lib toISO circleId)\<^sup>*\<^sup>*"

definition shown_ok :: "(int \<Rightarrow> string) \<Rightarrow> 'k circle_session \<Rightarrow> bool" where
  "shown_ok toISO s \<longleftrightarrow>
     distinct (map fst (cs_decryptedLocations (cw_store s)))
     \<and> (\<forall>p loc. map_of (cs_decryptedLocations (cw_store s)) p = Some loc \<longrightarrow>
          (\<exists>ev t. map_of (cw_seen s) p = Some (ev, t) \<and> dl_event_id loc = Some ev \<and> dl_ts loc = toISO t))"

text \<open>The order on what has been seen: no member is forgotten and no time decreases.\<close>

definition seen_le :: "'k circle_session \<Rightarrow> 'k circle_session \<Rightarrow> bool" where
  "seen_le s s' \<longleftrightarrow>
     (\<forall>p ev t. map_of (cw_seen s) p = Some (ev, t) \<longrightarrow> (\<exists>ev' t'. map_of (cw_seen s') p = Some (ev', t') \<and> t \<le> t'))"

lemma seen_le_same: "cw_seen s' = cw_seen s \<Longrightarrow> seen_le s s'"
  by (auto simp: seen_le_def)

lemma seen_le_trans: "seen_le s s' \<Longrightarrow> seen_le s' s'' \<Longrightarrow> seen_le s s''"
  unfolding seen_le_def by (meson order_trans)

lemma map_of_filter_distinct:
  "distinct (map fst xs) \<Longrightarrow> map_of (filter P xs) k = Some v \<Longrightarrow> map_of xs k = Some v"
  by (metis filter_is_subset map_of_SomeD map_of_is_SomeI subsetD)

lemma reducer_locations:
  assumes "\<not> is_location a" "distinct (map fst (cs_decryptedLocations s))"
  shows "distinct (map fst (cs_decryptedLocations (circles_reducer s a)))
    \<and> (\<forall>p loc. map_of (cs_decryptedLocations (circles_reducer s a)) p = Some loc \<longrightarrow> map_of (cs_decryptedLocations s) p = Some loc)"
proof (cases a)
  case (LocationsPruned now)
  with assms show ?thesis by (auto simp: locationsPruned_def distinct_map_filter dest: map_of_filter_distinct)
qed (use assms in \<open>auto simp: circleLoaded_def circleEpochChanged_def memberStatusUpdated_def memberRemoved_def memberAccepted_def
    proximityAlertAdded_def activeAlertDismissed_def circleDecryptError_def circleLeft_def circles_initial_def Let_def map_delete_def distinct_map_filter
    split: option.splits if_splits dest: map_of_filter_distinct\<close>)

lemma shown_ok_reducer:
  assumes "\<not> is_location a" "shown_ok toISO s" "cw_store s' = circles_reducer (cw_store s) a" "cw_seen s' = cw_seen s"
  shows "shown_ok toISO s' \<and> seen_le s s'"
  using reducer_locations [OF assms(1), of "cw_store s"] assms(2-4) seen_le_same [of s' s] by (auto simp: shown_ok_def)

lemma shown_ok_same:
  assumes "shown_ok toISO s" "cw_store s' = cw_store s" "cw_seen s' = cw_seen s"
  shows "shown_ok toISO s' \<and> seen_le s s'"
  using assms seen_le_same [of s' s] by (simp add: shown_ok_def)

lemma envelopes_frame:
  "cw_store (foldl (\<lambda>s' env. envelope_arrived c env s') s envs) = cw_store s
   \<and> cw_seen (foldl (\<lambda>s' env. envelope_arrived c env s') s envs) = cw_seen s"
  by (induction envs arbitrary: s) (simp_all add: envelope_arrived_def Let_def)

lemma shown_ok_message: "shown_ok toISO s \<Longrightarrow> shown_ok toISO (fst (circle_message c msg s)) \<and> seen_le s (fst (circle_message c msg s))"
proof (cases msg)
  case (CIRCLE_LOCATION_SNAPSHOT envs)
  moreover assume "shown_ok toISO s"
  ultimately show ?thesis using envelopes_frame [of c s envs] shown_ok_same [of toISO s] by (simp add: circle_message_def)
next
  case (CIRCLE_LOCATION_ENVELOPE env)
  moreover assume "shown_ok toISO s"
  ultimately show ?thesis using envelopes_frame [of c s "[env]"] shown_ok_same [of toISO s] by (simp add: circle_message_def)
next
  case (CIRCLE_EPOCH_CHANGED i e r)
  moreover assume "shown_ok toISO s"
  ultimately show ?thesis using shown_ok_reducer [of "CircleEpochChanged i e r" toISO s] by (simp add: circle_message_def)
next
  case (CIRCLE_MEMBER_REMOVED i t)
  assume s: "shown_ok toISO s"
  have "shown_ok toISO (s\<lparr>cw_store := circles_reducer (cw_store s) a\<rparr>) \<and> seen_le s (s\<lparr>cw_store := circles_reducer (cw_store s) a\<rparr>)"
    if "\<not> is_location a" for a
    using that s by (rule shown_ok_reducer) simp_all
  from this [of CircleLeft] this [of "MemberRemoved i None (Some t)"] CIRCLE_MEMBER_REMOVED show ?thesis
    by (simp add: circle_message_def del: circles_reducer.simps)
qed

lemma shown_ok_accept:
  assumes "shown_ok toISO s"
  shows "shown_ok toISO (accept_location toISO loc s) \<and> seen_le s (accept_location toISO loc s)"
proof (cases "already_seen s (toLowerCase (vl_pubkey loc)) loc")
  case True
  then show ?thesis using assms seen_le_same [of s s] by (simp add: accept_location_def)
next
  case False
  then have "seen_le s (accept_location toISO loc s)"
    by (auto simp: seen_le_def accept_location_def already_seen_def Let_def)
  moreover have "shown_ok toISO (accept_location toISO loc s)"
    using assms False by (auto simp: shown_ok_def accept_location_def Let_def locationReceived_def to_location_def)
  ultimately show ?thesis by blast
qed

lemma shown_ok_settled:
  assumes "shown_ok toISO s"
  shows "shown_ok toISO (envelope_settled wc lib ent toISO now i s) \<and> seen_le s (envelope_settled wc lib ent toISO now i s)"
proof -
  obtain env ms where p: "cw_pending s ! i = (env, ms)" by force
  let ?s0 = "s\<lparr>cw_pending := take i (cw_pending s) @ drop (Suc i) (cw_pending s)\<rparr>"
  show ?thesis
  proof (cases "loadCircleKey wc ent (le_circle_id env) (le_key_epoch env) (cw_keys s)")
    case (Inl e)
    with p shown_ok_same [OF assms, of ?s0] show ?thesis by (simp add: envelope_settled_def)
  next
    case (Inr r)
    obtain keys k where r: "r = (keys, k)" by force
    let ?s1 = "?s0\<lparr>cw_keys := keys\<rparr>"
    note same = shown_ok_same [OF assms, of ?s1]
    note missing = shown_ok_reducer [of "CircleDecryptError ''circle key unavailable''" toISO s
        "?s1\<lparr>cw_store := circles_reducer (cw_store s) (CircleDecryptError ''circle key unavailable'')\<rparr>"]
    have accept: "shown_ok toISO (accept_location toISO loc ?s1) \<and> seen_le s (accept_location toISO loc ?s1)" for loc
      using same shown_ok_accept [of toISO ?s1 loc] seen_le_trans by auto
    show ?thesis
      using Inr r p same missing accept assms
      by (cases k; cases "decryptCircleLocationV1 wc lib (the k) (le_ciphertext env) (le_circle_id env) (le_key_epoch env) ms now")
        (simp_all add: envelope_settled_def)
  qed
qed

lemma shown_ok_step: "circle_ws_step wc lib toISO c s s' \<Longrightarrow> shown_ok toISO s \<Longrightarrow> shown_ok toISO s' \<and> seen_le s s'"
proof (induction rule: circle_ws_step.induct)
  case (closed jitter s code)
  from closed(3) show ?case by (rule shown_ok_same) (simp_all add: circle_closed_def)
next
  case (cleanup s)
  then show ?case by (rule shown_ok_same) (simp_all add: circle_cleanup_def)
next
  case (store a s)
  then show ?case using shown_ok_reducer [of a toISO s] by simp
qed (auto simp: shown_ok_message shown_ok_settled)

lemma shown_ok_run: "circle_ws_run wc lib toISO c s s' \<Longrightarrow> shown_ok toISO s \<Longrightarrow> shown_ok toISO s' \<and> seen_le s s'"
proof (induction rule: rtranclp_induct)
  case (step y z)
  then show ?case using shown_ok_step seen_le_trans by blast
qed (simp add: seen_le_same)

text \<open>
  C5: from a connection that shows no location yet, however messages, decryptions that finish out
  of order, reconnections, prunings and the other dispatches interleave, the location shown of a
  member is the last one accepted from them, and two displays of the same member, one later than the
  other, are never in the wrong order of capture.
\<close>

theorem locations_never_go_back:
  assumes "circle_ws_run wc lib toISO c s0 s" "circle_ws_run wc lib toISO c s s'"
    and "cw_seen s0 = []" "cs_decryptedLocations (cw_store s0) = []"
    and "map_of (cs_decryptedLocations (cw_store s)) p = Some loc"
    and "map_of (cs_decryptedLocations (cw_store s')) p = Some loc'"
  shows "\<exists>ev t ev' t'. map_of (cw_seen s) p = Some (ev, t) \<and> map_of (cw_seen s') p = Some (ev', t')
    \<and> dl_ts loc = toISO t \<and> dl_ts loc' = toISO t' \<and> dl_event_id loc = Some ev \<and> dl_event_id loc' = Some ev' \<and> t \<le> t'"
proof -
  have "shown_ok toISO s0" using assms(3,4) by (simp add: shown_ok_def)
  then have s: "shown_ok toISO s" using shown_ok_run [OF assms(1)] by blast
  then have s': "shown_ok toISO s'" "seen_le s s'" using shown_ok_run [OF assms(2)] by auto
  obtain ev t where t: "map_of (cw_seen s) p = Some (ev, t)" "dl_event_id loc = Some ev" "dl_ts loc = toISO t"
    using s assms(5) unfolding shown_ok_def by blast
  obtain ev' t' where t': "map_of (cw_seen s') p = Some (ev', t')" "dl_event_id loc' = Some ev'" "dl_ts loc' = toISO t'"
    using s'(1) assms(6) unfolding shown_ok_def by blast
  have "t \<le> t'" using s'(2) t(1) t'(1) by (fastforce simp: seen_le_def)
  with t t' show ?thesis by blast
qed

definition sample_session :: "string \<Rightarrow> (bytes \<times> bool) circle_session" where
  "sample_session msg =
     \<lparr>cw_store = circles_initial, cw_keys = idbPut (keyId ''c'' 2) (replicate 32 5, False) sample_circle_state, cw_seen = [],
      cw_pending = [(\<lparr>le_circle_id = ''c'', le_key_epoch = 2, le_ciphertext = msg\<rparr>, [key_of (CHR ''a'')])],
      cw_attempt = 0, cw_reconnect = None, cw_closed = False\<rparr>"

theorem locations_never_go_back_witness:
  "\<exists>s0 s p loc t. circle_ws_run plain_crypto shared_tools int_str ''c'' s0 s
     \<and> map_of (cs_decryptedLocations (cw_store s)) p = Some loc \<and> dl_ts loc = int_str t"
proof -
  obtain msg v where v: "decryptCircleLocationV1 plain_crypto shared_tools (replicate 32 5, False) msg ''c'' 2 [key_of (CHR ''a'')] 1100 = Some v"
    using sample_location_opens by blast
  let ?start = "sample_session msg"
  let ?final = "envelope_settled plain_crypto shared_tools sample_vault_entropy int_str 1100 0 ?start"
  have run: "circle_ws_run plain_crypto shared_tools int_str ''c'' ?start ?final"
    by (rule r_into_rtranclp, rule circle_ws_step.settled) (simp add: sample_session_def)
  have start: "cw_seen ?start = []" "cs_decryptedLocations (cw_store ?start) = []" by (simp_all add: sample_session_def circles_initial_def)
  have "idbGet (keyId ''c'' 2) (idbPut (keyId ''c'' 2) k st) = Some k" for k :: "bytes \<times> bool" and st
    using circle_keys.get_put_same [of st "(''c'', 2)" k] by (simp add: get_key_def put_key_def)
  then have "map_of (cs_decryptedLocations (cw_store ?final)) (toLowerCase (vl_pubkey v)) = Some (to_location int_str v)"
    using v by (simp add: envelope_settled_def sample_session_def loadCircleKey_def accept_location_def already_seen_def Let_def
        locationReceived_def del: replicate.simps)
  from locations_never_go_back [OF run rtranclp.rtrancl_refl start this this] this run show ?thesis by blast
qed

section \<open>Reconnection\<close>

lemma reconnect_step:
  assumes "circle_ws_step wc lib toISO c s s'"
    and "\<forall>d. cw_reconnect s = Some d \<longrightarrow> \<not> cw_closed s \<and> 2000 \<le> d \<and> d \<le> 30999"
  shows "(\<forall>d. cw_reconnect s' = Some d \<longrightarrow> \<not> cw_closed s' \<and> 2000 \<le> d \<and> d \<le> 30999) \<and> (cw_closed s \<longrightarrow> cw_closed s')"
  using assms
proof (induction rule: circle_ws_step.induct)
  case (message s msg)
  have "cw_reconnect (foldl (\<lambda>s' env. envelope_arrived c env s') s envs) = cw_reconnect s
    \<and> cw_closed (foldl (\<lambda>s' env. envelope_arrived c env s') s envs) = cw_closed s" for envs
    by (induction envs arbitrary: s) (simp_all add: envelope_arrived_def Let_def)
  with message show ?case
    by (cases msg) (auto simp: circle_message_def envelope_arrived_def Let_def)
next
  case (settled i s ent now)
  then show ?case
    by (auto simp: envelope_settled_def accept_location_def Let_def split: prod.splits sum.splits option.splits)
next
  case (closed jitter s code)
  define b :: int where "b = 2 ^ min (cw_attempt s + 1) 5"
  have "(2 :: int) ^ 1 \<le> b" unfolding b_def by (rule power_increasing) auto
  then have "2000 \<le> reconnect_delay (cw_attempt s + 1) jitter \<and> reconnect_delay (cw_attempt s + 1) jitter \<le> 30999"
    using closed(1,2) unfolding reconnect_delay_def b_def [symmetric] by (simp add: min_def)
  with closed(3) show ?case by (simp add: circle_closed_def del: One_nat_def)
next
  case (cleanup s)
  then show ?case by (simp add: circle_cleanup_def)
next
  case (store a s)
  then show ?case by simp
qed

text \<open>
  A lost connection is retried after no less than two and less than thirty-one seconds, however
  often it was lost, and after the cleanup there is never a retry.
\<close>

theorem circle_reconnect_bounds:
  assumes "circle_ws_run wc lib toISO c s0 s" "cw_reconnect s0 = None"
  shows "(cw_reconnect s = Some d \<longrightarrow> \<not> cw_closed s \<and> 2000 \<le> d \<and> d \<le> 30999)
    \<and> (cw_closed s0 \<longrightarrow> cw_closed s \<and> cw_reconnect s = None)"
proof -
  have "(\<forall>d. cw_reconnect s = Some d \<longrightarrow> \<not> cw_closed s \<and> 2000 \<le> d \<and> d \<le> 30999) \<and> (cw_closed s0 \<longrightarrow> cw_closed s)"
    using assms
  proof (induction rule: rtranclp_induct)
    case (step y z)
    then show ?case using reconnect_step [OF step(2)] by blast
  qed simp
  then show "(cw_reconnect s = Some d \<longrightarrow> \<not> cw_closed s \<and> 2000 \<le> d \<and> d \<le> 30999)
      \<and> (cw_closed s0 \<longrightarrow> cw_closed s \<and> cw_reconnect s = None)"
    by (cases "cw_reconnect s") auto
qed

theorem circle_reconnect_bounds_witness:
  "cw_reconnect (circle_closed 1006 999 (circle_closed 1006 0 (sample_session ''''))) = Some 4999 \<and> (2000 :: int) \<le> 4999"
proof -
  let ?start = "sample_session ''''"
  have "circle_ws_step plain_crypto shared_tools int_str ''c'' x (circle_closed 1006 j x)" if "0 \<le> j" "j < 1000"
    for j and x :: "(bytes \<times> bool) circle_session"
    using that by (rule circle_ws_step.closed)
  from this [of 0 ?start] this [of 999 "circle_closed 1006 0 ?start"]
  have "circle_ws_run plain_crypto shared_tools int_str ''c'' ?start (circle_closed 1006 999 (circle_closed 1006 0 ?start))"
    by simp
  moreover have "cw_reconnect (circle_closed 1006 999 (circle_closed 1006 0 ?start)) = Some 4999"
    by (simp add: circle_closed_def sample_session_def reconnect_delay_def)
  ultimately show ?thesis
    using circle_reconnect_bounds [of plain_crypto shared_tools int_str "''c''" ?start] by (simp add: sample_session_def)
qed

text \<open>
  Being told that another member was removed takes them off the member list but leaves their
  last location and status on display, since the server names them by token only.
\<close>

theorem removed_member_location_stays:
  assumes "Some token \<noteq> ro_selfToken (roster_of (cw_store s) c)" "map_of (cs_members (cw_store s)) i = Some ms"
  shows "let s' = cw_store (fst (circle_message c (CIRCLE_MEMBER_REMOVED i token) s))
    in map_of (cs_members s') i = Some (filter (\<lambda>m. cm_token m \<noteq> Some token) ms)
       \<and> cs_decryptedLocations s' = cs_decryptedLocations (cw_store s) \<and> cs_memberStatuses s' = cs_memberStatuses (cw_store s)"
  using assms by (simp add: circle_message_def memberRemoved_def truthy_def)

theorem removed_member_location_stays_witness:
  "cs_decryptedLocations (cw_store (fst (circle_message ''c'' (CIRCLE_MEMBER_REMOVED ''c'' ''t'')
     ((sample_session '''')\<lparr>cw_store := circles_initial\<lparr>cs_members := [(''c'', [])],
        cs_decryptedLocations := [(''p'', \<lparr>dl_lat = 0, dl_lng = 0, dl_ts = '''', dl_event_id = None, dl_expires_at = None,
          dl_accuracy_m = None, dl_precision = None\<rparr>)]\<rparr>\<rparr>)))) \<noteq> []"
  using removed_member_location_stays [of "''t''" "(sample_session '''')\<lparr>cw_store := circles_initial\<lparr>cs_members := [(''c'', [])],
        cs_decryptedLocations := [(''p'', \<lparr>dl_lat = 0, dl_lng = 0, dl_ts = '''', dl_event_id = None, dl_expires_at = None,
          dl_accuracy_m = None, dl_precision = None\<rparr>)]\<rparr>\<rparr>" "''c''" "''c''" "[]"]
  by (simp add: roster_of_def circles_initial_def Let_def)

section \<open>Proximity alerts are those the rules ask for\<close>

lemma alerts_of_member_set: "set (alerts_of_member locs m es) = {(m, e) | e. e \<in> set es \<and> alert_due locs m e}"
  by (induction es) auto

lemma computeProximityAlerts_set:
  "set (computeProximityAlerts ms locs es) = {(m, e). m \<in> set ms \<and> e \<in> set es \<and> alert_due locs m e}"
  by (induction ms) (auto simp: alerts_of_member_set)

lemma dispatch_alerts_set:
  assumes "distinct ids" "set ids \<inter> pa_id ` set (cs_proximityAlerts s) = {}" "length due \<le> length ids"
  shows "set (cs_proximityAlerts (dispatch_alerts now keys due ids s)) =
    set (cs_proximityAlerts s)
    \<union> {new_alert now m e i | m e i. ((m, e), i) \<in> set (zip due ids) \<and> alert_key (the (cm_pubkey m)) (ev_id e) \<notin> set keys}"
  using assms
proof (induction now keys due ids s rule: dispatch_alerts.induct)
  case (1 now keys m e as i ids s)
  let ?s = "if alert_key (the (cm_pubkey m)) (ev_id e) \<in> set keys then s
        else circles_reducer s (ProximityAlertAdded (new_alert now m e i))"
  have fresh: "\<not> list_ex (\<lambda>b. pa_id b = i) (cs_proximityAlerts s)" using 1(3) by (auto simp: list_ex_iff)
  then have "set ids \<inter> pa_id ` set (cs_proximityAlerts ?s) = {}"
    using 1(2,3) by (auto simp: proximityAlertAdded_def new_alert_def)
  with 1 have "set (cs_proximityAlerts (dispatch_alerts now keys as ids ?s)) =
      set (cs_proximityAlerts ?s)
      \<union> {new_alert now m e i | m e i. ((m, e), i) \<in> set (zip as ids) \<and> alert_key (the (cm_pubkey m)) (ev_id e) \<notin> set keys}"
    by simp
  with fresh show ?case by (auto simp: proximityAlertAdded_def new_alert_def)
qed auto

lemma alert_key_inject:
  assumes "CHR '':'' \<notin> set p" "CHR '':'' \<notin> set q"
  shows "alert_key p x = alert_key q y \<longleftrightarrow> p = q \<and> x = y"
  using assms append_sep_inject [of p "CHR '':''" x q y] by (auto simp: alert_key_def)

definition active_members :: "circles_state \<Rightarrow> circle_member list" where
  "active_members s = (case cs_activeCircleId s of None \<Rightarrow> [] | Some c \<Rightarrow> or_else (map_of (cs_members s) c) [])"


definition sample_proximity :: circles_state where
  "sample_proximity = circles_initial
     \<lparr>cs_activeCircleId := Some ''c'',
      cs_members := [(''c'', [\<lparr>cm_circle_id = ''c'', cm_token = None, cm_alert_radius_km = None, cm_alert_severity = None,
        cm_joined_at = '''', cm_label_ciphertext = None, cm_state = None, cm_accepted_at = None, cm_key_wrap_epoch = None,
        cm_pubkey = Some ''ab'', cm_label = None\<rparr>])],
      cs_decryptedLocations := [(''ab'', \<lparr>dl_lat = 1, dl_lng = 2, dl_ts = '''', dl_event_id = None, dl_expires_at = None,
        dl_accuracy_m = None, dl_precision = None\<rparr>)]\<rparr>"


section \<open>The publisher sends one location at a time\<close>

text \<open>
  The life of a publisher: calls of \<open>publish\<close>, publications that end, \<open>stop\<close>; the two counters are
  the publications begun and ended, and one can end only when it has begun.
\<close>

inductive publisher_step ::
  "bool \<Rightarrow> int \<Rightarrow> location_publisher \<times> nat \<times> nat \<Rightarrow> location_publisher \<times> nat \<times> nat \<Rightarrow> bool" for enabled epoch where
  called: "publish_begin enabled epoch p = (p', r) \<Longrightarrow>
     publisher_step enabled epoch (p, b, f) (p', if r = ok () then b + 1 else b, f)"
| ended: "f < b \<Longrightarrow> publish_end out p = (p', r) \<Longrightarrow> publisher_step enabled epoch (p, b, f) (p', b, f + 1)"
| stop: "publisher_step enabled epoch (p, b, f) (publisher_stop p, b, f)"

definition publisher_ok :: "location_publisher \<times> nat \<times> nat \<Rightarrow> bool" where
  "publisher_ok = (\<lambda>(p, b, f). b = f + of_bool (lp_inFlight p))"

lemma publish_end_fields:
  "publish_end out p = (q, r) \<Longrightarrow> \<not> lp_inFlight q \<and> (lp_stopped p \<longrightarrow> lp_stopped q)"
  by (auto simp: publish_end_def Let_def split: publish_outcome.splits if_splits)

lemma publish_begin_fields:
  "publish_begin enabled epoch p = (q, r) \<Longrightarrow>
     (r = ok () \<longrightarrow> \<not> lp_stopped p \<and> \<not> lp_inFlight p \<and> lp_inFlight q) \<and> (r \<noteq> ok () \<longrightarrow> lp_inFlight q = lp_inFlight p)
     \<and> (lp_stopped p \<longrightarrow> lp_stopped q)"
  by (auto simp: publish_begin_def split: if_splits)

lemma publisher_ok_step: "publisher_step enabled epoch x y \<Longrightarrow> publisher_ok x \<Longrightarrow> publisher_ok y"
proof (induction rule: publisher_step.induct)
  case (called p p' r b f)
  then show ?case using publish_begin_fields [OF called(1)] by (auto simp: publisher_ok_def)
next
  case (ended f b out p p' r)
  then show ?case using publish_end_fields [OF ended(2)] by (auto simp: publisher_ok_def)
qed (simp add: publisher_ok_def publisher_stop_def)

lemma publisher_ok_run: "(publisher_step enabled epoch)\<^sup>*\<^sup>* x y \<Longrightarrow> publisher_ok x \<Longrightarrow> publisher_ok y"
  by (induction rule: rtranclp_induct) (auto intro: publisher_ok_step)

lemma publisher_stopped_step:
  "publisher_step enabled epoch x y \<Longrightarrow> lp_stopped (fst x) \<Longrightarrow> lp_stopped (fst y) \<and> fst (snd y) = fst (snd x)"
  by (induction rule: publisher_step.induct)
    (use publish_begin_fields publish_end_fields in \<open>fastforce simp: publisher_stop_def\<close>)+

lemma publisher_stopped_run:
  "(publisher_step enabled epoch)\<^sup>*\<^sup>* x y \<Longrightarrow> lp_stopped (fst x) \<Longrightarrow> lp_stopped (fst y) \<and> fst (snd y) = fst (snd x)"
proof (induction rule: rtranclp_induct)
  case (step y z)
  then show ?case using publisher_stopped_step [OF step(2)] by simp
qed simp

text \<open>
  A publisher has at most one publication under way, and exactly when its flag says so; once it
  has stopped (by the caller, by a lost permission or key, or because the server refused the epoch)
  it never begins another.
\<close>

theorem publisher_single_flight:
  assumes "(publisher_step enabled epoch)\<^sup>*\<^sup>* (new_publisher, 0, 0) (p, b, f)" "(publisher_step enabled epoch)\<^sup>*\<^sup>* (p, b, f) (p', b', f')"
  shows "b = f + of_bool (lp_inFlight p) \<and> b' \<le> f' + 1 \<and> (lp_stopped p \<longrightarrow> lp_stopped p' \<and> b' = b)"
proof -
  have "publisher_ok (p, b, f)" using publisher_ok_run [OF assms(1)] by (simp add: publisher_ok_def new_publisher_def)
  moreover from this have "publisher_ok (p', b', f')" using publisher_ok_run [OF assms(2)] by simp
  ultimately show ?thesis using publisher_stopped_run [OF assms(2)] by (auto simp: publisher_ok_def)
qed

theorem publisher_single_flight_witness:
  "(publisher_step True 2)\<^sup>*\<^sup>* (new_publisher, 0, 0) (\<lparr>lp_stopped = False, lp_inFlight = True\<rparr>, 1, 0)
   \<and> (1 :: nat) = 0 + of_bool (lp_inFlight \<lparr>lp_stopped = False, lp_inFlight = True\<rparr>)"
proof -
  have "publish_begin True 2 new_publisher = (\<lparr>lp_stopped = False, lp_inFlight = True\<rparr>, ok ())"
    by (simp add: publish_begin_def new_publisher_def isSafeInteger_def)
  from publisher_step.called [OF this, of 0 0]
  have run: "(publisher_step True 2)\<^sup>*\<^sup>* (new_publisher, 0, 0) (\<lparr>lp_stopped = False, lp_inFlight = True\<rparr>, 1, 0)" by auto
  with publisher_single_flight [OF this rtranclp.rtrancl_refl] show ?thesis by simp
qed

text \<open>
  A failed publication does not block the publisher. Whatever a publication ends with, if that
  does not stop the publisher then the next call begins a publication.
\<close>

theorem publisher_recovers:
  assumes "enabled" "isSafeInteger epoch" "1 \<le> epoch"
    and "(publisher_step enabled epoch)\<^sup>*\<^sup>* (new_publisher, 0, 0) (p, b, f)" "lp_inFlight p"
    and "publish_end out p = (q, r)" "\<not> lp_stopped q"
  shows "\<exists>q'. (publisher_step enabled epoch)\<^sup>*\<^sup>* (p, b, f) (q', b + 1, f + 1) \<and> lp_inFlight q'"
proof -
  have "b = f + 1" using publisher_ok_run [OF assms(4)] assms(5) by (simp add: publisher_ok_def new_publisher_def)
  then have "publisher_step enabled epoch (p, b, f) (q, b, f + 1)" using assms(6) by (intro publisher_step.ended) auto
  moreover have "publish_begin enabled epoch q = (q\<lparr>lp_inFlight := True\<rparr>, ok ())"
    using publish_end_fields [OF assms(6)] assms(1-3,7) by (simp add: publish_begin_def)
  then have "publisher_step enabled epoch (q, b, f + 1) (q\<lparr>lp_inFlight := True\<rparr>, b + 1, f + 1)"
    using publisher_step.called by fastforce
  ultimately have "(publisher_step enabled epoch)\<^sup>*\<^sup>* (p, b, f) (q\<lparr>lp_inFlight := True\<rparr>, b + 1, f + 1)" by auto
  then show ?thesis by (intro exI [of _ "q\<lparr>lp_inFlight := True\<rparr>"]) simp
qed

theorem publisher_recovers_witness:
  "\<exists>q'. (publisher_step True 2)\<^sup>*\<^sup>* (\<lparr>lp_stopped = False, lp_inFlight = True\<rparr>, 1, 0) (q', 2, 1) \<and> lp_inFlight q'"
proof -
  have "publish_begin True 2 new_publisher = (\<lparr>lp_stopped = False, lp_inFlight = True\<rparr>, ok ())"
    by (simp add: publish_begin_def new_publisher_def isSafeInteger_def)
  from publisher_step.called [OF this, of 0 0]
  have run: "(publisher_step True 2)\<^sup>*\<^sup>* (new_publisher, 0, 0) (\<lparr>lp_stopped = False, lp_inFlight = True\<rparr>, 1, 0)" by auto
  have "isSafeInteger (2 :: int)" "(1 :: int) \<le> 2" by (simp_all add: isSafeInteger_def)
  moreover have "publish_end (Responded 500) \<lparr>lp_stopped = False, lp_inFlight = True\<rparr> =
      (\<lparr>lp_stopped = False, lp_inFlight = False\<rparr>, throw (''Location publish failed ('' @ int_str 500 @ '')''))"
    by (simp add: publish_end_def reply_ok_def)
  ultimately show ?thesis using publisher_recovers [OF TrueI _ _ run] by (simp add: numeral_2_eq_2)
qed

end
