(* ===== verification/CircleAdmin.thy ===== *)
theory CircleAdmin
  imports Circles
begin

text \<open>
  Managing a circle (the handlers of \<open>components/FamilyCircleDashboard.tsx\<close>): invite codes, creating
  a circle, adding a member, accepting an invitation, starting a new key epoch, and the controls of
  location sharing. The server's answers and the random keys are arguments; what a handler reads
  from the render it was created in is separate from the store it dispatches to. The lemmas show that
  an invite code is read back, that after a new epoch every active member can recover the new key and
  their label, that sharing never outlives its timers, and what goes wrong when an epoch is retried or
  a handler runs on an old render.
\<close>

section \<open>Invite codes\<close>

text \<open>
  \<open>encodeURIComponent\<close> and \<open>decodeURIComponent\<close> on code units below 256, which take one or two bytes
  of UTF-8; sequences for other code points, which no such string encodes to, are outside the model.
\<close>

definition uri_unreserved :: "char \<Rightarrow> bool" where
  "uri_unreserved c \<longleftrightarrow>
     (CHR ''A'' \<le> c \<and> c \<le> CHR ''Z'') \<or> (CHR ''a'' \<le> c \<and> c \<le> CHR ''z'') \<or> is_digit c
     \<or> c \<in> set [CHR ''-'', CHR ''_'', CHR ''.'', CHR ''!'', CHR ''~'', CHR ''*'', CHR 0x27, CHR ''('', CHR '')'']"

definition upper_hex_digit :: "nat \<Rightarrow> char" where
  "upper_hex_digit d = (if d < 10 then char_of (48 + d) else char_of (55 + d))"

definition percent :: "nat \<Rightarrow> string" where
  "percent b = [CHR ''%'', upper_hex_digit (b div 16), upper_hex_digit (b mod 16)]"

definition encode_uri_char :: "char \<Rightarrow> string" where
  "encode_uri_char c =
     (let n = of_char c :: nat
      in if uri_unreserved c then [c]
         else if n < 128 then percent n
         else percent (192 + n div 64) @ percent (128 + n mod 64))"

definition encodeURIComponent :: "string \<Rightarrow> string" where
  "encodeURIComponent s = concat (map encode_uri_char s)"

fun decode_uri_bytes :: "string \<Rightarrow> (bool \<times> nat) list option" where
  "decode_uri_bytes [] = Some []"
| "decode_uri_bytes (c # cs) =
     (if c \<noteq> CHR ''%'' then map_option ((#) (False, of_char c)) (decode_uri_bytes cs)
      else
        (case cs of
           a # b # ds \<Rightarrow>
             (case (hex_val a, hex_val b) of
                (Some h, Some l) \<Rightarrow> map_option ((#) (True, 16 * h + l)) (decode_uri_bytes ds)
              | _ \<Rightarrow> None)
         | _ \<Rightarrow> None))"

fun decode_utf8 :: "(bool \<times> nat) list \<Rightarrow> string option" where
  "decode_utf8 [] = Some []"
| "decode_utf8 ((False, n) # bs) = map_option ((#) (char_of n)) (decode_utf8 bs)"
| "decode_utf8 ((True, n) # bs) =
     (if n < 128 then map_option ((#) (char_of n)) (decode_utf8 bs)
      else
        (case bs of
           (True, m) # cs \<Rightarrow>
             (if (n = 194 \<or> n = 195) \<and> 128 \<le> m \<and> m < 192
              then map_option ((#) (char_of (64 * (n - 192) + (m - 128)))) (decode_utf8 cs) else None)
         | _ \<Rightarrow> None))"

definition decodeURIComponent :: "string \<Rightarrow> string option" where
  "decodeURIComponent s = Option.bind (decode_uri_bytes s) decode_utf8"

definition buildInviteString :: "string \<Rightarrow> string \<Rightarrow> string \<Rightarrow> string" where
  "buildInviteString circleId ownerPubkey circleName =
     ''sm:circle:'' @ circleId @ '':'' @ ownerPubkey @ '':'' @ encodeURIComponent circleName"

record parsed_invite =
  pi_circleId :: string
  pi_ownerPubkey :: string
  pi_circleName :: string

definition id_char :: "char \<Rightarrow> bool" where
  "id_char c \<longleftrightarrow> is_lower_hex c \<or> c = CHR ''-''"

text \<open>\<open>/^sm:circle:([0-9a-f-]{36}):([0-9a-f]{64}):(.+)$/\<close>\<close>

definition match_invite :: "string \<Rightarrow> (string \<times> string \<times> string) option" where
  "match_invite s =
     (let r = drop 10 s; i = take 36 r; r1 = drop 36 r; owner = take 64 (drop 1 r1); r2 = drop 65 r1; name = drop 1 r2
      in if startsWith s ''sm:circle:'' \<and> length i = 36 \<and> list_all id_char i \<and> take 1 r1 = '':''
            \<and> length owner = 64 \<and> list_all is_lower_hex owner \<and> take 1 r2 = '':'' \<and> name \<noteq> ''''
            \<and> list_all (\<lambda>c. c \<noteq> CHR 0x0A \<and> c \<noteq> CHR 0x0D) name
         then Some (i, owner, name) else None)"

definition parseInviteString :: "string \<Rightarrow> parsed_invite option" where
  "parseInviteString raw =
     Option.bind (match_invite (trim raw)) (\<lambda>(i, owner, name).
       map_option (\<lambda>n. \<lparr>pi_circleId = i, pi_ownerPubkey = owner, pi_circleName = n\<rparr>) (decodeURIComponent name))"

text \<open>The join tab's button: the circle is tracked and its owner trusted.\<close>

definition track_invite :: "parsed_invite \<Rightarrow> 'k circle_state \<Rightarrow> 'k circle_state result" where
  "track_invite invite st =
     (let l = addCircleId (cs_local st) (pi_circleId invite)
      in if pi_ownerPubkey invite \<noteq> ''''
         then bind_result (saveCircleOwnerKey l (pi_circleId invite) (pi_ownerPubkey invite)) (\<lambda>l'. ok (st\<lparr>cs_local := l'\<rparr>))
         else ok (st\<lparr>cs_local := l\<rparr>))"

section \<open>Creating a circle\<close>

definition toCircle :: "raw_circle \<Rightarrow> string option \<Rightarrow> circle" where
  "toCircle raw displayName =
     \<lparr>ci_id = rc_id raw, ci_name = Some (or_else displayName ''(locked)''), ci_name_ciphertext = rc_name_ciphertext raw,
      ci_name_version = rc_name_version raw, ci_key_epoch = Some (or_else (rc_key_epoch raw) 1),
      ci_location_protocol_version = None, ci_rekey_required = None, ci_membership_revision = None, ci_self_token = None,
      ci_created_at = rc_created_at raw, ci_is_owner = or_else (rc_is_owner raw) False\<rparr>"

definition toMember :: "raw_member \<Rightarrow> circle_member" where
  "toMember raw =
     \<lparr>cm_circle_id = rm_circle_id raw, cm_token = rm_token raw, cm_alert_radius_km = Some (or_else (rm_alert_radius_km raw) 5),
      cm_alert_severity = Some (or_else (rm_alert_severity raw) ''MEDIUM''), cm_joined_at = rm_joined_at raw,
      cm_label_ciphertext = None, cm_state = Some (or_else (rm_state raw) Active), cm_accepted_at = rm_accepted_at raw,
      cm_key_wrap_epoch = rm_key_wrap_epoch raw, cm_pubkey = None, cm_label = None\<rparr>"

text \<open>A response: the status, and the decoded body; a failed request throws.\<close>

type_synonym 'b reply = "(int \<times> 'b) result"

definition network_error :: string where
  "network_error = ''Network error '' @ [CHR 0xE2, CHR 0x80, CHR 0x94] @ '' check your connection''"

record 'k admin_state =
  ad_keys :: "'k circle_state"
  ad_store :: circles_state
  ad_error :: "string option"

definition create_body :: "'k web_crypto \<Rightarrow> bytes \<Rightarrow> 'k \<Rightarrow> string \<Rightarrow> string" where
  "create_body wc iv circleKey name = stringify (JObj [(''name_ciphertext'', JStr (encryptString wc iv circleKey name))])"

text \<open>\<open>detail\<close> is the members of the second request, when it succeeded.\<close>

definition handleCreate ::
  "'k web_crypto \<Rightarrow> 'k vault_entropy \<Rightarrow> 'k \<Rightarrow> string \<Rightarrow> raw_circle reply \<Rightarrow> raw_member list option \<Rightarrow> 'k admin_state \<Rightarrow> 'k admin_state" where
  "handleCreate wc ent circleKey name created detail s =
     (if name = '''' then s
      else
        (let s1 = s\<lparr>ad_error := None\<rparr>
         in case created of
              Inl _ \<Rightarrow> s1\<lparr>ad_error := Some network_error\<rparr>
            | Inr (status, raw) \<Rightarrow>
                if \<not> reply_ok status then s1\<lparr>ad_error := Some (''Server error ('' @ int_str status @ '')'')\<rparr>
                else
                  (case wc_exportKey wc circleKey of
                     None \<Rightarrow> s1\<lparr>ad_error := Some network_error\<rparr>
                   | Some rawKey \<Rightarrow>
                       (case saveCircleKeyWithBackup wc ent (rc_id raw) rawKey 1 (ad_keys s1) of
                          Inl _ \<Rightarrow> s1\<lparr>ad_error := Some network_error\<rparr>
                        | Inr keys \<Rightarrow>
                            s1\<lparr>ad_keys := keys\<lparr>cs_local := addCircleId (cs_local keys) (rc_id raw)\<rparr>,
                               ad_store := circles_reducer (ad_store s1)
                                 (CircleLoaded (toCircle raw (Some name)) (map toMember (or_else detail [])))\<rparr>))))"

section \<open>Members\<close>

definition label_json :: "string \<Rightarrow> string \<Rightarrow> string" where
  "label_json pubkey name = stringify (JObj [(''pubkey'', JStr pubkey), (''name'', JStr name)])"

definition add_member_body :: "string \<Rightarrow> string \<Rightarrow> int \<Rightarrow> nostr_event \<Rightarrow> string" where
  "add_member_body hex labelCiphertext epoch wrap =
     stringify (JObj [(''member_pubkey'', JStr hex), (''member_label_ciphertext'', JStr labelCiphertext),
       (''key_wrap_epoch'', JInt epoch), (''key_wrap_event'', event_json wrap)])"

text \<open>
  The request of \<open>handleAddMember\<close>, up to its sending, or the message it returns instead; \<open>active\<close> is
  the active circle of the render.
\<close>

definition add_member_request ::
  "'k web_crypto \<Rightarrow> nostr_tools \<Rightarrow> (string \<Rightarrow> nip19_data option) \<Rightarrow> 'k vault_entropy \<Rightarrow> bytes \<Rightarrow> nostr_keypair \<Rightarrow> int \<Rightarrow> bytes
     \<Rightarrow> circle option \<Rightarrow> string \<Rightarrow> 'k circle_state \<Rightarrow> ('k circle_state \<times> (string + string)) result" where
  "add_member_request wc lib nip19_decode ent iv kp now nonce active npubOrHex st =
     (case (hexFromNpubOrHex nip19_decode npubOrHex, active) of
        (Some hex, Some c) \<Rightarrow>
          (let epoch = or_else (ci_key_epoch c) 1
           in bind_result (loadCircleKey wc ent (ci_id c) epoch st) (\<lambda>(st1, key).
                case key of
                  None \<Rightarrow> ok (st1, Inl (''Circle key not found '' @ [CHR 0xE2, CHR 0x80, CHR 0x94] @ '' cannot encrypt member label''))
                | Some k \<Rightarrow>
                    if loadVaultCircleKey wc (cs_vault st1) (ci_id c) (Some epoch) = None
                    then ok (st1, Inl ''This legacy circle key cannot be distributed safely. Restore a backup containing the circle key or create a new circle.'')
                    else
                      (case createNip44CircleKeyEvent wc lib kp now nonce (ci_id c) hex epoch st1 of
                         Inl e \<Rightarrow> ok (st1, Inl (if e = '''' then ''Network error'' else e))
                       | Inr wrap \<Rightarrow>
                           ok (st1, Inr (add_member_body hex (encryptString wc iv k (label_json hex (take 8 hex))) epoch wrap)))))
      | _ \<Rightarrow> ok (st, Inl ''Invalid key format''))"

text \<open>The end of \<open>handleAddMember\<close>: the message it returns, and the store; the members are the render's.\<close>

definition add_member_done :: "circle \<Rightarrow> circle_member list \<Rightarrow> raw_member reply \<Rightarrow> circles_state \<Rightarrow> circles_state \<times> string option" where
  "add_member_done active members res store =
     (case res of
        Inl e \<Rightarrow> (store, Some (if e = '''' then ''Network error'' else e))
      | Inr (status, raw) \<Rightarrow>
          if status = 403 then (store, Some ''Only the circle owner can add members'')
          else if \<not> reply_ok status then (store, Some (''Server error ('' @ int_str status @ '')''))
          else (circles_reducer store (CircleLoaded active (members @ [toMember raw])), None))"

definition handleAcceptInvite :: "string option \<Rightarrow> string \<Rightarrow> int \<Rightarrow> 'k admin_state \<Rightarrow> 'k admin_state" where
  "handleAcceptInvite activeCircleId myPubkey status s =
     (case activeCircleId of
        None \<Rightarrow> s
      | Some i \<Rightarrow>
          if \<not> reply_ok status then s\<lparr>ad_error := Some (''Acceptance failed ('' @ int_str status @ '')'')\<rparr>
          else s\<lparr>ad_store := circles_reducer (ad_store s) (MemberAccepted i myPubkey)\<rparr>)"

definition handleInvite :: "string option \<Rightarrow> circle option \<Rightarrow> string \<Rightarrow> string option" where
  "handleInvite activeCircleId active pubkey =
     (case (activeCircleId, active) of
        (Some i, Some c) \<Rightarrow> Some (buildInviteString i pubkey (or_else (ci_name c) ''(circle)''))
      | _ \<Rightarrow> None)"

section \<open>A new epoch\<close>

text \<open>
  The loop over the members: for each active member the token, the label under the fresh key and the
  key event; a member without token or known key ends the handler. The randomness of member \<open>i\<close> is
  \<open>iv i\<close> and \<open>nonce i\<close>.
\<close>

fun wrap_members ::
  "'k web_crypto \<Rightarrow> nostr_tools \<Rightarrow> nostr_keypair \<Rightarrow> int \<Rightarrow> (nat \<Rightarrow> bytes) \<Rightarrow> (nat \<Rightarrow> bytes) \<Rightarrow> 'k \<Rightarrow> string \<Rightarrow> int \<Rightarrow> 'k circle_state
     \<Rightarrow> nat \<Rightarrow> circle_member list \<Rightarrow> ((string \<times> string \<times> nostr_event) list) option result" where
  "wrap_members wc lib kp now iv nonce key c e st i [] = ok (Some [])"
| "wrap_members wc lib kp now iv nonce key c e st i (m # ms) =
     (if cm_state m = Some Pending then wrap_members wc lib kp now iv nonce key c e st (Suc i) ms
      else if \<not> truthy (cm_token m) \<or> \<not> truthy (cm_pubkey m) then ok None
      else
        (let pubkey = the (cm_pubkey m);
             label = encryptString wc (iv i) key (label_json pubkey (or_else (cm_label m) (take 8 pubkey)))
         in bind_result (createNip44CircleKeyEvent wc lib kp now (nonce i) c pubkey e st) (\<lambda>wrap.
            bind_result (wrap_members wc lib kp now iv nonce key c e st (Suc i) ms) (\<lambda>rest.
              ok (map_option ((#) (the (cm_token m), label, wrap)) rest)))))"

definition epoch_body :: "int \<Rightarrow> int \<Rightarrow> string \<Rightarrow> (string \<times> string \<times> nostr_event) list \<Rightarrow> string" where
  "epoch_body revision nextEpoch nameCiphertext ws =
     stringify (JObj [(''expected_revision'', JInt revision), (''next_epoch'', JInt nextEpoch), (''name_ciphertext'', JStr nameCiphertext),
       (''member_labels'', JArr (map (\<lambda>(t, l, w). JObj [(''member_token'', JStr t), (''label_ciphertext'', JStr l)]) ws)),
       (''member_wraps'', JArr (map (\<lambda>(t, l, w). JObj [(''member_token'', JStr t), (''key_wrap_event'', event_json w)]) ws))])"

text \<open>
  \<open>handleActivateLocation\<close>; \<open>answer\<close> is the server's status for the request it is given, or the failure
  of the request, which leaves the handler with an exception. The key of the next epoch is saved
  before anything is sent.
\<close>

definition handleActivateLocation ::
  "'k web_crypto \<Rightarrow> nostr_tools \<Rightarrow> 'k vault_entropy \<Rightarrow> nostr_keypair \<Rightarrow> int \<Rightarrow> bytes \<Rightarrow> (nat \<Rightarrow> bytes) \<Rightarrow> (nat \<Rightarrow> bytes) \<Rightarrow> 'k
     \<Rightarrow> circle \<Rightarrow> circle_member list \<Rightarrow> (string \<Rightarrow> int result) \<Rightarrow> 'k admin_state \<Rightarrow> 'k admin_state \<times> unit result" where
  "handleActivateLocation wc lib ent kp now name_iv iv nonce fresh active members answer s =
     (if \<not> ci_is_owner active then (s, ok ())
      else
        (let nextEpoch = or_else (ci_key_epoch active) 1 + 1
         in case rotateCircleKey wc ent fresh (ci_id active) nextEpoch (ad_keys s) of
              Inl e \<Rightarrow> (s, throw e)
            | Inr (keys, freshKey) \<Rightarrow>
                (let s1 = s\<lparr>ad_keys := keys\<rparr>
                 in case wrap_members wc lib kp now iv nonce freshKey (ci_id active) nextEpoch keys 0 members of
                      Inl e \<Rightarrow> (s1, throw e)
                    | Inr None \<Rightarrow>
                        (s1\<lparr>ad_error := Some ''Every active member must have a known public key to activate location.''\<rparr>, ok ())
                    | Inr (Some ws) \<Rightarrow>
                        (case answer (epoch_body (or_else (ci_membership_revision active) 0) nextEpoch
                            (encryptString wc name_iv freshKey (or_else (ci_name active) ''(circle)'')) ws) of
                           Inl e \<Rightarrow> (s1, throw e)
                         | Inr status \<Rightarrow>
                             if \<not> reply_ok status
                             then (s1\<lparr>ad_error := Some (''Location activation failed ('' @ int_str status @ '')'')\<rparr>, ok ())
                             else (s1\<lparr>ad_error := None,
                                     ad_store := circles_reducer (ad_store s1) (CircleEpochChanged (ci_id active) nextEpoch False)\<rparr>, ok ())))))"

section \<open>Sharing\<close>

text \<open>
  The sharing controls: the publisher, the two timers and the flag. The button starts when nothing is
  shared and stops otherwise; the interval, and the first call, publish once.
\<close>

record sharing =
  sh_publisher :: "location_publisher option"
  sh_interval :: bool
  sh_duration :: bool
  sh_sharing :: bool
  sh_error :: "string option"

definition sharing_initial :: sharing where
  "sharing_initial = \<lparr>sh_publisher = None, sh_interval = False, sh_duration = False, sh_sharing = False, sh_error = None\<rparr>"

definition epoch_ready :: "circle option \<Rightarrow> bool" where
  "epoch_ready active \<longleftrightarrow>
     (case active of
        None \<Rightarrow> False
      | Some c \<Rightarrow> ci_rekey_required c \<noteq> Some True \<and> or_else (ci_location_protocol_version c) 0 = 1)"

definition stopSharing :: "sharing \<Rightarrow> sharing" where
  "stopSharing s = s\<lparr>sh_publisher := None, sh_interval := False, sh_duration := False, sh_sharing := False\<rparr>"

definition startSharing :: "circle option \<Rightarrow> sharing \<Rightarrow> sharing" where
  "startSharing active s =
     (if active = None then s
      else if \<not> epoch_ready active then s\<lparr>sh_error := Some ''This circle is not ready for location sharing.''\<rparr>
      else s\<lparr>sh_publisher := Some new_publisher, sh_interval := True, sh_duration := True, sh_sharing := True, sh_error := None\<rparr>)"

definition share_button :: "circle option \<Rightarrow> sharing \<Rightarrow> sharing" where
  "share_button active s = (if sh_sharing s then stopSharing s else startSharing active s)"

text \<open>\<open>publishOnce\<close>, when it is called and when the publication settles.\<close>

definition publish_tick :: "bool \<Rightarrow> int \<Rightarrow> sharing \<Rightarrow> sharing" where
  "publish_tick enabled epoch s =
     (case sh_publisher s of
        None \<Rightarrow> s
      | Some p \<Rightarrow>
          (case publish_begin enabled epoch p of
             (p', Inl _) \<Rightarrow> stopSharing (s\<lparr>sh_publisher := Some p'\<rparr>)
           | (p', Inr _) \<Rightarrow> s\<lparr>sh_publisher := Some p'\<rparr>))"

definition publish_settled :: "publish_outcome \<Rightarrow> sharing \<Rightarrow> sharing" where
  "publish_settled out s =
     (case sh_publisher s of
        None \<Rightarrow> s
      | Some p \<Rightarrow>
          (case publish_end out p of
             (p', Inl _) \<Rightarrow> stopSharing (s\<lparr>sh_publisher := Some p'\<rparr>)
           | (p', Inr _) \<Rightarrow> s\<lparr>sh_publisher := Some p'\<rparr>))"

text \<open>The effect that watches the active circle.\<close>

definition sharing_effect :: "circle option \<Rightarrow> sharing \<Rightarrow> sharing" where
  "sharing_effect active s = (if sh_sharing s \<and> \<not> epoch_ready active then stopSharing s else s)"

section \<open>Invite codes are read back\<close>

lemma upper_hex_val [simp]: "d < 16 \<Longrightarrow> hex_val (upper_hex_digit d) = Some d"
  by (auto simp: hex_val_def upper_hex_digit_def Let_def)

lemma decode_percent:
  "b < 256 \<Longrightarrow> decode_uri_bytes (percent b @ rest) = map_option ((#) (True, b)) (decode_uri_bytes rest)"
  by (simp add: percent_def less_mult_imp_div_less)

text \<open>The bytes of one character.\<close>

definition uri_token :: "char \<Rightarrow> (bool \<times> nat) list" where
  "uri_token c =
     (let n = of_char c :: nat
      in if uri_unreserved c then [(False, n)] else if n < 128 then [(True, n)]
         else [(True, 192 + n div 64), (True, 128 + n mod 64)])"

lemma of_char_less: "(of_char c :: nat) < 256"
  by simp

lemma utf8_bytes_less: "192 + (of_char c :: nat) div 64 < 256" "128 + (of_char c :: nat) mod 64 < 256"
proof -
  have "(of_char c :: nat) div 64 < 4" using of_char_less [of c] by (intro less_mult_imp_div_less) simp
  then show "192 + (of_char c :: nat) div 64 < 256" by linarith
qed simp

lemma unreserved_not_percent: "uri_unreserved c \<Longrightarrow> c \<noteq> CHR ''%''"
  by (auto simp: uri_unreserved_def is_digit_def char_le_iff)

lemma decode_uri_char:
  "decode_uri_bytes (encode_uri_char c @ rest) = map_option ((@) (uri_token c)) (decode_uri_bytes rest)"
  using unreserved_not_percent [of c] of_char_less [of c] utf8_bytes_less [of c]
  by (cases "decode_uri_bytes rest") (auto simp: encode_uri_char_def uri_token_def Let_def decode_percent)

lemma decode_uri_token: "decode_utf8 (uri_token c @ rest) = map_option ((#) c) (decode_utf8 rest)"
proof (cases "uri_unreserved c \<or> (of_char c :: nat) < 128")
  case True
  then show ?thesis by (auto simp: uri_token_def Let_def)
next
  case False
  define n where "n = (of_char c :: nat)"
  have n: "128 \<le> n" "n < 256" using False of_char_less [of c] by (auto simp: n_def)
  then have "n div 64 = 2 \<or> n div 64 = 3" by auto
  moreover have "64 * (n div 64) + n mod 64 = n" by simp
  moreover have "char_of n = c" by (simp add: n_def)
  ultimately show ?thesis using False by (auto simp: uri_token_def Let_def n_def [symmetric])
qed

lemma decode_encode_uri: "decodeURIComponent (encodeURIComponent s) = Some s"
proof -
  have "decode_uri_bytes (encodeURIComponent s) = Some (concat (map uri_token s))"
    by (induction s) (simp_all add: encodeURIComponent_def decode_uri_char)
  moreover have "decode_utf8 (concat (map uri_token s)) = Some s"
    by (induction s) (simp_all add: decode_uri_token)
  ultimately show ?thesis by (simp add: decodeURIComponent_def)
qed

lemma upper_hex_not_space: "d < 16 \<Longrightarrow> \<not> js_whitespace (upper_hex_digit d)"
proof -
  assume "d < 16"
  then have "(of_char (upper_hex_digit d) :: nat) \<in> {48..57} \<union> {65..70}" by (auto simp: upper_hex_digit_def)
  then show ?thesis by (auto simp: js_whitespace_def)
qed

lemma unreserved_not_space: "uri_unreserved c \<Longrightarrow> \<not> js_whitespace c"
  by (auto simp: uri_unreserved_def js_whitespace_def is_digit_def char_le_iff)

lemma encoded_not_space: "list_all (\<lambda>c. \<not> js_whitespace c) (encodeURIComponent s)"
proof (induction s)
  case (Cons c s)
  note utf8_bytes_less [of c]
  moreover have "list_all (\<lambda>c. \<not> js_whitespace c) (percent b)" if "b < 256" for b
    using that upper_hex_not_space [of "b div 16"] upper_hex_not_space [of "b mod 16"]
    by (simp add: percent_def less_mult_imp_div_less js_whitespace_def)
  ultimately have "list_all (\<lambda>c. \<not> js_whitespace c) (encode_uri_char c)"
    using unreserved_not_space [of c] of_char_less [of c] by (simp add: encode_uri_char_def Let_def)
  with Cons show ?case by (simp add: encodeURIComponent_def)
qed (simp add: encodeURIComponent_def)

lemma encoded_nonempty: "s \<noteq> '''' \<Longrightarrow> encodeURIComponent s \<noteq> ''''"
  by (cases s) (auto simp: encodeURIComponent_def encode_uri_char_def percent_def Let_def)

lemma trim_around:
  assumes "list_all js_whitespace pre" "list_all js_whitespace post" "s \<noteq> []" "\<not> js_whitespace (hd s)" "\<not> js_whitespace (last s)"
  shows "trim (pre @ s @ post) = s"
proof -
  have drop: "dropWhile js_whitespace (ws @ t) = t"
    if "list_all js_whitespace ws" "t \<noteq> []" "\<not> js_whitespace (hd t)" for ws t
    using that by (induction ws) (auto simp: neq_Nil_conv)
  have "dropWhile js_whitespace (pre @ s @ post) = s @ post"
    using assms(1,3,4) by (intro drop) simp_all
  moreover have "dropWhile js_whitespace (rev post @ rev s) = rev s"
    using assms(2,3,5) by (intro drop) (simp_all add: list_all_iff hd_rev)
  ultimately show ?thesis by (simp add: trim_def)
qed

lemma invite_parses:
  assumes "length i = 36" "list_all id_char i" "length owner = 64" "list_all is_lower_hex owner" "name \<noteq> ''''"
    "list_all js_whitespace pre" "list_all js_whitespace post"
  shows "parseInviteString (pre @ buildInviteString i owner name @ post)
    = Some \<lparr>pi_circleId = i, pi_ownerPubkey = owner, pi_circleName = name\<rparr>"
proof -
  let ?e = "encodeURIComponent name"
  let ?s = "buildInviteString i owner name"
  have e: "?e \<noteq> ''''" "list_all (\<lambda>c. \<not> js_whitespace c) ?e" using encoded_nonempty [OF assms(5)] encoded_not_space by auto
  have "last ?s = last ?e" using e(1) by (simp add: buildInviteString_def)
  moreover have "\<not> js_whitespace (last ?e)" using e by (simp add: list_all_iff)
  ultimately have "trim (pre @ ?s @ post) = ?s"
    using assms(6,7) by (intro trim_around) (simp_all add: buildInviteString_def js_whitespace_def)
  moreover have "list_all (\<lambda>c. c \<noteq> CHR 0x0A \<and> c \<noteq> CHR 0x0D) ?e" using e(2) by (auto simp: list_all_iff js_whitespace_def)
  then have "match_invite ?s = Some (i, owner, ?e)"
    using assms e(1) by (simp add: match_invite_def buildInviteString_def startsWith_def Let_def)
  ultimately show ?thesis by (simp add: parseInviteString_def decode_encode_uri)
qed

text \<open>
  An invite code is read back. For every circle id and owner key of the right form and every
  non-empty name, whatever characters it has, the code the owner shares is parsed into that id, that
  owner and that name.
\<close>

theorem invite_roundtrip:
  assumes "length i = 36" "list_all id_char i" "length owner = 64" "list_all is_lower_hex owner" "name \<noteq> ''''"
  shows "parseInviteString (buildInviteString i owner name) = Some \<lparr>pi_circleId = i, pi_ownerPubkey = owner, pi_circleName = name\<rparr>"
  using invite_parses [OF assms, of "[]" "[]"] by simp

theorem invite_roundtrip_witness:
  "parseInviteString (buildInviteString (replicate 36 (CHR ''a'')) (replicate 64 (CHR ''0'')) ''Mum & Dad: 100%'')
     = Some \<lparr>pi_circleId = replicate 36 (CHR ''a''), pi_ownerPubkey = replicate 64 (CHR ''0''), pi_circleName = ''Mum & Dad: 100%''\<rparr>"
  by (rule invite_roundtrip) (simp_all add: list_all_iff id_char_def is_lower_hex_def is_digit_def char_le_iff)

section \<open>A new epoch reaches every active member\<close>

lemma wrap_members_cover:
  assumes "wrap_members wc lib kp now iv nonce key c e st i ms = ok (Some ws)" "m \<in> set ms" "cm_state m \<noteq> Some Pending"
  shows "\<exists>j t event. truthy (cm_pubkey m) \<and> cm_token m = Some t
    \<and> (t, encryptString wc (iv j) key (label_json (the (cm_pubkey m)) (or_else (cm_label m) (take 8 (the (cm_pubkey m))))), event) \<in> set ws
    \<and> createNip44CircleKeyEvent wc lib kp now (nonce j) c (the (cm_pubkey m)) e st = ok event"
  using assms
proof (induction ms arbitrary: i ws)
  case (Cons x xs)
  note prems = Cons.prems
  show ?case
  proof (cases "cm_state x = Some Pending")
    case True
    with prems have "m \<in> set xs" by auto
    with True prems Cons.IH show ?thesis by simp
  next
    case False
    with prems(1) obtain event rest where x: "truthy (cm_token x)" "truthy (cm_pubkey x)"
        "createNip44CircleKeyEvent wc lib kp now (nonce i) c (the (cm_pubkey x)) e st = ok event"
        "wrap_members wc lib kp now iv nonce key c e st (Suc i) xs = ok (Some rest)"
        "ws = (the (cm_token x), encryptString wc (iv i) key
          (label_json (the (cm_pubkey x)) (or_else (cm_label x) (take 8 (the (cm_pubkey x))))), event) # rest"
      by (auto simp: bind_result_ok_iff Let_def split: if_splits)
    show ?thesis
    proof (cases "m = x")
      case True
      have "cm_token x = Some (the (cm_token x))" using x(1) by (auto simp: truthy_def split: option.splits)
      with True x show ?thesis by auto
    next
      case False
      with prems(2) have "m \<in> set xs" by simp
      from Cons.IH [OF x(4) this prems(3)] x(5) show ?thesis by auto
    qed
  qed
qed simp

text \<open>What a handler that ends without error has done.\<close>

lemma activate_ok:
  assumes "handleActivateLocation wc lib ent kp now name_iv iv nonce fresh active members answer s = (s', ok ())"
    and "ad_error s' = None" "ci_is_owner active" "e = or_else (ci_key_epoch active) 1 + 1"
  shows "\<exists>ws status. rotateCircleKey wc ent fresh (ci_id active) e (ad_keys s) = ok (ad_keys s', fresh)
    \<and> wrap_members wc lib kp now iv nonce fresh (ci_id active) e (ad_keys s') 0 members = ok (Some ws)
    \<and> answer (epoch_body (or_else (ci_membership_revision active) 0) e
        (encryptString wc name_iv fresh (or_else (ci_name active) ''(circle)'')) ws) = ok status
    \<and> reply_ok status \<and> ad_store s' = circles_reducer (ad_store s) (CircleEpochChanged (ci_id active) e False)"
proof -
  note run = assms(1) [unfolded handleActivateLocation_def Let_def assms(4) [symmetric]]
  obtain keys key where r: "rotateCircleKey wc ent fresh (ci_id active) e (ad_keys s) = ok (keys, key)"
    using run assms(3) by (auto split: sum.splits)
  moreover have "key = fresh" using r by (auto simp: rotateCircleKey_def bind_result_ok_iff split: option.splits)
  ultimately have r: "rotateCircleKey wc ent fresh (ci_id active) e (ad_keys s) = ok (keys, fresh)" by simp
  show ?thesis
    using run assms(2,3) by (auto simp: r split: sum.splits option.splits if_splits)
qed

text \<open>
  C12: a new key epoch reaches every active member. When the owner's request to start an epoch was
  accepted, the body that was sent holds for each active member a key event and a label under their
  token; the member's device opens the event to exactly the new key, at the new epoch, and with it
  reads the label. A key imported from the exported bytes decrypts what the original encrypted.
\<close>

theorem new_epoch_reaches_members:
  assumes "crypto_laws wc" "finalizes lib" "nip44_laws lib" "length skO = 32" "length skM = 32"
    and "length (ve_iv ent) = 12" "\<forall>i. length (iv i) = 12" "loadVault wc (cs_vault (ad_keys s)) = Some v"
    and "wc_exportKey wc fresh = Some raw" "length raw = 32" "wc_importKey wc raw False = Some k"
    and "\<forall>iv aad t. wc_decrypt wc k iv aad t = wc_decrypt wc fresh iv aad t"
    and handled: "handleActivateLocation wc lib ent (keypair_of lib skO) now name_iv iv nonce fresh active members answer s = (s', ok ())"
    and "ad_error s' = None" "ci_is_owner active" "e = or_else (ci_key_epoch active) 1 + 1"
    and m: "m \<in> set members" "cm_state m \<noteq> Some Pending" "cm_pubkey m = Some (tl_getPublicKey lib skM)"
  shows "\<exists>ws t label event status. cm_token m = Some t \<and> (t, label, event) \<in> set ws
    \<and> answer (epoch_body (or_else (ci_membership_revision active) 0) e
        (encryptString wc name_iv fresh (or_else (ci_name active) ''(circle)'')) ws) = ok status
    \<and> unwrapNip44CircleKey wc lib entM (keypair_of lib skM) (ci_id active) (tl_getPublicKey lib skO) event device
        = ok (upsert_in wc entM (ci_id active) raw e (remove_legacy (ci_id active) (put_key device (ci_id active, e) k)), e)
    \<and> decryptString wc k label = Some (label_json (tl_getPublicKey lib skM) (or_else (cm_label m) (take 8 (tl_getPublicKey lib skM))))"
proof -
  obtain ws status where sent: "rotateCircleKey wc ent fresh (ci_id active) e (ad_keys s) = ok (ad_keys s', fresh)"
      "wrap_members wc lib (keypair_of lib skO) now iv nonce fresh (ci_id active) e (ad_keys s') 0 members = ok (Some ws)"
      "answer (epoch_body (or_else (ci_membership_revision active) 0) e
        (encryptString wc name_iv fresh (or_else (ci_name active) ''(circle)'')) ws) = ok status"
    using activate_ok [OF handled assms(14-16)] by blast
  have "saveCircleKeyWithBackup wc ent (ci_id active) raw e (ad_keys s) = ok (ad_keys s')"
    using sent(1) assms(9) by (auto simp: rotateCircleKey_def bind_result_ok_iff)
  then have vault: "loadVaultCircleKey wc (cs_vault (ad_keys s')) (ci_id active) (Some e) = Some raw"
    using vault_upsert(2) [OF assms(1,6,8)] by (auto simp: saveWithBackup_ok put_key_def)
  obtain j t event where w: "cm_token m = Some t"
      "(t, encryptString wc (iv j) fresh (label_json (the (cm_pubkey m)) (or_else (cm_label m) (take 8 (the (cm_pubkey m))))), event) \<in> set ws"
      "createNip44CircleKeyEvent wc lib (keypair_of lib skO) now (nonce j) (ci_id active) (the (cm_pubkey m)) e (ad_keys s') = ok event"
    using wrap_members_cover [OF sent(2) m(1,2)] by blast
  have "unwrapNip44CircleKey wc lib entM (keypair_of lib skM) (ci_id active) (tl_getPublicKey lib skO) event device
      = ok (upsert_in wc entM (ci_id active) raw e (remove_legacy (ci_id active) (put_key device (ci_id active, e) k)), e)"
    using w(3) m(3) by (intro key_event_opens [OF assms(2-5) vault assms(10,11)]) simp
  moreover have "decryptString wc k (encryptString wc (iv j) fresh x) = Some x" for x
  proof -
    have "decryptString wc fresh (encryptString wc (iv j) fresh x) = Some x"
      using open_sealed [OF assms(1)] assms(7) by (simp add: decryptString_def encryptString_def)
    then show ?thesis using assms(12) by (simp add: decryptString_def open_b64_def)
  qed
  ultimately show ?thesis using w(1,2) m(3) sent(3) by auto
qed

definition sample_active :: circle where
  "sample_active = \<lparr>ci_id = ''c'', ci_name = Some ''Home'', ci_name_ciphertext = None, ci_name_version = Some 1, ci_key_epoch = Some 1,
     ci_location_protocol_version = None, ci_rekey_required = Some True, ci_membership_revision = Some 4, ci_self_token = None,
     ci_created_at = '''', ci_is_owner = True\<rparr>"

definition sample_member :: circle_member where
  "sample_member = \<lparr>cm_circle_id = ''c'', cm_token = Some ''t'', cm_alert_radius_km = None, cm_alert_severity = None,
     cm_joined_at = '''', cm_label_ciphertext = None, cm_state = Some Active, cm_accepted_at = None, cm_key_wrap_epoch = None,
     cm_pubkey = Some (key_of (CHR ''a'')), cm_label = Some ''Ann''\<rparr>"

definition sample_admin :: "(bytes \<times> bool) admin_state" where
  "sample_admin = \<lparr>ad_keys = sample_circle_state, ad_store = circles_initial, ad_error = None\<rparr>"

lemma sample_key_event:
  assumes "loadVaultCircleKey plain_crypto (cs_vault st) ''c'' (Some 2) = Some raw"
  shows "\<exists>event. createNip44CircleKeyEvent plain_crypto shared_tools kp now nonce ''c'' (key_of (CHR ''a'')) 2 st = ok event"
proof -
  have "isHex64_ci (key_of (CHR ''a''))" using sample_keys(1) by (simp add: isHex64_ci_def)
  then show ?thesis
    by (simp add: createNip44CircleKeyEvent_def assms isSafeInteger_def) (simp add: shared_tools_def plain_tools_def)
qed

lemma sample_rotated:
  "\<exists>keys. rotateCircleKey plain_crypto sample_vault_entropy (replicate 32 5, True) ''c'' 2 sample_circle_state = ok (keys, (replicate 32 5, True))
     \<and> loadVaultCircleKey plain_crypto (cs_vault keys) ''c'' (Some 2) = Some (replicate 32 5)"
proof -
  obtain v where v: "loadVault plain_crypto (cs_vault sample_circle_state) = Some v" using sample_vault_loads by blast
  obtain keys where keys: "saveCircleKeyWithBackup plain_crypto sample_vault_entropy ''c'' (replicate 32 5) 2 sample_circle_state = ok keys"
    using sample_import by (auto simp: saveWithBackup_ok)
  have "loadVaultCircleKey plain_crypto (cs_vault keys) ''c'' (Some 2) = Some (replicate 32 5)"
    using keys vault_upsert(2) [OF plain_crypto_laws sample_iv v] by (auto simp: saveWithBackup_ok put_key_def)
  moreover have "wc_exportKey plain_crypto (replicate 32 5, True) = Some (replicate 32 5)" by (simp add: plain_crypto_def)
  ultimately show ?thesis using keys by (simp add: rotateCircleKey_def del: replicate.simps)
qed

theorem new_epoch_reaches_members_witness:
  "\<exists>s' event st label. handleActivateLocation plain_crypto shared_tools sample_vault_entropy (keypair_of shared_tools (replicate 32 1)) 7
       (replicate 12 1) (\<lambda>_. replicate 12 1) (\<lambda>_. []) (replicate 32 5, True) sample_active [sample_member] (\<lambda>_. ok 200) sample_admin = (s', ok ())
     \<and> unwrapNip44CircleKey plain_crypto shared_tools sample_vault_entropy (keypair_of shared_tools (replicate 32 1)) ''c''
         (key_of (CHR ''a'')) event sample_circle_state = ok (st, 2)
     \<and> decryptString plain_crypto (replicate 32 5, False) label = Some (label_json (key_of (CHR ''a'')) ''Ann'')"
proof -
  let ?sk = "replicate 32 (1 :: 8 word)" and ?raw = "replicate 32 (5 :: 8 word)" and ?pk = "key_of (CHR ''a'')"
  let ?kp = "keypair_of shared_tools ?sk"
  let ?handle = "handleActivateLocation plain_crypto shared_tools sample_vault_entropy ?kp 7 (replicate 12 1) (\<lambda>_. replicate 12 1) (\<lambda>_. [])
     (?raw, True) sample_active [sample_member] (\<lambda>_. ok 200) sample_admin"
  obtain keys where keys: "rotateCircleKey plain_crypto sample_vault_entropy (?raw, True) ''c'' 2 sample_circle_state = ok (keys, (?raw, True))"
      "loadVaultCircleKey plain_crypto (cs_vault keys) ''c'' (Some 2) = Some ?raw" using sample_rotated by blast
  obtain event where "createNip44CircleKeyEvent plain_crypto shared_tools ?kp 7 [] ''c'' ?pk 2 keys = ok event"
    using sample_key_event [OF keys(2)] by blast
  moreover have "?pk \<noteq> ''''" by (simp add: key_of_def)
  ultimately have "\<exists>s'. ?handle = (s', ok ()) \<and> ad_error s' = None"
    by (simp add: handleActivateLocation_def sample_active_def sample_admin_def keys(1) or_else_def sample_member_def truthy_def
        reply_ok_def del: replicate.simps)
  then obtain s' where s': "?handle = (s', ok ())" "ad_error s' = None" by blast
  obtain v where v: "loadVault plain_crypto (cs_vault (ad_keys sample_admin)) = Some v"
    using sample_vault_loads by (auto simp: sample_admin_def)
  have len: "length ?sk = 32" "length ?raw = 32" "\<forall>i :: nat. length (replicate 12 (1 :: 8 word)) = 12" by simp_all
  have exp: "wc_exportKey plain_crypto (?raw, True) = Some ?raw" by (simp add: plain_crypto_def)
  have dec: "\<forall>iv aad t. wc_decrypt plain_crypto (?raw, False) iv aad t = wc_decrypt plain_crypto (?raw, True) iv aad t"
    by (simp add: plain_crypto_def)
  have act: "ci_is_owner sample_active" "2 = or_else (ci_key_epoch sample_active) 1 + 1" "ci_id sample_active = ''c''"
    by (simp_all add: sample_active_def or_else_def)
  have pk: "tl_getPublicKey shared_tools ?sk = ?pk" by (simp add: shared_tools_def)
  have m: "sample_member \<in> set [sample_member]" "cm_state sample_member \<noteq> Some Pending"
      "cm_pubkey sample_member = Some (tl_getPublicKey shared_tools ?sk)" "or_else (cm_label sample_member) x = ''Ann''" for x
    by (simp_all add: sample_member_def pk or_else_def)
  from new_epoch_reaches_members [OF plain_crypto_laws shared_tools_laws(2,1) len(1,1) sample_iv len(3) v exp len(2) sample_import dec
      s' act(1,2) m(1-3), of sample_vault_entropy sample_circle_state]
  show ?thesis using s'(1) unfolding act(3) pk m(4) by blast
qed

section \<open>Where the handlers go wrong\<close>

lemma activate_keys:
  assumes "ci_is_owner active" "e = or_else (ci_key_epoch active) 1 + 1"
    and "rotateCircleKey wc ent fresh (ci_id active) e (ad_keys s) = ok (keys, key)"
  shows "ad_keys (fst (handleActivateLocation wc lib ent kp now name_iv iv nonce fresh active members answer s)) = keys"
  unfolding handleActivateLocation_def Let_def assms(2) [symmetric]
  using assms(1) by (simp add: assms(3) split: sum.splits option.splits)

text \<open>
  C38: retrying an epoch can lose its key. The key of the next epoch is saved before the server
  answers, so after a request whose answer was lost, although the server may have accepted it and
  handed its key to the members, a second attempt replaces the owner's key of that epoch by another
  one, in the key store and in the vault, even when the server refuses the second request.
\<close>

theorem activation_retry_replaces_key:
  assumes "crypto_laws wc" "length (ve_iv ent2) = 12" "loadVault wc (cs_vault (ad_keys s1)) = Some v"
    and "ci_is_owner active" "e = or_else (ci_key_epoch active) 1 + 1"
    and "wc_exportKey wc fresh2 = Some raw2" "wc_importKey wc raw2 False = Some k2"
    and s1: "s1 = fst (handleActivateLocation wc lib ent1 kp now iv0 iv nonce fresh1 active members (\<lambda>_. throw timeout) s)"
    and s2: "s2 = fst (handleActivateLocation wc lib ent2 kp now' iv0' iv' nonce' fresh2 active members (\<lambda>_. ok 409) s1)"
  shows "get_key (ad_keys s2) (ci_id active, e) = Some k2
    \<and> loadVaultCircleKey wc (cs_vault (ad_keys s2)) (ci_id active) (Some e) = Some raw2"
proof -
  let ?keys = "upsert_in wc ent2 (ci_id active) raw2 e (remove_legacy (ci_id active) (put_key (ad_keys s1) (ci_id active, e) k2))"
  have "rotateCircleKey wc ent2 fresh2 (ci_id active) e (ad_keys s1) = ok (?keys, fresh2)"
    using assms(6,7) by (simp add: rotateCircleKey_def saveCircleKeyWithBackup_def import_sealed_def put_key_def)
  then have "ad_keys s2 = ?keys" unfolding s2 by (rule activate_keys [OF assms(4,5)])
  then have keys: "ad_keys s2 = ?keys" .
  have "get_key ?keys (ci_id active, e) = Some k2" by (simp add: circle_keys.get_put)
  moreover have "loadVaultCircleKey wc (cs_vault ?keys) (ci_id active) (Some e) = Some raw2"
    using vault_upsert(2) [OF assms(1-3)] by (simp add: put_key_def)
  ultimately show ?thesis by (simp only: keys)
qed

theorem activation_retry_replaces_key_witness:
  "get_key (ad_keys (fst (handleActivateLocation plain_crypto shared_tools sample_vault_entropy (keypair_of shared_tools [1]) 8 [] (\<lambda>_. [])
      (\<lambda>_. []) (replicate 32 6, True) sample_active [] (\<lambda>_. ok 409)
      (fst (handleActivateLocation plain_crypto shared_tools sample_vault_entropy (keypair_of shared_tools [1]) 7 [] (\<lambda>_. []) (\<lambda>_. [])
        (replicate 32 5, True) sample_active [] (\<lambda>_. throw ''timeout'') sample_admin))))) (''c'', 2) = Some (replicate 32 6, False)"
proof -
  let ?s1 = "fst (handleActivateLocation plain_crypto shared_tools sample_vault_entropy (keypair_of shared_tools [1]) 7 [] (\<lambda>_. []) (\<lambda>_. [])
        (replicate 32 5, True) sample_active [] (\<lambda>_. throw ''timeout'') sample_admin)"
  have act: "ci_is_owner sample_active" "2 = or_else (ci_key_epoch sample_active) 1 + 1" "ci_id sample_active = ''c''"
      "ad_keys sample_admin = sample_circle_state"
    by (simp_all add: sample_active_def or_else_def sample_admin_def)
  obtain keys where "rotateCircleKey plain_crypto sample_vault_entropy (replicate 32 5, True) ''c'' 2 sample_circle_state = ok (keys, (replicate 32 5, True))"
      "loadVaultCircleKey plain_crypto (cs_vault keys) ''c'' (Some 2) = Some (replicate 32 5)" using sample_rotated by blast
  note keys = this
  have "ad_keys ?s1 = keys" by (rule activate_keys [OF act(1,2)]) (simp add: act(3,4) keys(1) del: replicate.simps)
  moreover have "loadVault plain_crypto (cs_vault keys) \<noteq> None"
    using keys(2) by (cases "loadVault plain_crypto (cs_vault keys)") (auto simp: loadVaultCircleKey_def simp del: replicate.simps)
  ultimately obtain v where v: "loadVault plain_crypto (cs_vault (ad_keys ?s1)) = Some v" by auto
  have "wc_exportKey plain_crypto (replicate 32 6, True) = Some (replicate 32 6)"
      "wc_importKey plain_crypto (replicate 32 6) False = Some (replicate 32 6, False)" by (simp_all add: plain_crypto_def)
  from activation_retry_replaces_key [OF plain_crypto_laws sample_iv v act(1,2) this refl refl] show ?thesis
    unfolding act(3) by blast
qed

text \<open>
  Adding a member dispatches the member list of the render the handler was created in. What
  happened to the circle while the request was under way is undone: the member list is the old one
  with the new member, so a member who was removed meanwhile is listed again, and the circle has the
  epoch it had then.
\<close>

theorem added_member_restores_old_roster:
  assumes "reply_ok status" "status \<noteq> 403"
  shows "let s' = fst (add_member_done active members (ok (status, raw)) store)
    in map_of (cs_members s') (ci_id active) = Some (members @ [toMember raw])
       \<and> find (\<lambda>c. ci_id c = ci_id active) (cs_circles s') = Some active"
proof -
  let ?cs = "cs_circles store"
  have "find (\<lambda>c. ci_id c = ci_id active)
      (case find_index (\<lambda>x. ci_id x = ci_id active) ?cs of Some i \<Rightarrow> ?cs[i := active] | None \<Rightarrow> ?cs @ [active]) = Some active"
  proof (cases "find_index (\<lambda>x. ci_id x = ci_id active) ?cs")
    case None
    then have "find (\<lambda>c. ci_id c = ci_id active) ?cs = None" by (simp add: find_None_iff find_index_None)
    then have "find (\<lambda>c. ci_id c = ci_id active) (?cs @ [active]) = Some active" by (simp add: find_append)
    with None show ?thesis by simp
  next
    case (Some i)
    then show ?thesis using find_index_Some [OF Some] by (auto simp: find_Some_iff intro!: exI [of _ i])
  qed
  with assms show ?thesis by (simp add: add_member_done_def circleLoaded_def Let_def)
qed

theorem added_member_restores_old_roster_witness:
  "\<exists>raw. map_of (cs_members (fst (add_member_done sample_active [sample_member] (ok (201, raw)) circles_initial))) ''c''
     = Some [sample_member, toMember raw]"
  using added_member_restores_old_roster [of 201 sample_active "[sample_member]" _ circles_initial]
  by (auto simp: reply_ok_def sample_active_def Let_def)

section \<open>Sharing ends with its timers\<close>

text \<open>What can happen to the sharing controls while the page is shown.\<close>

inductive sharing_step :: "bool \<Rightarrow> int \<Rightarrow> sharing \<Rightarrow> sharing \<Rightarrow> bool" for enabled epoch where
  button: "sharing_step enabled epoch s (share_button active s)"
| tick: "sh_interval s \<or> sh_sharing s \<Longrightarrow> sharing_step enabled epoch s (publish_tick enabled epoch s)"
| settled: "sharing_step enabled epoch s (publish_settled out s)"
| effect: "sharing_step enabled epoch s (sharing_effect active s)"
| time_up: "sh_duration s \<Longrightarrow> sharing_step enabled epoch s (stopSharing s)"
| orphan: "publish_end out p = (p', throw e) \<Longrightarrow> sharing_step enabled epoch s (stopSharing s)"

definition sharing_ok :: "sharing \<Rightarrow> bool" where
  "sharing_ok s \<longleftrightarrow> sh_interval s = sh_sharing s \<and> sh_duration s = sh_sharing s
     \<and> (sh_sharing s \<longleftrightarrow> sh_publisher s \<noteq> None) \<and> (\<forall>p. sh_publisher s = Some p \<longrightarrow> \<not> lp_stopped p)"

lemma publish_begin_running:
  "publish_begin enabled epoch p = (p', ok u) \<Longrightarrow> \<not> lp_stopped p'"
  by (auto simp: publish_begin_def split: if_splits)

lemma publish_end_running:
  "publish_end out p = (p', ok u) \<Longrightarrow> \<not> lp_stopped p \<Longrightarrow> \<not> lp_stopped p'"
  by (auto simp: publish_end_def Let_def split: publish_outcome.splits if_splits)

lemma sharing_ok_stop: "sharing_ok (stopSharing s)"
  by (simp add: sharing_ok_def stopSharing_def)

lemma sharing_ok_initial: "sharing_ok sharing_initial"
  by (simp add: sharing_ok_def sharing_initial_def)

lemma sharing_ok_step: "sharing_step enabled epoch s s' \<Longrightarrow> sharing_ok s \<Longrightarrow> sharing_ok s'"
proof (induction rule: sharing_step.induct)
  case (button s active)
  then show ?case
    by (auto simp: share_button_def sharing_ok_stop startSharing_def) (auto simp: sharing_ok_def new_publisher_def)
next
  case (tick s)
  then show ?case
    by (auto simp: publish_tick_def sharing_ok_stop split: option.splits prod.splits sum.splits)
      (auto simp: sharing_ok_def dest: publish_begin_running)
next
  case (settled s out)
  then show ?case
    by (auto simp: publish_settled_def sharing_ok_stop split: option.splits prod.splits sum.splits)
      (auto simp: sharing_ok_def dest: publish_end_running)
next
  case (effect s active)
  then show ?case by (simp add: sharing_effect_def sharing_ok_stop)
qed (simp_all add: sharing_ok_stop)

text \<open>
  Location sharing never outlives its limits. In every state the controls can reach, sharing is
  on exactly when the publishing interval runs, and then the timer that ends it runs too and the
  publisher has not stopped; when that timer fires, or the active circle stops being ready, sharing
  is off with all of it.
\<close>

theorem sharing_always_limited:
  assumes "(sharing_step enabled epoch)\<^sup>*\<^sup>* sharing_initial s"
  shows "sh_interval s = sh_sharing s \<and> sh_duration s = sh_sharing s
    \<and> (sh_sharing s \<longleftrightarrow> sh_publisher s \<noteq> None) \<and> (\<forall>p. sh_publisher s = Some p \<longrightarrow> \<not> lp_stopped p)
    \<and> (\<not> epoch_ready active \<longrightarrow> \<not> sh_interval (sharing_effect active s) \<and> sh_publisher (sharing_effect active s) = None)"
proof -
  have "sharing_ok s" using assms
    by (induction rule: rtranclp_induct) (auto intro: sharing_ok_step simp: sharing_ok_initial)
  then show ?thesis by (cases "sh_sharing s") (auto simp: sharing_ok_def sharing_effect_def stopSharing_def)
qed

theorem sharing_always_limited_witness:
  "let c = sample_active\<lparr>ci_rekey_required := Some False, ci_location_protocol_version := Some 1\<rparr>; s = share_button (Some c) sharing_initial
   in sh_sharing s \<and> sh_duration s"
proof -
  let ?c = "sample_active\<lparr>ci_rekey_required := Some False, ci_location_protocol_version := Some 1\<rparr>"
  let ?s = "share_button (Some ?c) sharing_initial"
  have "(sharing_step True 2)\<^sup>*\<^sup>* sharing_initial ?s" by (rule r_into_rtranclp, rule sharing_step.button)
  from sharing_always_limited [OF this] have "sh_duration ?s = sh_sharing ?s" by blast
  moreover have "sh_sharing ?s"
    by (simp add: share_button_def sharing_initial_def startSharing_def epoch_ready_def sample_active_def or_else_def)
  ultimately show ?thesis by simp
qed

end
