(* ===== verification/ChatPages.thy ===== *)
theory ChatPages
  imports ChatSync CircleAdmin
begin

text \<open>
  The chat pages (\<open>pages/ChatPage.tsx\<close>, \<open>PublicChannelPage.tsx\<close>, \<open>DirectConversationPage.tsx\<close>,
  \<open>CircleChatPage.tsx\<close>), the message composer and the moderation menu (\<open>components/chat/\<close>): every
  handler that sends, joins or creates. They tie the components together: the signer and the
  encrypted messaging make the events, the relay client publishes them, and the local echo goes to
  the slice and, for channels, to the database. The lemmas follow a message from the page that sends
  it to the devices that read it, and back into the list of the sender.

  The configured relays and the answers of the relay client are arguments; every attempt to publish
  is recorded in \<open>ca_sent\<close>. A handler returns the new state and how its promise settles. A write that
  the code does not await (\<open>void put...\<close>) is done at once.
\<close>

section \<open>State of the pages\<close>

record 'k chat_app =
  ca_chat :: chat_state
  ca_dm :: dm_state
  ca_db :: "'k chat_db"
  ca_ls :: "local_storage option"
  ca_sent :: "(string list \<times> nostr_event) list"

text \<open>\<open>client.publish\<close>: the attempt, and the settled promise.\<close>

definition publish_to ::
  "relay_client \<Rightarrow> string list \<Rightarrow> nostr_event \<Rightarrow> 'k chat_app \<Rightarrow> 'k chat_app \<times> unit result" where
  "publish_to client relays e s =
     (s\<lparr>ca_sent := ca_sent s @ [(relays, e)]\<rparr>, bind_result (rc_publish client relays e) (\<lambda>_. ok ()))"

text \<open>\<open>for (const wrap of wraps) await client.publish(...)\<close>: the first rejection ends the loop.\<close>

fun publish_all ::
  "relay_client \<Rightarrow> string list \<Rightarrow> nostr_event list \<Rightarrow> 'k chat_app \<Rightarrow> 'k chat_app \<times> unit result" where
  "publish_all client relays [] s = (s, ok ())"
| "publish_all client relays (w # ws) s =
     (case publish_to client relays w s of
        (s', Inl err) \<Rightarrow> (s', Inl err)
      | (s', Inr _) \<Rightarrow> publish_all client relays ws s')"

section \<open>The public channel page\<close>

definition channel_page_mount :: "string \<Rightarrow> 'k chat_app \<Rightarrow> 'k chat_app" where
  "channel_page_mount channelId s =
     s\<lparr>ca_chat := activeChannelChanged (ca_chat s) (if channelId = '''' then None else Some channelId)\<rparr>"

definition channel_page_unmount :: "'k chat_app \<Rightarrow> 'k chat_app" where
  "channel_page_unmount s = s\<lparr>ca_chat := activeChannelChanged (ca_chat s) None\<rparr>"

definition channel_echo :: "string \<Rightarrow> string \<Rightarrow> string \<Rightarrow> nostr_event \<Rightarrow> 'k chat_app \<Rightarrow> 'k chat_app" where
  "channel_echo channel_id pubkey content e s =
     s\<lparr>ca_db := putChannelMessage (ca_db s) \<lparr>pcm_id = ne_id e, pcm_channel_id = channel_id,
         pcm_sender_pubkey = pubkey, pcm_created_at = ne_created_at e, pcm_content = content\<rparr>,
       ca_chat := channelMessageReceived (ca_chat s) channel_id \<lparr>cm_id = ne_id e, cm_channel_id = channel_id,
         cm_sender_pubkey = pubkey, cm_created_at = ne_created_at e, cm_content = content\<rparr>\<rparr>"

definition signed_channel_message ::
  "nostr_signer \<Rightarrow> int \<Rightarrow> string \<Rightarrow> string \<Rightarrow> (string \<times> nostr_event) result" where
  "signed_channel_message signer now groupId content =
     bind_result (sg_pubkey signer) (\<lambda>pubkey.
     bind_result (createChannelMessage now pubkey groupId content) (\<lambda>message.
     bind_result (signChannelMessage signer message) (\<lambda>e. ok (pubkey, e))))"

definition channel_handleSend ::
  "relay_client \<Rightarrow> nostr_signer \<Rightarrow> int \<Rightarrow> string option \<Rightarrow> string \<Rightarrow> 'k chat_app \<Rightarrow> string \<Rightarrow> 'k chat_app \<times> unit result" where
  "channel_handleSend client signer now relayUrl groupId s content =
     (if \<not> truthy relayUrl then (s, ok ())
      else
        (case signed_channel_message signer now groupId content of
           Inl err \<Rightarrow> (s, Inl err)
         | Inr (pubkey, e) \<Rightarrow>
             publish_to client [the relayUrl] e
               (channel_echo (channelConversationId (the relayUrl) groupId) pubkey content e s)))"

section \<open>The direct conversation page\<close>

definition pending_id :: "int \<Rightarrow> string" where
  "pending_id now_ms = ''pending-'' @ int_str now_ms"

definition dm_echo :: "string \<Rightarrow> string \<Rightarrow> int \<Rightarrow> string \<Rightarrow> 'k chat_app \<Rightarrow> 'k chat_app" where
  "dm_echo conversationId pubkey now_ms content s =
     s\<lparr>ca_dm := messageReceived (ca_dm s) conversationId
       \<lparr>dm_id = pending_id now_ms, dm_conversation_id = conversationId, dm_sender_pubkey = pubkey,
        dm_created_at = now_ms div 1000, dm_content = content\<rparr>\<rparr>"

text \<open>\<open>sent.wraps.find(...) ?? sent.wraps[0]!\<close>: undefined (\<open>None\<close>) only when there is no wrap.\<close>

definition direct_wrap :: "string \<Rightarrow> nostr_event list \<Rightarrow> nostr_event option" where
  "direct_wrap recipient wraps =
     (case find (\<lambda>w. list_ex (\<lambda>t. tag_at t 0 = Some ''p'' \<and> tag_at t 1 = Some recipient) (ne_tags w)) wraps of
        Some w \<Rightarrow> Some w
      | None \<Rightarrow> (case wraps of [] \<Rightarrow> None | w # _ \<Rightarrow> Some w))"

definition direct_recipient :: "string \<Rightarrow> dm_conversation \<Rightarrow> string option" where
  "direct_recipient myPubkey conversation = find (\<lambda>p. p \<noteq> toLowerCase myPubkey) (dc_participants conversation)"

definition direct_handleSend ::
  "nostr_tools \<Rightarrow> (bytes \<Rightarrow> bytes) \<Rightarrow> (string \<Rightarrow> bytes) \<Rightarrow> (nat \<Rightarrow> wrap_entropy) \<Rightarrow> relay_client \<Rightarrow> nostr_signer
     \<Rightarrow> int \<Rightarrow> string option \<Rightarrow> string \<Rightarrow> 'k chat_app \<Rightarrow> string \<Rightarrow> 'k chat_app \<times> unit result" where
  "direct_handleSend lib sha256 encode ent client signer now_ms inbox conversationId s content =
     (case dm_conversations (ca_dm s) conversationId of
        None \<Rightarrow> (s, ok ())
      | Some conversation \<Rightarrow>
          if \<not> truthy inbox then (s, ok ())
          else
            (case sg_pubkey signer of
               Inl err \<Rightarrow> (s, Inl err)
             | Inr myPubkey \<Rightarrow>
                 if \<not> truthy (direct_recipient myPubkey conversation) then (s, ok ())
                 else
                   (let recipient = the (direct_recipient myPubkey conversation)
                    in case sendDirectMessage lib sha256 encode ent (now_ms div 1000) signer recipient content of
                         Inl err \<Rightarrow> (s, Inl err)
                       | Inr sent \<Rightarrow>
                           (let s1 = dm_echo (sm_conversationId sent) myPubkey now_ms content s
                            in case direct_wrap recipient (sm_wraps sent) of
                                 None \<Rightarrow> (s1, throw ''undefined event'')
                               | Some w \<Rightarrow> publish_to client [the inbox] w s1))))"

definition conversation_page_mount :: "string option \<Rightarrow> 'k chat_app \<Rightarrow> 'k chat_app" where
  "conversation_page_mount conversationId s = s\<lparr>ca_dm := activeConversationChanged (ca_dm s) conversationId\<rparr>"

section \<open>The circle chat page\<close>

definition chat_members :: "circle_member list \<Rightarrow> circle_chat_member list" where
  "chat_members members =
     map (\<lambda>m. \<lparr>ccm_pubkey = (case cm_pubkey m of Some p \<Rightarrow> p | None \<Rightarrow> ''''), ccm_membership_state = cm_state m\<rparr>) members"

text \<open>
  The effect that opens the room: the conversation id the page shows from then on, and the store.
\<close>

definition circle_chat_effect ::
  "(bytes \<Rightarrow> bytes) \<Rightarrow> (string \<Rightarrow> bytes) \<Rightarrow> nostr_signer \<Rightarrow> string option \<Rightarrow> circle_member list \<Rightarrow> string option
     \<Rightarrow> 'k chat_app \<Rightarrow> 'k chat_app \<times> string option" where
  "circle_chat_effect sha256 encode signer name members conversationId s =
     (case sg_pubkey signer of
        Inl _ \<Rightarrow> (s, conversationId)
      | Inr pubkey \<Rightarrow>
          (let participants = circleChatParticipants pubkey (chat_members members)
           in if \<not> circleChatFeasible participants then (s, None)
              else
                (let i = roomConversationId sha256 encode participants
                 in (s\<lparr>ca_dm := conversationAdded (ca_dm s) \<lparr>dc_id = i, dc_kind = KindCircle,
                         dc_title = (case name of Some n \<Rightarrow> n | None \<Rightarrow> ''Circle chat''),
                         dc_participants = participants\<rparr>\<rparr>, Some i))))"

definition circle_handleSend ::
  "nostr_tools \<Rightarrow> (bytes \<Rightarrow> bytes) \<Rightarrow> (string \<Rightarrow> bytes) \<Rightarrow> (nat \<Rightarrow> wrap_entropy) \<Rightarrow> relay_client \<Rightarrow> nostr_signer
     \<Rightarrow> int \<Rightarrow> string option \<Rightarrow> circle_member list \<Rightarrow> string option \<Rightarrow> 'k chat_app \<Rightarrow> string \<Rightarrow> 'k chat_app \<times> unit result" where
  "circle_handleSend lib sha256 encode ent client signer now_ms inbox members conversationId s content =
     (if \<not> truthy inbox \<or> \<not> truthy conversationId then (s, ok ())
      else
        (case sg_pubkey signer of
           Inl err \<Rightarrow> (s, Inl err)
         | Inr pubkey \<Rightarrow>
             (let peers = filter (\<lambda>p. p \<noteq> toLowerCase pubkey) (circleChatParticipants pubkey (chat_members members))
              in case sendGroupMessage lib sha256 encode ent (now_ms div 1000) signer peers content of
                   Inl err \<Rightarrow> (s, Inl err)
                 | Inr sent \<Rightarrow>
                     publish_all client [the inbox] (sm_wraps sent)
                       (dm_echo (sm_conversationId sent) pubkey now_ms content s))))"

section \<open>The chat overview page\<close>

record chat_view =
  cp_joinInput :: string
  cp_joinError :: "string option"
  cp_dmInput :: string
  cp_dmError :: "string option"
  cp_createName :: string
  cp_createError :: "string option"
  cp_creating :: bool
  cp_path :: string

definition restorable :: "stored_conversation \<Rightarrow> bool" where
  "restorable c \<longleftrightarrow> (sc_kind c = Dm \<or> sc_kind c = Circle_room)
     \<and> (case sc_participants c of Some ps \<Rightarrow> ps \<noteq> [] | None \<Rightarrow> False)"

definition restored_conversation :: "stored_conversation \<Rightarrow> dm_conversation" where
  "restored_conversation c =
     \<lparr>dc_id = sc_id c, dc_kind = (if sc_kind c = Dm then KindDm else KindCircle), dc_title = sc_title c,
      dc_participants = the (sc_participants c)\<rparr>"

definition restore_conversations :: "'k chat_app \<Rightarrow> 'k chat_app" where
  "restore_conversations s =
     s\<lparr>ca_dm := foldl (\<lambda>dm c. if restorable c then conversationAdded dm (restored_conversation c) else dm)
        (ca_dm s) (listConversations (ca_db s))\<rparr>"

definition handleJoin ::
  "(string \<Rightarrow> nip19_data option) \<Rightarrow> 'k chat_app \<times> chat_view \<Rightarrow> 'k chat_app \<times> chat_view" where
  "handleJoin nip19_decode = (\<lambda>(s, v).
     case parseChannelRef nip19_decode (cp_joinInput v) of
       None \<Rightarrow> (s, v\<lparr>cp_joinError := Some ''Enter a channel group id or naddr reference.''\<rparr>)
     | Some parsed \<Rightarrow>
         (s\<lparr>ca_ls := addJoinedChannel (ca_ls s) (pc_groupId parsed)\<rparr>,
          v\<lparr>cp_joinError := None, cp_joinInput := '''',
            cp_path := ''/chat/community/'' @ encodeURIComponent (pc_groupId parsed)\<rparr>))"

text \<open>The two signed events, then the two publications; whatever throws ends in the catch clause.\<close>

definition create_channel ::
  "relay_client \<Rightarrow> nostr_signer \<Rightarrow> int \<Rightarrow> string \<Rightarrow> string \<Rightarrow> string \<Rightarrow> 'k chat_app \<Rightarrow> 'k chat_app \<times> unit result" where
  "create_channel client signer now relayUrl groupId name s =
     (case bind_result (sg_signEvent signer (createGroupTemplate now groupId)) (\<lambda>createEvent.
             bind_result (sg_signEvent signer (setMetadataTemplate now groupId (JObj [(''name'', JStr name)])))
               (\<lambda>metadataEvent. ok [createEvent, metadataEvent])) of
        Inl err \<Rightarrow> (s, Inl err)
      | Inr events \<Rightarrow> publish_all client [relayUrl] events s)"

definition handleCreateChannel ::
  "relay_client \<Rightarrow> nostr_signer \<Rightarrow> int \<Rightarrow> bytes \<Rightarrow> string option \<Rightarrow> 'k chat_app \<times> chat_view \<Rightarrow> 'k chat_app \<times> chat_view" where
  "handleCreateChannel client signer now random16 relayUrl = (\<lambda>(s, v).
     let name = trim (cp_createName v); groupId = newGroupId random16
     in if name = '''' then (s, v\<lparr>cp_createError := Some ''Enter a channel name.''\<rparr>)
        else if \<not> truthy relayUrl then (s, v\<lparr>cp_createError := Some ''No community relay configured.''\<rparr>)
        else
          (case create_channel client signer now (the relayUrl) groupId name s of
             (s', Inl _) \<Rightarrow> (s', v\<lparr>cp_createError := Some ''Could not create the channel.'', cp_creating := False\<rparr>)
           | (s', Inr _) \<Rightarrow>
               (s'\<lparr>ca_ls := addJoinedChannel (ca_ls s') groupId\<rparr>,
                v\<lparr>cp_createError := None, cp_createName := '''',
                  cp_path := ''/chat/community/'' @ encodeURIComponent groupId, cp_creating := False\<rparr>)))"

text \<open>A key that cannot be read leaves the form as it was (the rejected promise is not handled).\<close>

definition handleNewDm ::
  "(string \<Rightarrow> nip19_data option) \<Rightarrow> (bytes \<Rightarrow> bytes) \<Rightarrow> (string \<Rightarrow> bytes) \<Rightarrow> nostr_signer \<Rightarrow> int
     \<Rightarrow> 'k chat_app \<times> chat_view \<Rightarrow> 'k chat_app \<times> chat_view" where
  "handleNewDm nip19_decode sha256 encode signer now_ms = (\<lambda>(s, v).
     if \<not> truthy (hexFromNpubOrHex nip19_decode (cp_dmInput v))
     then (s, v\<lparr>cp_dmError := Some ''Enter an npub or hex public key.''\<rparr>)
     else
       (case sg_pubkey signer of
          Inl _ \<Rightarrow> (s, v)
        | Inr myPubkey \<Rightarrow>
            (let hex = the (hexFromNpubOrHex nip19_decode (cp_dmInput v));
                 i = directConversationId sha256 encode myPubkey hex;
                 participants = js_sort string_cmp [myPubkey, hex]
             in (s\<lparr>ca_dm := conversationAdded (ca_dm s)
                     \<lparr>dc_id = i, dc_kind = KindDm, dc_title = take 12 hex, dc_participants = participants\<rparr>,
                   ca_db := putConversation (ca_db s)
                     \<lparr>sc_id = i, sc_kind = Dm, sc_title = take 12 hex, sc_muted = False, sc_last_activity_at = now_ms,
                      sc_participants = Some participants, sc_group_id = None, sc_relay_url = None\<rparr>\<rparr>,
                 v\<lparr>cp_dmError := None, cp_dmInput := '''', cp_path := ''/chat/dm/'' @ i\<rparr>))))"

section \<open>The composer and the moderation menu\<close>

text \<open>
  The composer: what is typed, whether a send is pending, and what it has handed to \<open>onSend\<close>. A
  submission starts by the button, which is disabled while a send is pending, or by the Enter key.
\<close>

record composer =
  mc_text :: string
  mc_sending :: bool
  mc_sent :: "string list"

datatype composer_event =
    Typed string
  | Enter_pressed
  | Button_pressed
  | Send_settled bool

definition mc_submit :: "bool \<Rightarrow> composer \<Rightarrow> composer" where
  "mc_submit disabled c =
     (let trimmed = trim (mc_text c)
      in if trimmed = '''' \<or> disabled then c else c\<lparr>mc_sending := True, mc_sent := mc_sent c @ [trimmed]\<rparr>)"

fun composer_step :: "bool \<Rightarrow> composer \<Rightarrow> composer_event \<Rightarrow> composer" where
  "composer_step disabled c (Typed s) = c\<lparr>mc_text := s\<rparr>"
| "composer_step disabled c Enter_pressed = mc_submit disabled c"
| "composer_step disabled c Button_pressed =
     (if disabled \<or> mc_sending c \<or> trim (mc_text c) = '''' then c else mc_submit disabled c)"
| "composer_step disabled c (Send_settled success) =
     (if success then c\<lparr>mc_text := '''', mc_sending := False\<rparr> else c\<lparr>mc_sending := False\<rparr>)"

definition mod_isAdmin :: "string list \<Rightarrow> string \<Rightarrow> bool" where
  "mod_isAdmin admins myPubkey \<longleftrightarrow> list_ex (\<lambda>a. toLowerCase a = toLowerCase myPubkey) admins"

text \<open>The template handed to \<open>onAction\<close>, if any; the menu is not rendered for others.\<close>

definition handleRemoveUser :: "int \<Rightarrow> string list \<Rightarrow> string \<Rightarrow> string \<Rightarrow> string \<Rightarrow> nostr_template option" where
  "handleRemoveUser now admins myPubkey groupId removeInput =
     (if \<not> mod_isAdmin admins myPubkey then None
      else
        (let pubkey = trim removeInput
         in if \<not> isHex64_ci pubkey then None else Some (removeUserTemplate now groupId pubkey)))"

section \<open>What is published\<close>

lemma publish_to_facts [simp]:
  "fst (publish_to client rs e s) = s\<lparr>ca_sent := ca_sent s @ [(rs, e)]\<rparr>"
  by (simp add: publish_to_def)

lemma publish_all_ok:
  "publish_all client rs ws s = (s', ok ()) \<Longrightarrow> s' = s\<lparr>ca_sent := ca_sent s @ map (Pair rs) ws\<rparr>"
  by (induction client rs ws s rule: publish_all.induct)
    (auto simp: publish_to_def split: sum.splits prod.splits)

text \<open>Sending to the members the page lists addresses exactly the room the page shows.\<close>

lemma circle_peers_room:
  "normalizeParticipants (p # filter (\<lambda>q. q \<noteq> toLowerCase p) (circleChatParticipants p ms)) = circleChatParticipants p ms"
proof -
  let ?xs = "toLowerCase p # filter (\<lambda>q. q \<noteq> toLowerCase p)
    (map (\<lambda>m. toLowerCase (ccm_pubkey m)) (filter (\<lambda>m. ccm_membership_state m \<noteq> Some Pending) ms))"
  have ps: "circleChatParticipants p ms = normalizeParticipants ?xs"
    by (simp add: circleChatParticipants_def Let_def)
  show ?thesis unfolding ps
    by (subst normalizeParticipants_eq_iff) (auto simp: set_normalizeParticipants)
qed

lemma circle_send_ok:
  assumes "signs_as lib S pS" "truthy inbox" "truthy room"
    and "circle_handleSend lib sha256 encode ent client S now_ms inbox members room s content = (s', ok ())"
  obtains sent where "sendGroupMessage lib sha256 encode ent (now_ms div 1000) S
        (filter (\<lambda>p. p \<noteq> toLowerCase pS) (circleChatParticipants pS (chat_members members))) content = ok sent"
    and "sm_participants sent = circleChatParticipants pS (chat_members members)"
    and "ca_sent s' = ca_sent s @ map (Pair [the inbox]) (sm_wraps sent)"
    and "ca_dm s' = ca_dm (dm_echo (sm_conversationId sent) pS now_ms content s)"
proof -
  have pk: "sg_pubkey S = ok pS" using assms(1) by (simp add: signs_as_def)
  let ?peers = "filter (\<lambda>p. p \<noteq> toLowerCase pS) (circleChatParticipants pS (chat_members members))"
  from assms(2-4) pk obtain sent where
    sent: "sendGroupMessage lib sha256 encode ent (now_ms div 1000) S ?peers content = ok sent"
    and pub: "publish_all client [the inbox] (sm_wraps sent)
        (dm_echo (sm_conversationId sent) pS now_ms content s) = (s', ok ())"
    by (auto simp: circle_handleSend_def split: sum.splits)
  from sendGroup_ok(1) [OF assms(1) sent refl]
  have "sm_participants sent = circleChatParticipants pS (chat_members members)" by (simp add: circle_peers_room)
  with sent publish_all_ok [OF pub] show ?thesis using that by (simp add: dm_echo_def)
qed

lemma dm_echo_shown:
  assumes "dm_inv (ca_dm s)"
  shows "dm_inv (ca_dm (dm_echo c p t content s))"
    and "pending_id t \<in> dm_id ` set (messages_of (dm_messages (ca_dm (dm_echo c p t content s))) c)"
    and "pending_id t \<notin> dm_id ` set (messages_of (dm_messages (ca_dm s)) c) \<Longrightarrow>
      mset (messages_of (dm_messages (ca_dm (dm_echo c p t content s))) c)
        = add_mset \<lparr>dm_id = pending_id t, dm_conversation_id = c, dm_sender_pubkey = p,
            dm_created_at = t div 1000, dm_content = content\<rparr> (mset (messages_of (dm_messages (ca_dm s)) c))"
proof -
  let ?m = "\<lparr>dm_id = pending_id t, dm_conversation_id = c, dm_sender_pubkey = p, dm_created_at = t div 1000, dm_content = content\<rparr>"
  have tl: "timeline_ok dm_created_at dm_id (messages_of (dm_messages (ca_dm s)) c)"
    using assms by (simp add: dm_inv_def)
  have dm: "ca_dm (dm_echo c p t content s) = messageReceived (ca_dm s) c ?m" by (simp add: dm_echo_def)
  show "dm_inv (ca_dm (dm_echo c p t content s))"
    unfolding dm using dm_red.inv_step [OF assms, of "MessageReceived c ?m"] by (simp only: dm_reducer.simps)
  show "pending_id t \<in> dm_id ` set (messages_of (dm_messages (ca_dm (dm_echo c p t content s))) c)"
    using dm_tl.insert_ids [OF tl, of ?m] by (simp add: dm dm_received_readers [OF assms])
  show "pending_id t \<notin> dm_id ` set (messages_of (dm_messages (ca_dm s)) c) \<Longrightarrow>
      mset (messages_of (dm_messages (ca_dm (dm_echo c p t content s))) c) = add_mset ?m (mset (messages_of (dm_messages (ca_dm s)) c))"
    using dm_tl.insert_fresh [OF tl, of ?m] by (simp add: dm dm_received_readers [OF assms])
qed

lemma inbox_store_shown:
  assumes "dm_inv (ib_dm s)"
    and "pm_rumorId p \<notin> dm_id ` set (messages_of (dm_messages (ib_dm s)) (pm_conversationId p))"
  shows "mset (messages_of (dm_messages (ib_dm (inbox_store wc fresh iv s p))) (pm_conversationId p))
    = add_mset \<lparr>dm_id = pm_rumorId p, dm_conversation_id = pm_conversationId p, dm_sender_pubkey = pm_senderPubkey p,
        dm_created_at = pm_created_at p, dm_content = pm_content p\<rparr>
      (mset (messages_of (dm_messages (ib_dm s)) (pm_conversationId p)))"
proof -
  let ?c = "\<lparr>dc_id = pm_conversationId p, dc_kind = (if length (pm_participants p) = 2 then KindDm else KindCircle),
     dc_title = take 12 (pm_senderPubkey p), dc_participants = pm_participants p\<rparr>"
  let ?m = "\<lparr>dm_id = pm_rumorId p, dm_conversation_id = pm_conversationId p, dm_sender_pubkey = pm_senderPubkey p,
     dm_created_at = pm_created_at p, dm_content = pm_content p\<rparr>"
  let ?d = "conversationAdded (ib_dm s) ?c"
  have inv: "dm_inv ?d" using dm_red.inv_step [OF assms(1), of "ConversationAdded ?c"] by simp
  have msgs: "dm_messages ?d = dm_messages (ib_dm s)" by (simp add: conversationAdded_def split: option.splits)
  have dm: "ib_dm (inbox_store wc fresh iv s p) = messageReceived ?d (pm_conversationId p) ?m"
    by (simp add: inbox_store_def Let_def split: prod.splits)
  have "timeline_ok dm_created_at dm_id (messages_of (dm_messages ?d) (pm_conversationId p))"
    using inv by (simp add: dm_inv_def)
  from dm_tl.insert_fresh [OF this, of ?m] assms(2)
  show ?thesis by (simp add: dm dm_received_readers [OF inv] msgs)
qed

lemma pending_id_not_hex: "\<not> isLowercaseHex64 (pending_id t)"
  by (auto simp: pending_id_def isLowercaseHex64_def is_lower_hex_def is_digit_def char_le_iff)

lemma find_only:
  "y \<in> set xs \<Longrightarrow> (\<And>x. x \<in> set xs \<Longrightarrow> P x \<longleftrightarrow> x = y) \<Longrightarrow> find P xs = Some y"
  by (induction xs) auto

lemma direct_wrap_ok:
  assumes "finalizes lib" "wrapRumor lib ent S r 0 [a, b] = ok wraps" "b \<noteq> a"
  shows "\<exists>w j seal. direct_wrap b wraps = Some w \<and> createSeal S (ent j) r b = ok seal \<and> createWrap lib (ent j) seal b = ok w"
proof -
  from assms(2) obtain s0 w0 s1 w1 where w: "createWrap lib (ent 0) s0 a = ok w0"
    "createSeal S (ent 1) r b = ok s1" "createWrap lib (ent 1) s1 b = ok w1" "wraps = [w0, w1]"
    by (auto simp: bind_result_ok_iff)
  with assms(3) have "direct_wrap b wraps = Some w1"
    by (simp add: direct_wrap_def createWrap_tags [OF assms(1) w(1)] createWrap_tags [OF assms(1) w(3)])
  with w show ?thesis by blast
qed

text \<open>The effect of starting a conversation.\<close>

lemma new_dm_effect:
  assumes "sg_pubkey S = ok pS" "hexFromNpubOrHex nd (cp_dmInput v) = Some pR" "pR \<noteq> ''''"
    and "handleNewDm nd sha256 encode S t (s, v) = (s1, v1)"
    and "i = directConversationId sha256 encode pS pR" "dm_conversations (ca_dm s) i = None"
  shows "dm_conversations (ca_dm s1) i =
      Some \<lparr>dc_id = i, dc_kind = KindDm, dc_title = take 12 pR, dc_participants = js_sort string_cmp [pS, pR]\<rparr>"
    and "dm_messages (ca_dm s1) = dm_messages (ca_dm s)" and "ca_sent s1 = ca_sent s"
    and "ca_db s1 = putConversation (ca_db s) \<lparr>sc_id = i, sc_kind = Dm, sc_title = take 12 pR, sc_muted = False,
      sc_last_activity_at = t, sc_participants = Some (js_sort string_cmp [pS, pR]), sc_group_id = None, sc_relay_url = None\<rparr>"
    and "cp_path v1 = ''/chat/dm/'' @ i"
    and "dm_inv (ca_dm s) \<Longrightarrow> dm_inv (ca_dm s1)"
proof -
  let ?c = "\<lparr>dc_id = i, dc_kind = KindDm, dc_title = take 12 pR, dc_participants = js_sort string_cmp [pS, pR]\<rparr>"
  from assms show dm: "dm_conversations (ca_dm s1) i = Some ?c"
    and "dm_messages (ca_dm s1) = dm_messages (ca_dm s)" and "ca_sent s1 = ca_sent s"
    and "ca_db s1 = putConversation (ca_db s) \<lparr>sc_id = i, sc_kind = Dm, sc_title = take 12 pR, sc_muted = False,
      sc_last_activity_at = t, sc_participants = Some (js_sort string_cmp [pS, pR]), sc_group_id = None, sc_relay_url = None\<rparr>"
    and "cp_path v1 = ''/chat/dm/'' @ i"
    by (auto simp: handleNewDm_def truthy_def Let_def conversationAdded_def)
  have "ca_dm s1 = conversationAdded (ca_dm s) ?c"
    using assms(1-5) by (auto simp: handleNewDm_def truthy_def Let_def)
  then show "dm_inv (ca_dm s1)" if "dm_inv (ca_dm s)"
    using dm_red.inv_step [OF that, of "ConversationAdded ?c"] by simp
qed

lemma restore_facts:
  "dm_messages (ca_dm (restore_conversations s)) = dm_messages (ca_dm s)" "ca_db (restore_conversations s) = ca_db s"
proof -
  have "dm_messages (foldl (\<lambda>dm c. if restorable c then conversationAdded dm (restored_conversation c) else dm) dm cs)
      = dm_messages dm" for dm cs
    by (induction cs arbitrary: dm) (simp_all add: conversationAdded_def split: option.splits)
  then show "dm_messages (ca_dm (restore_conversations s)) = dm_messages (ca_dm s)" by (simp add: restore_conversations_def)
qed (simp add: restore_conversations_def)

lemma restored_fold:
  assumes "distinct (map sc_id cs)" "\<forall>c\<in>set cs. dm_conversations dm (sc_id c) = None" "c \<in> set cs" "restorable c"
  shows "dm_conversations (foldl (\<lambda>dm c. if restorable c then conversationAdded dm (restored_conversation c) else dm) dm cs)
     (sc_id c) = Some (restored_conversation c)"
  using assms
proof (induction cs arbitrary: dm)
  case (Cons d cs)
  let ?f = "\<lambda>dm c. if restorable c then conversationAdded dm (restored_conversation c) else dm"
  have keep: "dm_conversations (foldl ?f dm' xs) i = Some v" if "dm_conversations dm' i = Some v" for dm' xs i v
    using that
  proof (induction xs arbitrary: dm')
    case (Cons x xs)
    then have "dm_conversations (?f dm' x) i = Some v" by (auto simp: conversationAdded_def split: option.splits)
    from Cons.IH [OF this] show ?case by simp
  qed simp
  have none: "dm_conversations (?f dm d) (sc_id x) = None" if "x \<in> set cs" for x
  proof -
    have "sc_id x \<noteq> sc_id d" using that Cons.prems(1) by (metis distinct.simps(2) image_eqI list.set_map list.simps(9))
    with that Cons.prems(2) show ?thesis by (simp add: conversationAdded_def restored_conversation_def)
  qed
  show ?case
  proof (cases "c = d")
    case True
    with Cons.prems have "dm_conversations (?f dm d) (sc_id c) = Some (restored_conversation c)"
      by (simp add: conversationAdded_def restored_conversation_def)
    from keep [OF this] show ?thesis by simp
  next
    case False
    with Cons.prems none Cons.IH [of "?f dm d"] show ?thesis by simp
  qed
qed simp

lemma inbox_seen_run:
  "(\<forall>w\<in>set ws. hasGiftWrap (ib_db s) (ne_id w)) \<Longrightarrow>
     foldl (inbox_on_wrap lib sha256 encode wc signer now fresh iv) s ws = s"
  by (induction ws) (simp_all add: inbox_seen ib_isSeen_def)

section \<open>Properties\<close>

text \<open>
  C13: a message sent from the circle chat page reaches the circle. When the page shows the room of the
  circle and the send succeeds, then for every member who is not pending and has a valid key one of
  the published wraps opens on that member's device to the content, under the sender's key, in the
  very conversation the page shows, and the page shows the echo there.
\<close>

theorem circle_message_reaches_members:
  assumes "signs_as lib S pS" "finalizes lib" "reads_from lib S pS R pR"
    and "circle_chat_effect sha256 encode S name members c0 s0 = (s1, Some room)"
    and "truthy inbox" "room \<noteq> ''''" "dm_inv (ca_dm s)"
    and "circle_handleSend lib sha256 encode ent client S now_ms inbox members (Some room) s content = (s', ok ())"
    and "m \<in> set members" "cm_state m \<noteq> Some Pending" "cm_pubkey m = Some p" "toLowerCase p = pR" "isLowercaseHex64 pR"
  shows "(\<exists>w. ([the inbox], w) \<in> set (ca_sent s') \<and> singleTag (ne_tags w) ''p'' = Some pR
      \<and> (isSeen st (ne_id w) \<or>
         (\<exists>msg. processGiftWrap lib sha256 encode R w isSeen markSeen st = ok (markSeen st (ne_id w), Some msg)
            \<and> pm_conversationId msg = room \<and> pm_senderPubkey msg = pS \<and> pm_content msg = content)))
    \<and> pending_id now_ms \<in> dm_id ` set (messages_of (dm_messages (ca_dm s')) room)"
proof -
  have pk: "sg_pubkey S = ok pS" using assms(1) by (simp add: signs_as_def)
  let ?ps = "circleChatParticipants pS (chat_members members)"
  have room: "room = roomConversationId sha256 encode ?ps"
    using assms(4) pk by (auto simp: circle_chat_effect_def Let_def split: if_splits)
  from circle_send_ok [OF assms(1,5) _ assms(8)] assms(6) obtain sent where
    sent: "sendGroupMessage lib sha256 encode ent (now_ms div 1000) S (filter (\<lambda>p. p \<noteq> toLowerCase pS) ?ps) content = ok sent"
    "sm_participants sent = ?ps" "ca_sent s' = ca_sent s @ map (Pair [the inbox]) (sm_wraps sent)"
    "ca_dm s' = ca_dm (dm_echo (sm_conversationId sent) pS now_ms content s)"
    by (auto simp: truthy_def)
  note g = sendGroup_ok [OF assms(1) sent(1) refl]
  have conv: "sm_conversationId sent = room" using g(2) sent(2) room by simp
  have "pR \<in> set (sm_participants sent)"
    unfolding sent(2) using assms(9-13)
    by (auto simp: set_circleChatParticipants chat_members_def intro!: bexI [of _ m])
  from room_delivery [OF assms(1-3) g(3) this refl g(4,5) this,
      where isSeen = isSeen and s = st and markSeen = markSeen and ?sha256.0 = sha256 and encode = encode]
  have "\<exists>w. ([the inbox], w) \<in> set (ca_sent s') \<and> singleTag (ne_tags w) ''p'' = Some pR
      \<and> (isSeen st (ne_id w) \<or>
         (\<exists>msg. processGiftWrap lib sha256 encode R w isSeen markSeen st = ok (markSeen st (ne_id w), Some msg)
            \<and> pm_conversationId msg = room \<and> pm_senderPubkey msg = pS \<and> pm_content msg = content))"
    unfolding g(2) [symmetric] conv sent(3) by auto
  with dm_echo_shown(2) [OF assms(7)] show ?thesis by (simp add: sent(4) conv)
qed

text \<open>Sample values for the witnesses: an event hash that is a hexadecimal id, and a relay that accepts.\<close>

definition sample_tools :: nostr_tools where
  "sample_tools = plain_tools\<lparr>tl_getEventHash := (\<lambda>u. key_of (CHR ''c''))\<rparr>"

definition accepting_relay :: relay_client where
  "accepting_relay = \<lparr>rc_publish = (\<lambda>rs e. ok []), rc_query = (\<lambda>rs f. ok [])\<rparr>"

definition sample_app :: "(bytes \<times> bool) chat_app" where
  "sample_app = \<lparr>ca_chat = chat_initialState, ca_dm = dm_initialState, ca_db = openDb, ca_ls = None, ca_sent = []\<rparr>"

definition sample_members :: "circle_member list" where
  "sample_members = [\<lparr>cm_circle_id = ''f'', cm_token = None, cm_alert_radius_km = None, cm_alert_severity = None,
     cm_joined_at = '''', cm_label_ciphertext = None, cm_state = Some Active, cm_accepted_at = None,
     cm_key_wrap_epoch = None, cm_pubkey = Some (key_of (CHR ''b'')), cm_label = None\<rparr>]"

lemma sample_laws:
  "isLowercaseHex64 p \<Longrightarrow> signs_as sample_tools (plain_signer p) p"
  "finalizes sample_tools" "reads_from sample_tools (plain_signer p) p (plain_signer q) q"
  by (auto simp: signs_as_def finalizes_def reads_from_def sample_tools_def plain_tools_def plain_signer_def Let_def)

lemma sample_wrapRumor: "\<exists>ws. wrapRumor sample_tools ent (plain_signer p) r i rs = ok ws"
proof (induction rs arbitrary: i)
  case (Cons a rs)
  then obtain ws where "wrapRumor sample_tools ent (plain_signer p) r (Suc i) rs = ok ws" by blast
  then show ?case
    by (simp add: createSeal_def createWrap_def) (simp add: sample_tools_def plain_tools_def plain_signer_def)
qed simp

lemma sample_participants:
  "set (circleChatParticipants (key_of (CHR ''a'')) (chat_members sample_members)) = {key_of (CHR ''a''), key_of (CHR ''b'')}"
  "length (circleChatParticipants (key_of (CHR ''a'')) (chat_members sample_members)) = 2"
proof -
  let ?ps = "circleChatParticipants (key_of (CHR ''a'')) (chat_members sample_members)"
  show s: "set ?ps = {key_of (CHR ''a''), key_of (CHR ''b'')}"
    using sample_keys by (auto simp: set_circleChatParticipants chat_members_def sample_members_def)
  have "distinct ?ps" by (simp add: circleChatParticipants_def Let_def)
  then show "length ?ps = 2" using s sample_keys(3) distinct_card [of ?ps] by simp
qed

lemma publish_accepting: "snd (publish_all accepting_relay rs ws s) = ok ()"
  by (induction ws arbitrary: s) (simp_all add: publish_to_def accepting_relay_def)

lemma sample_circle_send:
  assumes "c \<noteq> ''''"
  shows "\<exists>s'. circle_handleSend sample_tools id (map of_char) sample_entropy accepting_relay (plain_signer (key_of (CHR ''a'')))
     1700000000000 (Some ''wss://inbox'') sample_members (Some c) sample_app ''hello'' = (s', ok ())"
proof -
  let ?a = "key_of (CHR ''a'')"
  let ?ps = "circleChatParticipants ?a (chat_members sample_members)"
  let ?peers = "filter (\<lambda>p. p \<noteq> toLowerCase ?a) ?ps"
  have norm: "normalizeParticipants (?a # ?peers) = ?ps" by (rule circle_peers_room)
  obtain ws where "wrapRumor sample_tools sample_entropy (plain_signer ?a) (createRumor sample_tools 1700000000 ?a NIP17_DIRECT_KIND
      (Some (map (\<lambda>p. [''p'', p]) ?ps)) (Some ''hello'') None) 0 ?ps = ok ws"
    using sample_wrapRumor by blast
  then have "\<exists>sent. sendGroupMessage sample_tools id (map of_char) sample_entropy 1700000000 (plain_signer ?a) ?peers ''hello'' = ok sent"
    using norm sample_participants(2) unfolding sendGroupMessage_def createGroupMessage_def
    by (simp add: plain_signer_def Let_def MAX_ROOM_PARTICIPANTS_def validMessageContent_def MAX_MESSAGE_BYTES_def
        del: wrapRumor.simps)
  then obtain sent where
    sent: "sendGroupMessage sample_tools id (map of_char) sample_entropy 1700000000 (plain_signer ?a) ?peers ''hello'' = ok sent" by blast
  have pk: "sg_pubkey (plain_signer ?a) = ok ?a" by (simp add: plain_signer_def)
  let ?e = "dm_echo (sm_conversationId sent) ?a 1700000000000 ''hello'' sample_app"
  have "circle_handleSend sample_tools id (map of_char) sample_entropy accepting_relay (plain_signer ?a)
     1700000000000 (Some ''wss://inbox'') sample_members (Some c) sample_app ''hello''
     = publish_all accepting_relay [''wss://inbox''] (sm_wraps sent) ?e"
    using assms sent pk by (simp add: circle_handleSend_def truthy_def)
  with publish_accepting [of "[''wss://inbox'']" "sm_wraps sent" ?e] show ?thesis
    by (metis prod.collapse)
qed

lemma sample_app_inv: "dm_inv (ca_dm sample_app)"
  by (simp add: sample_app_def dm_red.inv_init)

definition sample_room :: string where
  "sample_room = roomConversationId id (map of_char) (circleChatParticipants (key_of (CHR ''a'')) (chat_members sample_members))"

lemma sample_room_nonempty: "sample_room \<noteq> ''''"
  by (simp add: sample_room_def roomConversationId_def conversationIdFor_def participantKey_def VERSION_PREFIX_def bytes_hex_def byte_hex_def)

theorem circle_message_reaches_members_witness:
  "\<exists>s' w msg. circle_handleSend sample_tools id (map of_char) sample_entropy accepting_relay (plain_signer (key_of (CHR ''a'')))
       1700000000000 (Some ''wss://inbox'') sample_members (Some sample_room) sample_app ''hello'' = (s', ok ())
     \<and> ([''wss://inbox''], w) \<in> set (ca_sent s')
     \<and> processGiftWrap sample_tools id (map of_char) (plain_signer (key_of (CHR ''b''))) w
          (\<lambda>s i. i \<in> s) (\<lambda>s i. insert i s) {} = ok ({ne_id w}, Some msg)
     \<and> pm_conversationId msg = sample_room \<and> pm_content msg = ''hello''"
proof -
  let ?a = "key_of (CHR ''a'')" and ?b = "key_of (CHR ''b'')"
  obtain s' where s': "circle_handleSend sample_tools id (map of_char) sample_entropy accepting_relay (plain_signer ?a)
       1700000000000 (Some ''wss://inbox'') sample_members (Some sample_room) sample_app ''hello'' = (s', ok ())"
    using sample_circle_send [OF sample_room_nonempty] by blast
  have eff: "circle_chat_effect id (map of_char) (plain_signer ?a) None sample_members None sample_app
      = (fst (circle_chat_effect id (map of_char) (plain_signer ?a) None sample_members None sample_app), Some sample_room)"
    using sample_participants(2)
    by (simp add: circle_chat_effect_def Let_def plain_signer_def circleChatFeasible_def MAX_CIRCLE_CHAT_PARTICIPANTS_def
        sample_room_def)
  have m: "hd sample_members \<in> set sample_members" "cm_state (hd sample_members) \<noteq> Some Pending"
    "cm_pubkey (hd sample_members) = Some ?b" by (simp_all add: sample_members_def)
  from circle_message_reaches_members [OF sample_laws(1) [OF sample_keys(1)] sample_laws(2) sample_laws(3) [of _ ?b] eff _
      sample_room_nonempty sample_app_inv s' m _ sample_keys(2), where isSeen = "\<lambda>s i. i \<in> s" and markSeen = "\<lambda>s i. insert i s" and st = "{}"]
  show ?thesis using s' sample_keys(2) by (auto simp: truthy_def)
qed

text \<open>
  A message sent from the circle chat page is shown twice to its sender. The echo carries a temporary
  id, the sender is one of the recipients, and the inbox files the sender's own wrap under the id of
  the message: once that wrap comes back, the conversation holds two entries for one message, with
  different ids, and nothing removes the first.
\<close>

theorem circle_echo_duplicated:
  assumes "signs_as lib S pS" "finalizes lib" "reads_from lib S pS S pS"
    and "\<forall>u. isLowercaseHex64 (tl_getEventHash lib u)"
    and "truthy inbox" "truthy room" "dm_inv (ca_dm s)"
    and "circle_handleSend lib sha256 encode ent client S now_ms inbox members room s content = (s', ok ())"
    and "c = roomConversationId sha256 encode (circleChatParticipants pS (chat_members members))"
    and "messages_of (dm_messages (ca_dm s)) c = []"
    and "ib_dm ib = ca_dm s'" "\<not> ib_disposed ib" "\<forall>i. \<not> ib_isSeen ib i"
  shows "\<exists>w m1 m2. ([the inbox], w) \<in> set (ca_sent s')
    \<and> mset (messages_of (dm_messages (ib_dm (inbox_on_wrap lib sha256 encode wc S now fresh iv ib w))) c) = {#m1, m2#}
    \<and> dm_id m1 \<noteq> dm_id m2 \<and> dm_content m1 = content \<and> dm_content m2 = content
    \<and> dm_sender_pubkey m1 = pS \<and> dm_sender_pubkey m2 = pS"
proof -
  let ?ps = "circleChatParticipants pS (chat_members members)"
  from circle_send_ok [OF assms(1,5,6,8)] obtain sent where
    sent: "sendGroupMessage lib sha256 encode ent (now_ms div 1000) S (filter (\<lambda>p. p \<noteq> toLowerCase pS) ?ps) content = ok sent"
    "sm_participants sent = ?ps" "ca_sent s' = ca_sent s @ map (Pair [the inbox]) (sm_wraps sent)"
    "ca_dm s' = ca_dm (dm_echo (sm_conversationId sent) pS now_ms content s)" by blast
  note g = sendGroup_ok [OF assms(1) sent(1) refl]
  have conv: "sm_conversationId sent = c" using g(2) sent(2) assms(9) by simp
  have "pS \<in> set (sm_participants sent)" using assms(1) g(1) by (simp add: signs_as_def hex_member_normalize)
  from room_delivery [OF assms(1-3) g(3) this refl g(4,5) this,
      where isSeen = ib_isSeen and s = ib and markSeen = "ib_markSeen now" and ?sha256.0 = sha256 and encode = encode]
    assms(13) g(2) conv
  obtain w msg where w: "w \<in> set (sm_wraps sent)"
    and proc: "processGiftWrap lib sha256 encode S w ib_isSeen (ib_markSeen now) ib = ok (ib_markSeen now ib (ne_id w), Some msg)"
    and msg: "pm_conversationId msg = c" "pm_senderPubkey msg = pS" "pm_content msg = content"
    and hex: "isLowercaseHex64 (pm_rumorId msg)" using assms(4) by auto
  let ?m1 = "\<lparr>dm_id = pending_id now_ms, dm_conversation_id = c, dm_sender_pubkey = pS,
      dm_created_at = now_ms div 1000, dm_content = content\<rparr>"
  let ?m2 = "\<lparr>dm_id = pm_rumorId msg, dm_conversation_id = c, dm_sender_pubkey = pS,
      dm_created_at = pm_created_at msg, dm_content = content\<rparr>"
  let ?s1 = "ib_markSeen now ib (ne_id w)"
  have ne: "dm_id ?m1 \<noteq> dm_id ?m2" using hex pending_id_not_hex [of now_ms] by auto
  have s1: "ib_dm ?s1 = ca_dm s'" "\<not> ib_disposed ?s1" using assms(11,12) by (simp_all add: ib_markSeen_def)
  have echo: "mset (messages_of (dm_messages (ca_dm s')) c) = {#?m1#}"
    using dm_echo_shown(3) [OF assms(7), of now_ms c pS content] assms(10) by (simp add: sent(4) conv)
  then have "set (messages_of (dm_messages (ca_dm s')) c) = {?m1}" by (metis set_mset_mset set_mset_single)
  then have fresh: "pm_rumorId msg \<notin> dm_id ` set (messages_of (dm_messages (ib_dm ?s1)) (pm_conversationId msg))"
    using ne by (simp add: s1 msg)
  have inv: "dm_inv (ib_dm ?s1)" using dm_echo_shown(1) [OF assms(7)] by (simp add: s1 sent(4))
  have "inbox_on_wrap lib sha256 encode wc S now fresh iv ib w = inbox_store wc fresh iv ?s1 msg"
    using proc s1 by (simp add: inbox_on_wrap_def)
  with inbox_store_shown [OF inv fresh, of wc fresh iv] echo
  have "mset (messages_of (dm_messages (ib_dm (inbox_on_wrap lib sha256 encode wc S now fresh iv ib w))) c) = {#?m2, ?m1#}"
    by (simp add: msg s1)
  then show ?thesis using w ne sent(3)
    by (intro exI [of _ w] exI [of _ ?m2] exI [of _ ?m1]) auto
qed

theorem circle_echo_duplicated_witness:
  "\<exists>s' w m1 m2. circle_handleSend sample_tools id (map of_char) sample_entropy accepting_relay (plain_signer (key_of (CHR ''a'')))
       1700000000000 (Some ''wss://inbox'') sample_members (Some sample_room) sample_app ''hello'' = (s', ok ())
     \<and> mset (messages_of (dm_messages (ib_dm (inbox_on_wrap sample_tools id (map of_char) plain_crypto (plain_signer (key_of (CHR ''a'')))
          1 ([], False) (replicate 12 1) \<lparr>ib_dm = ca_dm s', ib_db = openDb, ib_seen = [], ib_disposed = False\<rparr> w))) sample_room) = {#m1, m2#}
     \<and> dm_content m1 = ''hello'' \<and> dm_content m2 = ''hello''"
proof -
  let ?a = "key_of (CHR ''a'')"
  obtain s' where s': "circle_handleSend sample_tools id (map of_char) sample_entropy accepting_relay (plain_signer ?a)
       1700000000000 (Some ''wss://inbox'') sample_members (Some sample_room) sample_app ''hello'' = (s', ok ())"
    using sample_circle_send [OF sample_room_nonempty] by blast
  let ?ib = "\<lparr>ib_dm = ca_dm s', ib_db = openDb, ib_seen = [], ib_disposed = False\<rparr> :: (bytes \<times> bool) inbox_session"
  have "\<forall>u. isLowercaseHex64 (tl_getEventHash sample_tools u)"
    by (simp add: sample_tools_def key_of_hex is_lower_hex_def is_digit_def char_le_iff)
  moreover have "messages_of (dm_messages (ca_dm sample_app)) sample_room = []"
    by (simp add: sample_app_def dm_initialState_def)
  moreover have "\<forall>i. \<not> ib_isSeen ?ib i"
    by (simp add: ib_isSeen_def hasGiftWrap_def openDb_def idb_get_def)
  ultimately show ?thesis
    using circle_echo_duplicated [OF sample_laws(1) [OF sample_keys(1)] sample_laws(2) sample_laws(3) [of _ ?a] _ _ _
        sample_app_inv s' sample_room_def, where ib = ?ib and wc = plain_crypto and now = 1 and fresh = "([], False)"
        and iv = "replicate 12 1"] s' sample_room_nonempty by (auto simp: truthy_def)
qed

text \<open>
  C19: starting a conversation with a key and sending a message to it delivers it. The page opens the
  conversation of the two keys; a send that succeeds publishes one wrap, which opens on the
  recipient's device to the content, under the sender's key, in that same conversation, and the
  echo is shown there.
\<close>

theorem new_dm_delivered:
  assumes "signs_as lib S pS" "finalizes lib" "reads_from lib S pS R pR"
    and "hexFromNpubOrHex nd (cp_dmInput v) = Some pR" "pR \<noteq> pS" "pR \<noteq> ''''" "truthy inbox" "dm_inv (ca_dm s)"
    and "i = directConversationId sha256 encode pS pR" "dm_conversations (ca_dm s) i = None"
    and "handleNewDm nd sha256 encode S t (s, v) = (s1, v1)"
    and "direct_handleSend lib sha256 encode ent client S now_ms inbox i s1 content = (s2, ok ())"
  shows "cp_path v1 = ''/chat/dm/'' @ i
    \<and> (\<exists>w. ca_sent s2 = ca_sent s @ [([the inbox], w)]
      \<and> (isSeen st (ne_id w) \<or>
         (\<exists>msg. processGiftWrap lib sha256 encode R w isSeen markSeen st = ok (markSeen st (ne_id w), Some msg)
            \<and> pm_conversationId msg = i \<and> pm_senderPubkey msg = pS \<and> pm_content msg = content)))
    \<and> pending_id now_ms \<in> dm_id ` set (messages_of (dm_messages (ca_dm s2)) i)"
proof -
  have pk: "sg_pubkey S = ok pS" "isLowercaseHex64 pS" using assms(1) by (simp_all add: signs_as_def)
  note n = new_dm_effect [OF pk(1) assms(4,6,11,9,10)]
  let ?c = "\<lparr>dc_id = i, dc_kind = KindDm, dc_title = take 12 pR, dc_participants = js_sort string_cmp [pS, pR]\<rparr>"
  have rec: "direct_recipient pS ?c = Some pR"
    unfolding direct_recipient_def using pk(2) assms(5) by (intro find_only) (auto split: if_splits)
  from assms(6,7,12) n(1) rec pk(1) obtain sent w where
    sent: "sendDirectMessage lib sha256 encode ent (now_ms div 1000) S pR content = ok sent"
    and dw: "direct_wrap pR (sm_wraps sent) = Some w"
    and pub: "publish_to client [the inbox] w (dm_echo (sm_conversationId sent) pS now_ms content s1) = (s2, ok ())"
    by (auto simp: direct_handleSend_def truthy_def Let_def split: sum.splits option.splits)
  note d = sendDirect_ok [OF assms(1) sent refl]
  have conv: "sm_conversationId sent = i" using d(3) assms(9) by simp
  from direct_wrap_ok [OF assms(2) d(4) d(8)] dw obtain j seal where
    w: "createSeal S (ent j) (createRumor lib (now_ms div 1000) pS NIP17_DIRECT_KIND (Some [[''p'', pR]]) (Some content) None) pR = ok seal"
      "createWrap lib (ent j) seal pR = ok w" by auto
  have "pR \<in> set (sm_participants sent)" using d(1,7) by (simp add: hex_member_normalize)
  note del = wrap_delivery(2) [OF assms(1-3) w refl d(5,6) this, where isSeen = isSeen and s = st and markSeen = markSeen
      and ?sha256.0 = sha256 and encode = encode]
  have s2: "s2 = dm_echo i pS now_ms content s1\<lparr>ca_sent := ca_sent s1 @ [([the inbox], w)]\<rparr>"
    using pub conv by (auto simp: publish_to_def dm_echo_def)
  have "ca_sent s2 = ca_sent s @ [([the inbox], w)]" by (simp add: s2 n(3))
  moreover have "isSeen st (ne_id w) \<or>
      (\<exists>msg. processGiftWrap lib sha256 encode R w isSeen markSeen st = ok (markSeen st (ne_id w), Some msg)
         \<and> pm_conversationId msg = i \<and> pm_senderPubkey msg = pS \<and> pm_content msg = content)"
    using del unfolding d(2) [symmetric] conv by auto
  moreover have "pending_id now_ms \<in> dm_id ` set (messages_of (dm_messages (ca_dm s2)) i)"
    using dm_echo_shown(2) [OF n(6) [OF assms(8)]] by (simp add: s2)
  ultimately show ?thesis using n(5) by blast
qed

lemma trim_sample: "trim (key_of (CHR ''b'')) = key_of (CHR ''b'')"
    "\<not> startsWith (key_of (CHR ''b'')) ''npub1''"
  by (simp_all add: key_of_def trim_def js_whitespace_def startsWith_def take_replicate numeral_eq_Suc)

theorem new_dm_delivered_witness:
  "\<exists>s1 v1 s2 w msg.
     handleNewDm (\<lambda>_. None) id (map of_char) (plain_signer (key_of (CHR ''a''))) 5 (sample_app,
         \<lparr>cp_joinInput = '''', cp_joinError = None, cp_dmInput = key_of (CHR ''b''), cp_dmError = None, cp_createName = '''',
          cp_createError = None, cp_creating = False, cp_path = ''/chat''\<rparr>) = (s1, v1)
     \<and> direct_handleSend sample_tools id (map of_char) sample_entropy accepting_relay (plain_signer (key_of (CHR ''a'')))
         1700000000000 (Some ''wss://inbox'') (directConversationId id (map of_char) (key_of (CHR ''a'')) (key_of (CHR ''b''))) s1 ''hello''
         = (s2, ok ())
     \<and> ca_sent s2 = [([''wss://inbox''], w)]
     \<and> processGiftWrap sample_tools id (map of_char) (plain_signer (key_of (CHR ''b''))) w
          (\<lambda>s i. i \<in> s) (\<lambda>s i. insert i s) {} = ok ({ne_id w}, Some msg)
     \<and> pm_content msg = ''hello''"
proof -
  let ?a = "key_of (CHR ''a'')" and ?b = "key_of (CHR ''b'')"
  let ?v = "\<lparr>cp_joinInput = '''', cp_joinError = None, cp_dmInput = ?b, cp_dmError = None, cp_createName = '''',
     cp_createError = None, cp_creating = False, cp_path = ''/chat''\<rparr>"
  let ?i = "directConversationId id (map of_char) ?a ?b"
  have pk: "sg_pubkey (plain_signer ?a) = ok ?a" by (simp add: plain_signer_def)
  have hex: "hexFromNpubOrHex (\<lambda>_. None) (cp_dmInput ?v) = Some ?b"
    using sample_keys(2) by (simp add: hexFromNpubOrHex_def Let_def trim_sample isHex64_ci_def)
  have ne: "?b \<noteq> ''''" by (simp add: key_of_def)
  obtain s1 v1 where n: "handleNewDm (\<lambda>_. None) id (map of_char) (plain_signer ?a) 5 (sample_app, ?v) = (s1, v1)"
    by (metis surj_pair)
  have none: "dm_conversations (ca_dm sample_app) ?i = None" by (simp add: sample_app_def dm_initialState_def)
  note eff = new_dm_effect [OF pk hex ne n refl none]
  let ?r = "createRumor sample_tools 1700000000 ?a NIP17_DIRECT_KIND (Some [[''p'', ?b]]) (Some ''hello'') None"
  obtain ws where ws: "wrapRumor sample_tools sample_entropy (plain_signer ?a) ?r 0 [?a, ?b] = ok ws"
    using sample_wrapRumor by blast
  have low: "toLowerCase ?a = ?a" "toLowerCase ?b = ?b" using sample_keys by simp_all
  from ws have "\<exists>sent. sendDirectMessage sample_tools id (map of_char) sample_entropy 1700000000 (plain_signer ?a) ?b ''hello'' = ok sent
      \<and> sm_wraps sent = ws"
    using sample_keys low pk
    by (simp add: sendDirectMessage_def createDirectMessage_def Let_def validMessageContent_def MAX_MESSAGE_BYTES_def
        del: wrapRumor.simps)
  then obtain sent where
    sent: "sendDirectMessage sample_tools id (map of_char) sample_entropy 1700000000 (plain_signer ?a) ?b ''hello'' = ok sent"
    "sm_wraps sent = ws" by blast
  obtain w where w: "direct_wrap ?b ws = Some w"
    using direct_wrap_ok [OF sample_laws(2) ws] sample_keys(3) by auto
  have rec: "direct_recipient ?a \<lparr>dc_id = ?i, dc_kind = KindDm, dc_title = take 12 ?b, dc_participants = js_sort string_cmp [?a, ?b]\<rparr> = Some ?b"
    unfolding direct_recipient_def using low sample_keys(3) by (intro find_only) (auto split: if_splits)
  have "\<exists>s2. direct_handleSend sample_tools id (map of_char) sample_entropy accepting_relay (plain_signer ?a)
     1700000000000 (Some ''wss://inbox'') ?i s1 ''hello'' = (s2, ok ())"
    using eff(1) pk rec ne sent w
    by (simp add: direct_handleSend_def truthy_def Let_def publish_to_def accepting_relay_def del: js_sort.simps)
  then obtain s2 where s2: "direct_handleSend sample_tools id (map of_char) sample_entropy accepting_relay (plain_signer ?a)
     1700000000000 (Some ''wss://inbox'') ?i s1 ''hello'' = (s2, ok ())" by blast
  from new_dm_delivered [OF sample_laws(1) [OF sample_keys(1)] sample_laws(2) sample_laws(3) [of _ ?b] hex sample_keys(3) [symmetric] ne _
      sample_app_inv refl none n s2, where isSeen = "\<lambda>s i. i \<in> s" and markSeen = "\<lambda>s i. insert i s" and st = "{}"]
  obtain w msg where "ca_sent s2 = ca_sent sample_app @ [([''wss://inbox''], w)]"
     "processGiftWrap sample_tools id (map of_char) (plain_signer ?b) w (\<lambda>s i. i \<in> s) (\<lambda>s i. insert i s) {} = ok ({ne_id w}, Some msg)"
     "pm_content msg = ''hello''" by (auto simp: truthy_def)
  then have "ca_sent s2 = [([''wss://inbox''], w)]" by (simp add: sample_app_def)
  with n s2 \<open>processGiftWrap _ _ _ _ _ _ _ _ = _\<close> \<open>pm_content msg = _\<close> show ?thesis by blast
qed

text \<open>
  A message sent to a public channel is shown once and kept. Whatever the relay answers, the echo is
  in the channel and in the database, already marked as delivered, under the id of the signed event;
  so when the relay sends the event back, the list of messages does not change. When the message
  cannot be signed nothing changes.
\<close>

theorem channel_echo_once:
  assumes "chat_inv (ca_chat s)" "truthy relayUrl" "c = channelConversationId (the relayUrl) g"
    and "channel_handleSend client S now relayUrl g s content = (s', r)"
  shows "(\<forall>err. signed_channel_message S now g content = Inl err \<longrightarrow> s' = s \<and> r = Inl err)
    \<and> (\<forall>p e. signed_channel_message S now g content = ok (p, e) \<longrightarrow>
         ca_sent s' = ca_sent s @ [([the relayUrl], e)]
         \<and> ne_id e \<in> displayed c (ca_chat s')
         \<and> (\<exists>row. idb_get (db_messages (ca_db s')) (ne_id e) = Some row \<and> sm_conversation_id row = c
               \<and> sm_ciphertext row = content \<and> sm_delivery_state row = D_delivered)
         \<and> (\<forall>st v t. cs_chat st = ca_chat s' \<longrightarrow>
               messages_of (chat_messages (cs_chat (channel_step v c g st (Live_event t e)))) c
               = messages_of (chat_messages (ca_chat s')) c))"
proof (cases "signed_channel_message S now g content")
  case (Inl err)
  with assms show ?thesis by (simp add: channel_handleSend_def)
next
  case (Inr pe)
  obtain p e where pe: "pe = (p, e)" by (cases pe)
  have s': "s' = channel_echo c p content e s\<lparr>ca_sent := ca_sent s @ [([the relayUrl], e)]\<rparr>"
    using assms Inr pe by (simp add: channel_handleSend_def publish_to_def channel_echo_def)
  have inv: "chat_inv (ca_chat s')" using assms(1) by (simp add: s' channel_echo_def chat_inv_received)
  have shown: "ne_id e \<in> displayed c (ca_chat s')"
    using assms(1) by (simp add: s' channel_echo_def displayed_received)
  have same: "messages_of (chat_messages (channelMessageReceived (ca_chat s') c (toChatMessage c e))) c
      = messages_of (chat_messages (ca_chat s')) c"
    using shown chat_tl.insert_known by (simp add: chat_received_readers [OF inv] displayed_def)
  have "messages_of (chat_messages (cs_chat (channel_step v c g st (Live_event t e)))) c = messages_of (chat_messages (ca_chat s')) c"
    if "cs_chat st = ca_chat s'" for st v t
    using that same by (auto simp: live_event_def subscribeChannel_on_event_def)
  then show ?thesis using Inr pe shown
    by (auto simp: s' channel_echo_def putChannelMessage_def putMessage_def)
qed

theorem channel_echo_once_witness:
  "\<exists>s' r e. channel_handleSend accepting_relay (plain_signer (key_of (CHR ''a''))) 7 (Some ''wss://r'') ''g'' sample_app ''hi'' = (s', r)
     \<and> ca_sent s' = [([''wss://r''], e)] \<and> ne_id e \<in> displayed (channelConversationId ''wss://r'' ''g'') (ca_chat s')"
proof -
  obtain s' r where s': "channel_handleSend accepting_relay (plain_signer (key_of (CHR ''a''))) 7 (Some ''wss://r'') ''g'' sample_app ''hi'' = (s', r)"
    by (metis surj_pair)
  have inv: "chat_inv (ca_chat sample_app)" by (simp add: sample_app_def chat_red.inv_init)
  obtain e where "signed_channel_message (plain_signer (key_of (CHR ''a''))) 7 ''g'' ''hi'' = ok (key_of (CHR ''a''), e)"
    by (simp add: signed_channel_message_def plain_signer_def createChannelMessage_def signChannelMessage_def
        validMessageContent_def MAX_MESSAGE_BYTES_def)
  with channel_echo_once [OF inv _ refl s'] have "ca_sent s' = ca_sent sample_app @ [([''wss://r''], e)]"
    "ne_id e \<in> displayed (channelConversationId ''wss://r'' ''g'') (ca_chat s')" by (auto simp: truthy_def)
  with s' show ?thesis by (auto simp: sample_app_def)
qed

text \<open>
  The conversations started from the chat page survive a reload: the restore effect brings back every
  stored direct or circle conversation with its title and participants.
\<close>

theorem conversations_restored:
  assumes "chat_db_ok (ca_db s)" "ca_dm s = dm_initialState" "c \<in> set (listConversations (ca_db s))" "restorable c"
  shows "dm_conversations (ca_dm (restore_conversations s)) (sc_id c) = Some (restored_conversation c)"
proof -
  have "distinct (map sc_id (listConversations (ca_db s)))"
    using assms(1) by (simp add: listConversations_def chat_db_ok_def idb_getAll_distinct)
  from restored_fold [OF this _ assms(3,4), of "ca_dm s"] assms(2) show ?thesis
    by (simp add: restore_conversations_def dm_initialState_def)
qed

theorem conversations_restored_witness:
  "\<exists>s. dm_conversations (ca_dm (restore_conversations (s :: (bytes \<times> bool) chat_app))) ''i'' =
     Some \<lparr>dc_id = ''i'', dc_kind = KindDm, dc_title = ''Ann'', dc_participants = [''a'', ''b'']\<rparr>"
proof -
  let ?c = "\<lparr>sc_id = ''i'', sc_kind = Dm, sc_title = ''Ann'', sc_muted = False, sc_last_activity_at = 0,
     sc_participants = Some [''a'', ''b''], sc_group_id = None, sc_relay_url = None\<rparr>"
  let ?s = "sample_app\<lparr>ca_db := putConversation openDb ?c\<rparr>"
  have "chat_db_ok (ca_db ?s)" by (simp add: chat_db_ok_ops)
  from conversations_restored [OF this, of ?c] show ?thesis
    by (intro exI [of _ ?s])
      (simp add: sample_app_def restorable_def restored_conversation_def listConversations_def putConversation_def
        openDb_def idb_getAll_def idb_put_def)
qed

text \<open>
  C40: the messages do not: a direct message that the inbox accepted, stored and showed is not shown again
  after a reload. It is in the database and its wrap is marked, so a new session skips the wrap;
  conversations are restored without messages, and nothing reads the stored ones back, so every
  conversation stays empty however often the relay sends the known wraps.
\<close>

theorem dm_history_not_restored:
  assumes "dm_inv (ib_dm s)" "\<not> ib_disposed s"
    and "processGiftWrap lib sha256 encode signer wrap ib_isSeen (ib_markSeen now) s = ok (s', Some p)"
    and "s2 = inbox_on_wrap lib sha256 encode wc signer now fresh iv s wrap"
    and "app = restore_conversations \<lparr>ca_chat = chat, ca_dm = dm_initialState, ca_db = ib_db s2, ca_ls = ls, ca_sent = sent\<rparr>"
    and "\<forall>w\<in>set ws. hasGiftWrap (ib_db s2) (ne_id w)"
  shows "idb_get (db_messages (ib_db s2)) (pm_rumorId p) \<noteq> None \<and> hasGiftWrap (ib_db s2) (ne_id wrap)
    \<and> messages_of (dm_messages (ib_dm (foldl (inbox_on_wrap lib sha256 encode wc signer now' fresh' iv')
          \<lparr>ib_dm = ca_dm app, ib_db = ca_db app, ib_seen = [], ib_disposed = False\<rparr> ws))) c = []"
proof -
  from processGiftWrap_state [OF assms(3)] have s': "s' = ib_markSeen now s (ne_id wrap)" by simp
  have inv: "dm_inv (ib_dm s')" and nd: "\<not> ib_disposed s'" using assms(1,2) by (simp_all add: s' ib_markSeen_def)
  have s2: "s2 = inbox_store wc fresh iv s' p" using assms(3,4) nd by (simp add: inbox_on_wrap_def)
  note f = inbox_store_facts [OF inv, where wc = wc and fresh = fresh and iv = iv and p = p]
  have "hasGiftWrap (ib_db s2) (ne_id wrap)" by (simp add: s2 f(1)) (simp add: s' ib_markSeen_def)
  moreover have "idb_get (db_messages (ib_db s2)) (pm_rumorId p) \<noteq> None" using f(6) by (auto simp: s2)
  moreover have "dm_messages (ca_dm app) = Map.empty" "ca_db app = ib_db s2"
    by (simp_all add: assms(5) restore_facts dm_initialState_def)
  ultimately show ?thesis using assms(6) by (subst inbox_seen_run) simp_all
qed

theorem dm_history_not_restored_witness:
  "\<exists>wrap p s2 app. processGiftWrap plain_tools id (map of_char) (plain_signer (key_of (CHR ''a''))) wrap
        ib_isSeen (ib_markSeen 1) (empty_inbox False) = ok (ib_markSeen 1 (empty_inbox False) (ne_id wrap), Some p)
     \<and> s2 = inbox_on_wrap plain_tools id (map of_char) plain_crypto (plain_signer (key_of (CHR ''a''))) 1 ([], False)
          (replicate 12 1) (empty_inbox False) wrap
     \<and> app = restore_conversations \<lparr>ca_chat = chat_initialState, ca_dm = dm_initialState, ca_db = ib_db s2, ca_ls = None, ca_sent = []\<rparr>
     \<and> messages_of (dm_messages (ib_dm (foldl (inbox_on_wrap plain_tools id (map of_char) plain_crypto (plain_signer (key_of (CHR ''a'')))
          2 ([], False) (replicate 12 1)) \<lparr>ib_dm = ca_dm app, ib_db = ca_db app, ib_seen = [], ib_disposed = False\<rparr> []))) (pm_conversationId p) = []"
proof -
  obtain w p where w: "processGiftWrap plain_tools id (map of_char) (plain_signer (key_of (CHR ''a''))) w
      ib_isSeen (ib_markSeen 1) (empty_inbox False) = ok (ib_markSeen 1 (empty_inbox False) (ne_id w), Some p)"
    using plain_delivery [of ib_isSeen "empty_inbox False" "ib_markSeen 1"] empty_inbox_unseen by blast
  have "dm_inv (ib_dm (empty_inbox False))" "\<not> ib_disposed (empty_inbox False)"
    using dm_red.inv_init by (simp_all add: empty_inbox_def)
  from dm_history_not_restored [OF this w refl refl, where ws = "[]" and wc = plain_crypto and fresh = "([], False)"
      and iv = "replicate 12 1" and fresh' = "([], False)" and iv' = "replicate 12 1" and now' = 2 and c = "pm_conversationId p"
      and chat = chat_initialState and ls = None and sent = "[]"] w
  show ?thesis by auto
qed

text \<open>
  The composer does not guard the Enter key: while a send is pending the button is disabled, but
  pressing Enter again hands the same text to the page a second time, and the text typed in the
  meantime is erased when the first send settles.
\<close>

theorem composer_resends:
  assumes "trim (mc_text c) \<noteq> ''''"
  shows "mc_sent (foldl (composer_step False) c [Enter_pressed, Enter_pressed]) = mc_sent c @ [trim (mc_text c), trim (mc_text c)]
    \<and> mc_sent (foldl (composer_step False) c [Enter_pressed, Button_pressed]) = mc_sent c @ [trim (mc_text c)]
    \<and> mc_text (foldl (composer_step False) c [Enter_pressed, Typed typed, Send_settled True]) = ''''"
  using assms by (simp add: mc_submit_def Let_def)

theorem composer_resends_witness:
  "mc_sent (foldl (composer_step False) \<lparr>mc_text = ''hi'', mc_sending = False, mc_sent = []\<rparr> [Enter_pressed, Enter_pressed]) = [''hi'', ''hi'']"
  using composer_resends [of "\<lparr>mc_text = ''hi'', mc_sending = False, mc_sent = []\<rparr>"]
  by (simp add: trim_def js_whitespace_def)

end
