(* ===== verification/Acoustic.thy ===== *)
theory Acoustic
  imports CircleKeys Geo
begin

text \<open>
  Acoustic threat detection: the classes and the decision (\<open>constants/acousticThreats.ts\<close>), the
  detector (\<open>services/acousticDetectionService.ts\<close>), the slice (\<open>store/acousticSlice.ts\<close>), the
  submissions (\<open>services/acousticSignalSubmit.ts\<close>, \<open>services/reportAutoSubmit.ts\<close>) and the engine
  hook (\<open>hooks/useAcousticEngine.ts\<close>, and \<open>hooks/useAcousticDetection.ts\<close>, which is the same
  code) with the capture it drives (\<open>services/audioCapture.ts\<close>). Scores are real numbers; the model
  and the microphone are events of a run. The lemmas show that the reported threat is the most likely
  one above the threshold, that windows which agree to the hundredth have one fingerprint, that a
  submission is signed for the bytes sent, and that leaving the page during the start leaves the
  microphone on.
\<close>

section \<open>Threat classes\<close>

datatype threat_category = SECURITY_INCIDENT | FIRE | CIVIL_UNREST | ACCIDENT

fun category_str :: "threat_category \<Rightarrow> string" where
  "category_str SECURITY_INCIDENT = ''SECURITY_INCIDENT''"
| "category_str FIRE = ''FIRE''"
| "category_str CIVIL_UNREST = ''CIVIL_UNREST''"
| "category_str ACCIDENT = ''ACCIDENT''"

definition DETECTION_THRESHOLD :: real where "DETECTION_THRESHOLD = 8 / 10"

record threat_entry =
  te_classIndex :: nat
  te_label :: string
  te_category :: threat_category

record threat_detection = threat_entry +
  td_confidence :: real
  td_fingerprint :: "string option"

definition YAMNET_THREAT_MAP :: "threat_entry list" where
  "YAMNET_THREAT_MAP =
     [\<lparr>te_classIndex = 427, te_label = ''Gunshot'', te_category = SECURITY_INCIDENT\<rparr>,
      \<lparr>te_classIndex = 429, te_label = ''Explosion'', te_category = SECURITY_INCIDENT\<rparr>,
      \<lparr>te_classIndex = 25, te_label = ''Screaming'', te_category = SECURITY_INCIDENT\<rparr>,
      \<lparr>te_classIndex = 26, te_label = ''Yell'', te_category = SECURITY_INCIDENT\<rparr>,
      \<lparr>te_classIndex = 60, te_label = ''Glass breaking'', te_category = SECURITY_INCIDENT\<rparr>,
      \<lparr>te_classIndex = 345, te_label = ''Crowd'', te_category = CIVIL_UNREST\<rparr>,
      \<lparr>te_classIndex = 401, te_label = ''Fire alarm'', te_category = FIRE\<rparr>,
      \<lparr>te_classIndex = 402, te_label = ''Smoke detector'', te_category = FIRE\<rparr>,
      \<lparr>te_classIndex = 504, te_label = ''Crash'', te_category = ACCIDENT\<rparr>,
      \<lparr>te_classIndex = 505, te_label = ''Car crash'', te_category = ACCIDENT\<rparr>]"

text \<open>An index past the end reads undefined.\<close>

definition score_at :: "real list \<Rightarrow> nat \<Rightarrow> real option" where
  "score_at scores i = (if i < length scores then Some (scores ! i) else None)"

definition detection_of :: "threat_entry \<Rightarrow> real \<Rightarrow> threat_detection" where
  "detection_of e c =
     \<lparr>te_classIndex = te_classIndex e, te_label = te_label e, te_category = te_category e, td_confidence = c, td_fingerprint = None\<rparr>"

fun threat_loop :: "real list \<Rightarrow> threat_entry list \<Rightarrow> threat_detection option \<Rightarrow> threat_detection option" where
  "threat_loop scores [] best = best"
| "threat_loop scores (e # es) best =
     threat_loop scores es
       (case score_at scores (te_classIndex e) of
          None \<Rightarrow> best
        | Some c \<Rightarrow>
            if c \<ge> DETECTION_THRESHOLD \<and> (case best of None \<Rightarrow> True | Some b \<Rightarrow> c > td_confidence b)
            then Some (detection_of e c) else best)"

definition getThreatFromScores :: "real list \<Rightarrow> threat_detection option" where
  "getThreatFromScores scores = threat_loop scores YAMNET_THREAT_MAP None"

definition score_summary :: "real list \<Rightarrow> string" where
  "score_summary scores = concat (map (\<lambda>x. int_str (js_round (x * 100)) @ '','') scores)"

definition acousticFingerprint :: "'k web_crypto \<Rightarrow> real list \<Rightarrow> string" where
  "acousticFingerprint wc scores = bytes_hex (wc_sha256 wc (wc_textEncode wc (score_summary scores)))"

text \<open>
  \<open>processWindow\<close> once the model has answered: the detection passed to \<open>onThreat\<close>, if any; without
  a loaded model nothing happens.
\<close>

definition processWindow :: "'k web_crypto \<Rightarrow> real list option \<Rightarrow> threat_detection option" where
  "processWindow wc prediction =
     Option.bind prediction (\<lambda>scores.
       map_option (\<lambda>threat. threat\<lparr>td_fingerprint := Some (acousticFingerprint wc scores)\<rparr>) (getThreatFromScores scores))"

section \<open>The slice\<close>

record acoustic_state =
  as_isRunning :: bool
  as_currentAlert :: "threat_detection option"
  as_lastDetectionAt :: "int option"

definition acoustic_initial :: acoustic_state where
  "acoustic_initial = \<lparr>as_isRunning = False, as_currentAlert = None, as_lastDetectionAt = None\<rparr>"

datatype acoustic_action =
    DetectionStarted
  | DetectionStopped
  | DetectionReceived int threat_detection
  | AlertDismissed

fun acoustic_reducer :: "acoustic_state \<Rightarrow> acoustic_action \<Rightarrow> acoustic_state" where
  "acoustic_reducer s DetectionStarted = s\<lparr>as_isRunning := True\<rparr>"
| "acoustic_reducer s DetectionStopped = s\<lparr>as_isRunning := False\<rparr>"
| "acoustic_reducer s (DetectionReceived now d) = s\<lparr>as_currentAlert := Some d, as_lastDetectionAt := Some now\<rparr>"
| "acoustic_reducer s AlertDismissed = s\<lparr>as_currentAlert := None\<rparr>"

section \<open>Submissions\<close>

text \<open>\<open>num\<close> is the JSON number JavaScript prints for a number; \<open>origin\<close> is \<open>window.location.origin\<close>.\<close>

definition signal_payload :: "(real \<Rightarrow> json) \<Rightarrow> string \<Rightarrow> threat_detection \<Rightarrow> lat_lng \<Rightarrow> json" where
  "signal_payload num uuid d loc =
     JObj [(''client_id'', JStr uuid), (''threat_class'', JStr (te_label d)), (''confidence'', num (td_confidence d)),
       (''lat'', num (ll_lat loc)), (''lng'', num (ll_lng loc)), (''model_version'', JStr ''yamnet-tfjs-1''),
       (''threshold_profile'', JStr ''default-v1''), (''inference_backend'', JStr ''webgl''), (''dropped_frames'', JInt 0),
       (''signal_fingerprint'', case td_fingerprint d of Some f \<Rightarrow> JStr f | None \<Rightarrow> JNull)]"

definition signals_url :: "string \<Rightarrow> string" where
  "signals_url origin = origin @ ''/api/acoustic/signals''"

text \<open>The request; \<open>sign\<close> is \<open>signNip98AuthEvent\<close> of the active identity for this moment.\<close>

definition signal_request ::
  "'k web_crypto \<Rightarrow> (nostr_template \<Rightarrow> nostr_event result) \<Rightarrow> int \<Rightarrow> string \<Rightarrow> string \<Rightarrow> string \<Rightarrow> http_request result" where
  "signal_request wc sign now nonce origin bodyStr =
     bind_result (sign (nip98_template now nonce (signals_url origin) ''POST'' (Some (sha256Hex wc bodyStr)))) (\<lambda>event.
       ok \<lparr>hr_url = signals_url origin, hr_method = ''POST'',
           hr_headers = [(''Content-Type'', ''application/json''), (''X-Nostr-Auth'', stringify (event_json event))],
           hr_body = Some bodyStr\<rparr>)"

definition submitAcousticSignal ::
  "'k web_crypto \<Rightarrow> (nostr_template \<Rightarrow> nostr_event result) \<Rightarrow> (real \<Rightarrow> json) \<Rightarrow> int \<Rightarrow> string \<Rightarrow> string \<Rightarrow> string
     \<Rightarrow> threat_detection \<Rightarrow> lat_lng \<Rightarrow> (http_request \<Rightarrow> int result) \<Rightarrow> unit result" where
  "submitAcousticSignal wc sign num now nonce uuid origin d loc fetch =
     bind_result (signal_request wc sign now nonce origin (stringify (signal_payload num uuid d loc))) (\<lambda>req.
     bind_result (fetch req) (\<lambda>status.
       throw_if (\<not> reply_ok status) (''acoustic signal submission failed: '' @ int_str status) (ok ())))"

text \<open>
  The automatic report; \<open>dash\<close> is the dash of its sentence, which is not an 8-bit character. The
  outcome of the request is only logged, so there is no result.
\<close>

definition autoSubmit_description :: "string \<Rightarrow> threat_detection \<Rightarrow> string" where
  "autoSubmit_description dash d =
     ''[acoustic detection] '' @ te_label d @ '' detected in browser (confidence: ''
       @ int_str (js_round (td_confidence d * 100)) @ ''%). Auto-submitted for community verification '' @ dash
       @ '' please confirm if you are nearby.''"

definition autoSubmitAcousticReport ::
  "string \<Rightarrow> (real \<Rightarrow> json) \<Rightarrow> string \<Rightarrow> int \<Rightarrow> threat_detection \<Rightarrow> lat_lng \<Rightarrow> http_request" where
  "autoSubmitAcousticReport dash num apiBase now d loc =
     \<lparr>hr_url = apiBase @ ''/api/reports'', hr_method = ''POST'', hr_headers = [(''Content-Type'', ''application/json'')],
      hr_body = Some (stringify (JObj [(''type'', JStr (category_str (te_category d))),
        (''description'', JStr (autoSubmit_description dash d)), (''lat'', num (ll_lat loc)), (''lng'', num (ll_lng loc)),
        (''timestamp'', JInt now)]))\<rparr>"

section \<open>The engine\<close>

text \<open>
  The hook's variables: \<open>capture\<close> (null, or an \<open>AudioCapture\<close> with whether its microphone stream is
  on) and \<open>detector\<close>; \<open>ae_analysing\<close> counts the windows whose prediction is being awaited.
\<close>

record acoustic_engine =
  ae_capture :: "bool option"
  ae_detector :: bool
  ae_analysing :: nat
  ae_store :: acoustic_state

definition engine_mount :: "acoustic_state \<Rightarrow> acoustic_engine" where
  "engine_mount s = \<lparr>ae_capture = None, ae_detector = True, ae_analysing = 0, ae_store = s\<rparr>"

text \<open>\<open>detector.init()\<close> has resolved: the capture is created, and asked to start.\<close>

definition init_resolved :: "acoustic_engine \<Rightarrow> acoustic_engine" where
  "init_resolved e = e\<lparr>ae_capture := Some False\<rparr>"

text \<open>\<open>capture.start()\<close> has resolved, or failed, which stops it.\<close>

definition start_resolved :: "acoustic_engine \<Rightarrow> acoustic_engine" where
  "start_resolved e = e\<lparr>ae_capture := Some True, ae_store := acoustic_reducer (ae_store e) DetectionStarted\<rparr>"

definition start_failed :: "acoustic_engine \<Rightarrow> acoustic_engine" where
  "start_failed e = e\<lparr>ae_capture := map_option (\<lambda>_. False) (ae_capture e)\<rparr>"

definition capture_stop :: "acoustic_engine \<Rightarrow> acoustic_engine" where
  "capture_stop e = e\<lparr>ae_capture := map_option (\<lambda>_. False) (ae_capture e)\<rparr>"

definition page_hidden :: "acoustic_engine \<Rightarrow> acoustic_engine" where
  "page_hidden e = (capture_stop e)\<lparr>ae_store := acoustic_reducer (ae_store e) DetectionStopped\<rparr>"

definition engine_cleanup :: "acoustic_engine \<Rightarrow> acoustic_engine" where
  "engine_cleanup e = (capture_stop e)\<lparr>ae_detector := False, ae_store := acoustic_reducer (ae_store e) DetectionStopped\<rparr>"

text \<open>A window of samples arrives, and later its prediction.\<close>

definition window_arrived :: "acoustic_engine \<Rightarrow> acoustic_engine" where
  "window_arrived e = (if ae_detector e then e\<lparr>ae_analysing := ae_analysing e + 1\<rparr> else e)"

definition window_analysed :: "'k web_crypto \<Rightarrow> int \<Rightarrow> real list option \<Rightarrow> acoustic_engine \<Rightarrow> acoustic_engine" where
  "window_analysed wc now prediction e =
     (let e1 = e\<lparr>ae_analysing := ae_analysing e - 1\<rparr>
      in case processWindow wc prediction of
           None \<Rightarrow> e1
         | Some d \<Rightarrow> e1\<lparr>ae_store := acoustic_reducer (ae_store e) (DetectionReceived now d)\<rparr>)"

section \<open>The reported threat\<close>

text \<open>The candidates: entries of the map whose score reaches the threshold.\<close>

definition candidates :: "real list \<Rightarrow> threat_entry list \<Rightarrow> (threat_entry \<times> real) set" where
  "candidates scores es = {(e, c). e \<in> set es \<and> score_at scores (te_classIndex e) = Some c \<and> DETECTION_THRESHOLD \<le> c}"

lemma threat_loop_correct:
  "(threat_loop scores es best = None \<longrightarrow> best = None \<and> candidates scores es = {})
   \<and> (\<forall>d. threat_loop scores es best = Some d \<longrightarrow>
        (best = Some d \<or> (\<exists>(e, c)\<in>candidates scores es. d = detection_of e c))
        \<and> (\<forall>b. best = Some b \<longrightarrow> td_confidence b \<le> td_confidence d)
        \<and> (\<forall>(e, c)\<in>candidates scores es. c \<le> td_confidence d))"
proof (induction es arbitrary: best)
  case Nil
  then show ?case by (auto simp: candidates_def)
next
  case (Cons e es)
  have cand: "candidates scores (e # es) = candidates scores es
      \<union> {(e, c) | c. score_at scores (te_classIndex e) = Some c \<and> DETECTION_THRESHOLD \<le> c}"
    by (auto simp: candidates_def)
  show ?case
  proof (cases "score_at scores (te_classIndex e)")
    case None
    then have "candidates scores (e # es) = candidates scores es" using cand by auto
    with Cons [of best] None show ?thesis by auto
  next
    case (Some c)
    define take_it where "take_it \<longleftrightarrow> c \<ge> DETECTION_THRESHOLD \<and> (case best of None \<Rightarrow> True | Some b \<Rightarrow> c > td_confidence b)"
    have loop: "threat_loop scores (e # es) best = threat_loop scores es (if take_it then Some (detection_of e c) else best)"
      by (simp add: Some take_it_def)
    have new: "td_confidence (detection_of e c) = c" by (simp add: detection_of_def)
    show ?thesis
    proof (cases take_it)
      case True
      with Cons [of "Some (detection_of e c)"] show ?thesis
        unfolding loop cand using Some new
        by (auto simp: take_it_def split: option.splits)
    next
      case False
      with Cons [of best] show ?thesis
        unfolding loop cand using Some by (auto simp: take_it_def split: option.splits)
    qed
  qed
qed

text \<open>
  The reported threat is the most likely one. A threat is reported exactly when some class of
  the map scores at least 0.8; it is then such a class with its own score, and no class of the map
  scores higher.
\<close>

theorem threat_is_best:
  "(getThreatFromScores scores = None \<longleftrightarrow> candidates scores YAMNET_THREAT_MAP = {})
   \<and> (\<forall>d. getThreatFromScores scores = Some d \<longrightarrow>
        (\<exists>(e, c)\<in>candidates scores YAMNET_THREAT_MAP. d = detection_of e c)
        \<and> (\<forall>(e, c)\<in>candidates scores YAMNET_THREAT_MAP. c \<le> td_confidence d))"
  using threat_loop_correct [where best = None and scores = scores and es = YAMNET_THREAT_MAP]
  by (cases "getThreatFromScores scores") (auto simp: getThreatFromScores_def)

theorem threat_is_best_witness:
  "\<exists>d. getThreatFromScores ((replicate 30 0)[25 := 85 / 100, 26 := 95 / 100]) = Some d \<and> 95 / 100 \<le> td_confidence d"
proof -
  let ?s = "(replicate 30 (0 :: real))[25 := 85 / 100, 26 := 95 / 100]"
  let ?e = "\<lparr>te_classIndex = 26, te_label = ''Yell'', te_category = SECURITY_INCIDENT\<rparr>"
  have "(?e, 95 / 100) \<in> candidates ?s YAMNET_THREAT_MAP"
    by (simp add: candidates_def score_at_def YAMNET_THREAT_MAP_def DETECTION_THRESHOLD_def)
  with threat_is_best [of ?s] show ?thesis by (cases "getThreatFromScores ?s") fastforce+
qed

lemma summary_cong:
  assumes "list_all2 (\<lambda>x y. js_round (x * 100) = js_round (y * 100)) xs ys"
  shows "score_summary xs = score_summary ys"
  using assms by (induction rule: list_all2_induct) (simp_all add: score_summary_def)

lemma summary_inject: "score_summary xs = score_summary ys \<Longrightarrow> list_all2 (\<lambda>x y. js_round (x * 100) = js_round (y * 100)) xs ys"
proof (induction xs arbitrary: ys)
  case Nil
  then show ?case by (cases ys) (auto simp: score_summary_def)
next
  case (Cons x xs)
  note eq = Cons.prems
  from eq obtain y zs where ys: "ys = y # zs" by (cases ys) (auto simp: score_summary_def)
  have comma: "CHR '','' \<notin> set (int_str n)" for n
    by (rule int_str_no_char) (simp_all add: is_digit_def char_le_iff)
  have "int_str (js_round (x * 100)) @ CHR '','' # score_summary xs = int_str (js_round (y * 100)) @ CHR '','' # score_summary zs"
    using eq by (simp add: ys score_summary_def)
  from append_sep_inject [OF this comma comma] Cons.IH [of zs] show ?case by (simp add: ys)
qed

text \<open>
  The fingerprint identifies the audio window up to hundredths. Two score vectors are summarised
  alike, and then have the same fingerprint, exactly when they have the same length and agree to the
  hundredth everywhere; what is hashed forgets nothing else.
\<close>

theorem fingerprint_identifies_window:
  "(score_summary xs = score_summary ys \<longleftrightarrow> list_all2 (\<lambda>x y. js_round (x * 100) = js_round (y * 100)) xs ys)
   \<and> (score_summary xs = score_summary ys \<longrightarrow> acousticFingerprint wc xs = acousticFingerprint wc ys)"
  using summary_inject [of xs ys] summary_cong [of xs ys] by (auto simp: acousticFingerprint_def)

text \<open>
  A signal is signed for the bytes that are sent. The body of the request is the payload, the
  authorization event in its header verifies, names the address and the method of the request, and
  carries the SHA-256 of that very body.
\<close>

theorem signal_bound_to_body:
  assumes "finalizes lib"
    and "signal_request wc (\<lambda>t. snd (signWithActiveIdentity lib window_nostr fresh meanwhile t s)) now nonce origin body = ok req"
    and "sha256Hex wc body \<noteq> ''''"
  shows "\<exists>e. hr_headers req = [(''Content-Type'', ''application/json''), (''X-Nostr-Auth'', stringify (event_json e))]
    \<and> hr_body req = Some body \<and> tl_verifyEvent lib e = Some True \<and> ne_kind e = NIP98_KIND
    \<and> [''u'', hr_url req] \<in> set (ne_tags e) \<and> [''method'', hr_method req] \<in> set (ne_tags e)
    \<and> [''payload'', sha256Hex wc body] \<in> set (ne_tags e)"
proof -
  let ?t = "nip98_template now nonce (signals_url origin) ''POST'' (Some (sha256Hex wc body))"
  obtain e where e: "snd (signWithActiveIdentity lib window_nostr fresh meanwhile ?t s) = ok e"
    and req: "req = \<lparr>hr_url = signals_url origin, hr_method = ''POST'',
           hr_headers = [(''Content-Type'', ''application/json''), (''X-Nostr-Auth'', stringify (event_json e))],
           hr_body = Some body\<rparr>"
    using assms(2) by (auto simp: signal_request_def bind_result_ok_iff)
  obtain s' where "signWithActiveIdentity lib window_nostr fresh meanwhile ?t s = (s', ok e)" using e by (metis prod.collapse)
  from sign_ok [OF assms(1) this] assms(3) show ?thesis
    by (intro exI [of _ e]) (simp add: req nip98_template_def truthy_def)
qed

theorem signal_bound_to_body_witness:
  "\<exists>req e. signal_request plain_crypto (\<lambda>t. snd (signWithActiveIdentity plain_tools None [1] id t (initial_signer sample_store)))
      100 ''n'' ''https://h'' ''{}'' = ok req
    \<and> hr_headers req = [(''Content-Type'', ''application/json''), (''X-Nostr-Auth'', stringify (event_json e))]
    \<and> [''payload'', sha256Hex plain_crypto ''{}''] \<in> set (ne_tags e)"
proof -
  let ?sign = "\<lambda>t. snd (signWithActiveIdentity plain_tools None [1] id t (initial_signer sample_store))"
  have "\<exists>e. ?sign t = ok e" for t
    by (simp add: signWithActiveIdentity_def getActiveIdentity_def initial_signer_def local_identity_def split: prod.splits)
  then obtain req where req: "signal_request plain_crypto ?sign 100 ''n'' ''https://h'' ''{}'' = ok req"
    unfolding signal_request_def by (metis bind_result_simps(2))
  have "sha256Hex plain_crypto ''{}'' \<noteq> ''''" by (simp add: sha256Hex_def plain_crypto_def bytes_hex_def byte_hex_def)
  from signal_bound_to_body [OF plain_laws(2) req this] req show ?thesis by blast
qed

section \<open>The microphone\<close>

text \<open>
  Leaving the page while the detector is still loading leaves the microphone on. The cleanup
  finds no capture to stop; when loading ends, the capture is created and started, and the store says
  that detection runs, although the detector is gone and no window will be analysed.
\<close>

theorem microphone_left_on:
  "let e = start_resolved (init_resolved (engine_cleanup (engine_mount s)))
   in ae_capture e = Some True \<and> as_isRunning (ae_store e) \<and> \<not> ae_detector e \<and> window_arrived e = e"
  by (simp add: start_resolved_def init_resolved_def engine_cleanup_def engine_mount_def capture_stop_def window_arrived_def Let_def)

text \<open>
  Once the engine has started, a hidden page or the cleanup turns the microphone off and the store
  says so; nothing but a start that is still under way turns it on again.
\<close>

theorem started_microphone_stops:
  "ae_capture (page_hidden (start_resolved e)) = Some False \<and> \<not> as_isRunning (ae_store (page_hidden e))
   \<and> ae_capture (engine_cleanup (start_resolved e)) = Some False \<and> \<not> as_isRunning (ae_store (engine_cleanup e))"
  by (simp add: page_hidden_def engine_cleanup_def start_resolved_def capture_stop_def)

end
