(* ===== verification/Realtime.thy ===== *)
theory Realtime
  imports Geo
begin

text \<open>
  The live feeds of the safety map: the event socket (\<open>services/websocket.ts\<close>), the viewport
  socket (\<open>hooks/useViewportWs.ts\<close>) and the initial fetch (\<open>hooks/useSafetyDataSync.ts\<close>). Each
  callback of a hook is a step on its state; what the browser does (opening, closing, timers) is an
  event of the run. The lemmas show that nothing is displayed as confirmed unless the server said so
  for that event on one of the feeds, that the server always knows the viewport the map shows,
  the bounds of the reconnection delays, and two places where the code does not do what it should.
\<close>

section \<open>Reconnection delay\<close>

definition BACKOFF_BASE_MS :: real where "BACKOFF_BASE_MS = 1000"
definition BACKOFF_CAP_MS :: real where "BACKOFF_CAP_MS = 30000"
definition BACKOFF_JITTER :: real where "BACKOFF_JITTER = 2 / 10"

text \<open>\<open>random\<close> is \<open>Math.random()\<close>.\<close>

definition backoffDelay :: "real \<Rightarrow> nat \<Rightarrow> int" where
  "backoffDelay random attempt =
     (let exp = min (BACKOFF_BASE_MS * 2 ^ attempt) BACKOFF_CAP_MS;
          jitter = exp * BACKOFF_JITTER * (random * 2 - 1)
      in js_round (exp + jitter))"

section \<open>The event socket\<close>

text \<open>
  The action a message asks for, if any; a text that is no JSON, or whose type or payload is not
  recognised, asks for none.
\<close>

datatype live_action = Live_Event events_action | Live_Report reports_action

definition live_message :: "string \<Rightarrow> live_action option" where
  "live_message data =
     (case json_parse data of
        None \<Rightarrow> None
      | Some msg \<Rightarrow>
          (let type = jstr ''type'' msg; payload = jget ''payload'' msg
           in if type = Some ''NEW_EVENT'' \<or> type = Some ''EVENT_UPDATED'' then
                map_option (\<lambda>e. Live_Event (EventReceived e)) (Option.bind payload parseEvent)
              else if type = Some ''EVENT_RESOLVED'' \<and> Option.bind payload (jstr ''id'') \<noteq> None then
                Some (Live_Event (EventResolved (the (Option.bind payload (jstr ''id'')))))
              else if type = Some ''NEW_REPORT'' \<or> type = Some ''REPORT_UPDATED'' then
                map_option (\<lambda>r. Live_Report (ReportReceived r)) (Option.bind payload parseReport)
              else None))"

text \<open>
  The hook: the two slices it dispatches to, the retry counter, the delay of the pending
  reconnection, and the number of sockets that are open or connecting.
\<close>

record live_socket =
  ls_events :: events_state
  ls_reports :: reports_state
  ls_retryCount :: nat
  ls_timer :: "int option"
  ls_sockets :: nat

definition live_connect :: "live_socket \<Rightarrow> live_socket" where
  "live_connect s = s\<lparr>ls_sockets := ls_sockets s + 1, ls_timer := None\<rparr>"

definition live_onopen :: "live_socket \<Rightarrow> live_socket" where
  "live_onopen s = s\<lparr>ls_retryCount := 0, ls_events := events_reducer (ls_events s) (SetConnected True)\<rparr>"

definition live_onmessage :: "string \<Rightarrow> live_socket \<Rightarrow> live_socket" where
  "live_onmessage data s =
     (case live_message data of
        None \<Rightarrow> s
      | Some (Live_Event a) \<Rightarrow> s\<lparr>ls_events := events_reducer (ls_events s) a\<rparr>
      | Some (Live_Report a) \<Rightarrow> s\<lparr>ls_reports := reports_reducer (ls_reports s) a\<rparr>)"

definition live_onclose :: "real \<Rightarrow> int \<Rightarrow> live_socket \<Rightarrow> live_socket" where
  "live_onclose random code s =
     (let s1 = s\<lparr>ls_events := events_reducer (ls_events s) (SetConnected False), ls_sockets := ls_sockets s - 1\<rparr>
      in if code = 1000 then s1\<lparr>ls_retryCount := 0\<rparr>
         else s1\<lparr>ls_timer := Some (backoffDelay random (ls_retryCount s)), ls_retryCount := ls_retryCount s + 1\<rparr>)"

text \<open>
  The cleanup: the socket is asked to close without a code, which the browser reports later as a
  close event with code 1005, and the pending timer is cleared.
\<close>

definition live_cleanup :: "live_socket \<Rightarrow> live_socket" where
  "live_cleanup s = s\<lparr>ls_timer := None\<rparr>"

section \<open>The viewport socket\<close>

record viewport_bounds =
  vb_north :: real
  vb_south :: real
  vb_east :: real
  vb_west :: real

record ws_event =
  we_id :: string
  we_event_type :: string
  we_severity :: string
  we_state :: string
  we_trust_state :: "string option"
  we_title :: string
  we_lat :: real
  we_lng :: real
  we_started_at :: string

definition normalizeTrustState :: "string option \<Rightarrow> trust_state" where
  "normalizeTrustState s =
     (let t = toLowerCase (case s of Some x \<Rightarrow> x | None \<Rightarrow> '''')
      in if t = ''heuristic'' then Heuristic
         else if t = ''corroborating'' then Corroborating
         else if t = ''confirmed'' then Confirmed
         else Heuristic)"

definition toSafetyEvent :: "ws_event \<Rightarrow> safety_event" where
  "toSafetyEvent e =
     \<lparr>ev_id = we_id e, ev_event_type = we_event_type e, ev_severity = we_severity e, ev_title = we_title e,
      ev_lat = we_lat e, ev_lng = we_lng e, ev_state = we_state e,
      ev_is_active = (we_state e \<noteq> ''RESOLVED'' \<and> we_state e \<noteq> ''EXPIRED''),
      ev_started_at = we_started_at e, ev_created_at = we_started_at e,
      ev_trust_state = Some (normalizeTrustState (we_trust_state e)), ev_other = []\<rparr>"

text \<open>The messages as the code casts them; a text that cannot be used throws and is ignored.\<close>

datatype viewport_msg =
    INITIAL_BATCH "ws_event list"
  | SNAPSHOT "ws_event list"
  | DIFF_PATCH "ws_event list" "string list" "ws_event list"
  | Unusable

fun viewport_action :: "viewport_msg \<Rightarrow> events_action option" where
  "viewport_action (INITIAL_BATCH es) = Some (ViewportEventsSet (map toSafetyEvent es))"
| "viewport_action (SNAPSHOT es) = Some (ViewportEventsSet (map toSafetyEvent es))"
| "viewport_action (DIFF_PATCH added removed updated) =
     Some (ViewportEventsBatchApply (map toSafetyEvent added) removed (map toSafetyEvent updated))"
| "viewport_action Unusable = None"

datatype viewport_out =
    SUBSCRIBE viewport_bounds real
  | VIEWPORT_CHANGED viewport_bounds real

text \<open>The hook: \<open>vw_open\<close> says that the socket's \<open>readyState\<close> is OPEN, \<open>vw_sent\<close> what was sent on it.\<close>

record viewport_socket =
  vw_open :: bool
  vw_subscribed :: bool
  vw_bounds :: "viewport_bounds option"
  vw_zoom :: real
  vw_sent :: "viewport_out list"
  vw_retryCount :: nat
  vw_timer :: "int option"

definition viewport_mount :: "viewport_bounds option \<Rightarrow> real \<Rightarrow> viewport_socket" where
  "viewport_mount bounds zoom =
     \<lparr>vw_open = False, vw_subscribed = False, vw_bounds = bounds, vw_zoom = zoom, vw_sent = [], vw_retryCount = 0, vw_timer = None\<rparr>"

text \<open>The first effect, run whenever the bounds or the zoom change.\<close>

definition viewport_moved :: "viewport_bounds option \<Rightarrow> real \<Rightarrow> viewport_socket \<Rightarrow> viewport_socket" where
  "viewport_moved bounds zoom s =
     (let s1 = s\<lparr>vw_bounds := bounds, vw_zoom := zoom\<rparr>
      in case bounds of
           None \<Rightarrow> s1
         | Some b \<Rightarrow>
             if \<not> vw_open s then s1
             else if vw_subscribed s then s1\<lparr>vw_sent := vw_sent s @ [VIEWPORT_CHANGED b zoom]\<rparr>
             else s1\<lparr>vw_sent := vw_sent s @ [SUBSCRIBE b zoom], vw_subscribed := True\<rparr>)"

definition viewport_connect :: "viewport_socket \<Rightarrow> viewport_socket" where
  "viewport_connect s = s\<lparr>vw_open := False, vw_subscribed := False, vw_sent := [], vw_timer := None\<rparr>"

definition viewport_onopen :: "viewport_socket \<Rightarrow> viewport_socket" where
  "viewport_onopen s =
     (let s1 = s\<lparr>vw_open := True, vw_retryCount := 0\<rparr>
      in case vw_bounds s of
           None \<Rightarrow> s1
         | Some b \<Rightarrow> s1\<lparr>vw_sent := vw_sent s @ [SUBSCRIBE b (vw_zoom s)], vw_subscribed := True\<rparr>)"

definition viewport_onclose :: "real \<Rightarrow> int \<Rightarrow> viewport_socket \<Rightarrow> viewport_socket" where
  "viewport_onclose random code s =
     (let s1 = s\<lparr>vw_open := False, vw_subscribed := False\<rparr>
      in if code = 1000 then s1\<lparr>vw_retryCount := 0\<rparr>
         else s1\<lparr>vw_timer := Some (backoffDelay random (vw_retryCount s)), vw_retryCount := vw_retryCount s + 1\<rparr>)"

definition viewport_cleanup :: "viewport_socket \<Rightarrow> viewport_socket" where
  "viewport_cleanup s = s\<lparr>vw_open := False, vw_timer := None\<rparr>"

section \<open>The initial fetch\<close>

text \<open>How the two requests of \<open>useSafetyDataSync\<close> settle; \<open>str\<close> is \<open>String(error)\<close>.\<close>

definition events_fetched :: "(js_error \<Rightarrow> string) \<Rightarrow> bool \<Rightarrow> http_response \<Rightarrow> events_action option" where
  "events_fetched str aborted resp =
     (case fetchInitialEvents resp of
        Inr events \<Rightarrow> Some (EventsHydrated events)
      | Inl e \<Rightarrow> if aborted then None else Some (EventsHydrationFailed (str e)))"

definition reports_fetched :: "(js_error \<Rightarrow> string) \<Rightarrow> bool \<Rightarrow> http_response \<Rightarrow> reports_action option" where
  "reports_fetched str aborted resp =
     (case fetchInitialReports resp of
        Inr reports \<Rightarrow> Some (ReportsHydrated reports)
      | Inl e \<Rightarrow> if aborted then None else Some (ReportsHydrationFailed (str e)))"

text \<open>Everything that reaches the events slice from the server.\<close>

datatype feed =
    Fetched bool http_response
  | Live string
  | Viewport viewport_msg
  | Connected bool

fun feed_action :: "(js_error \<Rightarrow> string) \<Rightarrow> feed \<Rightarrow> events_action option" where
  "feed_action str (Fetched aborted resp) = events_fetched str aborted resp"
| "feed_action str (Live data) = (case live_message data of Some (Live_Event a) \<Rightarrow> Some a | _ \<Rightarrow> None)"
| "feed_action str (Viewport msg) = viewport_action msg"
| "feed_action str (Connected b) = Some (SetConnected b)"

definition feed_step :: "(js_error \<Rightarrow> string) \<Rightarrow> events_state \<Rightarrow> feed \<Rightarrow> events_state" where
  "feed_step str s f = (case feed_action str f of Some a \<Rightarrow> events_reducer s a | None \<Rightarrow> s)"

section \<open>Confirmed means the server said so\<close>

definition confirms :: "string \<Rightarrow> json \<Rightarrow> bool" where
  "confirms i v \<longleftrightarrow> jstr ''id'' v = Some i \<and> map_option toLowerCase (jstr ''trust_state'' v) = Some ''confirmed''"

definition ws_confirms :: "string \<Rightarrow> ws_event \<Rightarrow> bool" where
  "ws_confirms i w \<longleftrightarrow> we_id w = i \<and> map_option toLowerCase (we_trust_state w) = Some ''confirmed''"

text \<open>The server's own words on a feed that an event is confirmed.\<close>

fun says_confirmed :: "string \<Rightarrow> feed \<Rightarrow> bool" where
  "says_confirmed i (Fetched aborted (HttpStatus status body)) =
     (case jget ''events'' body of Some (JArr vs) \<Rightarrow> list_ex (confirms i) vs | _ \<Rightarrow> False)"
| "says_confirmed i (Live data) =
     (case Option.bind (json_parse data) (jget ''payload'') of Some v \<Rightarrow> confirms i v | None \<Rightarrow> False)"
| "says_confirmed i (Viewport (INITIAL_BATCH es)) = list_ex (ws_confirms i) es"
| "says_confirmed i (Viewport (SNAPSHOT es)) = list_ex (ws_confirms i) es"
| "says_confirmed i (Viewport (DIFF_PATCH added removed updated)) = list_ex (ws_confirms i) (added @ updated)"
| "says_confirmed i _ = False"

definition shows_confirmed :: "string \<Rightarrow> safety_event list \<Rightarrow> bool" where
  "shows_confirmed i items \<longleftrightarrow> (\<exists>e\<in>set items. ev_id e = i \<and> trustStateOf e = Confirmed)"

lemma shows_confirmed_append [simp]: "shows_confirmed i (xs @ ys) \<longleftrightarrow> shows_confirmed i xs \<or> shows_confirmed i ys"
  by (auto simp: shows_confirmed_def)

lemma parse_confirms: "parseEvent v = Some e \<Longrightarrow> shows_confirmed i [e] \<Longrightarrow> confirms i v"
  by (auto simp: parseEvent_def shows_confirmed_def confirms_def trustStateOf_def parse_trust_def Let_def
      split: option.splits if_splits)

lemma ws_confirmed: "shows_confirmed i (map toSafetyEvent es) \<longleftrightarrow> list_ex (ws_confirms i) es"
  by (auto simp: shows_confirmed_def list_ex_iff ws_confirms_def toSafetyEvent_def trustStateOf_def normalizeTrustState_def Let_def
      toLowerCase_def split: option.splits if_splits)

lemma set_find_index: "find_index p xs = Some i \<Longrightarrow> xs ! i \<in> set xs \<and> p (xs ! i)"
  by (drule find_index_Some) (simp add: nth_mem)

lemma confirmed_merge:
  "trustStateOf (mergeEvent (Some c) e) = Confirmed \<Longrightarrow> trustStateOf c = Confirmed \<or> trustStateOf e = Confirmed"
  by (auto simp: mergeEvent_def trustStateOf_def split: option.splits)

lemma confirmed_upsert: "shows_confirmed i (events_upsert items e) \<Longrightarrow> shows_confirmed i items \<or> shows_confirmed i [e]"
proof (cases "find_index (\<lambda>x. ev_id x = ev_id e) items")
  case (Some k)
  let ?c = "items ! k"
  assume "shows_confirmed i (events_upsert items e)"
  then obtain x where x: "ev_id x = i" "trustStateOf x = Confirmed" "x \<in> set items \<or> x = mergeEvent (Some ?c) e"
    using set_update_subset_insert [of items k "mergeEvent (Some ?c) e"]
    by (auto simp: shows_confirmed_def events_upsert_def Some Let_def split: if_splits)
  moreover have "?c \<in> set items" "ev_id ?c = ev_id e" using set_find_index [OF Some] by auto
  ultimately show ?thesis using confirmed_merge [of ?c e] by (auto simp: shows_confirmed_def)
qed (auto simp: events_upsert_def shows_confirmed_def)

lemma confirmed_hydrate: "shows_confirmed i (hydrate_one items e) \<Longrightarrow> shows_confirmed i items \<or> shows_confirmed i [e]"
proof (cases "find (\<lambda>x. ev_id x = ev_id e) items")
  case (Some c)
  have c: "c \<in> set items" "ev_id c = ev_id e" using Some by (auto simp: find_Some_iff)
  assume "shows_confirmed i (hydrate_one items e)"
  then have "shows_confirmed i items \<or> shows_confirmed i [mergeEvent (Some e) c]"
    using confirmed_upsert by (simp add: hydrate_one_def Some)
  with c confirmed_merge [of e c] show ?thesis by (auto simp: shows_confirmed_def)
qed (auto simp: hydrate_one_def dest: confirmed_upsert)

lemma confirmed_foldl:
  assumes step: "\<And>items e. shows_confirmed i (f items e) \<Longrightarrow> shows_confirmed i items \<or> shows_confirmed i [e]"
  shows "shows_confirmed i (foldl f items es) \<Longrightarrow> shows_confirmed i items \<or> shows_confirmed i es"
proof (induction es arbitrary: items)
  case (Cons e es)
  then have "shows_confirmed i (f items e) \<or> shows_confirmed i es" by simp
  with step show ?case by (auto simp: shows_confirmed_def)
qed simp

lemma confirmed_resolved: "shows_confirmed i (es_items (eventResolved s j)) \<Longrightarrow> shows_confirmed i (es_items s)"
proof (cases "find_index (\<lambda>e. ev_id e = j) (es_items s)")
  case (Some k)
  let ?e = "(es_items s ! k)\<lparr>ev_is_active := False\<rparr>"
  assume "shows_confirmed i (es_items (eventResolved s j))"
  then obtain x where "ev_id x = i" "trustStateOf x = Confirmed" "x \<in> set (es_items s) \<or> x = ?e"
    using set_update_subset_insert [of "es_items s" k ?e] by (auto simp: shows_confirmed_def eventResolved_def Some)
  moreover have "es_items s ! k \<in> set (es_items s)" using set_find_index [OF Some] by blast
  ultimately show ?thesis by (auto simp: shows_confirmed_def trustStateOf_def)
qed (simp add: eventResolved_def)

lemma confirmed_upserts: "shows_confirmed i (foldl events_upsert items es) \<Longrightarrow> shows_confirmed i items \<or> shows_confirmed i es"
  by (rule confirmed_foldl [of i events_upsert]) (auto dest: confirmed_upsert)

lemma confirmed_hydrates: "shows_confirmed i (foldl hydrate_one items es) \<Longrightarrow> shows_confirmed i items \<or> shows_confirmed i es"
  by (rule confirmed_foldl [of i hydrate_one]) (auto dest: confirmed_hydrate)

lemma confirmed_reducer:
  "shows_confirmed i (es_items (events_reducer s a)) \<Longrightarrow> shows_confirmed i (es_items s) \<or> shows_confirmed i (action_events a)"
proof (cases a)
  case (ViewportEventsBatchApply added removed updated)
  assume "shows_confirmed i (es_items (events_reducer s a))"
  with confirmed_upserts [of i "es_items s" "added @ updated"] ViewportEventsBatchApply
  show ?thesis by (simp add: viewportEventsBatchApply_def Let_def)
qed (auto simp: eventReceived_def eventsHydrated_def eventsHydrationFailed_def viewportEventsSet_def setConnected_def
    dest: confirmed_upsert confirmed_upserts confirmed_hydrates confirmed_resolved)

lemma fetched_confirms:
  "fetchInitialEvents (HttpStatus status body) = Inr es \<Longrightarrow> shows_confirmed i es \<Longrightarrow>
     \<exists>vs. jget ''events'' body = Some (JArr vs) \<and> list_ex (confirms i) vs"
proof (cases "jget ''events'' body")
  case (Some v)
  assume "fetchInitialEvents (HttpStatus status body) = Inr es" "shows_confirmed i es"
  with Some obtain vs e where "v = JArr vs" "e \<in> set (List.map_filter parseEvent vs)" "shows_confirmed i [e]"
    by (cases v) (auto simp: fetchInitialEvents_def getJson_def bind_result_ok_iff shows_confirmed_def throw_if_def split: if_splits)
  moreover from this obtain x where "x \<in> set vs" "parseEvent x = Some e" by (auto simp: List.map_filter_def)
  ultimately show ?thesis using Some parse_confirms [of x e i] by (auto simp: list_ex_iff)
qed (auto simp: fetchInitialEvents_def getJson_def bind_result_ok_iff)

lemma feed_confirms:
  assumes "feed_action str f = Some a" "shows_confirmed i (action_events a)"
  shows "says_confirmed i f"
proof (cases f)
  case (Fetched aborted resp)
  obtain es where "fetchInitialEvents resp = Inr es" "shows_confirmed i es"
    using assms Fetched
    by (cases "fetchInitialEvents resp"; cases aborted) (auto simp: events_fetched_def shows_confirmed_def [of _ "[]"])
  then show ?thesis
    using fetched_confirms Fetched by (cases resp) (force simp: fetchInitialEvents_def getJson_def)+
next
  case (Live data)
  then show ?thesis
    using assms parse_confirms
    by (auto simp: live_message_def Let_def shows_confirmed_def bind_eq_Some_conv split: option.splits live_action.splits if_splits)
next
  case (Viewport msg)
  then show ?thesis using assms ws_confirmed by (cases msg) auto
next
  case (Connected b)
  then show ?thesis using assms by (auto simp: shows_confirmed_def)
qed

text \<open>
  C6: an event is shown as confirmed only if the server said so. Whatever arrives on the initial
  fetch, the event socket and the viewport socket, in whatever order, an event that the store shows as
  confirmed was called confirmed, up to letter case, under its own id by something the server sent.
\<close>

theorem confirmed_only_by_server:
  assumes "e \<in> set (es_items (foldl (feed_step str) events_initialState feeds))" "trustStateOf e = Confirmed"
  shows "\<exists>f\<in>set feeds. says_confirmed (ev_id e) f"
proof -
  have step: "shows_confirmed i (es_items (foldl (feed_step str) s feeds)) \<Longrightarrow>
      shows_confirmed i (es_items s) \<or> (\<exists>f\<in>set feeds. says_confirmed i f)" for i s
  proof (induction feeds arbitrary: s)
    case (Cons f fs)
    have "shows_confirmed i (es_items (feed_step str s f)) \<Longrightarrow> shows_confirmed i (es_items s) \<or> says_confirmed i f"
      using confirmed_reducer feed_confirms by (fastforce simp: feed_step_def split: option.splits)
    with Cons show ?case by auto
  qed simp
  from step [of "ev_id e" events_initialState] assms show ?thesis
    by (auto simp: shows_confirmed_def events_initialState_def)
qed

theorem confirmed_only_by_server_witness:
  "\<exists>f\<in>set [Viewport (SNAPSHOT [\<lparr>we_id = ''e'', we_event_type = ''FIRE'', we_severity = ''HIGH'', we_state = ''ACTIVE'',
     we_trust_state = Some ''confirmed'', we_title = ''Fire'', we_lat = 0, we_lng = 0, we_started_at = ''t''\<rparr>])].
     says_confirmed ''e'' f"
proof -
  let ?w = "\<lparr>we_id = ''e'', we_event_type = ''FIRE'', we_severity = ''HIGH'', we_state = ''ACTIVE'',
     we_trust_state = Some ''confirmed'', we_title = ''Fire'', we_lat = 0, we_lng = 0, we_started_at = ''t''\<rparr>"
  have "toSafetyEvent ?w \<in> set (es_items (foldl (feed_step (\<lambda>e. e)) events_initialState [Viewport (SNAPSHOT [?w])]))"
    by (simp add: feed_step_def viewportEventsSet_def events_upsert_def events_initialState_def)
  moreover have "trustStateOf (toSafetyEvent ?w) = Confirmed"
    by (simp add: trustStateOf_def toSafetyEvent_def normalizeTrustState_def toLowerCase_def to_lower_char_def)
  ultimately show ?thesis
    using confirmed_only_by_server [of "toSafetyEvent ?w" "\<lambda>e. e" "[Viewport (SNAPSHOT [?w])]"] by (simp add: toSafetyEvent_def)
qed

section \<open>The server knows the viewport\<close>

text \<open>What happens to a mounted viewport socket.\<close>

inductive viewport_step :: "viewport_socket \<Rightarrow> viewport_socket \<Rightarrow> bool" where
  connect: "\<not> vw_open s \<Longrightarrow> viewport_step s (viewport_connect s)"
| onopen: "\<not> vw_open s \<Longrightarrow> vw_sent s = [] \<Longrightarrow> viewport_step s (viewport_onopen s)"
| moved: "viewport_step s (viewport_moved bounds zoom s)"
| onclose: "0 \<le> r \<Longrightarrow> r < 1 \<Longrightarrow> viewport_step s (viewport_onclose r code s)"

inductive_cases viewport_stepE: "viewport_step s s'"

fun out_view :: "viewport_out \<Rightarrow> viewport_bounds \<times> real" where
  "out_view (SUBSCRIBE b z) = (b, z)"
| "out_view (VIEWPORT_CHANGED b z) = (b, z)"

text \<open>On one socket: a subscription first, then changes only.\<close>

fun subscribe_first :: "viewport_out list \<Rightarrow> bool" where
  "subscribe_first [] = True"
| "subscribe_first (SUBSCRIBE b z # ms) = list_all (\<lambda>m. case m of VIEWPORT_CHANGED _ _ \<Rightarrow> True | _ \<Rightarrow> False) ms"
| "subscribe_first (VIEWPORT_CHANGED b z # ms) = False"

definition viewport_ok :: "viewport_socket \<Rightarrow> bool" where
  "viewport_ok s \<longleftrightarrow>
     subscribe_first (vw_sent s) \<and> (vw_subscribed s \<longleftrightarrow> vw_open s \<and> vw_sent s \<noteq> [])
     \<and> (\<forall>b. vw_open s \<and> vw_bounds s = Some b \<longrightarrow> vw_sent s \<noteq> [] \<and> out_view (last (vw_sent s)) = (b, vw_zoom s))"

lemma subscribe_first_changed: "subscribe_first ms \<Longrightarrow> ms \<noteq> [] \<Longrightarrow> subscribe_first (ms @ [VIEWPORT_CHANGED b z])"
  by (cases ms rule: subscribe_first.cases) auto

lemma viewport_ok_step: "viewport_step s s' \<Longrightarrow> viewport_ok s \<Longrightarrow> viewport_ok s'"
proof (induction rule: viewport_step.induct)
  case (moved s bounds zoom)
  then show ?case
    by (auto simp: viewport_ok_def viewport_moved_def Let_def subscribe_first_changed split: option.splits)
qed (auto simp: viewport_ok_def viewport_connect_def viewport_onopen_def viewport_onclose_def Let_def split: option.splits)

lemma viewport_ok_run: "viewport_step\<^sup>*\<^sup>* s s' \<Longrightarrow> viewport_ok s \<Longrightarrow> viewport_ok s'"
  by (induction rule: rtranclp_induct) (auto intro: viewport_ok_step)

text \<open>
  As long as the hook is mounted, whatever connections are lost and however the map is moved,
  each socket carries one subscription followed by changes only, and while the socket is open the
  last thing the server was told is the viewport the map shows.
\<close>

theorem viewport_in_sync:
  assumes "viewport_step\<^sup>*\<^sup>* (viewport_mount bounds zoom) s"
  shows "subscribe_first (vw_sent s)
    \<and> (\<forall>b. vw_open s \<and> vw_bounds s = Some b \<longrightarrow> vw_sent s \<noteq> [] \<and> out_view (last (vw_sent s)) = (b, vw_zoom s))"
  using viewport_ok_run [OF assms] by (simp add: viewport_ok_def viewport_mount_def)

theorem viewport_in_sync_witness:
  "let b = \<lparr>vb_north = 1, vb_south = 0, vb_east = 1, vb_west = 0\<rparr>; s = viewport_moved (Some b) 7 (viewport_onopen (viewport_mount None 3))
   in vw_sent s = [SUBSCRIBE b 7] \<and> out_view (last (vw_sent s)) = (b, vw_zoom s)"
proof -
  let ?b = "\<lparr>vb_north = 1, vb_south = 0, vb_east = 1, vb_west = 0\<rparr> :: viewport_bounds"
  let ?m = "viewport_mount None 3"
  let ?s = "viewport_moved (Some ?b) 7 (viewport_onopen ?m)"
  have "viewport_step ?m (viewport_onopen ?m)" by (rule viewport_step.onopen) (simp_all add: viewport_mount_def)
  then have "viewport_step\<^sup>*\<^sup>* ?m ?s" using viewport_step.moved by (meson rtranclp.rtrancl_into_rtrancl r_into_rtranclp)
  from viewport_in_sync [OF this] show ?thesis
    by (simp add: viewport_moved_def viewport_onopen_def viewport_mount_def)
qed

text \<open>
  Reconnection delays are never shorter than 0.8 and never longer than 36 seconds, and before the
  cap is reached each is at least 0.8 and at most 1.2 times twice the previous base.
\<close>

theorem ws_backoff_bounds:
  assumes "0 \<le> r" "r < 1"
  shows "800 \<le> backoffDelay r n \<and> backoffDelay r n \<le> 36000
    \<and> (n < 5 \<longrightarrow> 800 * 2 ^ n \<le> backoffDelay r n \<and> backoffDelay r n \<le> 1200 * 2 ^ n)"
proof -
  define e :: real where "e = min (1000 * 2 ^ n) 30000"
  have e: "1000 \<le> e" "e \<le> 30000" "n < 5 \<Longrightarrow> e = 1000 * 2 ^ n"
  proof -
    show "1000 \<le> e" using one_le_power [of "2 :: real" n] by (simp add: e_def)
    show "e \<le> 30000" by (simp add: e_def)
    assume "n < 5"
    then have "(2 :: real) ^ n \<le> 2 ^ 4" by (intro power_increasing) auto
    then show "e = 1000 * 2 ^ n" by (simp add: e_def)
  qed
  have b: "backoffDelay r n = \<lfloor>e + e * (2 / 10) * (r * 2 - 1) + 1 / 2\<rfloor>"
    by (simp add: backoffDelay_def e_def BACKOFF_BASE_MS_def BACKOFF_CAP_MS_def BACKOFF_JITTER_def js_round_def Let_def)
  have "e * r \<le> e * 1" "0 \<le> e * r" using assms e(1) by (simp_all add: mult_left_mono)
  then have x: "4 / 5 * e \<le> e + e * (2 / 10) * (r * 2 - 1)" "e + e * (2 / 10) * (r * 2 - 1) \<le> 6 / 5 * e"
    by (simp_all add: algebra_simps)
  have lower: "k \<le> backoffDelay r n" if "real_of_int k \<le> 4 / 5 * e" for k
    unfolding b using that x(1) by (simp add: le_floor_iff)
  have upper: "backoffDelay r n \<le> k" if "6 / 5 * e \<le> real_of_int k" for k
    unfolding b using that x(2) by (simp add: floor_le_iff)
  have "800 \<le> backoffDelay r n" "backoffDelay r n \<le> 36000" using lower [of 800] upper [of 36000] e by simp_all
  moreover have "800 * 2 ^ n \<le> backoffDelay r n" "backoffDelay r n \<le> 1200 * 2 ^ n" if "n < 5"
    using lower [of "800 * 2 ^ n"] upper [of "1200 * 2 ^ n"] e(3) [OF that] by simp_all
  ultimately show ?thesis by blast
qed

theorem ws_backoff_bounds_witness: "800 * 2 ^ 3 \<le> backoffDelay (1 / 2) 3"
  using ws_backoff_bounds [of "1 / 2" 3] by simp

section \<open>Where the feeds go wrong\<close>

text \<open>
  Leaving the page does not end the event socket. The cleanup closes the socket without a code;
  the close event this causes (code 1005) schedules a reconnection, and when that timer fires there is
  a socket again, which delivers messages to the store.
\<close>

theorem unmounted_socket_reconnects:
  assumes "ls_sockets s = 1"
  shows "ls_timer (live_cleanup s) = None \<and> ls_timer (live_onclose r 1005 (live_cleanup s)) \<noteq> None
    \<and> ls_sockets (live_connect (live_onclose r 1005 (live_cleanup s))) = 1"
  using assms by (simp add: live_cleanup_def live_onclose_def live_connect_def)

theorem unmounted_socket_reconnects_witness:
  "ls_timer (live_onclose 0 1005 (live_cleanup \<lparr>ls_events = events_initialState, ls_reports = reports_initialState,
     ls_retryCount = 0, ls_timer = None, ls_sockets = 1\<rparr>)) \<noteq> None"
  using unmounted_socket_reconnects [of "\<lparr>ls_events = events_initialState, ls_reports = reports_initialState,
     ls_retryCount = 0, ls_timer = None, ls_sockets = 1\<rparr>" 0] by simp

text \<open>
  Viewport messages are outside the revision guard. They carry no \<open>updated_at\<close>, so a viewport
  snapshot replaces the state of a stored event whatever revision that event has, and the stored
  revision stamp stays: an event that a newer message resolved becomes active again.
\<close>

theorem viewport_overrides_revision:
  assumes "find (\<lambda>x. ev_id x = we_id w) (es_items s) = Some e"
  shows "\<exists>e'. find (\<lambda>x. ev_id x = we_id w) (es_items (feed_step str s (Viewport (SNAPSHOT [w])))) = Some e'
    \<and> ev_state e' = we_state w \<and> (ev_is_active e' \<longleftrightarrow> we_state w \<noteq> ''RESOLVED'' \<and> we_state w \<noteq> ''EXPIRED'')
    \<and> ev_updated_at e' = ev_updated_at e"
proof -
  let ?w = "toSafetyEvent w"
  let ?m = "mergeEvent (Some e) ?w"
  have id: "ev_id ?w = we_id w" by (simp add: toSafetyEvent_def)
  have none: "ev_updated_at ?w = None" by (simp add: ev_updated_at_def toSafetyEvent_def)
  obtain k where k: "find_index (\<lambda>x. ev_id x = we_id w) (es_items s) = Some k"
    using assms find_index_None [of "\<lambda>x. ev_id x = we_id w" "es_items s"] by (fastforce simp: find_Some_iff)
  have e: "es_items s ! k = e" using assms find_index_Some [OF k] by (auto simp: find_Some_iff) (metis linorder_neqE_nat)
  have "es_items (feed_step str s (Viewport (SNAPSHOT [w]))) = (es_items s)[k := ?m]"
    using k e none by (simp add: feed_step_def viewportEventsSet_def events_upsert_def id js_truthy_def Let_def)
  moreover have "find (\<lambda>x. ev_id x = we_id w) ((es_items s)[k := ?m]) = Some ?m"
    using find_index_Some [OF k] id by (auto simp: find_Some_iff intro!: exI [of _ k])
  moreover have "ev_updated_at ?m = ev_updated_at e"
    by (simp add: mergeEvent_def ev_updated_at_def toSafetyEvent_def merge_entries_def)
  ultimately show ?thesis by (simp add: mergeEvent_def toSafetyEvent_def)
qed

theorem viewport_overrides_revision_witness:
  "\<exists>e'. find (\<lambda>x. ev_id x = ''e'') (es_items (feed_step (\<lambda>e. e) (events_initialState\<lparr>es_items := [(sample_event ''e'' ''2024'')
        \<lparr>ev_is_active := False, ev_state := ''RESOLVED''\<rparr>]\<rparr>)
      (Viewport (SNAPSHOT [\<lparr>we_id = ''e'', we_event_type = ''FIRE'', we_severity = ''HIGH'', we_state = ''ACTIVE'',
        we_trust_state = None, we_title = ''Fire'', we_lat = 0, we_lng = 0, we_started_at = ''t''\<rparr>])))) = Some e'
     \<and> ev_is_active e'"
proof -
  let ?e = "(sample_event ''e'' ''2024'')\<lparr>ev_is_active := False, ev_state := ''RESOLVED''\<rparr>"
  let ?w = "\<lparr>we_id = ''e'', we_event_type = ''FIRE'', we_severity = ''HIGH'', we_state = ''ACTIVE'',
        we_trust_state = None, we_title = ''Fire'', we_lat = 0, we_lng = 0, we_started_at = ''t''\<rparr>"
  have "find (\<lambda>x. ev_id x = we_id ?w) (es_items (events_initialState\<lparr>es_items := [?e]\<rparr>)) = Some ?e"
    by (simp add: sample_event_def)
  from viewport_overrides_revision [OF this, of "\<lambda>e. e"] show ?thesis by auto
qed

end
