(* ===== verification/AppStore.thy ===== *)
theory AppStore
  imports ChatSync Circles Acoustic Realtime
begin

text \<open>
  The application store (\<open>store/index.ts\<close>) and the slices that belong to no other component:
  \<open>store/uiSlice.ts\<close>, \<open>store/insightsEventsSlice.ts\<close>, \<open>store/communityStatsSlice.ts\<close> and
  \<open>store/safetyLogSlice.ts\<close>. The store is the product of
  its ten slices: each sees its own actions only, so the invariants of all components hold together
  after any sequence of actions.
\<close>

section \<open>The UI slice\<close>

datatype overlay_name = Routes_Overlay | Acoustic_Overlay | Home_Route_Overlay
datatype intent_type = Overlay | Modal

record ui_intent =
  in_type :: intent_type
  in_name :: "overlay_name option"

record ui_state =
  ui_uiIntent :: ui_intent
  ui_safeRoutes :: "(string \<times> (real \<times> real) list) list"
  ui_homeLocation :: "home_location option"
  ui_homeRoute :: "home_route option"
  ui_homeRoutes :: "home_route list"

definition ui_initial :: ui_state where
  "ui_initial = \<lparr>ui_uiIntent = \<lparr>in_type = Overlay, in_name = None\<rparr>, ui_safeRoutes = [], ui_homeLocation = None,
     ui_homeRoute = None, ui_homeRoutes = []\<rparr>"

datatype ui_action =
    SetOverlayIntent overlay_name
  | ConsumeOverlayIntent
  | SafeRoutesSet "(string \<times> (real \<times> real) list) list"
  | SafeRoutesCleared
  | SetHomeLocation home_location
  | ClearHomeLocation
  | HomeRoutesSet "home_route list"
  | HomeRouteSelect int
  | HomeRoutesCleared
  | HomeRouteSet home_route
  | HomeRouteCleared

definition homeRouteSelect :: "ui_state \<Rightarrow> int \<Rightarrow> ui_state" where
  "homeRouteSelect s i =
     s\<lparr>ui_homeRoute := (if 0 \<le> i \<and> nat i < length (ui_homeRoutes s) then Some (ui_homeRoutes s ! nat i) else ui_homeRoute s)\<rparr>"

fun ui_reducer :: "ui_state \<Rightarrow> ui_action \<Rightarrow> ui_state" where
  "ui_reducer s (SetOverlayIntent name) = s\<lparr>ui_uiIntent := \<lparr>in_type = Overlay, in_name = Some name\<rparr>\<rparr>"
| "ui_reducer s ConsumeOverlayIntent = s\<lparr>ui_uiIntent := \<lparr>in_type = Overlay, in_name = None\<rparr>\<rparr>"
| "ui_reducer s (SafeRoutesSet rs) = s\<lparr>ui_safeRoutes := rs\<rparr>"
| "ui_reducer s SafeRoutesCleared = s\<lparr>ui_safeRoutes := []\<rparr>"
| "ui_reducer s (SetHomeLocation h) = s\<lparr>ui_homeLocation := Some h\<rparr>"
| "ui_reducer s ClearHomeLocation = s\<lparr>ui_homeLocation := None\<rparr>"
| "ui_reducer s (HomeRoutesSet rs) = s\<lparr>ui_homeRoutes := rs, ui_homeRoute := (case rs of [] \<Rightarrow> None | r # _ \<Rightarrow> Some r)\<rparr>"
| "ui_reducer s (HomeRouteSelect i) = homeRouteSelect s i"
| "ui_reducer s HomeRoutesCleared = s\<lparr>ui_homeRoutes := [], ui_homeRoute := None\<rparr>"
| "ui_reducer s (HomeRouteSet r) = s\<lparr>ui_homeRoute := Some r, ui_homeRoutes := [r]\<rparr>"
| "ui_reducer s HomeRouteCleared = s\<lparr>ui_homeRoute := None, ui_homeRoutes := []\<rparr>"

section \<open>The fetched slices\<close>

record bucketed_event =
  be_bucket :: string
  be_lat :: real
  be_lng :: real
  be_count :: nat
  be_eventType :: string

record insights_state =
  is_buckets :: "bucketed_event list"
  is_loading :: bool
  is_error :: "string option"

definition insights_initial :: insights_state where
  "insights_initial = \<lparr>is_buckets = [], is_loading = False, is_error = None\<rparr>"

datatype insights_action =
    Insights_Pending
  | Insights_Fulfilled "bucketed_event list"
  | Insights_Rejected "string option"

fun insights_reducer :: "insights_state \<Rightarrow> insights_action \<Rightarrow> insights_state" where
  "insights_reducer s Insights_Pending = s\<lparr>is_loading := True, is_error := None\<rparr>"
| "insights_reducer s (Insights_Fulfilled payload) = s\<lparr>is_loading := False, is_buckets := payload\<rparr>"
| "insights_reducer s (Insights_Rejected message) = s\<lparr>is_loading := False, is_error := Some (or_else message ''Error'')\<rparr>"

text \<open>How the request of a thunk settles: its status and the body, or the message of the failure.\<close>

definition fetchInsightsEvents :: "(int \<times> bucketed_event list) result \<Rightarrow> insights_action" where
  "fetchInsightsEvents res =
     (case res of
        Inl e \<Rightarrow> Insights_Rejected (Some e)
      | Inr (status, body) \<Rightarrow>
          if reply_ok status then Insights_Fulfilled body else Insights_Rejected (Some ''Failed to fetch event history''))"

record reporter_stat =
  rt_pubkey :: string
  rt_reportCount :: nat
  rt_trustScore :: real
  rt_tier :: string

record community_state =
  co_reporters :: "reporter_stat list"
  co_totalVerified :: nat
  co_loading :: bool
  co_error :: "string option"

definition community_initial :: community_state where
  "community_initial = \<lparr>co_reporters = [], co_totalVerified = 0, co_loading = False, co_error = None\<rparr>"

datatype community_action =
    Community_Pending
  | Community_Fulfilled "reporter_stat list" nat
  | Community_Rejected "string option"

fun community_reducer :: "community_state \<Rightarrow> community_action \<Rightarrow> community_state" where
  "community_reducer s Community_Pending = s\<lparr>co_loading := True, co_error := None\<rparr>"
| "community_reducer s (Community_Fulfilled rs n) = s\<lparr>co_loading := False, co_reporters := rs, co_totalVerified := n\<rparr>"
| "community_reducer s (Community_Rejected message) = s\<lparr>co_loading := False, co_error := Some (or_else message ''Error'')\<rparr>"

definition fetchCommunityStats :: "(int \<times> reporter_stat list \<times> nat) result \<Rightarrow> community_action" where
  "fetchCommunityStats res =
     (case res of
        Inl e \<Rightarrow> Community_Rejected (Some e)
      | Inr (status, rs, n) \<Rightarrow>
          if reply_ok status then Community_Fulfilled rs n else Community_Rejected (Some ''Failed to fetch community stats''))"

section \<open>The safety log\<close>

datatype log_type = Proximity_Log | Acoustic_Log | Route_Log

record safety_log_entry =
  sl_type :: log_type
  sl_label :: string
  sl_timestamp :: int

definition logSafetyEvent :: "safety_log_entry list \<Rightarrow> safety_log_entry \<Rightarrow> safety_log_entry list" where
  "logSafetyEvent entries e = (let es = e # entries in if length es > 100 then butlast es else es)"

section \<open>The store\<close>

record root_state =
  root_events :: events_state
  root_acoustic :: acoustic_state
  root_reports :: reports_state
  root_circles :: circles_state
  root_ui :: ui_state
  root_insightsEvents :: insights_state
  root_communityStats :: community_state
  root_safetyLog :: "safety_log_entry list"
  root_chat :: chat_state
  root_dm :: dm_state

definition root_initial :: root_state where
  "root_initial = \<lparr>root_events = events_initialState, root_acoustic = acoustic_initial, root_reports = reports_initialState,
     root_circles = circles_initial, root_ui = ui_initial, root_insightsEvents = insights_initial,
     root_communityStats = community_initial, root_safetyLog = [], root_chat = chat_initialState, root_dm = dm_initialState\<rparr>"

datatype root_action =
    Events_Action events_action
  | Acoustic_Action acoustic_action
  | Reports_Action reports_action
  | Circles_Action circles_action
  | Ui_Action ui_action
  | Insights_Action insights_action
  | Community_Action community_action
  | Log_Action safety_log_entry
  | Chat_Action chat_action
  | Dm_Action dm_action

fun root_reducer :: "root_state \<Rightarrow> root_action \<Rightarrow> root_state" where
  "root_reducer s (Events_Action a) = s\<lparr>root_events := events_reducer (root_events s) a\<rparr>"
| "root_reducer s (Acoustic_Action a) = s\<lparr>root_acoustic := acoustic_reducer (root_acoustic s) a\<rparr>"
| "root_reducer s (Reports_Action a) = s\<lparr>root_reports := reports_reducer (root_reports s) a\<rparr>"
| "root_reducer s (Circles_Action a) = s\<lparr>root_circles := circles_reducer (root_circles s) a\<rparr>"
| "root_reducer s (Ui_Action a) = s\<lparr>root_ui := ui_reducer (root_ui s) a\<rparr>"
| "root_reducer s (Insights_Action a) = s\<lparr>root_insightsEvents := insights_reducer (root_insightsEvents s) a\<rparr>"
| "root_reducer s (Community_Action a) = s\<lparr>root_communityStats := community_reducer (root_communityStats s) a\<rparr>"
| "root_reducer s (Log_Action e) = s\<lparr>root_safetyLog := logSafetyEvent (root_safetyLog s) e\<rparr>"
| "root_reducer s (Chat_Action a) = s\<lparr>root_chat := chat_reducer (root_chat s) a\<rparr>"
| "root_reducer s (Dm_Action a) = s\<lparr>root_dm := dm_reducer (root_dm s) a\<rparr>"

section \<open>The store as a product\<close>

text \<open>
  One slice of a store: the projection of the store's state, and the slice's own action in an action
  of the store, if it is one. The slice runs on its own actions.
\<close>

locale store_slice =
  fixes rstep :: "'r \<Rightarrow> 'ra \<Rightarrow> 'r"
    and step :: "'s \<Rightarrow> 'a \<Rightarrow> 's"
    and proj :: "'r \<Rightarrow> 's"
    and own :: "'ra \<Rightarrow> 'a option"
  assumes proj_step: "proj (rstep s a) = (case own a of None \<Rightarrow> proj s | Some b \<Rightarrow> step (proj s) b)"
begin

lemma proj_run: "proj (foldl rstep s as) = foldl step (proj s) (List.map_filter own as)"
  by (induction as arbitrary: s) (simp_all add: proj_step map_filter_simps split: option.splits)

end

definition own_events :: "root_action \<Rightarrow> events_action option" where
  "own_events a = (case a of Events_Action b \<Rightarrow> Some b | _ \<Rightarrow> None)"

definition own_reports :: "root_action \<Rightarrow> reports_action option" where
  "own_reports a = (case a of Reports_Action b \<Rightarrow> Some b | _ \<Rightarrow> None)"

definition own_circles :: "root_action \<Rightarrow> circles_action option" where
  "own_circles a = (case a of Circles_Action b \<Rightarrow> Some b | _ \<Rightarrow> None)"

definition own_ui :: "root_action \<Rightarrow> ui_action option" where
  "own_ui a = (case a of Ui_Action b \<Rightarrow> Some b | _ \<Rightarrow> None)"

definition own_log :: "root_action \<Rightarrow> safety_log_entry option" where
  "own_log a = (case a of Log_Action b \<Rightarrow> Some b | _ \<Rightarrow> None)"

definition own_chat :: "root_action \<Rightarrow> chat_action option" where
  "own_chat a = (case a of Chat_Action b \<Rightarrow> Some b | _ \<Rightarrow> None)"

definition own_dm :: "root_action \<Rightarrow> dm_action option" where
  "own_dm a = (case a of Dm_Action b \<Rightarrow> Some b | _ \<Rightarrow> None)"

definition own_acoustic :: "root_action \<Rightarrow> acoustic_action option" where
  "own_acoustic a = (case a of Acoustic_Action b \<Rightarrow> Some b | _ \<Rightarrow> None)"

interpretation events_slice: store_slice root_reducer events_reducer root_events own_events
  by unfold_locales (simp add: own_events_def split: root_action.splits)

interpretation reports_slice: store_slice root_reducer reports_reducer root_reports own_reports
  by unfold_locales (simp add: own_reports_def split: root_action.splits)

interpretation circles_slice: store_slice root_reducer circles_reducer root_circles own_circles
  by unfold_locales (simp add: own_circles_def split: root_action.splits)

interpretation ui_slice: store_slice root_reducer ui_reducer root_ui own_ui
  by unfold_locales (simp add: own_ui_def split: root_action.splits)

interpretation log_slice: store_slice root_reducer logSafetyEvent root_safetyLog own_log
  by unfold_locales (simp add: own_log_def split: root_action.splits)

interpretation chat_slice: store_slice root_reducer chat_reducer root_chat own_chat
  by unfold_locales (simp add: own_chat_def split: root_action.splits)

interpretation dm_slice: store_slice root_reducer dm_reducer root_dm own_dm
  by unfold_locales (simp add: own_dm_def split: root_action.splits)

interpretation acoustic_slice: store_slice root_reducer acoustic_reducer root_acoustic own_acoustic
  by unfold_locales (simp add: own_acoustic_def split: root_action.splits)

section \<open>Invariants of the remaining slices\<close>

definition ui_ok :: "ui_state \<Rightarrow> bool" where
  "ui_ok s \<longleftrightarrow> (\<forall>r. ui_homeRoute s = Some r \<longrightarrow> r \<in> set (ui_homeRoutes s)) \<and> in_type (ui_uiIntent s) = Overlay"

lemma ui_ok_step: "ui_ok s \<Longrightarrow> ui_ok (ui_reducer s a)"
  by (cases a) (auto simp: ui_ok_def homeRouteSelect_def split: list.splits)

interpretation ui: reducer ui_initial ui_reducer ui_ok
  by unfold_locales (simp add: ui_ok_def ui_initial_def, rule ui_ok_step)

interpretation safety_log: reducer "[]" logSafetyEvent "\<lambda>es. length es \<le> 100"
  by unfold_locales (auto simp: logSafetyEvent_def Let_def)

definition acoustic_ok :: "acoustic_state \<Rightarrow> bool" where
  "acoustic_ok s \<longleftrightarrow> (as_currentAlert s \<noteq> None \<longrightarrow> as_lastDetectionAt s \<noteq> None)"

lemma acoustic_ok_step: "acoustic_ok s \<Longrightarrow> acoustic_ok (acoustic_reducer s a)"
  by (cases a) (auto simp: acoustic_ok_def)

interpretation acoustic: reducer acoustic_initial acoustic_reducer acoustic_ok
  by unfold_locales (simp add: acoustic_ok_def acoustic_initial_def, rule acoustic_ok_step)

section \<open>The slices do not interfere\<close>

text \<open>
  The store refines its slices. After any sequence of actions each slice is in the state its own
  reducer reaches on its own actions alone, in their order; actions of the other components do not
  change it.
\<close>

theorem store_is_product:
  "root_events (foldl root_reducer s as) = foldl events_reducer (root_events s) (List.map_filter own_events as)
   \<and> root_reports (foldl root_reducer s as) = foldl reports_reducer (root_reports s) (List.map_filter own_reports as)
   \<and> root_circles (foldl root_reducer s as) = foldl circles_reducer (root_circles s) (List.map_filter own_circles as)
   \<and> root_chat (foldl root_reducer s as) = foldl chat_reducer (root_chat s) (List.map_filter own_chat as)
   \<and> root_dm (foldl root_reducer s as) = foldl dm_reducer (root_dm s) (List.map_filter own_dm as)
   \<and> root_ui (foldl root_reducer s as) = foldl ui_reducer (root_ui s) (List.map_filter own_ui as)
   \<and> root_acoustic (foldl root_reducer s as) = foldl acoustic_reducer (root_acoustic s) (List.map_filter own_acoustic as)
   \<and> root_safetyLog (foldl root_reducer s as) = foldl logSafetyEvent (root_safetyLog s) (List.map_filter own_log as)"
  by (intro conjI events_slice.proj_run reports_slice.proj_run circles_slice.proj_run chat_slice.proj_run
      dm_slice.proj_run ui_slice.proj_run acoustic_slice.proj_run log_slice.proj_run)

end
