(* ===== verification/MapView.thy ===== *)
theory MapView
  imports AppStore
begin

text \<open>
  What the map and the alert list show (\<open>components/map/EventClusterLayer.tsx\<close>, \<open>ClusterMarker.tsx\<close>,
  \<open>pages/LiveMapPage.tsx\<close>, \<open>pages/AlertsPage.tsx\<close>, \<open>pages/InsightsPage.tsx\<close>), the watch on the device's
  position (\<open>hooks/useCurrentLocation.ts\<close>), and the address search (\<open>components/map/MapSearch.tsx\<close>).
  Clusters are shown to be the groups of the events by grid cell, with a marker inside the cell; the
  zoom hysteresis does not flicker; the camera bounds contain what they are asked to show; the
  position is watched exactly while the control says so; and a settled search shows the answer to
  the query that is in the field.
\<close>

section \<open>Clusters\<close>

record cluster =
  cl_id :: string
  cl_lat :: real
  cl_lng :: real
  cl_events :: "safety_event list"
  cl_criticalCount :: nat
  cl_highCount :: nat
  cl_mediumCount :: nat
  cl_lowCount :: nat
  cl_totalCount :: nat

definition cellSize :: "real \<Rightarrow> real" where
  "cellSize zoom = 180 / 2 powi \<lfloor>zoom\<rfloor>"

definition cell_key :: "real \<Rightarrow> safety_event \<Rightarrow> string" where
  "cell_key zoom e =
     (let size = cellSize zoom; ci = \<lfloor>ev_lng e / size\<rfloor>; cj = \<lfloor>ev_lat e / size\<rfloor>
      in int_str ci @ '','' @ int_str cj)"

definition cell_push ::
  "real \<Rightarrow> (string \<times> safety_event list) list \<Rightarrow> safety_event \<Rightarrow> (string \<times> safety_event list) list" where
  "cell_push zoom cells e =
     (let key = cell_key zoom e
      in map_set cells key ((case map_of cells key of Some es \<Rightarrow> es | None \<Rightarrow> []) @ [e]))"

definition severity_count :: "string \<Rightarrow> safety_event list \<Rightarrow> nat" where
  "severity_count severity evts = length (filter (\<lambda>e. ev_severity e = severity) evts)"

definition cluster_of :: "string \<times> safety_event list \<Rightarrow> cluster" where
  "cluster_of = (\<lambda>(key, evts).
     \<lparr>cl_id = key,
      cl_lat = foldl (\<lambda>s e. s + ev_lat e) 0 evts / real (length evts),
      cl_lng = foldl (\<lambda>s e. s + ev_lng e) 0 evts / real (length evts),
      cl_events = evts,
      cl_criticalCount = severity_count ''CRITICAL'' evts, cl_highCount = severity_count ''HIGH'' evts,
      cl_mediumCount = severity_count ''MEDIUM'' evts, cl_lowCount = severity_count ''LOW'' evts,
      cl_totalCount = length evts\<rparr>)"

definition buildClusters :: "safety_event list \<Rightarrow> real \<Rightarrow> cluster list" where
  "buildClusters events zoom = map cluster_of (foldl (cell_push zoom) [] events)"

definition DISSOLVE_ZOOM :: real where "DISSOLVE_ZOOM = 132 / 10"
definition FORM_ZOOM :: real where "FORM_ZOOM = 128 / 10"

text \<open>The mode of a render from the committed mode of the one before.\<close>

definition showClustered :: "bool \<Rightarrow> real \<Rightarrow> bool" where
  "showClustered clusteredRef zoom =
     (let m = (if zoom \<ge> DISSOLVE_ZOOM then False else clusteredRef)
      in if zoom \<le> FORM_ZOOM then True else m)"

fun cluster_modes :: "bool \<Rightarrow> real list \<Rightarrow> bool list" where
  "cluster_modes m [] = []"
| "cluster_modes m (z # zs) = showClustered m z # cluster_modes (showClustered m z) zs"

text \<open>What the layer renders: single markers, or clusters.\<close>

definition layer_clusters :: "bool \<Rightarrow> safety_event list \<Rightarrow> real \<Rightarrow> cluster list" where
  "layer_clusters m events zoom =
     (if showClustered m zoom then buildClusters (filter ev_is_active events) zoom else [])"

text \<open>The ring of a cluster marker.\<close>

definition outerRadius :: "nat \<Rightarrow> real" where
  "outerRadius n = (if n \<le> 4 then 14 else if n \<le> 14 then 18 else if n \<le> 49 then 22
     else if n \<le> 199 then 26 else 30)"

definition marker_arc :: "nat \<Rightarrow> nat \<Rightarrow> real" where
  "marker_arc totalCount n =
     (let circumference = 2 * pi * (outerRadius totalCount - 15 / 10)
      in if n > 0 then max (real n / real (max totalCount 1) * circumference) (circumference * (8 / 100)) else 0)"

section \<open>Filters\<close>

definition toggle :: "'a list \<Rightarrow> 'a \<Rightarrow> 'a list" where
  "toggle prev x = (if x \<in> set prev then filter (\<lambda>y. y \<noteq> x) prev else set_add prev x)"

definition FILTERS :: "(string \<times> string list) list" where
  "FILTERS =
     [(''security'', [''SECURITY_INCIDENT'']), (''unrest'', [''CIVIL_UNREST'']), (''traffic'', [''TRAFFIC_INCIDENT'']),
      (''environment'', [''FIRE'', ''FLOOD'']), (''response'', [''MEDICAL_EMERGENCY'', ''INFRASTRUCTURE_FAILURE'']),
      (''other'', [''FALSE_ALARM''])]"

definition activeTypes :: "string list \<Rightarrow> string list" where
  "activeTypes filters =
     set_of_array (concat (map (\<lambda>i. case map_of FILTERS i of Some ts \<Rightarrow> ts | None \<Rightarrow> []) filters))"

definition map_visible :: "string list \<Rightarrow> safety_event list \<Rightarrow> safety_event list" where
  "map_visible filters viewportEvents =
     (let events = filter ev_is_active viewportEvents
      in if filters \<noteq> [] then filter (\<lambda>e. ev_event_type e \<in> set (activeTypes filters)) events else events)"

datatype status_filter = F_ALL | F_CONFIRMED | F_UNVERIFIED
datatype time_range = T_1h | T_6h | T_24h | T_ALL

fun TIME_RANGE_MS :: "time_range \<Rightarrow> int option" where
  "TIME_RANGE_MS T_1h = Some (60 * 60 * 1000)"
| "TIME_RANGE_MS T_6h = Some (6 * 60 * 60 * 1000)"
| "TIME_RANGE_MS T_24h = Some (24 * 60 * 60 * 1000)"
| "TIME_RANGE_MS T_ALL = None"

text \<open>\<open>getTime\<close> reads a date; an unreadable one is \<open>NaN\<close> (\<open>None\<close>), for which the comparison is false.\<close>

definition alert_shown ::
  "(string \<Rightarrow> int option) \<Rightarrow> int \<Rightarrow> string list \<Rightarrow> status_filter \<Rightarrow> time_range \<Rightarrow> safety_event \<Rightarrow> bool" where
  "alert_shown getTime now selectedTypes statusFilter timeRange e =
     (if selectedTypes \<noteq> [] \<and> ev_event_type e \<notin> set selectedTypes then False
      else
        (let isConfirmed = (trustStateOf e = Confirmed)
         in if statusFilter = F_CONFIRMED \<and> \<not> isConfirmed then False
            else if statusFilter = F_UNVERIFIED \<and> isConfirmed then False
            else
              (case TIME_RANGE_MS timeRange of
                 None \<Rightarrow> True
               | Some rangeMs \<Rightarrow>
                   (case getTime (ev_created_at e) of None \<Rightarrow> True | Some eventTs \<Rightarrow> \<not> now - eventTs > rangeMs))))"

definition alerts_filtered ::
  "(string \<Rightarrow> int option) \<Rightarrow> int \<Rightarrow> string list \<Rightarrow> status_filter \<Rightarrow> time_range \<Rightarrow> safety_event list \<Rightarrow> safety_event list" where
  "alerts_filtered getTime now selectedTypes statusFilter timeRange items =
     filter (alert_shown getTime now selectedTypes statusFilter timeRange) items"

section \<open>The camera\<close>

definition js_min :: "real list \<Rightarrow> real" where "js_min xs = fold min (tl xs) (hd xs)"
definition js_max :: "real list \<Rightarrow> real" where "js_max xs = fold max (tl xs) (hd xs)"

record camera_bounds =
  cb_west :: real
  cb_south :: real
  cb_east :: real
  cb_north :: real

text \<open>The bounds of a non-empty list of points (longitude, latitude).\<close>

definition fit_points :: "(real \<times> real) list \<Rightarrow> camera_bounds" where
  "fit_points points =
     (let lngs = map fst points; lats = map snd points;
          west = js_min lngs; east = js_max lngs; south = js_min lats; north = js_max lats;
          longitudePadding = (if west = east then 1 / 1000 else 0);
          latitudePadding = (if south = north then 1 / 1000 else 0)
      in \<lparr>cb_west = west - longitudePadding, cb_south = south - latitudePadding,
          cb_east = east + longitudePadding, cb_north = north + latitudePadding\<rparr>)"

definition focusCluster :: "safety_event list \<Rightarrow> camera_bounds" where
  "focusCluster clusterEvents = fit_points (map (\<lambda>e. (ev_lng e, ev_lat e)) clusterEvents)"

text \<open>No camera command when there is no such route, no position or no home.\<close>

definition fitRoutePreview ::
  "(real \<times> real) list list \<Rightarrow> nat \<Rightarrow> lat_lng option \<Rightarrow> lat_lng option \<Rightarrow> camera_bounds option" where
  "fitRoutePreview routes selectedIndex location home =
     (if selectedIndex < length routes then
        (case (location, home) of
           (Some l, Some h) \<Rightarrow>
             Some (fit_points (routes ! selectedIndex @ [(ll_lng l, ll_lat l), (ll_lng h, ll_lat h)]))
         | _ \<Rightarrow> None)
      else None)"

section \<open>Insights\<close>

definition chart_add :: "(string \<times> nat) list \<Rightarrow> bucketed_event \<Rightarrow> (string \<times> nat) list" where
  "chart_add acc b =
     (case map_of acc (be_bucket b) of
        Some n \<Rightarrow> map_set acc (be_bucket b) (n + be_count b)
      | None \<Rightarrow> acc @ [(be_bucket b, be_count b)])"

definition chartData :: "bucketed_event list \<Rightarrow> (string \<times> nat) list" where
  "chartData buckets =
     (let acc = foldl chart_add [] buckets in drop (length acc - 24) acc)"

section \<open>The position of the device\<close>

text \<open>
  The hook's state and refs. \<open>lc_active\<close> are the watches the browser runs and \<open>lc_next\<close> the id it gives
  to the next one; the browser calls back for a running watch only.
\<close>

datatype location_status =
    L_Idle | L_Requesting | L_Following | L_Located_not_following | L_Denied | L_Unavailable

record location_ctl =
  lc_location :: "lat_lng option"
  lc_status :: location_status
  lc_error :: "string option"
  lc_watchId :: "nat option"
  lc_following :: bool
  lc_active :: "nat list"
  lc_next :: nat

definition location_initial :: location_ctl where
  "location_initial = \<lparr>lc_location = None, lc_status = L_Idle, lc_error = None, lc_watchId = None,
     lc_following = False, lc_active = [], lc_next = 0\<rparr>"

definition clearWatch :: "nat option \<Rightarrow> nat list \<Rightarrow> nat list" where
  "clearWatch w watches = (case w of None \<Rightarrow> watches | Some i \<Rightarrow> filter (\<lambda>j. j \<noteq> i) watches)"

definition lc_disable :: "location_ctl \<Rightarrow> location_ctl" where
  "lc_disable s = s\<lparr>lc_following := False, lc_active := clearWatch (lc_watchId s) (lc_active s), lc_watchId := None,
     lc_location := None, lc_error := None, lc_status := L_Idle\<rparr>"

definition startFollowing :: "bool \<Rightarrow> location_ctl \<Rightarrow> location_ctl" where
  "startFollowing supported s =
     (if \<not> supported then
        s\<lparr>lc_following := False, lc_error := Some ''Geolocation not supported by this browser'', lc_status := L_Unavailable\<rparr>
      else if lc_watchId s \<noteq> None then
        s\<lparr>lc_following := True, lc_error := None,
          lc_status := (if lc_location s \<noteq> None then L_Following else L_Requesting)\<rparr>
      else
        s\<lparr>lc_following := True, lc_error := None, lc_status := L_Requesting,
          lc_watchId := Some (lc_next s), lc_active := lc_next s # lc_active s, lc_next := Suc (lc_next s)\<rparr>)"

definition stopFollowing :: "location_ctl \<Rightarrow> location_ctl" where
  "stopFollowing s = s\<lparr>lc_following := False,
     lc_status := (if lc_status s = L_Following then L_Located_not_following else lc_status s)\<rparr>"

definition on_position :: "lat_lng \<Rightarrow> location_ctl \<Rightarrow> location_ctl" where
  "on_position pos s = s\<lparr>lc_location := Some pos, lc_error := None,
     lc_status := (if lc_following s then L_Following else L_Located_not_following)\<rparr>"

definition on_position_error :: "bool \<Rightarrow> string \<Rightarrow> location_ctl \<Rightarrow> location_ctl" where
  "on_position_error denied message s = s\<lparr>lc_following := False, lc_active := clearWatch (lc_watchId s) (lc_active s),
     lc_watchId := None, lc_error := Some message, lc_status := (if denied then L_Denied else L_Unavailable)\<rparr>"

text \<open>The map's button, and the cleanup of the effect.\<close>

definition activateLocation :: "bool \<Rightarrow> location_ctl \<Rightarrow> location_ctl" where
  "activateLocation supported s =
     (if lc_status s = L_Following \<or> lc_status s = L_Requesting then lc_disable s else startFollowing supported s)"

definition lc_unmount :: "location_ctl \<Rightarrow> location_ctl" where
  "lc_unmount s = s\<lparr>lc_active := clearWatch (lc_watchId s) (lc_active s)\<rparr>"

datatype location_event =
    Activate
  | Map_moved
  | Position nat lat_lng
  | Position_error nat bool string

fun location_step :: "bool \<Rightarrow> location_ctl \<Rightarrow> location_event \<Rightarrow> location_ctl" where
  "location_step supported s Activate = activateLocation supported s"
| "location_step supported s Map_moved = stopFollowing s"
| "location_step supported s (Position w pos) = (if w \<in> set (lc_active s) then on_position pos s else s)"
| "location_step supported s (Position_error w denied m) =
     (if w \<in> set (lc_active s) then on_position_error denied m s else s)"

section \<open>The address search\<close>

text \<open>
  The search field: the trimmed query, the request counter, what is shown, the request that waits for
  the debounce timer, and the requests in flight with whether they were aborted.
\<close>

record 'r map_search =
  ms_trimmed :: string
  ms_sequence :: nat
  ms_results :: "'r list"
  ms_loading :: bool
  ms_failed :: bool
  ms_timer :: "(nat \<times> string) option"
  ms_flight :: "(nat \<times> string \<times> bool) list"

definition search_initial :: "'r map_search" where
  "search_initial = \<lparr>ms_trimmed = '''', ms_sequence = 0, ms_results = [], ms_loading = False, ms_failed = False,
     ms_timer = None, ms_flight = []\<rparr>"

text \<open>A new query: the cleanup of the last effect, then the effect.\<close>

definition query_changed :: "string \<Rightarrow> 'r map_search \<Rightarrow> 'r map_search" where
  "query_changed q s =
     (let request = Suc (ms_sequence s);
          s1 = s\<lparr>ms_trimmed := q, ms_sequence := request, ms_failed := False, ms_timer := None,
                 ms_flight := map (\<lambda>(r, p, _). (r, p, True)) (ms_flight s)\<rparr>
      in if length q < 2 then s1\<lparr>ms_loading := False, ms_results := []\<rparr>
         else s1\<lparr>ms_timer := Some (request, q)\<rparr>)"

definition timer_fired :: "'r map_search \<Rightarrow> 'r map_search" where
  "timer_fired s =
     (case ms_timer s of
        None \<Rightarrow> s
      | Some (request, q) \<Rightarrow> s\<lparr>ms_timer := None, ms_loading := True, ms_flight := ms_flight s @ [(request, q, False)]\<rparr>)"

text \<open>The answer to a request in flight; afterwards the \<open>finally\<close> clause.\<close>

definition search_answered :: "nat \<times> string \<times> bool \<Rightarrow> 'r list result \<Rightarrow> 'r map_search \<Rightarrow> 'r map_search" where
  "search_answered f answer s =
     (case f of (request, q, aborted) \<Rightarrow>
        (let s1 = (case answer of
                     Inr results \<Rightarrow> (if request \<noteq> ms_sequence s then s else s\<lparr>ms_results := results\<rparr>)
                   | Inl _ \<Rightarrow> (if aborted then s
                              else if request = ms_sequence s then s\<lparr>ms_results := [], ms_failed := True\<rparr> else s));
             s2 = (if request = ms_sequence s \<and> \<not> aborted then s1\<lparr>ms_loading := False\<rparr> else s1)
         in s2\<lparr>ms_flight := remove1 f (ms_flight s2)\<rparr>))"

datatype search_event = Query_changed string | Timer_fired | Answered "nat \<times> string \<times> bool"

text \<open>\<open>service\<close> answers a query; any request in flight may be answered next.\<close>

fun search_step :: "(string \<Rightarrow> 'r list result) \<Rightarrow> 'r map_search \<Rightarrow> search_event \<Rightarrow> 'r map_search" where
  "search_step service s (Query_changed q) = query_changed q s"
| "search_step service s Timer_fired = timer_fired s"
| "search_step service s (Answered f) =
     (if f \<in> set (ms_flight s) then search_answered f (service (fst (snd f))) s else s)"

section \<open>Clusters are groups\<close>

lemma map_set_keys:
  "map_set (map (\<lambda>k. (k, F k)) ks) k v = map (\<lambda>j. (j, if j = k then v else F j)) (set_add ks k)" if "distinct ks"
  using that
proof (induction ks)
  case (Cons j ks)
  then show ?case by (auto simp: set_add_def)
qed (simp add: set_add_def)

lemma map_of_keys: "map_of (map (\<lambda>k. (k, F k)) ks) k = (if k \<in> set ks then Some (F k) else None)"
  by (induction ks) auto

lemma set_of_array_snoc: "set_of_array (xs @ [x]) = set_add (set_of_array xs) x"
  by (simp add: set_of_array_def)

lemma cells_spec:
  "foldl (cell_push z) [] es =
     map (\<lambda>k. (k, filter (\<lambda>e. cell_key z e = k) es)) (set_of_array (map (cell_key z) es))"
proof (induction es rule: rev_induct)
  case Nil
  then show ?case by (simp add: set_of_array_def)
next
  case (snoc e es)
  let ?ks = "set_of_array (map (cell_key z) es)" and ?F = "\<lambda>k. filter (\<lambda>e. cell_key z e = k) es"
  let ?k = "cell_key z e"
  have none: "?k \<notin> set ?ks \<Longrightarrow> ?F ?k = []" by (force simp: filter_empty_conv image_iff)
  have "foldl (cell_push z) [] (es @ [e]) = map_set (map (\<lambda>k. (k, ?F k)) ?ks) ?k (?F ?k @ [e])"
    using none by (simp add: snoc.IH cell_push_def Let_def map_of_keys)
  also have "\<dots> = map (\<lambda>j. (j, if j = ?k then ?F ?k @ [e] else ?F j)) (set_add ?ks ?k)"
    by (rule map_set_keys) simp
  also have "\<dots> = map (\<lambda>k. (k, filter (\<lambda>e. cell_key z e = k) (es @ [e]))) (set_of_array (map (cell_key z) (es @ [e])))"
    by (simp add: set_of_array_snoc)
  finally show ?case .
qed

lemma concat_groups:
  "distinct ks \<Longrightarrow> key ` set es \<subseteq> set ks \<Longrightarrow> mset (concat (map (\<lambda>k. filter (\<lambda>e. key e = k) es) ks)) = mset es"
proof (induction ks arbitrary: es)
  case (Cons k ks)
  let ?rest = "filter (\<lambda>e. key e \<noteq> k) es"
  have "map (\<lambda>j. filter (\<lambda>e. key e = j) es) ks = map (\<lambda>j. filter (\<lambda>e. key e = j) ?rest) ks"
    using Cons.prems(1) by (auto intro: filter_cong)
  moreover have "mset (concat (map (\<lambda>j. filter (\<lambda>e. key e = j) ?rest) ks)) = mset ?rest"
    using Cons.prems by (intro Cons.IH) auto
  moreover have "mset (filter (\<lambda>e. key e = k) es) + mset ?rest = mset es"
    by (simp add: mset_filter multiset_partition [symmetric])
  ultimately show ?case unfolding list.map concat.simps mset_append by (simp only:)
qed simp

lemma foldl_sum: "foldl (\<lambda>s e. s + f e) (a :: real) es = a + sum_list (map f es)"
  by (induction es arbitrary: a) simp_all

lemma mean_between:
  assumes "es \<noteq> []" "\<And>e. e \<in> set es \<Longrightarrow> a \<le> f e \<and> f e < b"
  shows "a \<le> sum_list (map f es) / real (length es) \<and> sum_list (map f es) / real (length es) < b"
proof -
  have "real (length es) * a \<le> sum_list (map f es) \<and> sum_list (map f es) < real (length es) * b"
    using assms
  proof (induction es)
    case (Cons e es)
    show ?case
    proof (cases "es = []")
      case False
      with Cons have "real (length es) * a \<le> sum_list (map f es) \<and> sum_list (map f es) < real (length es) * b" by auto
      moreover have "a \<le> f e \<and> f e < b" using Cons.prems by auto
      ultimately show ?thesis by (simp add: algebra_simps)
    qed (use Cons.prems in simp)
  qed simp
  moreover have "real (length es) > 0" using assms(1) by simp
  ultimately show ?thesis by (simp add: field_simps)
qed

lemma cell_key_eq:
  "cell_key z e = cell_key z e' \<longleftrightarrow>
     \<lfloor>ev_lng e / cellSize z\<rfloor> = \<lfloor>ev_lng e' / cellSize z\<rfloor> \<and> \<lfloor>ev_lat e / cellSize z\<rfloor> = \<lfloor>ev_lat e' / cellSize z\<rfloor>"
proof
  assume "cell_key z e = cell_key z e'"
  then have eq: "int_str \<lfloor>ev_lng e / cellSize z\<rfloor> @ CHR '','' # int_str \<lfloor>ev_lat e / cellSize z\<rfloor>
      = int_str \<lfloor>ev_lng e' / cellSize z\<rfloor> @ CHR '','' # int_str \<lfloor>ev_lat e' / cellSize z\<rfloor>"
    by (simp add: cell_key_def Let_def)
  have comma: "CHR '','' \<notin> set (int_str n)" for n
    by (rule int_str_no_char) (simp_all add: is_digit_def char_le_iff)
  from append_sep_inject [OF eq comma comma]
  show "\<lfloor>ev_lng e / cellSize z\<rfloor> = \<lfloor>ev_lng e' / cellSize z\<rfloor> \<and> \<lfloor>ev_lat e / cellSize z\<rfloor> = \<lfloor>ev_lat e' / cellSize z\<rfloor>" by simp
qed (simp add: cell_key_def Let_def)

lemma cellSize_pos: "cellSize z > 0"
  by (simp add: cellSize_def)

lemma floor_cell:
  assumes "es \<noteq> []" "\<And>e. e \<in> set es \<Longrightarrow> \<lfloor>f e / z\<rfloor> = n" "z > 0"
  shows "\<lfloor>(sum_list (map f es) / real (length es)) / z\<rfloor> = n"
proof -
  have "real_of_int n * z \<le> f e \<and> f e < (real_of_int n + 1) * z" if "e \<in> set es" for e
    using assms(2) [OF that] assms(3) by (simp add: floor_eq_iff field_simps)
  then have "real_of_int n * z \<le> sum_list (map f es) / real (length es)
      \<and> sum_list (map f es) / real (length es) < (real_of_int n + 1) * z"
    by (intro mean_between [OF assms(1)]) auto
  with assms(3) show ?thesis by (simp only: floor_eq_iff pos_le_divide_eq pos_divide_less_eq)
qed

lemma cluster_fields [simp]:
  "cl_id (cluster_of (k, es)) = k" "cl_events (cluster_of (k, es)) = es" "cl_totalCount (cluster_of (k, es)) = length es"
  "cl_lat (cluster_of (k, es)) = sum_list (map ev_lat es) / real (length es)"
  "cl_lng (cluster_of (k, es)) = sum_list (map ev_lng es) / real (length es)"
  by (simp_all add: cluster_of_def foldl_sum)

section \<open>Bounds of the camera\<close>

lemma js_min_max:
  "x \<in> set xs \<Longrightarrow> js_min xs \<le> x \<and> x \<le> js_max xs"
proof -
  have mn: "fold min ys a \<le> a \<and> (\<forall>y\<in>set ys. fold min ys a \<le> y)" for ys and a :: real
  proof (induction ys arbitrary: a)
    case (Cons y ys)
    from Cons.IH [of "min y a"] show ?case by auto
  qed simp
  have mx: "a \<le> fold max ys a \<and> (\<forall>y\<in>set ys. y \<le> fold max ys a)" for ys and a :: real
  proof (induction ys arbitrary: a)
    case (Cons y ys)
    from Cons.IH [of "max y a"] show ?case by auto
  qed simp
  show "x \<in> set xs \<Longrightarrow> js_min xs \<le> x \<and> x \<le> js_max xs"
    using mn [of "tl xs" "hd xs"] mx [of "hd xs" "tl xs"] by (cases xs) (auto simp: js_min_def js_max_def)
qed

lemma fit_points_contain:
  assumes "(x, y) \<in> set points" "b = fit_points points"
  shows "cb_west b \<le> x \<and> x \<le> cb_east b \<and> cb_south b \<le> y \<and> y \<le> cb_north b
    \<and> cb_west b < cb_east b \<and> cb_south b < cb_north b"
proof -
  have "x \<in> set (map fst points)" "y \<in> set (map snd points)" using assms(1) by force+
  from js_min_max [OF this(1)] js_min_max [OF this(2)] show ?thesis
    by (auto simp: assms(2) fit_points_def Let_def)
qed

section \<open>Zoom modes\<close>

lemma modes_form:
  "\<forall>z\<in>set zs. z < DISSOLVE_ZOOM \<Longrightarrow>
     sorted_wrt (\<longrightarrow>) (cluster_modes m zs) \<and> (m \<longrightarrow> (\<forall>x\<in>set (cluster_modes m zs). x))"
proof (induction m zs rule: cluster_modes.induct)
  case (2 m z zs)
  then have "z < DISSOLVE_ZOOM" by simp
  then have "m \<longrightarrow> showClustered m z" by (simp add: showClustered_def Let_def)
  with 2 show ?case by auto
qed simp

lemma modes_dissolve:
  "\<forall>z\<in>set zs. FORM_ZOOM < z \<Longrightarrow>
     sorted_wrt (\<lambda>x y. y \<longrightarrow> x) (cluster_modes m zs) \<and> (\<not> m \<longrightarrow> (\<forall>x\<in>set (cluster_modes m zs). \<not> x))"
proof (induction m zs rule: cluster_modes.induct)
  case (2 m z zs)
  let ?n = "showClustered m z"
  have "\<forall>z\<in>set zs. FORM_ZOOM < z" using 2(2) by simp
  note ih = 2(1) [OF this]
  have "\<not> m \<longrightarrow> \<not> ?n" using 2(2) by (simp add: showClustered_def Let_def)
  with ih show ?case unfolding cluster_modes.simps sorted_wrt.simps list.set ball_simps by blast
qed simp

section \<open>The watch\<close>

definition location_ok :: "bool \<Rightarrow> location_ctl \<Rightarrow> bool" where
  "location_ok supported s \<longleftrightarrow>
     lc_active s = (case lc_watchId s of None \<Rightarrow> [] | Some w \<Rightarrow> [w])
     \<and> (lc_watchId s \<noteq> None \<longleftrightarrow> lc_status s \<in> {L_Requesting, L_Following, L_Located_not_following})
     \<and> (lc_status s \<in> {L_Following, L_Located_not_following} \<longrightarrow> lc_location s \<noteq> None)
     \<and> (lc_status s = L_Following \<longrightarrow> lc_following s) \<and> (lc_status s = L_Located_not_following \<longrightarrow> \<not> lc_following s)
     \<and> (lc_following s \<longrightarrow> lc_watchId s \<noteq> None) \<and> (lc_status s = L_Idle \<longrightarrow> lc_location s = None)
     \<and> (\<not> supported \<longrightarrow> lc_watchId s = None)"

lemma disable_ok: "location_ok supported s \<Longrightarrow> location_ok supported (lc_disable s)"
  by (cases "lc_watchId s") (simp_all add: location_ok_def lc_disable_def clearWatch_def)

lemma start_ok: "location_ok supported s \<Longrightarrow> location_ok supported (startFollowing supported s)"
  by (cases "lc_watchId s"; cases "lc_location s"; cases supported) (simp_all add: location_ok_def startFollowing_def)

lemma stop_ok: "location_ok supported s \<Longrightarrow> location_ok supported (stopFollowing s)"
  by (cases "lc_watchId s"; cases "lc_status s") (simp_all add: location_ok_def stopFollowing_def)

lemma position_ok: "location_ok supported s \<Longrightarrow> w \<in> set (lc_active s) \<Longrightarrow> location_ok supported (on_position pos s)"
  by (cases "lc_watchId s") (auto simp: location_ok_def on_position_def)

lemma position_error_ok: "location_ok supported s \<Longrightarrow> location_ok supported (on_position_error denied m s)"
  by (cases "lc_watchId s") (auto simp: location_ok_def on_position_error_def clearWatch_def)

lemmas location_ops_ok = disable_ok start_ok stop_ok position_ok position_error_ok

lemma location_step_ok: "location_ok supported s \<Longrightarrow> location_ok supported (location_step supported s e)"
  by (cases e) (auto simp: activateLocation_def location_ops_ok)

interpretation location: reducer location_initial "location_step supported" "location_ok supported" for supported
  by unfold_locales (simp add: location_ok_def location_initial_def, rule location_step_ok)

section \<open>The latest query wins\<close>

definition search_settled :: "(string \<Rightarrow> 'r list result) \<Rightarrow> 'r map_search \<Rightarrow> bool" where
  "search_settled service s \<longleftrightarrow>
     (if length (ms_trimmed s) < 2 then ms_results s = [] \<and> \<not> ms_failed s
      else (case service (ms_trimmed s) of
              Inr results \<Rightarrow> ms_results s = results \<and> \<not> ms_failed s
            | Inl _ \<Rightarrow> ms_results s = [] \<and> ms_failed s))"

text \<open>
  Requests in flight have different numbers, none above the counter; the one with the current number,
  if any, is for the query in the field, is not aborted, and is shown as loading.
\<close>

definition flights_ok :: "nat \<Rightarrow> string \<Rightarrow> bool \<Rightarrow> (nat \<times> string \<times> bool) list \<Rightarrow> bool" where
  "flights_ok sequence trimmed loading fl \<longleftrightarrow>
     distinct (map fst fl)
     \<and> (\<forall>f\<in>set fl. fst f \<le> sequence \<and> (fst f = sequence \<longrightarrow> f = (sequence, trimmed, False) \<and> 2 \<le> length trimmed \<and> loading))"

definition search_busy :: "'r map_search \<Rightarrow> bool" where
  "search_busy s \<longleftrightarrow> ms_timer s \<noteq> None \<or> ms_sequence s \<in> fst ` set (ms_flight s)"

definition search_ok :: "(string \<Rightarrow> 'r list result) \<Rightarrow> 'r map_search \<Rightarrow> bool" where
  "search_ok service s \<longleftrightarrow>
     flights_ok (ms_sequence s) (ms_trimmed s) (ms_loading s) (ms_flight s)
     \<and> (ms_timer s \<noteq> None \<longrightarrow> ms_timer s = Some (ms_sequence s, ms_trimmed s) \<and> 2 \<le> length (ms_trimmed s)
          \<and> ms_sequence s \<notin> fst ` set (ms_flight s))
     \<and> (if search_busy s then \<not> ms_failed s else search_settled service s)"

lemma flights_abort:
  assumes "flights_ok n q l fl"
  shows "flights_ok (Suc n) q' l' (map (\<lambda>(r, p, _). (r, p, True)) fl) \<and> Suc n \<notin> fst ` set (map (\<lambda>(r, p, _). (r, p, True)) fl)"
proof -
  define g where "g = map (\<lambda>(r, p, _ :: bool). (r, p, True)) fl"
  have fst: "map fst g = map fst fl" by (auto simp: g_def)
  have d: "distinct (map fst fl)" using assms by (simp add: flights_ok_def)
  have "fst f \<le> n" if "f \<in> set g" for f using that assms by (force simp: flights_ok_def g_def)
  then have "\<forall>f\<in>set g. fst f \<le> Suc n \<and> fst f \<noteq> Suc n" by force
  then have "Suc n \<notin> fst ` set g" "flights_ok (Suc n) q' l' g" using d fst by (auto simp: flights_ok_def)
  then show ?thesis unfolding g_def by blast
qed

lemma settled_flight [simp]: "search_settled service (s\<lparr>ms_flight := fl\<rparr>) = search_settled service s"
  by (cases "service (ms_trimmed s)") (simp_all add: search_settled_def)

lemma query_ok:
  assumes "search_ok service s"
  shows "search_ok service (query_changed q s)"
proof -
  have "flights_ok (ms_sequence s) (ms_trimmed s) (ms_loading s) (ms_flight s)" using assms by (simp add: search_ok_def)
  note ab = flights_abort [OF this]
  show ?thesis
  proof (cases "length q < 2")
    case True
    then show ?thesis using ab
      unfolding search_ok_def query_changed_def Let_def search_busy_def search_settled_def by simp
  next
    case False
    then show ?thesis using ab
      unfolding search_ok_def query_changed_def Let_def search_busy_def by simp
  qed
qed

lemma timer_ok:
  assumes "search_ok service s"
  shows "search_ok service (timer_fired s)"
proof (cases "ms_timer s")
  case (Some t)
  with assms have t: "t = (ms_sequence s, ms_trimmed s)" "2 \<le> length (ms_trimmed s)" "ms_sequence s \<notin> fst ` set (ms_flight s)"
    and fl: "flights_ok (ms_sequence s) (ms_trimmed s) (ms_loading s) (ms_flight s)" and "\<not> ms_failed s"
    by (simp_all add: search_ok_def search_busy_def)
  have "flights_ok (ms_sequence s) (ms_trimmed s) True (ms_flight s @ [(ms_sequence s, ms_trimmed s, False)])"
    using fl t(2,3) unfolding flights_ok_def by auto
  with Some t \<open>\<not> ms_failed s\<close> show ?thesis
    unfolding search_ok_def timer_fired_def search_busy_def by simp
qed (use assms in \<open>simp add: timer_fired_def\<close>)

lemma flights_remove:
  assumes "flights_ok n q l fl" "f \<in> set fl"
  shows "distinct (map fst (remove1 f fl))" "set (remove1 f fl) = set fl - {f}" "fst f \<notin> fst ` set (remove1 f fl)"
proof -
  have d: "distinct (map fst fl)" using assms(1) by (simp add: flights_ok_def)
  show s: "set (remove1 f fl) = set fl - {f}" using d by (simp add: distinct_map set_remove1_eq)
  show "distinct (map fst (remove1 f fl))" using d by (simp add: distinct_map s inj_on_diff)
  show "fst f \<notin> fst ` set (remove1 f fl)" using d assms(2) unfolding s by (auto simp: distinct_map inj_on_def)
qed

lemma answered_ok:
  assumes "search_ok service s" "f \<in> set (ms_flight s)"
  shows "search_ok service (search_answered f (service (fst (snd f))) s)"
proof -
  have fl: "flights_ok (ms_sequence s) (ms_trimmed s) (ms_loading s) (ms_flight s)" using assms(1) by (simp add: search_ok_def)
  note rm = flights_remove [OF fl assms(2)]
  show ?thesis
  proof (cases "fst f = ms_sequence s")
    case True
    with fl assms(2) have f: "f = (ms_sequence s, ms_trimmed s, False)" "2 \<le> length (ms_trimmed s)" by (auto simp: flights_ok_def)
    have "ms_sequence s \<in> fst ` set (ms_flight s)" using True assms(2) by force
    with assms(1) have "ms_timer s = None" unfolding search_ok_def by blast
    moreover have "\<not> ms_failed s" using assms(1) \<open>ms_sequence s \<in> _\<close> by (simp add: search_ok_def search_busy_def)
    moreover have "flights_ok (ms_sequence s) (ms_trimmed s) False (remove1 f (ms_flight s))"
      using fl rm True unfolding flights_ok_def by force
    ultimately show ?thesis using rm(3) f
      unfolding search_ok_def search_answered_def Let_def search_busy_def search_settled_def
      by (cases "service (ms_trimmed s)") simp_all
  next
    case False
    then have s': "search_answered f (service (fst (snd f))) s = s\<lparr>ms_flight := remove1 f (ms_flight s)\<rparr>"
      by (cases f; cases "service (fst (snd f))") (simp_all add: search_answered_def)
    have cur: "ms_sequence s \<in> fst ` set (remove1 f (ms_flight s)) \<longleftrightarrow> ms_sequence s \<in> fst ` set (ms_flight s)"
      using False unfolding rm(2) by auto
    have "flights_ok (ms_sequence s) (ms_trimmed s) (ms_loading s) (remove1 f (ms_flight s))"
      using fl rm unfolding flights_ok_def by auto
    with assms(1) cur show ?thesis unfolding s' search_ok_def search_busy_def by simp
  qed
qed

lemma search_initial_ok: "search_ok service search_initial"
  by (simp add: search_ok_def search_initial_def search_settled_def search_busy_def flights_ok_def)

lemma search_step_ok: "search_ok service s \<Longrightarrow> search_ok service (search_step service s e)"
  by (cases e) (simp_all add: query_ok timer_ok answered_ok)

lemma quiet_settled:
  assumes "search_ok service s" "ms_timer s = None" "\<not> ms_loading s"
  shows "search_settled service s"
proof -
  have "ms_sequence s \<notin> fst ` set (ms_flight s)" using assms(1,3) by (auto simp: search_ok_def flights_ok_def)
  with assms show ?thesis by (simp add: search_ok_def search_busy_def)
qed

interpretation search: reducer search_initial "search_step service" "search_ok service" for service
  by unfold_locales (rule search_initial_ok, rule search_step_ok)

section \<open>Properties\<close>

text \<open>
  C35: the clusters of the map are the events grouped by grid cell: every event is in exactly one cluster,
  clusters have distinct ids and are never empty, a cluster holds the events of its cell in order,
  and its marker, the mean of their positions, lies in that same cell.
\<close>

theorem clusters_group_by_cell:
  "let cs = buildClusters events zoom
   in mset (concat (map cl_events cs)) = mset events \<and> distinct (map cl_id cs)
    \<and> (\<forall>c\<in>set cs. cl_events c = filter (\<lambda>e. cell_key zoom e = cl_id c) events
         \<and> cl_totalCount c = length (cl_events c) \<and> cl_events c \<noteq> []
         \<and> (\<forall>e\<in>set (cl_events c). \<lfloor>cl_lng c / cellSize zoom\<rfloor> = \<lfloor>ev_lng e / cellSize zoom\<rfloor>
              \<and> \<lfloor>cl_lat c / cellSize zoom\<rfloor> = \<lfloor>ev_lat e / cellSize zoom\<rfloor>))"
proof -
  let ?ks = "set_of_array (map (cell_key zoom) events)" and ?F = "\<lambda>k. filter (\<lambda>e. cell_key zoom e = k) events"
  have cs: "buildClusters events zoom = map (\<lambda>k. cluster_of (k, ?F k)) ?ks"
    by (simp add: buildClusters_def cells_spec)
  have part: "mset (concat (map ?F ?ks)) = mset events" by (rule concat_groups) simp_all
  have centre: "\<lfloor>cl_lng (cluster_of (k, ?F k)) / cellSize zoom\<rfloor> = \<lfloor>ev_lng e / cellSize zoom\<rfloor>
      \<and> \<lfloor>cl_lat (cluster_of (k, ?F k)) / cellSize zoom\<rfloor> = \<lfloor>ev_lat e / cellSize zoom\<rfloor>" if e: "e \<in> set (?F k)" for k e
  proof -
    have ne: "?F k \<noteq> []" using e by (metis empty_iff empty_set)
    have same: "\<lfloor>ev_lng x / cellSize zoom\<rfloor> = \<lfloor>ev_lng e / cellSize zoom\<rfloor> \<and> \<lfloor>ev_lat x / cellSize zoom\<rfloor> = \<lfloor>ev_lat e / cellSize zoom\<rfloor>"
      if "x \<in> set (?F k)" for x
      using that e cell_key_eq [of zoom x e] by simp
    show ?thesis unfolding cluster_fields
      by (intro conjI floor_cell [OF ne _ cellSize_pos]) (use same in blast)+
  qed
  have ne: "?F k \<noteq> []" if "k \<in> set ?ks" for k using that by (auto simp: filter_empty_conv)
  have "\<forall>k\<in>set ?ks. ?F k \<noteq> [] \<and> (\<forall>e\<in>set (?F k).
      \<lfloor>cl_lng (cluster_of (k, ?F k)) / cellSize zoom\<rfloor> = \<lfloor>ev_lng e / cellSize zoom\<rfloor>
      \<and> \<lfloor>cl_lat (cluster_of (k, ?F k)) / cellSize zoom\<rfloor> = \<lfloor>ev_lat e / cellSize zoom\<rfloor>)"
    using ne centre by blast
  moreover have "distinct (map cl_id (map (\<lambda>k. cluster_of (k, ?F k)) ?ks))" by (simp add: comp_def)
  ultimately show ?thesis unfolding Let_def cs
    using part by (simp only: list.set_map ball_simps map_map comp_def cluster_fields(1-3)) simp
qed

definition sample_event :: "string \<Rightarrow> real \<Rightarrow> real \<Rightarrow> safety_event" where
  "sample_event i lat lng = \<lparr>ev_id = i, ev_event_type = ''FIRE'', ev_severity = ''HIGH'', ev_title = i, ev_lat = lat, ev_lng = lng,
     ev_state = '''', ev_is_active = True, ev_started_at = '''', ev_created_at = '''', ev_trust_state = None, ev_other = []\<rparr>"

theorem clusters_group_by_cell_witness:
  "\<exists>c\<in>set (buildClusters [sample_event ''a'' 1 1, sample_event ''b'' (- 10) 1] 0).
     cl_events c = [sample_event ''a'' 1 1] \<and> \<lfloor>cl_lat c / cellSize 0\<rfloor> = 0"
proof -
  let ?a = "sample_event ''a'' 1 1" and ?b = "sample_event ''b'' (- 10) 1"
  note p = clusters_group_by_cell [of "[?a, ?b]" 0, unfolded Let_def]
  have size: "cellSize 0 = 180" by (simp add: cellSize_def)
  have "?a \<in># mset (concat (map cl_events (buildClusters [?a, ?b] 0)))" using p by simp
  then obtain c where c: "c \<in> set (buildClusters [?a, ?b] 0)" "?a \<in> set (cl_events c)" by auto
  with p have ev: "cl_events c = filter (\<lambda>e. cell_key 0 e = cl_id c) [?a, ?b]"
    and lat: "\<lfloor>cl_lat c / cellSize 0\<rfloor> = \<lfloor>ev_lat ?a / cellSize 0\<rfloor>" by blast+
  have key: "cell_key 0 ?a = cl_id c" using c(2) ev by (auto split: if_splits)
  have "\<lfloor>(- 10 :: real) / 180\<rfloor> = - 1" "\<lfloor>(1 :: real) / 180\<rfloor> = 0" by linarith+
  then have "cell_key 0 ?a \<noteq> cell_key 0 ?b" by (simp add: cell_key_eq size sample_event_def)
  with ev key have "cl_events c = [?a]" by simp
  moreover have "\<lfloor>cl_lat c / cellSize 0\<rfloor> = 0" using lat by (simp add: size sample_event_def)
  ultimately show ?thesis using c(1) by blast
qed

text \<open>
  The cluster display does not flicker: while the zoom stays within an interval narrower than the gap
  between the two thresholds, it changes its mode at most once, whatever the sequence of zooms.
\<close>

theorem cluster_mode_stable:
  assumes "\<forall>z\<in>set zs. a \<le> z \<and> z \<le> b" "b - a < DISSOLVE_ZOOM - FORM_ZOOM"
  shows "sorted_wrt (\<longrightarrow>) (cluster_modes m zs) \<or> sorted_wrt (\<lambda>x y. y \<longrightarrow> x) (cluster_modes m zs)"
proof (cases "b < DISSOLVE_ZOOM")
  case True
  with assms(1) have "\<forall>z\<in>set zs. z < DISSOLVE_ZOOM" by auto
  then show ?thesis using modes_form by blast
next
  case False
  with assms have "\<forall>z\<in>set zs. FORM_ZOOM < z" by force
  then show ?thesis using modes_dissolve by blast
qed

theorem cluster_mode_stable_witness:
  "sorted_wrt (\<longrightarrow>) (cluster_modes True [13, 133 / 10, 13]) \<or> sorted_wrt (\<lambda>x y. y \<longrightarrow> x) (cluster_modes True [13, 133 / 10, 13])"
  by (rule cluster_mode_stable [of _ 13 "133 / 10"]) (simp_all add: DISSOLVE_ZOOM_def FORM_ZOOM_def)

text \<open>
  Clicking a cluster brings all of it into view: the bounds the camera is sent to contain every event
  of the cluster, and they are never degenerate. The same holds for a route with the position and
  the home.
\<close>

theorem camera_shows_all:
  "(e \<in> set evts \<longrightarrow> cb_west (focusCluster evts) \<le> ev_lng e \<and> ev_lng e \<le> cb_east (focusCluster evts)
      \<and> cb_south (focusCluster evts) \<le> ev_lat e \<and> ev_lat e \<le> cb_north (focusCluster evts)
      \<and> cb_west (focusCluster evts) < cb_east (focusCluster evts) \<and> cb_south (focusCluster evts) < cb_north (focusCluster evts))
   \<and> (fitRoutePreview routes i (Some l) (Some h) = Some b \<longrightarrow>
       (\<forall>(x, y)\<in>set (routes ! i) \<union> {(ll_lng l, ll_lat l), (ll_lng h, ll_lat h)}.
          cb_west b \<le> x \<and> x \<le> cb_east b \<and> cb_south b \<le> y \<and> y \<le> cb_north b))"
proof -
  have "cb_west (focusCluster evts) \<le> ev_lng e \<and> ev_lng e \<le> cb_east (focusCluster evts)
      \<and> cb_south (focusCluster evts) \<le> ev_lat e \<and> ev_lat e \<le> cb_north (focusCluster evts)
      \<and> cb_west (focusCluster evts) < cb_east (focusCluster evts) \<and> cb_south (focusCluster evts) < cb_north (focusCluster evts)"
    if "e \<in> set evts"
    unfolding focusCluster_def
    by (rule fit_points_contain [where points = "map (\<lambda>e. (ev_lng e, ev_lat e)) evts"]) (use that in auto)
  moreover have "\<forall>(x, y)\<in>set (routes ! i) \<union> {(ll_lng l, ll_lat l), (ll_lng h, ll_lat h)}.
      cb_west b \<le> x \<and> x \<le> cb_east b \<and> cb_south b \<le> y \<and> y \<le> cb_north b"
    if "fitRoutePreview routes i (Some l) (Some h) = Some b"
    using that fit_points_contain [of _ _ "routes ! i @ [(ll_lng l, ll_lat l), (ll_lng h, ll_lat h)]" b]
    by (auto simp: fitRoutePreview_def split: if_splits)
  ultimately show ?thesis by blast
qed

theorem camera_shows_all_witness:
  "cb_west (focusCluster [sample_event ''a'' 1 2]) < cb_east (focusCluster [sample_event ''a'' 1 2])"
  using camera_shows_all [of "sample_event ''a'' 1 2" "[sample_event ''a'' 1 2]"] by simp

text \<open>
  The device's position is watched exactly while the control says so: in every state the hook can
  reach, the browser runs one watch when the status is requesting, following or located, and none
  otherwise; a shown position exists in the last two; a position that was turned off is forgotten; and
  unmounting leaves no watch behind.
\<close>

theorem position_watch_exact:
  "let s = foldl (location_step supported) location_initial events
   in location_ok supported s \<and> length (lc_active s) \<le> 1
    \<and> (lc_active s \<noteq> [] \<longleftrightarrow> lc_status s \<in> {L_Requesting, L_Following, L_Located_not_following})
    \<and> lc_active (lc_unmount s) = []"
proof -
  define s where "s = foldl (location_step supported) location_initial events"
  have "location_ok supported s" unfolding s_def by (rule location.inv_reachable)
  then show ?thesis unfolding Let_def s_def [symmetric]
    by (cases "lc_watchId s") (auto simp: location_ok_def lc_unmount_def clearWatch_def)
qed

text \<open>
  The alert list: the confirmed and the unverified view are disjoint and together give the view of all
  alerts, in the same order, whatever the other filters.
\<close>

theorem alert_views_partition:
  "let all = alerts_filtered getTime now types F_ALL range_ms items;
       conf = alerts_filtered getTime now types F_CONFIRMED range_ms items;
       unv = alerts_filtered getTime now types F_UNVERIFIED range_ms items
   in conf = filter (\<lambda>e. trustStateOf e = Confirmed) all \<and> unv = filter isUnverified all \<and> mset conf + mset unv = mset all"
proof -
  have shown: "alert_shown getTime now types F_CONFIRMED range_ms e \<longleftrightarrow> alert_shown getTime now types F_ALL range_ms e \<and> trustStateOf e = Confirmed"
    "alert_shown getTime now types F_UNVERIFIED range_ms e \<longleftrightarrow> alert_shown getTime now types F_ALL range_ms e \<and> isUnverified e" for e
    by (auto simp: alert_shown_def isUnverified_def Let_def)
  then have conf: "alerts_filtered getTime now types F_CONFIRMED range_ms items =
      filter (\<lambda>e. trustStateOf e = Confirmed) (alerts_filtered getTime now types F_ALL range_ms items)"
    and unv: "alerts_filtered getTime now types F_UNVERIFIED range_ms items =
      filter isUnverified (alerts_filtered getTime now types F_ALL range_ms items)"
    by (auto simp: alerts_filtered_def intro: filter_cong)
  have "filter isUnverified xs = filter (\<lambda>e. \<not> trustStateOf e = Confirmed) xs" for xs
    by (simp add: isUnverified_def [abs_def])
  then show ?thesis unfolding Let_def conf unv by (simp add: multiset_partition [symmetric])
qed

text \<open>
  Once the search is quiet it shows the answer to the query in the field: in every state in which no
  timer is pending and nothing is loading, the results are those of the current query, or none with
  the failure shown when the service failed, or none for a query that is too short. Answers to
  earlier queries may arrive in any order and never replace them.
\<close>

theorem search_shows_current_query:
  "let s = foldl (search_step service) search_initial events
   in ms_timer s = None \<and> \<not> ms_loading s \<longrightarrow> search_settled service s"
proof -
  define s where "s = foldl (search_step service) search_initial events"
  have "search_ok service s" unfolding s_def by (rule search.inv_reachable)
  then show ?thesis unfolding Let_def s_def [symmetric] using quiet_settled by blast
qed

theorem search_shows_current_query_witness:
  "search_settled (\<lambda>q. ok [q]) (foldl (search_step (\<lambda>q. ok [q])) search_initial
     [Query_changed ''rome'', Timer_fired, Query_changed ''oslo'', Timer_fired, Answered (2, ''oslo'', False), Answered (1, ''rome'', True)])"
  using search_shows_current_query [of "\<lambda>q. ok [q]" "[Query_changed ''rome'', Timer_fired, Query_changed ''oslo'', Timer_fired,
     Answered (2, ''oslo'', False), Answered (1, ''rome'', True)]"]
  by (simp add: Let_def search_initial_def query_changed_def timer_fired_def search_answered_def)

end
