(* ===== verification/Backup.thy ===== *)
theory Backup
  imports CircleKeys
begin

text \<open>
  The passphrase-encrypted backup of the device vault: \<open>services/backupService.ts\<close>. The backup file
  is a JSON object; \<open>exportBackup\<close> returns that object, and \<open>decryptBackup\<close> takes any text that
  parses to it, whatever its indentation. The lemmas show that a backup decrypts to the vault it was
  made from and that restoring it puts the identity and every circle key on the new device.
\<close>

section \<open>Operations\<close>

definition FORMAT :: string where "FORMAT = ''sentinelmesh-vault-backup''"
definition FORMAT_VERSION :: int where "FORMAT_VERSION = 1"
definition PBKDF2_ITERATIONS :: int where "PBKDF2_ITERATIONS = 600000"

definition backup_file :: "bytes \<Rightarrow> bytes \<Rightarrow> bytes \<Rightarrow> json" where
  "backup_file salt iv ciphertext =
     JObj [(''format'', JStr FORMAT), (''version'', JInt FORMAT_VERSION),
       (''kdf'', JObj [(''name'', JStr ''PBKDF2''), (''hash'', JStr ''SHA-256''),
          (''iterations'', JInt PBKDF2_ITERATIONS), (''salt'', JStr (btoa salt))]),
       (''iv'', JStr (btoa iv)), (''ciphertext'', JStr (btoa ciphertext))]"

definition exportBackup ::
  "'k web_crypto \<Rightarrow> nostr_tools \<Rightarrow> bytes \<Rightarrow> bytes \<Rightarrow> string \<Rightarrow> 'k identity_db \<Rightarrow> ('k identity_db \<times> json) result" where
  "exportBackup wc lib salt iv passphrase db =
     (case loadVault wc db of
        None \<Rightarrow> throw ''No identity to back up''
      | Some payload \<Rightarrow>
          (let aesKey = wc_deriveKey wc passphrase salt PBKDF2_ITERATIONS;
               plaintext = wc_textEncode wc (encodeVaultPayload payload);
               ciphertext = wc_encrypt wc aesKey iv [] plaintext
           in ok (saveVaultMeta db (vaultFingerprint wc (tl_getPublicKey lib) db), backup_file salt iv ciphertext)))"

definition currentVaultId :: "'k web_crypto \<Rightarrow> nostr_tools \<Rightarrow> 'k identity_db \<Rightarrow> string" where
  "currentVaultId wc lib db = formatVaultId (vaultFingerprint wc (tl_getPublicKey lib) db)"

definition open_backup :: "'k web_crypto \<Rightarrow> string \<Rightarrow> json \<Rightarrow> vault_payload result" where
  "open_backup wc passphrase file =
     (case jget ''kdf'' file of
        None \<Rightarrow> throw ''TypeError''
      | Some kdf \<Rightarrow>
          bind_result (b64decode (jget ''salt'' kdf)) (\<lambda>salt.
          case field js_int ''iterations'' kdf of
            None \<Rightarrow> throw ''TypeError''
          | Some iterations \<Rightarrow>
              bind_result (b64decode (jget ''iv'' file)) (\<lambda>iv.
              bind_result (b64decode (jget ''ciphertext'' file)) (\<lambda>ciphertext.
                case wc_decrypt wc (wc_deriveKey wc passphrase salt iterations) iv [] ciphertext of
                  None \<Rightarrow> throw ''OperationError''
                | Some plain \<Rightarrow> decodeVaultPayload (wc_textDecode wc plain)))))"

definition decryptBackup :: "'k web_crypto \<Rightarrow> nostr_tools \<Rightarrow> string \<Rightarrow> string \<Rightarrow> (vault_payload \<times> string) result" where
  "decryptBackup wc lib fileText passphrase =
     (case json_parse fileText of
        None \<Rightarrow> throw ''Not a valid backup file''
      | Some file \<Rightarrow>
          throw_if (field js_str ''format'' file \<noteq> Some FORMAT \<or> field js_int ''version'' file \<noteq> Some FORMAT_VERSION)
            ''Unrecognized or unsupported backup file format''
            (recast ''Incorrect passphrase or corrupted backup file''
              (bind_result (open_backup wc passphrase file) (\<lambda>payload.
                 ok (payload, formatVaultId (fingerprintPayload wc (tl_getPublicKey lib) payload))))))"

record restore_result =
  rr_identityRestored :: bool
  rr_circlesRestored :: nat
  rr_circlesFailed :: "string list"

text \<open>The loop over the circles; \<open>ents n\<close> is what the \<open>n\<close>th save draws.\<close>

fun restore_circles ::
  "'k web_crypto \<Rightarrow> (nat \<Rightarrow> 'k vault_entropy) \<Rightarrow> nat \<Rightarrow> vault_circle list \<Rightarrow> 'k circle_state \<times> nat \<times> string list
     \<Rightarrow> 'k circle_state \<times> nat \<times> string list" where
  "restore_circles wc ents n [] acc = acc"
| "restore_circles wc ents n (c # cs) (st, restored, failed) =
     restore_circles wc ents (Suc n) cs
       (case saveCircleKeyWithBackup wc (ents n) (vc_id c) (vc_key c) (epoch_of c) st of
          Inr st' \<Rightarrow> (st'\<lparr>cs_local := addCircleId (cs_local st') (vc_id c)\<rparr>, Suc restored, failed)
        | Inl _ \<Rightarrow> (st, restored, failed @ [vc_id c]))"

definition applyRestore ::
  "'k web_crypto \<Rightarrow> nostr_tools \<Rightarrow> 'k vault_entropy \<Rightarrow> (nat \<Rightarrow> 'k vault_entropy) \<Rightarrow> vault_payload \<Rightarrow> identity_cache \<times> 'k circle_state
     \<Rightarrow> (identity_cache \<times> 'k circle_state) \<times> restore_result" where
  "applyRestore wc lib ent ents payload dev =
     (case restoreIdentityFromSecretKey wc ent lib (vp_identitySk payload) (fst dev, cs_vault (snd dev)) of
        ((cache, db), k) \<Rightarrow>
          (case restore_circles wc ents 0 (vp_circles payload) ((snd dev)\<lparr>cs_vault := db\<rparr>, 0, []) of
             (st, restored, failed) \<Rightarrow>
               ((cache, st), \<lparr>rr_identityRestored = True, rr_circlesRestored = restored, rr_circlesFailed = failed\<rparr>)))"

section \<open>Lemmas\<close>

lemma b64decode_btoa [simp]: "b64decode (Some (JStr (btoa bs))) = ok bs"
  by (simp add: b64decode_def)

lemma backup_opens:
  assumes "crypto_laws wc"
  shows "open_backup wc pass (backup_file salt iv (wc_encrypt wc (wc_deriveKey wc pass salt PBKDF2_ITERATIONS) iv []
      (wc_textEncode wc (encodeVaultPayload p)))) = ok (normal_payload p)"
  using assms by (simp add: open_backup_def backup_file_def jget_def payload_roundtrip crypto_laws_def)

lemma normal_payload_idem: "normal_payload (normal_payload p) = normal_payload p"
  by (simp add: normal_payload_def normal_circle_def epoch_of_def)

text \<open>Every circle of the payload is counted once.\<close>

lemma restore_circles_counts:
  "restore_circles wc ents n cs (st, r, f) = (st', r', f') \<Longrightarrow> r' + length f' = r + length f + length cs"
  by (induction wc ents n cs "(st, r, f)" arbitrary: st r f rule: restore_circles.induct) (auto split: sum.splits)

lemma restore_circles_all:
  assumes "crypto_laws wc" "\<forall>n. length (ve_iv (ents n)) = 12"
  shows "loadVault wc (cs_vault st) = Some v \<Longrightarrow> \<forall>c\<in>set cs. wc_importKey wc (vc_key c) False \<noteq> None
    \<Longrightarrow> restore_circles wc ents n cs (st, r, f) = (st', r', f')
    \<Longrightarrow> distinct (map (\<lambda>c. (vc_id c, epoch_of c)) cs)
    \<Longrightarrow> r' = r + length cs \<and> f' = f \<and> loadSecretKey wc (cs_vault st') = loadSecretKey wc (cs_vault st)
      \<and> (\<forall>c\<in>set cs. loadVaultCircleKey wc (cs_vault st') (vc_id c) (Some (epoch_of c)) = Some (vc_key c)
            \<and> get_key st' (vc_id c, epoch_of c) = wc_importKey wc (vc_key c) False)
      \<and> (\<forall>j e. (j, e) \<notin> (\<lambda>c. (vc_id c, epoch_of c)) ` set cs \<longrightarrow>
            loadVaultCircleKey wc (cs_vault st') j (Some e) = loadVaultCircleKey wc (cs_vault st) j (Some e)
            \<and> get_key st' (j, e) = get_key st (j, e))"
proof (induction cs arbitrary: n st r f v)
  case (Cons c cs)
  have iv: "length (ve_iv (ents n)) = 12" using assms(2) by simp
  from Cons.prems(2) obtain k where k: "wc_importKey wc (vc_key c) False = Some k" by auto
  let ?st = "upsert_in wc (ents n) (vc_id c) (vc_key c) (epoch_of c) (remove_legacy (vc_id c) (put_key st (vc_id c, epoch_of c) k))"
  let ?st' = "?st\<lparr>cs_local := addCircleId (cs_local ?st) (vc_id c)\<rparr>"
  have "saveCircleKeyWithBackup wc (ents n) (vc_id c) (vc_key c) (epoch_of c) st = ok ?st" using k by (simp add: saveWithBackup_ok)
  then have run: "restore_circles wc ents (Suc n) cs (?st', Suc r, f) = (st', r', f')" using Cons.prems(3) by simp
  note up = vault_upsert [OF assms(1) iv Cons.prems(1)]
  have cs': "cs_vault ?st' = upsertCircleKey wc (ents n) (cs_vault st) (vc_id c) (vc_key c) (epoch_of c)"
    by (simp add: put_key_def)
  obtain v' where v': "loadVault wc (cs_vault ?st') = Some v'" using up(1) unfolding cs' by blast
  have keys: "get_key ?st' k' = (if k' = (vc_id c, epoch_of c) then Some k else get_key st k')" for k'
  proof -
    have "get_key ?st' k' = get_key ?st k'" by (simp add: get_key_def idbGet_def)
    then show ?thesis by (simp add: circle_keys.get_put)
  qed
  have importable: "\<forall>c\<in>set cs. wc_importKey wc (vc_key c) False \<noteq> None"
      and dist: "distinct (map (\<lambda>c. (vc_id c, epoch_of c)) cs)"
      and new: "(vc_id c, epoch_of c) \<notin> (\<lambda>c. (vc_id c, epoch_of c)) ` set cs"
    using Cons.prems(2,4) by auto
  from Cons.IH [OF v' importable run dist] new k show ?case
    unfolding cs' up(3) by (auto simp: keys up(2))
qed simp

lemma backup_decrypts:
  assumes "crypto_laws wc" and "exportBackup wc lib salt iv pass db = ok (db', file)" and "json_parse fileText = Some file"
    and "loadVault wc db = Some v"
  shows "decryptBackup wc lib fileText pass = ok (normal_payload v, currentVaultId wc lib db)"
proof -
  have fileq: "file = backup_file salt iv (wc_encrypt wc (wc_deriveKey wc pass salt PBKDF2_ITERATIONS) iv [] (wc_textEncode wc (encodeVaultPayload v)))"
    using assms(2,4) by (simp add: exportBackup_def Let_def)
  have fmt: "field js_str ''format'' file = Some FORMAT" "field js_int ''version'' file = Some FORMAT_VERSION"
    by (simp_all add: fileq backup_file_def)
  have fp: "fingerprintPayload wc pub (normal_payload v) = fingerprintPayload wc pub v" for pub
    by (simp add: fingerprintPayload_def normal_payload_def normal_circle_def comp_def)
  have "open_backup wc pass file = ok (normal_payload v)" unfolding fileq by (rule backup_opens [OF assms(1)])
  then show ?thesis
    by (simp add: decryptBackup_def assms(3,4) fmt recast_def fp currentVaultId_def vaultFingerprint_def)
qed

lemma restore_applied:
  assumes "crypto_laws wc" and "\<forall>c\<in>set (vp_circles v). wc_importKey wc (vc_key c) False \<noteq> None"
    and "distinct (map (\<lambda>c. (vc_id c, epoch_of c)) (vp_circles v))"
    and "length (ve_iv ent) = 12" and "\<forall>n. length (ve_iv (ents n)) = 12"
    and "applyRestore wc lib ent ents (normal_payload v) dev = ((cache, st), r)"
  shows "r = \<lparr>rr_identityRestored = True, rr_circlesRestored = length (vp_circles v), rr_circlesFailed = []\<rparr>
    \<and> ic_keypair cache = Some (keypair_of lib (vp_identitySk v)) \<and> loadSecretKey wc (cs_vault st) = Some (vp_identitySk v)
    \<and> (\<forall>c\<in>set (vp_circles v). loadVaultCircleKey wc (cs_vault st) (vc_id c) (Some (epoch_of c)) = Some (vc_key c)
          \<and> get_key st (vc_id c, epoch_of c) = wc_importKey wc (vc_key c) False)"
proof -
  let ?st0 = "(snd dev)\<lparr>cs_vault := saveSecretKey wc ent (cs_vault (snd dev)) (vp_identitySk v)\<rparr>"
  let ?cs = "map normal_circle (vp_circles v)"
  obtain st1 r1 f1 where run: "restore_circles wc ents 0 ?cs (?st0, 0, []) = (st1, r1, f1)" by (metis prod_cases3)
  have cache: "cache = \<lparr>ic_keypair = Some (keypair_of lib (vp_identitySk v)), ic_init = No_Init\<rparr>"
      and st: "st = st1" and r: "r = \<lparr>rr_identityRestored = True, rr_circlesRestored = r1, rr_circlesFailed = f1\<rparr>"
    using assms(6) run by (simp_all add: applyRestore_def restoreIdentityFromSecretKey_def adopt_key_def normal_payload_def Let_def)
  obtain v0 where v0: "loadVault wc (cs_vault ?st0) = Some v0" and sk: "loadSecretKey wc (cs_vault ?st0) = Some (vp_identitySk v)"
    using load_saved [OF assms(1,4)] by (simp add: saveSecretKey_def saveSecretKeyUnlocked_def loadSecretKey_def normal_payload_def)
  have same: "vc_id (normal_circle c) = vc_id c" "vc_key (normal_circle c) = vc_key c" "epoch_of (normal_circle c) = epoch_of c" for c
    by (simp_all add: normal_circle_def epoch_of_def)
  have "\<forall>c\<in>set ?cs. wc_importKey wc (vc_key c) False \<noteq> None" "distinct (map (\<lambda>c. (vc_id c, epoch_of c)) ?cs)"
    using assms(2,3) by (simp_all add: same comp_def)
  from restore_circles_all [OF assms(1,5) v0 this(1) run this(2)] sk show ?thesis by (simp add: cache st r same)
qed

text \<open>
  C21: a backup restores the device. What is exported under a passphrase decrypts, under the same
  passphrase and from any text that parses to the file, to the vault it was made from, and shows
  that vault's id before anything is written. Applying it to another device makes the exported
  identity the one stored and cached, and if every key can be imported, restores every circle with
  no failure: each circle key is in the new vault and in the new key store.
\<close>

theorem backup_restores_device:
  assumes "crypto_laws wc" and "exportBackup wc lib salt iv pass db = ok (db', file)" and "json_parse fileText = Some file"
    and "loadVault wc db = Some v" and "\<forall>c\<in>set (vp_circles v). wc_importKey wc (vc_key c) False \<noteq> None"
    and "distinct (map (\<lambda>c. (vc_id c, epoch_of c)) (vp_circles v))"
    and "length (ve_iv ent) = 12" and "\<forall>n. length (ve_iv (ents n)) = 12"
    and "applyRestore wc lib ent ents (normal_payload v) dev = ((cache, st), r)"
  shows "decryptBackup wc lib fileText pass = ok (normal_payload v, currentVaultId wc lib db)
    \<and> r = \<lparr>rr_identityRestored = True, rr_circlesRestored = length (vp_circles v), rr_circlesFailed = []\<rparr>
    \<and> ic_keypair cache = Some (keypair_of lib (vp_identitySk v)) \<and> loadSecretKey wc (cs_vault st) = Some (vp_identitySk v)
    \<and> (\<forall>c\<in>set (vp_circles v). loadVaultCircleKey wc (cs_vault st) (vc_id c) (Some (epoch_of c)) = Some (vc_key c)
          \<and> get_key st (vc_id c, epoch_of c) = wc_importKey wc (vc_key c) False)"
  using backup_decrypts [OF assms(1-4)] restore_applied [OF assms(1,5-9)] by blast

theorem backup_restores_device_witness:
  "\<exists>st cache r. applyRestore plain_crypto plain_tools sample_vault_entropy (\<lambda>_. sample_vault_entropy)
      (normal_payload \<lparr>vp_identitySk = [1], vp_circles = []\<rparr>) (empty_cache, sample_circle_state) = ((cache, st), r)
    \<and> loadSecretKey plain_crypto (cs_vault st) = Some [1]"
proof -
  let ?v = "\<lparr>vp_identitySk = [1], vp_circles = []\<rparr> :: vault_payload" and ?db = "cs_vault sample_circle_state"
  have v: "loadVault plain_crypto ?db = Some ?v"
    by (simp add: sample_circle_state_def saveVault_def load_saved [OF plain_crypto_laws sample_iv] normal_payload_def)
  obtain db' bf where ex: "exportBackup plain_crypto plain_tools [] [] ''p'' ?db = ok (db', bf)"
      and fileq: "bf = backup_file [] [] (wc_encrypt plain_crypto (wc_deriveKey plain_crypto ''p'' [] PBKDF2_ITERATIONS) [] []
        (wc_textEncode plain_crypto (encodeVaultPayload ?v)))"
    by (simp add: exportBackup_def v Let_def)
  have parse: "json_parse (stringify bf) = Some bf"
    by (rule json_roundtrip) (simp add: fileq backup_file_def)
  obtain cache st r where ap: "applyRestore plain_crypto plain_tools sample_vault_entropy (\<lambda>_. sample_vault_entropy)
      (normal_payload ?v) (empty_cache, sample_circle_state) = ((cache, st), r)" by (metis prod.collapse)
  have "\<forall>c\<in>set (vp_circles ?v). wc_importKey plain_crypto (vc_key c) False \<noteq> None"
    "distinct (map (\<lambda>c. (vc_id c, epoch_of c)) (vp_circles ?v))" "\<forall>n :: nat. length (ve_iv sample_vault_entropy) = 12"
    using sample_iv by simp_all
  from backup_restores_device [OF plain_crypto_laws ex parse v this(1,2) sample_iv this(3) ap] ap show ?thesis by auto
qed

end
