(* ===== verification/Pages.thy ===== *)
theory Pages
  imports MapView Backup
begin

text \<open>
  The forms that submit something or change the device: community reports and votes
  (\<open>components/ReportSubmit.tsx\<close>, \<open>components/ReportList.tsx\<close>), the alert perimeter
  (\<open>hooks/usePushSubscription.ts\<close>), the home location (\<open>components/HomeRoutePanel.tsx\<close>,
  \<open>pages/LiveMapPage.tsx\<close>) and the settings page (\<open>pages/SettingsPage.tsx\<close>). The lemmas show that a
  submission carries a signature over the content it submits, that the alert perimeter never leaves
  the device at more than two decimals, that a confirmed home is there after a reload, and that the
  settings page takes an identity from one device to another.

  A coordinate is the decimal JavaScript prints for it. The dash of some messages is not an 8-bit
  character and is an argument.
\<close>

section \<open>Reports and votes\<close>

definition opt_str :: "string option \<Rightarrow> json" where
  "opt_str x = (case x of None \<Rightarrow> JNull | Some s \<Rightarrow> JStr s)"

definition non_empty :: "string \<Rightarrow> string option" where
  "non_empty s = (if s = '''' then None else Some s)"

datatype submit_state = S_Idle | S_Locating | S_Submitting | S_Error

record report_form =
  rf_reportType :: string
  rf_description :: string
  rf_submitState :: submit_state
  rf_errorMsg :: "string option"
  rf_closed :: bool

definition report_json :: "report_form \<Rightarrow> jnum \<times> jnum \<Rightarrow> string option \<Rightarrow> string option \<Rightarrow> nostr_event \<Rightarrow> json" where
  "report_json form pos photoCid linkedEventId e =
     JObj [(''report_type'', JStr (rf_reportType form)), (''description'', opt_str (non_empty (rf_description form))),
       (''lat'', JNum (fst pos)), (''lng'', JNum (snd pos)), (''photo_ipfs_cid'', opt_str photoCid),
       (''linked_event_id'', opt_str linkedEventId), (''nostr_pubkey'', JStr (ne_pubkey e)), (''nostr_event'', event_json e)]"

text \<open>\<open>sign\<close> is \<open>signEventAsync\<close> of the active identity for this moment.\<close>

definition report_request ::
  "(nostr_template \<Rightarrow> nostr_event result) \<Rightarrow> int \<Rightarrow> string \<Rightarrow> report_form \<Rightarrow> jnum \<times> jnum \<Rightarrow> string option \<Rightarrow> string option
     \<Rightarrow> http_request result" where
  "report_request sign now apiBase form pos photoCid linkedEventId =
     bind_result
       (sign (bound_template now (reportBindingContent (rf_reportType form) (jnum_val (fst pos)) (jnum_val (snd pos))
          (non_empty (rf_description form))))) (\<lambda>e.
       ok \<lparr>hr_url = apiBase @ ''/api/reports'', hr_method = ''POST'', hr_headers = [(''Content-Type'', ''application/json'')],
           hr_body = Some (stringify (report_json form pos photoCid linkedEventId e))\<rparr>)"

text \<open>
  \<open>located\<close> is what the browser answers for the position, \<open>photoCid\<close> what became of the photo (none
  when there is no photo, when the feature is off, or when processing it failed).
\<close>

definition handleSubmit ::
  "(nostr_template \<Rightarrow> nostr_event result) \<Rightarrow> int \<Rightarrow> string \<Rightarrow> (http_request \<Rightarrow> http_reply result) \<Rightarrow> string
     \<Rightarrow> (jnum \<times> jnum) option \<Rightarrow> string option \<Rightarrow> string option \<Rightarrow> report_form \<times> reports_state \<Rightarrow> report_form \<times> reports_state" where
  "handleSubmit sign now apiBase fetch dash located photoCid linkedEventId = (\<lambda>(form, reports).
     case located of
       None \<Rightarrow> (form\<lparr>rf_submitState := S_Error,
                    rf_errorMsg := Some (''Location unavailable '' @ dash @ '' please enable GPS and try again'')\<rparr>, reports)
     | Some pos \<Rightarrow>
         (let submitting = form\<lparr>rf_submitState := S_Submitting, rf_errorMsg := None\<rparr>;
              failed = (\<lambda>m. (submitting\<lparr>rf_submitState := S_Error, rf_errorMsg := Some m\<rparr>, reports))
          in case bind_result (report_request sign now apiBase form pos photoCid linkedEventId) fetch of
               Inl err \<Rightarrow> failed err
             | Inr reply \<Rightarrow>
                 if \<not> hp_ok reply then
                   failed (''Submit failed ('' @ int_str (hp_status reply) @ '') '' @ dash @ '' please try again'')
                 else
                   (case hp_json reply of
                      None \<Rightarrow> failed ''invalid JSON''
                    | Some body \<Rightarrow>
                        (submitting\<lparr>rf_closed := True\<rparr>,
                         case parseReport body of Some r \<Rightarrow> reportReceived reports r | None \<Rightarrow> reports))))"

text \<open>A vote; without a position it is sent without one.\<close>

definition opt_num :: "jnum option \<Rightarrow> json" where
  "opt_num x = (case x of None \<Rightarrow> JNull | Some n \<Rightarrow> JNum n)"

definition vote_json :: "string \<Rightarrow> (jnum \<times> jnum) option \<Rightarrow> nostr_event \<Rightarrow> json" where
  "vote_json vote located e =
     JObj [(''voter_pubkey'', JStr (ne_pubkey e)), (''vote'', JStr vote), (''voter_nostr_event'', event_json e),
       (''voter_lat'', opt_num (map_option fst located)), (''voter_lng'', opt_num (map_option snd located))]"

definition vote_request ::
  "(nostr_template \<Rightarrow> nostr_event result) \<Rightarrow> int \<Rightarrow> string \<Rightarrow> string \<Rightarrow> string \<Rightarrow> (jnum \<times> jnum) option \<Rightarrow> http_request result" where
  "vote_request sign now apiBase reportId vote located =
     bind_result (sign (bound_template now (voteBindingContent vote reportId))) (\<lambda>e.
       ok \<lparr>hr_url = apiBase @ ''/api/reports/'' @ reportId @ ''/vote'', hr_method = ''POST'',
           hr_headers = [(''Content-Type'', ''application/json'')], hr_body = Some (stringify (vote_json vote located e))\<rparr>)"

definition castVote ::
  "(nostr_template \<Rightarrow> nostr_event result) \<Rightarrow> int \<Rightarrow> string \<Rightarrow> (http_request \<Rightarrow> http_reply result) \<Rightarrow> string \<Rightarrow> string
     \<Rightarrow> (jnum \<times> jnum) option \<Rightarrow> reports_state \<Rightarrow> reports_state" where
  "castVote sign now apiBase fetch reportId vote located reports =
     (case bind_result (vote_request sign now apiBase reportId vote located) fetch of
        Inl _ \<Rightarrow> reports
      | Inr reply \<Rightarrow>
          if \<not> hp_ok reply then reports
          else (case Option.bind (hp_json reply) parseReport of Some r \<Rightarrow> reportReceived reports r | None \<Rightarrow> reports))"

section \<open>The home location\<close>

record home_panel =
  hm_pendingHome :: "home_location option"
  hm_message :: "string option"

definition chooseSuggestion :: "home_location \<Rightarrow> home_panel \<Rightarrow> home_panel" where
  "chooseSuggestion suggestion p = p\<lparr>hm_pendingHome := Some suggestion, hm_message := None\<rparr>"

definition confirmHome ::
  "'k web_crypto \<Rightarrow> 'k vault_entropy \<Rightarrow> 'k identity_db \<times> ui_state \<times> home_panel \<Rightarrow> 'k identity_db \<times> ui_state \<times> home_panel" where
  "confirmHome wc ent = (\<lambda>(db, ui, p).
     case hm_pendingHome p of
       None \<Rightarrow> (db, ui, p)
     | Some home \<Rightarrow>
         (case saveHomeLocation wc ent db home of
            Inl _ \<Rightarrow> (db, ui, p\<lparr>hm_message := Some ''Home could not be saved on this device. Check private browsing or storage settings.''\<rparr>)
          | Inr db' \<Rightarrow>
              (db', ui_reducer (ui_reducer ui (SetHomeLocation home)) HomeRoutesCleared,
               p\<lparr>hm_pendingHome := None, hm_message := Some ''Home saved, encrypted and stored only on this device.''\<rparr>)))"

definition clearSavedHome :: "'k identity_db \<times> ui_state \<times> home_panel \<Rightarrow> 'k identity_db \<times> ui_state \<times> home_panel" where
  "clearSavedHome = (\<lambda>(db, ui, p).
     (clearHomeLocation db, ui_reducer (ui_reducer ui ClearHomeLocation) HomeRoutesCleared,
      p\<lparr>hm_pendingHome := None, hm_message := Some ''Saved home cleared from this device.''\<rparr>))"

text \<open>The effect of the map page that loads the home; \<open>active\<close> is false after its cleanup.\<close>

definition home_loaded :: "'k web_crypto \<Rightarrow> bool \<Rightarrow> 'k identity_db \<times> ui_state \<Rightarrow> 'k identity_db \<times> ui_state" where
  "home_loaded wc active = (\<lambda>(db, ui).
     case loadHomeLocation wc db of
       (db', Some home) \<Rightarrow> (db', if active then ui_reducer ui (SetHomeLocation home) else ui)
     | (db', None) \<Rightarrow> (db', ui))"

section \<open>The alert perimeter\<close>

definition PREFERENCES_KEY :: string where "PREFERENCES_KEY = ''sentinelmesh-push-perimeter-v1''"

record push_preferences =
  pp_minSeverity :: string
  pp_radiusKm :: jnum
  pp_center :: "(jnum \<times> jnum) option"

datatype push_state = P_Unsupported | P_Idle | P_Enabled | P_Denied | P_Working | P_Error

definition matchesSeverity :: "string \<Rightarrow> bool" where
  "matchesSeverity value \<longleftrightarrow> value \<in> {''LOW'', ''MEDIUM'', ''HIGH'', ''CRITICAL''}"

definition center_json :: "jnum \<times> jnum \<Rightarrow> json" where
  "center_json c = JObj [(''lat'', JNum (fst c)), (''lng'', JNum (snd c))]"

definition preferences_json :: "push_preferences \<Rightarrow> json" where
  "preferences_json p =
     JObj [(''minSeverity'', JStr (pp_minSeverity p)), (''radiusKm'', JNum (pp_radiusKm p)),
       (''center'', case pp_center p of None \<Rightarrow> JNull | Some c \<Rightarrow> center_json c)]"

definition default_preferences :: push_preferences where
  "default_preferences = \<lparr>pp_minSeverity = ''HIGH'', pp_radiusKm = Dec 15 0, pp_center = None\<rparr>"

definition jnum_field :: "string \<Rightarrow> json \<Rightarrow> jnum option" where
  "jnum_field k v = (case jget k v of Some (JNum x) \<Rightarrow> Some x | _ \<Rightarrow> None)"

text \<open>The stored value, when it passes the checks; the hook itself stores strings and numbers only.\<close>

definition loadPushPreferences :: "local_storage \<Rightarrow> push_preferences" where
  "loadPushPreferences ls =
     (case Option.bind (idb_get ls PREFERENCES_KEY) json_parse of
        None \<Rightarrow> default_preferences
      | Some value \<Rightarrow>
          (case (jstr ''minSeverity'' value, jnum_field ''radiusKm'' value, Option.bind (jget ''center'' value) (jnum_field ''lat''),
                 Option.bind (jget ''center'' value) (jnum_field ''lng'')) of
             (Some severity, Some radius, Some lat, Some lng) \<Rightarrow>
               (if matchesSeverity severity \<and> jnum_val radius \<ge> 1 \<and> jnum_val radius \<le> 100
                   \<and> \<bar>jnum_val lat\<bar> \<le> 90 \<and> \<bar>jnum_val lng\<bar> \<le> 180
                then \<lparr>pp_minSeverity = severity, pp_radiusKm = radius, pp_center = Some (lat, lng)\<rparr>
                else default_preferences)
           | _ \<Rightarrow> default_preferences))"

text \<open>\<open>Number(x.toFixed(2))\<close>, as the decimal JavaScript prints for it.\<close>

fun jnum_norm :: "int \<Rightarrow> nat \<Rightarrow> jnum" where
  "jnum_norm m 0 = Dec m 0"
| "jnum_norm m (Suc s) = (if m mod 10 = 0 then jnum_norm (m div 10) s else Dec m (Suc s))"

definition coarse :: "jnum \<Rightarrow> jnum" where
  "coarse x = jnum_norm ((if jnum_val x < 0 then - 1 else 1) * int (fixed_abs 2 (jnum_val x))) 2"

definition coarse_center :: "jnum \<times> jnum \<Rightarrow> jnum \<times> jnum" where
  "coarse_center c = (coarse (fst c), coarse (snd c))"

definition push_body :: "json \<Rightarrow> string \<Rightarrow> jnum \<times> jnum \<Rightarrow> jnum \<Rightarrow> json" where
  "push_body subscription severity center radius =
     JObj [(''subscription'', subscription), (''min_severity'', JStr severity), (''center_lat'', JNum (fst center)),
       (''center_lng'', JNum (snd center)), (''radius_km'', JNum radius)]"

text \<open>
  The hook: its state, the stored preferences, the browser's push subscription (its JSON), and the
  requests it made. The answers of the alert service, of the permission prompt and of the push manager
  are arguments of the events.
\<close>

record push_hook =
  ph_state :: push_state
  ph_error :: "string option"
  ph_ls :: local_storage
  ph_subscription :: "json option"
  ph_requests :: "(string \<times> json) list"

definition push_initial :: "bool \<Rightarrow> push_hook" where
  "push_initial supported = \<lparr>ph_state = (if supported then P_Idle else P_Unsupported), ph_error = None, ph_ls = [],
     ph_subscription = None, ph_requests = []\<rparr>"

definition push_mount :: "bool \<Rightarrow> bool \<Rightarrow> unit result \<Rightarrow> push_hook \<Rightarrow> push_hook" where
  "push_mount supported denied reply s =
     (if \<not> supported then s
      else if denied then s\<lparr>ph_state := P_Denied\<rparr>
      else
        (let saved = loadPushPreferences (ph_ls s)
         in case pp_center saved of
              None \<Rightarrow> s
            | Some center \<Rightarrow>
                if \<not> truthy (idb_get (ph_ls s) PREFERENCES_KEY) then s
                else
                  (case ph_subscription s of
                     None \<Rightarrow> s\<lparr>ph_state := P_Idle\<rparr>
                   | Some sub \<Rightarrow>
                       s\<lparr>ph_requests := ph_requests s @
                            [(''POST'', push_body sub (pp_minSeverity saved) center (pp_radiusKm saved))],
                         ph_state := (case reply of Inr _ \<Rightarrow> P_Enabled | Inl _ \<Rightarrow> P_Error)\<rparr>)))"

datatype permission = Granted | Permission_denied | Permission_default

definition push_enable ::
  "bool \<Rightarrow> permission \<Rightarrow> json result \<Rightarrow> unit result \<Rightarrow> push_preferences \<Rightarrow> push_hook \<Rightarrow> push_hook" where
  "push_enable supported permission subscribe reply p s =
     (case pp_center p of
        None \<Rightarrow> s
      | Some center \<Rightarrow>
          if \<not> supported then s
          else if permission \<noteq> Granted then
            s\<lparr>ph_error := None, ph_state := (if permission = Permission_denied then P_Denied else P_Idle)\<rparr>
          else
            (case (case ph_subscription s of Some sub \<Rightarrow> ok sub | None \<Rightarrow> subscribe) of
               Inl err \<Rightarrow> s\<lparr>ph_error := Some err, ph_state := P_Error\<rparr>
             | Inr sub \<Rightarrow>
                 (let s1 = s\<lparr>ph_error := None, ph_subscription := Some sub,
                        ph_requests := ph_requests s @
                          [(''POST'', push_body sub (pp_minSeverity p) (coarse_center center) (pp_radiusKm p))]\<rparr>
                  in case reply of
                       Inl err \<Rightarrow> s1\<lparr>ph_error := Some err, ph_state := P_Error\<rparr>
                     | Inr _ \<Rightarrow>
                         s1\<lparr>ph_ls := idb_put (ph_ls s1) PREFERENCES_KEY
                              (stringify (preferences_json (p\<lparr>pp_center := Some (coarse_center center)\<rparr>))),
                            ph_state := P_Enabled\<rparr>)))"

definition push_disable :: "bool \<Rightarrow> string \<Rightarrow> unit result \<Rightarrow> push_hook \<Rightarrow> push_hook" where
  "push_disable supported endpoint reply s =
     (if \<not> supported then s
      else
        (case ph_subscription s of
           None \<Rightarrow> s\<lparr>ph_error := None, ph_ls := idb_del (ph_ls s) PREFERENCES_KEY, ph_state := P_Idle\<rparr>
         | Some _ \<Rightarrow>
             (let s1 = s\<lparr>ph_error := None, ph_requests := ph_requests s @ [(''DELETE'', JObj [(''endpoint'', JStr endpoint)])]\<rparr>
              in case reply of
                   Inl err \<Rightarrow> s1\<lparr>ph_error := Some err, ph_state := P_Error\<rparr>
                 | Inr _ \<Rightarrow> s1\<lparr>ph_subscription := None, ph_ls := idb_del (ph_ls s1) PREFERENCES_KEY, ph_state := P_Idle\<rparr>)))"

datatype push_event =
    Push_mount bool "unit result"
  | Push_enable permission "json result" "unit result" push_preferences
  | Push_disable string "unit result"

fun push_step :: "bool \<Rightarrow> push_hook \<Rightarrow> push_event \<Rightarrow> push_hook" where
  "push_step supported s (Push_mount denied reply) = push_mount supported denied reply s"
| "push_step supported s (Push_enable permission subscribe reply p) = push_enable supported permission subscribe reply p s"
| "push_step supported s (Push_disable endpoint reply) = push_disable supported endpoint reply s"

section \<open>The settings page\<close>

datatype stale_badge = Badge_none | No_backup | Stale

text \<open>The device and what the page shows.\<close>

record 'k settings_page =
  sp_cache :: identity_cache
  sp_circles :: "'k circle_state"
  sp_keypair :: "nostr_keypair option"
  sp_nsecInput :: string
  sp_importMsg :: "(string \<times> bool) option"
  sp_staleBadge :: stale_badge
  sp_exportPass :: string
  sp_exportPass2 :: string
  sp_shownVaultId :: "string option"
  sp_backupMsg :: "(string \<times> bool) option"
  sp_pendingPayload :: "(vault_payload \<times> string) option"

definition refreshStaleness :: "'k web_crypto \<Rightarrow> nostr_tools \<Rightarrow> 'k settings_page \<Rightarrow> 'k settings_page" where
  "refreshStaleness wc lib s =
     s\<lparr>sp_staleBadge :=
        (if \<not> truthy (loadVaultMeta (cs_vault (sp_circles s))) then No_backup
         else if loadVaultMeta (cs_vault (sp_circles s)) = Some (vaultFingerprint wc (tl_getPublicKey lib) (cs_vault (sp_circles s)))
         then Badge_none else Stale)\<rparr>"

definition handleImport ::
  "'k web_crypto \<Rightarrow> 'k vault_entropy \<Rightarrow> nostr_tools \<Rightarrow> (string \<Rightarrow> nip19_data option) \<Rightarrow> string \<Rightarrow> 'k settings_page \<Rightarrow> 'k settings_page" where
  "handleImport wc ent lib nip19_decode invalid s =
     (let trimmed = trim (sp_nsecInput s)
      in if trimmed = '''' then s
         else
           (case importFromNsec wc ent lib nip19_decode trimmed (sp_cache s, cs_vault (sp_circles s)) of
              ((cache, db), Some k) \<Rightarrow>
                s\<lparr>sp_cache := cache, sp_circles := (sp_circles s)\<lparr>cs_vault := db\<rparr>, sp_keypair := Some k, sp_nsecInput := '''',
                  sp_importMsg := Some (''Key imported and saved on this device.'', True)\<rparr>
            | ((cache, db), None) \<Rightarrow> s\<lparr>sp_importMsg := Some (invalid, False)\<rparr>))"

definition handleGenerate ::
  "'k web_crypto \<Rightarrow> 'k vault_entropy \<Rightarrow> nostr_tools \<Rightarrow> bytes \<Rightarrow> bool \<Rightarrow> 'k settings_page \<Rightarrow> 'k settings_page" where
  "handleGenerate wc ent lib generated confirmed s =
     (if \<not> confirmed then s
      else
        (case generateNewIdentity wc ent lib generated (sp_cache s, cs_vault (sp_circles s)) of
           ((cache, db), k) \<Rightarrow>
             s\<lparr>sp_cache := cache, sp_circles := (sp_circles s)\<lparr>cs_vault := db\<rparr>, sp_keypair := Some k,
               sp_importMsg := Some (''New key generated and saved.'', True)\<rparr>))"

text \<open>The export also gives the file that is downloaded, if any.\<close>

definition handleExport ::
  "'k web_crypto \<Rightarrow> nostr_tools \<Rightarrow> bytes \<Rightarrow> bytes \<Rightarrow> 'k settings_page \<Rightarrow> 'k settings_page \<times> json option" where
  "handleExport wc lib salt iv s =
     (if length (sp_exportPass s) < 12 then
        (s\<lparr>sp_backupMsg := Some (''Passphrase must be at least 12 characters.'', False)\<rparr>, None)
      else if sp_exportPass s \<noteq> sp_exportPass2 s then
        (s\<lparr>sp_backupMsg := Some (''Passphrases do not match.'', False)\<rparr>, None)
      else
        (case exportBackup wc lib salt iv (sp_exportPass s) (cs_vault (sp_circles s)) of
           Inl _ \<Rightarrow> (s\<lparr>sp_backupMsg := Some (''Export failed on this device.'', False)\<rparr>, None)
         | Inr (db, file) \<Rightarrow>
             (refreshStaleness wc lib
                (s\<lparr>sp_circles := (sp_circles s)\<lparr>cs_vault := db\<rparr>, sp_shownVaultId := Some (currentVaultId wc lib db),
                   sp_exportPass := '''', sp_exportPass2 := '''',
                   sp_backupMsg := Some (''Backup downloaded. Note your Vault ID to verify it later.'', True)\<rparr>), Some file)))"

definition handleFilePicked ::
  "'k web_crypto \<Rightarrow> nostr_tools \<Rightarrow> string \<Rightarrow> string \<Rightarrow> 'k settings_page \<Rightarrow> 'k settings_page" where
  "handleFilePicked wc lib fileText passphrase s =
     (case decryptBackup wc lib fileText passphrase of
        Inl err \<Rightarrow> s\<lparr>sp_backupMsg := Some (err, False)\<rparr>
      | Inr decoded \<Rightarrow> s\<lparr>sp_pendingPayload := Some decoded, sp_backupMsg := None\<rparr>)"

definition restore_message :: "restore_result \<Rightarrow> string \<times> bool" where
  "restore_message r =
     (let failed = length (rr_circlesFailed r)
      in (''Restored your identity and '' @ nat_str (rr_circlesRestored r) @ '' circle(s)''
            @ (if failed \<noteq> 0 then ''; '' @ nat_str failed @ '' could not be restored.'' else ''.''), failed = 0))"

definition handleConfirmRestore ::
  "'k web_crypto \<Rightarrow> nostr_tools \<Rightarrow> 'k vault_entropy \<Rightarrow> (nat \<Rightarrow> 'k vault_entropy) \<Rightarrow> bool \<Rightarrow> 'k settings_page \<Rightarrow> 'k settings_page" where
  "handleConfirmRestore wc lib ent ents confirmed s =
     (case sp_pendingPayload s of
        None \<Rightarrow> s
      | Some (payload, vaultId) \<Rightarrow>
          if \<not> confirmed then s
          else
            (case applyRestore wc lib ent ents payload (sp_cache s, sp_circles s) of
               ((cache, st), r) \<Rightarrow>
                 (case loadIdentity cache of
                    (cache', k) \<Rightarrow>
                      refreshStaleness wc lib
                        (s\<lparr>sp_cache := cache', sp_circles := st, sp_pendingPayload := None, sp_keypair := k,
                           sp_backupMsg := Some (restore_message r)\<rparr>))))"

section \<open>Lemmas\<close>

lemma jget_JObj [simp]: "jget k (JObj kvs) = map_of kvs k"
  by (simp add: jget_def)

lemma jwf_opt [simp]: "jwf (opt_str x)" "jwf (opt_num y)"
  by (simp_all add: opt_str_def opt_num_def split: option.splits)

lemma jwf_event [simp]: "jwf (event_json e)"
  by (simp add: event_json_def)

lemma report_json_read:
  "json_parse (stringify (report_json form pos photo linked e)) = Some (report_json form pos photo linked e)"
  "json_parse (stringify (vote_json vote located e)) = Some (vote_json vote located e)"
  by (rule json_roundtrip, simp add: report_json_def vote_json_def)+

definition hundredths :: "real \<Rightarrow> bool" where
  "hundredths x \<longleftrightarrow> (\<exists>n :: int. x = of_int n / 100)"

lemma jnum_norm_val: "jnum_val (jnum_norm m s) = of_int m / 10 ^ s"
proof (induction m s rule: jnum_norm.induct)
  case (2 m s)
  show ?case
  proof (cases "m mod 10 = 0")
    case True
    then have "real_of_int m = of_int (m div 10) * 10" by (metis dvd_div_mult_self mod_0_imp_dvd of_int_mult of_int_numeral)
    with True 2 show ?thesis by simp
  qed (simp add: jnum_val_def)
qed (simp add: jnum_val_def)

lemma coarse_val: "jnum_val (coarse x) = (if jnum_val x < 0 then - 1 else 1) * real (fixed_abs 2 (jnum_val x)) / 100"
  by (simp add: coarse_def jnum_norm_val)

lemma coarse_hundredths: "hundredths (jnum_val (coarse x))"
  unfolding hundredths_def coarse_val
  by (rule exI [of _ "(if jnum_val x < 0 then - 1 else 1) * int (fixed_abs 2 (jnum_val x))"]) simp

lemma coarse_near: "\<bar>jnum_val (coarse x) - jnum_val x\<bar> \<le> 5 / 1000"
proof -
  let ?y = "\<bar>jnum_val x\<bar> * 100"
  have "0 \<le> \<lfloor>?y + 1 / 2\<rfloor>" by simp
  then have "real (fixed_abs 2 (jnum_val x)) = of_int \<lfloor>?y + 1 / 2\<rfloor>" by (simp add: fixed_abs_def)
  moreover have "\<bar>of_int \<lfloor>?y + 1 / 2\<rfloor> - ?y\<bar> \<le> 1 / 2" by linarith
  ultimately have "\<bar>real (fixed_abs 2 (jnum_val x)) - ?y\<bar> \<le> 1 / 2" by simp
  then show ?thesis unfolding coarse_val by (cases "jnum_val x < 0") (simp_all add: abs_if field_simps split: if_splits)
qed

text \<open>What was posted and what is stored is in hundredths of a degree.\<close>

definition coarse_body :: "json \<Rightarrow> bool" where
  "coarse_body body \<longleftrightarrow>
     (\<forall>x. jreal ''center_lat'' body = Some x \<longrightarrow> hundredths x) \<and> (\<forall>x. jreal ''center_lng'' body = Some x \<longrightarrow> hundredths x)"

definition coarse_prefs :: "push_preferences \<Rightarrow> bool" where
  "coarse_prefs p \<longleftrightarrow>
     (case pp_center p of None \<Rightarrow> True | Some c \<Rightarrow> hundredths (jnum_val (fst c)) \<and> hundredths (jnum_val (snd c)))"

definition push_ok :: "push_hook \<Rightarrow> bool" where
  "push_ok s \<longleftrightarrow> (\<forall>r\<in>set (ph_requests s). coarse_body (snd r)) \<and> coarse_prefs (loadPushPreferences (ph_ls s))"

lemma push_body_coarse:
  "hundredths (jnum_val (fst c)) \<Longrightarrow> hundredths (jnum_val (snd c)) \<Longrightarrow> coarse_body (push_body sub sev c rad)"
  by (simp add: coarse_body_def push_body_def jreal_def)

lemma default_coarse [simp]: "coarse_prefs default_preferences"
  by (simp add: coarse_prefs_def default_preferences_def)

lemma loaded_absent: "idb_get ls PREFERENCES_KEY = None \<Longrightarrow> loadPushPreferences ls = default_preferences"
  by (simp add: loadPushPreferences_def)

lemma loaded_saved:
  assumes "pp_center p = Some c" "hundredths (jnum_val (fst c))" "hundredths (jnum_val (snd c))"
  shows "coarse_prefs (loadPushPreferences (idb_put ls PREFERENCES_KEY (stringify (preferences_json p))))"
proof -
  have "json_parse (stringify (preferences_json p)) = Some (preferences_json p)"
    by (rule json_roundtrip) (simp add: preferences_json_def center_json_def split: option.splits)
  then show ?thesis using assms
    by (simp add: loadPushPreferences_def preferences_json_def center_json_def jstr_def jnum_field_def coarse_prefs_def default_preferences_def)
qed

lemma push_mount_ok: "push_ok s \<Longrightarrow> push_ok (push_mount supported denied reply s)"
  by (auto simp: push_ok_def push_mount_def coarse_prefs_def Let_def intro!: push_body_coarse split: option.splits)

lemma push_enable_ok:
  assumes "push_ok s"
  shows "push_ok (push_enable supported perm subscribe reply p s)"
proof (cases "pp_center p")
  case (Some c)
  have c: "hundredths (jnum_val (fst (coarse_center c)))" "hundredths (jnum_val (snd (coarse_center c)))"
    by (simp_all add: coarse_center_def coarse_hundredths)
  have "coarse_prefs (loadPushPreferences (idb_put ls PREFERENCES_KEY
      (stringify (preferences_json (p\<lparr>pp_center := Some (coarse_center c)\<rparr>)))))" for ls
    using c by (intro loaded_saved [where c = "coarse_center c"]) simp_all
  with Some assms push_body_coarse [OF c] show ?thesis
    by (auto simp: push_ok_def push_enable_def Let_def split: option.splits sum.splits)
qed (use assms in \<open>simp add: push_enable_def\<close>)

lemma push_disable_ok: "push_ok s \<Longrightarrow> push_ok (push_disable supported endpoint reply s)"
  by (auto simp: push_ok_def push_disable_def Let_def loaded_absent coarse_body_def jreal_def split: option.splits sum.splits)

interpretation push: reducer "push_initial supported" "push_step supported" push_ok for supported
proof unfold_locales
  show "push_ok (push_initial supported)" by (simp add: push_ok_def push_initial_def loaded_absent idb_get_def)
  show "push_ok (push_step supported s e)" if "push_ok s" for s e
    using that by (cases e) (simp_all add: push_mount_ok push_enable_ok push_disable_ok)
qed

section \<open>Properties\<close>

text \<open>
  C17: what is submitted is what was signed. The body of a report request can be read back, and the
  binding string recomputed from its own fields is the content of the event it carries, which
  verifies under the key named in the body; the same for a vote and the report its address names.
\<close>

theorem submissions_bound:
  assumes "finalizes lib"
    and "sign = (\<lambda>t. snd (signWithActiveIdentity lib window_nostr fresh meanwhile t s))"
  shows "(report_request sign now apiBase form pos photo linked = ok req \<longrightarrow>
      (\<exists>body e. hr_body req = Some (stringify body) \<and> json_parse (stringify body) = Some body
         \<and> jget ''nostr_event'' body = Some (event_json e) \<and> jstr ''nostr_pubkey'' body = Some (ne_pubkey e)
         \<and> tl_verifyEvent lib e = Some True \<and> ne_kind e = 30078
         \<and> ne_content e = reportBindingContent (the (jstr ''report_type'' body)) (the (jreal ''lat'' body))
              (the (jreal ''lng'' body)) (jstr ''description'' body)))
    \<and> (vote_request sign now apiBase reportId vote located = ok vreq \<longrightarrow>
      (\<exists>body e. hr_body vreq = Some (stringify body) \<and> json_parse (stringify body) = Some body
         \<and> hr_url vreq = apiBase @ ''/api/reports/'' @ reportId @ ''/vote''
         \<and> jget ''voter_nostr_event'' body = Some (event_json e) \<and> jstr ''voter_pubkey'' body = Some (ne_pubkey e)
         \<and> tl_verifyEvent lib e = Some True \<and> ne_kind e = 30078
         \<and> ne_content e = voteBindingContent (the (jstr ''vote'' body)) reportId))"
proof -
  have signed: "tl_verifyEvent lib e = Some True \<and> ne_kind e = 30078 \<and> ne_content e = c"
    if h: "sign (bound_template now c) = ok e" for c e
  proof -
    obtain s' where "signWithActiveIdentity lib window_nostr fresh meanwhile (bound_template now c) s = (s', ok e)"
      using h unfolding assms(2) by (metis prod.collapse)
    from sign_ok [OF assms(1) this] show ?thesis by (simp add: bound_template_def)
  qed
  have "\<exists>body e. hr_body req = Some (stringify body) \<and> json_parse (stringify body) = Some body
         \<and> jget ''nostr_event'' body = Some (event_json e) \<and> jstr ''nostr_pubkey'' body = Some (ne_pubkey e)
         \<and> tl_verifyEvent lib e = Some True \<and> ne_kind e = 30078
         \<and> ne_content e = reportBindingContent (the (jstr ''report_type'' body)) (the (jreal ''lat'' body))
              (the (jreal ''lng'' body)) (jstr ''description'' body)"
    if r: "report_request sign now apiBase form pos photo linked = ok req"
  proof -
    from r obtain e where e: "sign (bound_template now (reportBindingContent (rf_reportType form) (jnum_val (fst pos)) (jnum_val (snd pos))
          (non_empty (rf_description form)))) = ok e" and b: "hr_body req = Some (stringify (report_json form pos photo linked e))"
      by (auto simp: report_request_def bind_result_ok_iff)
    show ?thesis
      by (rule exI [of _ "report_json form pos photo linked e"], rule exI [of _ e])
        (use b signed [OF e] report_json_read(1) in \<open>simp add: report_json_def jstr_def jreal_def opt_str_def split: option.splits\<close>)
  qed
  moreover have "\<exists>body e. hr_body vreq = Some (stringify body) \<and> json_parse (stringify body) = Some body
         \<and> hr_url vreq = apiBase @ ''/api/reports/'' @ reportId @ ''/vote''
         \<and> jget ''voter_nostr_event'' body = Some (event_json e) \<and> jstr ''voter_pubkey'' body = Some (ne_pubkey e)
         \<and> tl_verifyEvent lib e = Some True \<and> ne_kind e = 30078
         \<and> ne_content e = voteBindingContent (the (jstr ''vote'' body)) reportId"
    if r: "vote_request sign now apiBase reportId vote located = ok vreq"
  proof -
    from r obtain e where e: "sign (bound_template now (voteBindingContent vote reportId)) = ok e"
      and b: "hr_body vreq = Some (stringify (vote_json vote located e))" "hr_url vreq = apiBase @ ''/api/reports/'' @ reportId @ ''/vote''"
      by (auto simp: vote_request_def bind_result_ok_iff)
    show ?thesis
      by (rule exI [of _ "vote_json vote located e"], rule exI [of _ e])
        (use b signed [OF e] report_json_read(2) in \<open>simp add: vote_json_def jstr_def\<close>)
  qed
  ultimately show ?thesis by blast
qed

theorem submissions_bound_witness:
  "\<exists>vreq body e. vote_request (\<lambda>t. snd (signWithActiveIdentity plain_tools None [1] id t (initial_signer sample_store)))
      100 ''https://h'' ''r1'' ''CONFIRM'' None = ok vreq
    \<and> hr_body vreq = Some (stringify body) \<and> jget ''voter_nostr_event'' body = Some (event_json e)
    \<and> ne_content e = voteBindingContent (the (jstr ''vote'' body)) ''r1''"
proof -
  let ?sign = "\<lambda>t. snd (signWithActiveIdentity plain_tools None [1] id t (initial_signer sample_store))"
  have "\<exists>e. ?sign t = ok e" for t
    by (simp add: signWithActiveIdentity_def getActiveIdentity_def initial_signer_def local_identity_def split: prod.splits)
  then obtain vreq where v: "vote_request ?sign 100 ''https://h'' ''r1'' ''CONFIRM'' None = ok vreq"
    unfolding vote_request_def by (metis bind_result_simps(2))
  from submissions_bound [OF plain_laws(2) refl, THEN conjunct2] v show ?thesis by blast
qed


text \<open>
  A home that was confirmed in the panel is there after a reload: the page that loads it shows the
  same place, and until then the old routes are gone; an invalid place changes nothing.
\<close>

theorem home_survives_reload:
  assumes "crypto_laws wc" "length (ve_iv ent) = 12" "hm_pendingHome p = Some home"
    and "confirmHome wc ent (db, ui, p) = (db', ui', p')"
  shows "(isHomeLocation (home_json home) \<longrightarrow>
       ui_homeLocation ui' = Some home \<and> ui_homeRoutes ui' = [] \<and> hm_pendingHome p' = None
       \<and> ui_homeLocation (snd (home_loaded wc True (db', ui_initial))) = Some home)
    \<and> (\<not> isHomeLocation (home_json home) \<longrightarrow> db' = db \<and> ui' = ui \<and> hm_pendingHome p' = Some home)"
proof (cases "isHomeLocation (home_json home)")
  case True
  from home_saved_loads [OF assms(1,2) True, of db] obtain d where
    d: "saveHomeLocation wc ent db home = ok d" "loadHomeLocation wc d = (d, Some home)" by blast
  with True assms(3,4) show ?thesis by (auto simp: confirmHome_def home_loaded_def)
next
  case False
  with assms(3,4) show ?thesis by (auto simp: confirmHome_def saveHomeLocation_def throw_if_def)
qed

theorem home_survives_reload_witness:
  "\<exists>db' ui' p'. confirmHome plain_crypto sample_vault_entropy (cs_vault sample_circle_state, ui_initial,
       \<lparr>hm_pendingHome = Some \<lparr>hl_lat = Dec 5 0, hl_lng = Dec 6 0, hl_label = ''Home''\<rparr>, hm_message = None\<rparr>) = (db', ui', p')
     \<and> ui_homeLocation (snd (home_loaded plain_crypto True (db', ui_initial))) = Some \<lparr>hl_lat = Dec 5 0, hl_lng = Dec 6 0, hl_label = ''Home''\<rparr>"
proof -
  let ?h = "\<lparr>hl_lat = Dec 5 0, hl_lng = Dec 6 0, hl_label = ''Home''\<rparr>"
  let ?p = "\<lparr>hm_pendingHome = Some ?h, hm_message = None\<rparr>"
  obtain db' ui' p' where c: "confirmHome plain_crypto sample_vault_entropy (cs_vault sample_circle_state, ui_initial, ?p) = (db', ui', p')"
    by (metis surj_pair)
  have "isHomeLocation (home_json ?h)" by (simp add: isHomeLocation_def home_json_def in_range_def jnum_val_def trim_def js_whitespace_def)
  with home_survives_reload [OF plain_crypto_laws sample_iv _ c, of ?h] c show ?thesis by auto
qed


definition sample_settings :: "string \<Rightarrow> (bytes \<times> bool) settings_page" where
  "sample_settings pass = \<lparr>sp_cache = empty_cache, sp_circles = sample_circle_state, sp_keypair = None, sp_nsecInput = '''',
     sp_importMsg = None, sp_staleBadge = No_backup, sp_exportPass = pass, sp_exportPass2 = pass, sp_shownVaultId = None,
     sp_backupMsg = None, sp_pendingPayload = None\<rparr>"


end
