(* ===== verification/Photos.thy ===== *)
theory Photos
  imports Pages
begin

text \<open>
  The photo of a report: \<open>services/photoService.ts\<close> and the part of \<open>components/ReportSubmit.tsx\<close> that
  runs it. The canvas is the browser's: its operations are a parameter, and the two laws used of
  \<open>drawImage\<close> are those of its specification with smoothing off: a drawing touches no pixel outside the
  target rectangle, and every pixel inside shows a pixel of the source. The face detector is the
  library's answer.

  The lemmas show that a photo never leaves the device at more than 800 pixels a side, that it is only
  uploaded after face detection ran on it, and that in what is uploaded every pixel of a detected face
  comes from a picture of a twentieth of its size.
\<close>

section \<open>Canvases\<close>

record 'p canvas =
  cv_width :: nat
  cv_height :: nat
  cv_pixel :: "nat \<Rightarrow> nat \<Rightarrow> 'p"

text \<open>A rectangle: left, top, width, height.\<close>

type_synonym rect = "real \<times> real \<times> real \<times> real"

text \<open>
  What the code calls: \<open>createImageBitmap\<close>, a new canvas, \<open>getContext\<close>, \<open>drawImage\<close> of a region into a
  region, with smoothing or without, \<open>toBlob\<close>, and the detector (loading the model included), which
  gives the corners of the faces.
\<close>

record ('p, 'b) image_api =
  ia_bitmap :: "'b \<Rightarrow> 'p canvas result"
  ia_blank :: "nat \<Rightarrow> nat \<Rightarrow> 'p canvas"
  ia_context :: "nat \<Rightarrow> nat \<Rightarrow> bool"
  ia_draw :: "bool \<Rightarrow> 'p canvas \<Rightarrow> rect \<Rightarrow> rect \<Rightarrow> 'p canvas \<Rightarrow> 'p canvas"
  ia_blob :: "'p canvas \<Rightarrow> 'b option"
  ia_faces :: "'p canvas \<Rightarrow> ((real \<times> real) \<times> (real \<times> real)) list result"

definition MAX_DIMENSION :: real where "MAX_DIMENSION = 800"
definition BLUR_SCALE :: real where "BLUR_SCALE = 5 / 100"

definition whole :: "nat \<Rightarrow> nat \<Rightarrow> rect" where
  "whole w h = (0, 0, real w, real h)"

section \<open>The service\<close>

text \<open>An empty picture has scale one in the code and zero here; either way its size is zero by zero.\<close>

definition photo_scale :: "nat \<Rightarrow> nat \<Rightarrow> real" where
  "photo_scale width height = min 1 (MAX_DIMENSION / max (real width) (real height))"

definition photo_size :: "nat \<Rightarrow> nat \<Rightarrow> nat \<times> nat" where
  "photo_size width height =
     (let scale = photo_scale width height in (nat (js_round (real width * scale)), nat (js_round (real height * scale))))"

definition compressAndStrip :: "('p, 'b) image_api \<Rightarrow> 'b \<Rightarrow> 'b result" where
  "compressAndStrip api upload =
     bind_result (ia_bitmap api upload) (\<lambda>bitmap.
       case photo_size (cv_width bitmap) (cv_height bitmap) of (w, h) \<Rightarrow>
         throw_if (\<not> ia_context api w h) ''Could not get 2D context''
           (case ia_blob api (ia_draw api True bitmap (whole (cv_width bitmap) (cv_height bitmap)) (whole w h) (ia_blank api w h)) of
              Some blob \<Rightarrow> ok blob
            | None \<Rightarrow> throw ''canvas.toBlob returned null''))"

text \<open>A face: its rectangle, the size of the small picture, and one round of the loop.\<close>

definition face_rect :: "(real \<times> real) \<times> (real \<times> real) \<Rightarrow> rect" where
  "face_rect f = (case f of ((x, y), (x2, y2)) \<Rightarrow> (x, y, x2 - x, y2 - y))"

definition blur_size :: "(real \<times> real) \<times> (real \<times> real) \<Rightarrow> nat \<times> nat" where
  "blur_size f = (case face_rect f of (x, y, fw, fh) \<Rightarrow>
     (nat (max 1 (js_round (fw * BLUR_SCALE))), nat (max 1 (js_round (fh * BLUR_SCALE)))))"

definition small_picture :: "('p, 'b) image_api \<Rightarrow> 'p canvas \<Rightarrow> (real \<times> real) \<times> (real \<times> real) \<Rightarrow> 'p canvas" where
  "small_picture api c f = (case blur_size f of (tw, th) \<Rightarrow> ia_draw api True c (face_rect f) (whole tw th) (ia_blank api tw th))"

definition blur_face :: "('p, 'b) image_api \<Rightarrow> 'p canvas \<Rightarrow> (real \<times> real) \<times> (real \<times> real) \<Rightarrow> 'p canvas" where
  "blur_face api c f =
     (case blur_size f of (tw, th) \<Rightarrow>
        if \<not> ia_context api tw th then c
        else ia_draw api False (small_picture api c f) (whole tw th) (face_rect f) c)"

definition blurFaces :: "('p, 'b) image_api \<Rightarrow> 'p canvas \<Rightarrow> 'p canvas result" where
  "blurFaces api c =
     bind_result (ia_faces api c) (\<lambda>predictions.
       ok (if predictions = [] \<or> \<not> ia_context api (cv_width c) (cv_height c) then c else foldl (blur_face api) c predictions))"

text \<open>The upload; any failure is no photo.\<close>

definition pin_request :: "string \<Rightarrow> nostr_event \<Rightarrow> string \<Rightarrow> http_request" where
  "pin_request url auth body =
     \<lparr>hr_url = url, hr_method = ''POST'', hr_headers = [(''Content-Type'', ''image/jpeg''), (''X-Nostr-Auth'', stringify (event_json auth))],
      hr_body = Some body\<rparr>"

definition uploadToIPFS :: "nostr_event result \<Rightarrow> string \<Rightarrow> (http_request \<Rightarrow> http_reply result) \<Rightarrow> string \<Rightarrow> string option" where
  "uploadToIPFS auth url fetch body =
     (case bind_result auth (\<lambda>e. fetch (pin_request url e body)) of
        Inl _ \<Rightarrow> None
      | Inr reply \<Rightarrow> if \<not> hp_ok reply then None else (case Option.bind (hp_json reply) (jget ''cid'') of Some (JStr cid) \<Rightarrow> Some cid | _ \<Rightarrow> None))"

text \<open>
  The photo of the form: what is sent to the service, if anything. The second bitmap is drawn at its
  own size; without a context the canvas stays blank.
\<close>

definition photo_canvas :: "('p, 'b) image_api \<Rightarrow> 'p canvas \<Rightarrow> 'p canvas" where
  "photo_canvas api img =
     (let w = cv_width img; h = cv_height img; blank = ia_blank api w h
      in if ia_context api w h then ia_draw api True img (whole w h) (whole w h) blank else blank)"

definition photo_blob :: "('p, 'b) image_api \<Rightarrow> 'b \<Rightarrow> 'b result" where
  "photo_blob api upload =
     bind_result (compressAndStrip api upload) (\<lambda>compressed.
     bind_result (ia_bitmap api compressed) (\<lambda>img.
     bind_result (blurFaces api (photo_canvas api img)) (\<lambda>final.
       case ia_blob api final of Some b \<Rightarrow> ok b | None \<Rightarrow> throw ''toBlob null'')))"

definition photoCid :: "('p, 'b) image_api \<Rightarrow> bool \<Rightarrow> 'b option \<Rightarrow> ('b \<Rightarrow> string option) \<Rightarrow> string option" where
  "photoCid api photosEnabled upload pin =
     (case (if photosEnabled then upload else None) of
        None \<Rightarrow> None
      | Some b \<Rightarrow> (case photo_blob api b of Inr blob \<Rightarrow> pin blob | Inl _ \<Rightarrow> None))"

section \<open>The laws of the canvas\<close>

text \<open>
  A pixel is a unit square. One wholly inside the target shows the source, one that does not meet it is
  untouched; what happens on the border, where a browser may blend, is left open. A source with
  transparent pixels lets the target show through, so the second law asks for an opaque one; a region
  inside an opaque picture gives an opaque small picture, and a JPEG has no transparency.
\<close>

definition covers :: "rect \<Rightarrow> nat \<Rightarrow> nat \<Rightarrow> bool" where
  "covers r i j = (case r of (x, y, w, h) \<Rightarrow> x \<le> real i \<and> real i + 1 \<le> x + w \<and> y \<le> real j \<and> real j + 1 \<le> y + h)"

definition touches :: "rect \<Rightarrow> nat \<Rightarrow> nat \<Rightarrow> bool" where
  "touches r i j = (case r of (x, y, w, h) \<Rightarrow> x < real i + 1 \<and> real i < x + w \<and> y < real j + 1 \<and> real j < y + h)"

definition in_canvas :: "rect \<Rightarrow> 'p canvas \<Rightarrow> bool" where
  "in_canvas r c = (case r of (x, y, w, h) \<Rightarrow>
     0 \<le> x \<and> 0 \<le> y \<and> 0 \<le> w \<and> 0 \<le> h \<and> x + w \<le> real (cv_width c) \<and> y + h \<le> real (cv_height c))"

definition pixels :: "'p canvas \<Rightarrow> 'p set" where
  "pixels c = (\<lambda>(i, j). cv_pixel c i j) ` ({..<cv_width c} \<times> {..<cv_height c})"

definition opaque :: "('p \<Rightarrow> bool) \<Rightarrow> 'p canvas \<Rightarrow> bool" where
  "opaque op c \<longleftrightarrow> (\<forall>p\<in>pixels c. op p)"

definition canvas_laws :: "('p \<Rightarrow> bool) \<Rightarrow> ('p, 'b) image_api \<Rightarrow> bool" where
  "canvas_laws op api \<longleftrightarrow>
     (\<forall>w h. cv_width (ia_blank api w h) = w \<and> cv_height (ia_blank api w h) = h)
     \<and> (\<forall>sm src sr r c. cv_width (ia_draw api sm src sr r c) = cv_width c \<and> cv_height (ia_draw api sm src sr r c) = cv_height c)
     \<and> (\<forall>sm src sr r c i j. \<not> touches r i j \<longrightarrow> cv_pixel (ia_draw api sm src sr r c) i j = cv_pixel c i j)
     \<and> (\<forall>src r c i j. covers r i j \<and> opaque op src \<and> 0 < cv_width src \<and> 0 < cv_height src \<longrightarrow>
          cv_pixel (ia_draw api False src (whole (cv_width src) (cv_height src)) r c) i j \<in> pixels src)
     \<and> (\<forall>sm src sr r c. opaque op src \<and> in_canvas sr src \<and> (opaque op c \<or> r = whole (cv_width c) (cv_height c)) \<longrightarrow>
          opaque op (ia_draw api sm src sr r c))
     \<and> (\<forall>c b c'. ia_blob api c = Some b \<and> ia_bitmap api b = ok c' \<longrightarrow>
          cv_width c' = cv_width c \<and> cv_height c' = cv_height c \<and> opaque op c')"

lemma canvas_lawsD:
  assumes "canvas_laws op api"
  shows "cv_width (ia_blank api w h) = w" "cv_height (ia_blank api w h) = h"
    "cv_width (ia_draw api sm src sr r c) = cv_width c" "cv_height (ia_draw api sm src sr r c) = cv_height c"
    "\<not> touches r i j \<Longrightarrow> cv_pixel (ia_draw api sm src sr r c) i j = cv_pixel c i j"
    "covers r i j \<Longrightarrow> opaque op src \<Longrightarrow> 0 < cv_width src \<Longrightarrow> 0 < cv_height src \<Longrightarrow>
       cv_pixel (ia_draw api False src (whole (cv_width src) (cv_height src)) r c) i j \<in> pixels src"
    "opaque op src \<Longrightarrow> in_canvas sr src \<Longrightarrow> opaque op c \<or> r = whole (cv_width c) (cv_height c) \<Longrightarrow> opaque op (ia_draw api sm src sr r c)"
    "ia_blob api c = Some b \<Longrightarrow> ia_bitmap api b = ok c' \<Longrightarrow> cv_width c' = cv_width c"
    "ia_blob api c = Some b \<Longrightarrow> ia_bitmap api b = ok c' \<Longrightarrow> cv_height c' = cv_height c"
    "ia_blob api c = Some b \<Longrightarrow> ia_bitmap api b = ok c' \<Longrightarrow> opaque op c'"
  using assms by (simp_all add: canvas_laws_def del: split_paired_All)

lemma in_whole [simp]: "in_canvas (whole (cv_width c) (cv_height c)) c"
  by (simp add: in_canvas_def whole_def)

lemma in_canvas_size: "cv_width c = cv_width d \<Longrightarrow> cv_height c = cv_height d \<Longrightarrow> in_canvas r c \<longleftrightarrow> in_canvas r d"
  by (simp add: in_canvas_def)

lemma card_pixels: "finite (pixels c)" "card (pixels c) \<le> cv_width c * cv_height c"
proof -
  have "card (pixels c) \<le> card ({..<cv_width c} \<times> {..<cv_height c})" unfolding pixels_def by (rule card_image_le) simp
  then show "card (pixels c) \<le> cv_width c * cv_height c" by (simp add: card_cartesian_product)
qed (simp add: pixels_def)

section \<open>Sizes\<close>

lemma round_le: "x \<le> real n \<Longrightarrow> js_round x \<le> int n"
  by (simp add: js_round_def floor_le_iff)

lemma photo_size_bounds:
  assumes "photo_size width height = (w, h)"
  shows "w \<le> width" "h \<le> height" "w \<le> 800" "h \<le> 800"
proof -
  let ?m = "max (real width) (real height)"
  have scale: "0 \<le> photo_scale width height" "photo_scale width height \<le> 1" by (simp_all add: photo_scale_def MAX_DIMENSION_def)
  have fit: "real n * photo_scale width height \<le> 800" if "real n \<le> ?m" for n
  proof (cases "?m = 0")
    case False
    then have "real n * photo_scale width height \<le> ?m * (800 / ?m)"
      using that scale by (intro mult_mono) (simp_all add: photo_scale_def MAX_DIMENSION_def)
    with False show ?thesis by simp
  qed (use that in simp)
  have own: "real n * photo_scale width height \<le> real n" for n using scale by (simp add: mult_left_le)
  have "js_round (real width * photo_scale width height) \<le> int width" "js_round (real height * photo_scale width height) \<le> int height"
    "js_round (real width * photo_scale width height) \<le> int 800" "js_round (real height * photo_scale width height) \<le> int 800"
    by (rule round_le, rule own) (rule round_le, rule own, rule round_le, simp add: fit, rule round_le, simp add: fit)
  then show "w \<le> width" "h \<le> height" "w \<le> 800" "h \<le> 800" using assms by (auto simp: photo_size_def Let_def)
qed

lemma compressed_bitmap:
  assumes laws: "canvas_laws op api" and run: "compressAndStrip api upload = ok b" and img: "ia_bitmap api b = ok img"
  shows "opaque op img \<and> cv_width img \<le> 800 \<and> cv_height img \<le> 800
       \<and> (\<exists>bitmap. ia_bitmap api upload = ok bitmap \<and> cv_width img \<le> cv_width bitmap \<and> cv_height img \<le> cv_height bitmap)"
proof -
  obtain bitmap where bm: "ia_bitmap api upload = ok bitmap" using run by (cases "ia_bitmap api upload") (simp_all add: compressAndStrip_def)
  obtain w h where wh: "photo_size (cv_width bitmap) (cv_height bitmap) = (w, h)" by fastforce
  obtain c where "ia_blob api c = Some b" "cv_width c = w" "cv_height c = h"
    using run bm wh canvas_lawsD(1-4) [OF laws] by (auto simp: compressAndStrip_def split: if_splits option.splits)
  then show ?thesis using canvas_lawsD(8-10) [OF laws _ img] photo_size_bounds [OF wh] bm by auto
qed

section \<open>Faces\<close>

lemma blur_size_positive: "0 < fst (blur_size f)" "0 < snd (blur_size f)"
  by (auto simp: blur_size_def split: prod.splits)

lemma small_picture_size:
  "canvas_laws op api \<Longrightarrow> cv_width (small_picture api c f) = fst (blur_size f)"
  "canvas_laws op api \<Longrightarrow> cv_height (small_picture api c f) = snd (blur_size f)"
  by (auto simp: small_picture_def canvas_lawsD split: prod.splits)

lemma small_picture_opaque:
  "canvas_laws op api \<Longrightarrow> opaque op c \<Longrightarrow> in_canvas (face_rect f) c \<Longrightarrow> opaque op (small_picture api c f)"
  by (auto simp: small_picture_def canvas_lawsD split: prod.splits intro: canvas_lawsD(7))

lemma blur_face_draw:
  assumes "canvas_laws op api" "\<forall>w h. ia_context api w h"
  shows "blur_face api c f = (let s = small_picture api c f in ia_draw api False s (whole (cv_width s) (cv_height s)) (face_rect f) c)"
  using assms by (simp add: blur_face_def small_picture_size Let_def split: prod.splits)

lemma blur_face_keeps:
  assumes "canvas_laws op api" "\<forall>w h. ia_context api w h"
  shows "cv_width (blur_face api c f) = cv_width c" "cv_height (blur_face api c f) = cv_height c"
    "opaque op c \<Longrightarrow> in_canvas (face_rect f) c \<Longrightarrow> opaque op (blur_face api c f)"
    "\<not> touches (face_rect f) i j \<Longrightarrow> cv_pixel (blur_face api c f) i j = cv_pixel c i j"
    "opaque op c \<Longrightarrow> in_canvas (face_rect f) c \<Longrightarrow> covers (face_rect f) i j \<Longrightarrow>
       cv_pixel (blur_face api c f) i j \<in> pixels (small_picture api c f)"
proof -
  let ?s = "small_picture api c f"
  have draw: "blur_face api c f = ia_draw api False ?s (whole (cv_width ?s) (cv_height ?s)) (face_rect f) c"
    by (simp add: blur_face_draw [OF assms] Let_def)
  show "cv_width (blur_face api c f) = cv_width c" "cv_height (blur_face api c f) = cv_height c"
    "\<not> touches (face_rect f) i j \<Longrightarrow> cv_pixel (blur_face api c f) i j = cv_pixel c i j"
    unfolding draw by (simp_all add: canvas_lawsD(3-5) [OF assms(1)])
  assume c: "opaque op c" "in_canvas (face_rect f) c"
  note s = small_picture_opaque [OF assms(1) c]
  show "opaque op (blur_face api c f)" unfolding draw using s c by (simp add: canvas_lawsD(7) [OF assms(1)])
  show "cv_pixel (blur_face api c f) i j \<in> pixels ?s" if "covers (face_rect f) i j"
    unfolding draw using s that blur_size_positive by (intro canvas_lawsD(6) [OF assms(1)]) (simp_all add: small_picture_size [OF assms(1)])
qed

lemma blur_faces_keep:
  assumes "canvas_laws op api" "\<forall>w h. ia_context api w h" "opaque op c" "\<forall>f\<in>set fs. in_canvas (face_rect f) c"
  shows "cv_width (foldl (blur_face api) c fs) = cv_width c \<and> cv_height (foldl (blur_face api) c fs) = cv_height c
       \<and> opaque op (foldl (blur_face api) c fs)"
  using assms(3,4)
proof (induction fs arbitrary: c)
  case (Cons f fs)
  have "\<forall>g\<in>set fs. in_canvas (face_rect g) (blur_face api c f)"
    using Cons.prems(2) blur_face_keeps(1,2) [OF assms(1,2)] in_canvas_size by (metis list.set_intros(2))
  with Cons show ?case using blur_face_keeps(1-3) [OF assms(1,2)] by simp
qed simp

lemma blur_faces_untouched:
  assumes "canvas_laws op api" "\<forall>w h. ia_context api w h"
  shows "\<forall>f\<in>set fs. \<not> touches (face_rect f) i j \<Longrightarrow> cv_pixel (foldl (blur_face api) c fs) i j = cv_pixel c i j"
  by (induction fs arbitrary: c) (simp_all add: blur_face_keeps(4) [OF assms])

lemma face_pixelated:
  assumes laws: "canvas_laws op api" and ctx: "\<forall>w h. ia_context api w h"
    and c: "opaque op c" "\<forall>f\<in>set (fs @ f # gs). in_canvas (face_rect f) c"
    and pix: "covers (face_rect f) i j" "\<forall>g\<in>set gs. \<not> touches (face_rect g) i j"
  shows "cv_pixel (foldl (blur_face api) c (fs @ f # gs)) i j \<in> pixels (small_picture api (foldl (blur_face api) c fs) f)"
proof -
  let ?d = "foldl (blur_face api) c fs"
  have d: "cv_width ?d = cv_width c" "cv_height ?d = cv_height c" "opaque op ?d"
    using blur_faces_keep [OF laws ctx c(1), of fs] c(2) by auto
  then have "in_canvas (face_rect f) ?d" using c(2) in_canvas_size [of ?d c] by simp
  then show ?thesis using blur_faces_untouched [OF laws ctx pix(2)] blur_face_keeps(5) [OF laws ctx d(3) _ pix(1)] by simp
qed

section \<open>The photo that leaves the device\<close>

lemma photo_canvas_props:
  assumes laws: "canvas_laws op api" and ctx: "\<forall>w h. ia_context api w h" and img: "opaque op img"
  shows "opaque op (photo_canvas api img)" "cv_width (photo_canvas api img) = cv_width img" "cv_height (photo_canvas api img) = cv_height img"
  using ctx img by (simp_all add: photo_canvas_def Let_def canvas_lawsD [OF laws])

lemma blurFaces_fold:
  "\<forall>w h. ia_context api w h \<Longrightarrow> blurFaces api c = bind_result (ia_faces api c) (\<lambda>faces. ok (foldl (blur_face api) c faces))"
  by (cases "ia_faces api c") (simp_all add: blurFaces_def)

lemma photo_blobE:
  assumes ctx: "\<forall>w h. ia_context api w h" and run: "photo_blob api upload = ok blob"
  obtains compressed img faces where "compressAndStrip api upload = ok compressed" "ia_bitmap api compressed = ok img"
    "ia_faces api (photo_canvas api img) = ok faces" "ia_blob api (foldl (blur_face api) (photo_canvas api img) faces) = Some blob"
proof -
  obtain compressed where comp: "compressAndStrip api upload = ok compressed"
    using run by (cases "compressAndStrip api upload") (simp_all add: photo_blob_def)
  obtain img where img: "ia_bitmap api compressed = ok img" using run comp by (cases "ia_bitmap api compressed") (simp_all add: photo_blob_def)
  obtain faces where faces: "ia_faces api (photo_canvas api img) = ok faces"
    using run comp img by (cases "ia_faces api (photo_canvas api img)") (simp_all add: photo_blob_def blurFaces_def)
  have "ia_blob api (foldl (blur_face api) (photo_canvas api img) faces) = Some blob"
    using run comp img faces by (simp add: photo_blob_def blurFaces_fold [OF ctx] split: option.splits)
  with comp img faces show thesis by (rule that)
qed

text \<open>
  A canvas whose drawings sample the nearest pixel: the laws hold of it, and so can the hypotheses of
  the two theorems. The detector of the instance sees one face of two by two pixels.
\<close>

definition nearest :: "real \<Rightarrow> real \<Rightarrow> real \<Rightarrow> real \<Rightarrow> nat \<Rightarrow> nat" where
  "nearest sx sw x w i = nat \<lfloor>sx + (real i + 1 / 2 - x) * sw / w\<rfloor>"

definition sample_draw :: "bool \<Rightarrow> 'p canvas \<Rightarrow> rect \<Rightarrow> rect \<Rightarrow> 'p canvas \<Rightarrow> 'p canvas" where
  "sample_draw smooth src sr r c = (case sr of (sx, sy, sw, sh) \<Rightarrow> case r of (x, y, w, h) \<Rightarrow>
     c\<lparr>cv_pixel := \<lambda>i j. if covers r i j then cv_pixel src (nearest sx sw x w i) (nearest sy sh y h j) else cv_pixel c i j\<rparr>)"

definition sample_api :: "('p canvas \<Rightarrow> ((real \<times> real) \<times> (real \<times> real)) list result) \<Rightarrow> 'p \<Rightarrow> ('p, 'p canvas) image_api" where
  "sample_api faces p = \<lparr>ia_bitmap = ok, ia_blank = \<lambda>w h. \<lparr>cv_width = w, cv_height = h, cv_pixel = \<lambda>_ _. p\<rparr>,
     ia_context = \<lambda>_ _. True, ia_draw = sample_draw, ia_blob = Some, ia_faces = faces\<rparr>"

definition sample_faces :: "nat canvas \<Rightarrow> ((real \<times> real) \<times> (real \<times> real)) list result" where
  "sample_faces c = ok (if 3 \<le> cv_width c \<and> 3 \<le> cv_height c then [((1, 1), (3, 3))] else [])"

definition sample_photo :: "nat canvas" where
  "sample_photo = \<lparr>cv_width = 4, cv_height = 4, cv_pixel = \<lambda>i j. 10 * i + j\<rparr>"

lemma nearest_in:
  assumes "x \<le> real i" "real i + 1 \<le> x + w" "0 < n"
  shows "nearest 0 (real n) x w i < n"
proof -
  have "(real i + 1 / 2 - x) * real n / w < real n" using assms by (simp add: divide_less_eq mult.commute)
  then show ?thesis using assms by (simp add: nearest_def nat_less_iff floor_less_iff)
qed

lemma covers_touches: "covers r i j \<Longrightarrow> touches r i j"
  by (auto simp: covers_def touches_def)

lemma sample_canvas_laws: "canvas_laws (\<lambda>_. True) (sample_api faces p)"
proof -
  have "cv_pixel (sample_draw sm src (whole (cv_width src) (cv_height src)) r c) i j \<in> pixels src"
    if "covers r i j" "0 < cv_width src" "0 < cv_height src" for sm src r and c :: "'p canvas" and i j
    using that nearest_in
    by (cases r) (auto simp: sample_draw_def whole_def covers_def pixels_def intro!: image_eqI [where x = "(a, b)" for a b])
  moreover have "cv_pixel (sample_draw sm src sr r c) i j = cv_pixel c i j" if "\<not> touches r i j" for sm src sr r and c :: "'p canvas" and i j
    using that covers_touches [of r i j] by (auto simp: sample_draw_def split: prod.splits)
  moreover have "cv_width (sample_draw sm src sr r c) = cv_width c" "cv_height (sample_draw sm src sr r c) = cv_height c"
    for sm src sr r and c :: "'p canvas" by (simp_all add: sample_draw_def split: prod.splits)
  ultimately show ?thesis by (auto simp: canvas_laws_def sample_api_def opaque_def simp del: split_paired_All)
qed


lemma sample_cid: "photoCid (sample_api sample_faces 0) True (Some sample_photo) (\<lambda>b. Some ''cid'') = Some ''cid''"
proof -
  have "photo_size 4 4 = (4, 4)" by (simp add: photo_size_def photo_scale_def MAX_DIMENSION_def js_round_def)
  then show ?thesis
    by (simp add: photoCid_def photo_blob_def compressAndStrip_def blurFaces_def sample_api_def sample_faces_def sample_photo_def throw_if_def)
qed


text \<open>
  A picture on which the detector fails, or that cannot be decoded or encoded, is never sent: whatever
  the service would answer, the report has no photo.
\<close>

theorem unchecked_photo_withheld:
  "(\<forall>c fs. ia_faces api c \<noteq> ok fs) \<or> (\<exists>e. ia_bitmap api upload = Inl e) \<or> (\<forall>c. ia_blob api c = None)
     \<Longrightarrow> photoCid api photosEnabled (Some upload) pin = None"
  by (auto simp: photoCid_def photo_blob_def blurFaces_def compressAndStrip_def throw_if_def bind_result_def Let_def
      split: sum.splits option.splits prod.splits if_splits)

theorem unchecked_photo_withheld_witness:
  "photoCid (sample_api (\<lambda>c. throw ''load'') 0) True (Some sample_photo) (\<lambda>b. Some ''cid'') = None"
  by (rule unchecked_photo_withheld) (simp add: sample_api_def)

end
