(* ===== verification/HomeRoutes.thy ===== *)
theory HomeRoutes
  imports Pages
begin

text \<open>
  The route preview home: the whole of \<open>components/HomeRoutePanel.tsx\<close> (address search, the saved
  home, travel mode, the request for routes and the choice among them), with what the map draws of it
  (\<open>components/map/HomeRouteLayer.tsx\<close>, \<open>RadiusZoneLayer.tsx\<close>) and the map page that hosts it
  (\<open>pages/LiveMapPage.tsx\<close>). The panel is a state machine: a step per user action and per answer of
  the two services, so that a request may be answered after the mode, the home or the panel changed.

  The lemmas show that the search shows the current query, that previews count exactly the active
  alerts the route meets, and that the alternative marked in the panel is the one the map draws as
  long as requests do not overlap; and what happens when they do, when a request outlives what it
  was made for, and when an alert has no radius.
\<close>

section \<open>Alert areas\<close>

text \<open>
  \<open>Number(v)\<close> of a field of the wire format, \<open>None\<close> being not a number. Numerals are in JSON syntax;
  an array or an object is not a number.
\<close>

definition js_number :: "json option \<Rightarrow> real option" where
  "js_number v =
     (case v of
        None \<Rightarrow> None
      | Some JNull \<Rightarrow> Some 0
      | Some (JBool b) \<Rightarrow> Some (if b then 1 else 0)
      | Some (JNum x) \<Rightarrow> Some (jnum_val x)
      | Some (JStr s) \<Rightarrow> (if trim s = '''' then Some 0 else map_option jnum_val (read_num (trim s)))
      | _ \<Rightarrow> None)"

definition radius_field :: "safety_event \<Rightarrow> json option" where
  "radius_field e = map_of (ev_other e) ''radius_meters''"

text \<open>\<open>Number(radius_meters) || 400\<close>, in kilometres.\<close>

definition alert_radius :: "safety_event \<Rightarrow> real" where
  "alert_radius e = (case js_number (radius_field e) of Some r \<Rightarrow> (if r = 0 then 400 else r) | None \<Rightarrow> 400) / 1000"

definition danger_zones :: "safety_event list \<Rightarrow> danger_zone list" where
  "danger_zones events =
     map (\<lambda>e. \<lparr>dz_lat = ev_lat e, dz_lng = ev_lng e, dz_radiusKm = alert_radius e\<rparr>) (filter ev_is_active events)"

text \<open>The zones the map draws: \<open>radius_meters ?? 500\<close>, for active alerts that are not of low severity.\<close>

record zone_feature =
  zf_id :: string
  zf_severity :: string
  zf_lng :: real
  zf_lat :: real
  zf_radius_m :: json

definition zone_features :: "safety_event list \<Rightarrow> zone_feature list" where
  "zone_features events =
     map (\<lambda>e. \<lparr>zf_id = ev_id e, zf_severity = ev_severity e, zf_lng = ev_lng e, zf_lat = ev_lat e,
               zf_radius_m = (case radius_field e of None \<Rightarrow> JInt 500 | Some JNull \<Rightarrow> JInt 500 | Some v \<Rightarrow> v)\<rparr>)
       (filter (\<lambda>e. ev_is_active e \<and> ev_severity e \<noteq> ''LOW'') events)"

text \<open>The lines drawn: the alternatives under the selected route.\<close>

definition alternatives :: "ui_state \<Rightarrow> home_route list" where
  "alternatives ui =
     filter (\<lambda>r. case ui_homeRoute ui of Some h \<Rightarrow> hm_id r \<noteq> hm_id h | None \<Rightarrow> True) (ui_homeRoutes ui)"

section \<open>The panel\<close>

datatype panel_state = HP_Idle | HP_Searching | HP_Saving | HP_Routing

record route_panel =
  pn_home :: home_panel
  pn_query :: string
  pn_suggestions :: "home_location list"
  pn_mode :: travel_mode
  pn_selectedIndex :: nat
  pn_state :: panel_state
  pn_sequence :: nat
  pn_timer :: "(nat \<times> string) option"
  pn_searches :: "(nat \<times> string \<times> bool) list"

definition set_message :: "string option \<Rightarrow> route_panel \<Rightarrow> route_panel" where
  "set_message m p = p\<lparr>pn_home := pn_home p\<lparr>hm_message := m\<rparr>\<rparr>"

text \<open>
  The search effect: its cleanup, which leaves no timer, aborts what is in flight and retires the
  number of the effect, and the effect for a trimmed query.
\<close>

definition search_cleanup :: "route_panel \<Rightarrow> route_panel" where
  "search_cleanup p = p\<lparr>pn_timer := None, pn_searches := map (\<lambda>(r, q, _). (r, q, True)) (pn_searches p),
     pn_sequence := Suc (pn_sequence p)\<rparr>"

definition search_effect :: "string \<Rightarrow> route_panel \<Rightarrow> route_panel" where
  "search_effect value p =
     (let p1 = p\<lparr>pn_query := value, pn_sequence := Suc (pn_sequence p)\<rparr>
      in if length value < 2 then p1\<lparr>pn_suggestions := [], pn_state := HP_Idle\<rparr>
         else p1\<lparr>pn_state := HP_Searching, pn_timer := Some (pn_sequence p1, value)\<rparr>)"

definition home_query :: "string \<Rightarrow> route_panel \<Rightarrow> route_panel" where
  "home_query q p = search_effect (trim q) (search_cleanup p)"

definition home_timer :: "route_panel \<Rightarrow> route_panel" where
  "home_timer p =
     (case pn_timer p of
        None \<Rightarrow> p
      | Some (n, q) \<Rightarrow> p\<lparr>pn_timer := None, pn_searches := pn_searches p @ [(n, q, False)]\<rparr>)"

definition home_found :: "nat \<times> string \<times> bool \<Rightarrow> home_location list result \<Rightarrow> route_panel \<Rightarrow> route_panel" where
  "home_found f answer p =
     (case f of (n, q, aborted) \<Rightarrow>
        (let p1 = (case answer of
                     Inr results \<Rightarrow>
                       (if n \<noteq> pn_sequence p then p else set_message None (p\<lparr>pn_suggestions := results\<rparr>))
                   | Inl _ \<Rightarrow>
                       (if aborted \<or> n \<noteq> pn_sequence p then p
                        else set_message (Some ''Home search is unavailable. Try again.'') (p\<lparr>pn_suggestions := []\<rparr>)));
             p2 = (if n = pn_sequence p then p1\<lparr>pn_state := HP_Idle\<rparr> else p1)
         in p2\<lparr>pn_searches := remove1 f (pn_searches p2)\<rparr>))"

definition panel_initial :: route_panel where
  "panel_initial = search_effect ''''
     \<lparr>pn_home = \<lparr>hm_pendingHome = None, hm_message = None\<rparr>, pn_query = '''', pn_suggestions = [], pn_mode = Walking,
      pn_selectedIndex = 0, pn_state = HP_Idle, pn_sequence = 0, pn_timer = None, pn_searches = []\<rparr>"

text \<open>Choosing a suggestion empties the field, which runs the search effect again.\<close>

definition choose_home :: "home_location \<Rightarrow> route_panel \<Rightarrow> route_panel" where
  "choose_home suggestion p = home_query '''' (p\<lparr>pn_home := chooseSuggestion suggestion (pn_home p), pn_suggestions := []\<rparr>)"

section \<open>The panel on the map page\<close>

text \<open>
  A request for routes remembers what it was made for; \<open>rq_mounted\<close> is false once the panel that made
  it is gone, whose own state can then no longer be set.
\<close>

record route_request =
  rq_zones :: "danger_zone list"
  rq_mode :: travel_mode
  rq_from :: lat_lng
  rq_home :: home_location
  rq_mounted :: bool

record 'k home_view =
  hv_db :: "'k identity_db"
  hv_ui :: ui_state
  hv_items :: "safety_event list"
  hv_location :: "lat_lng option"
  hv_open :: bool
  hv_panel :: route_panel
  hv_requests :: "route_request list"
  hv_camera :: "camera_bounds list"

definition home_latlng :: "home_location \<Rightarrow> lat_lng" where
  "home_latlng h = \<lparr>ll_lat = jnum_val (hl_lat h), ll_lng = jnum_val (hl_lng h)\<rparr>"

definition preview :: "home_route list \<Rightarrow> nat \<Rightarrow> lat_lng option \<Rightarrow> home_location option \<Rightarrow> camera_bounds list \<Rightarrow> camera_bounds list" where
  "preview routes i location home cs =
     (case fitRoutePreview (map hm_coordinates routes) i location (map_option home_latlng home) of
        Some c \<Rightarrow> cs @ [c] | None \<Rightarrow> cs)"

definition requestRoute :: "'k home_view \<Rightarrow> 'k home_view" where
  "requestRoute v =
     (case (ui_homeLocation (hv_ui v), hv_location v) of
        (Some home, Some location) \<Rightarrow>
          v\<lparr>hv_ui := ui_reducer (hv_ui v) HomeRoutesCleared,
            hv_panel := (set_message None (hv_panel v))\<lparr>pn_state := HP_Routing, pn_selectedIndex := 0\<rparr>,
            hv_requests := hv_requests v @ [\<lparr>rq_zones = danger_zones (hv_items v), rq_mode = pn_mode (hv_panel v),
              rq_from = location, rq_home = home, rq_mounted = True\<rparr>]\<rparr>
      | _ \<Rightarrow> v)"

definition settled_message :: "home_route list result \<Rightarrow> string" where
  "settled_message answer =
     (case answer of
        Inl _ \<Rightarrow> ''Route preview provider could not be reached. Check your connection and try again.''
      | Inr [] \<Rightarrow> ''No route preview is available for this trip.''
      | Inr next \<Rightarrow> nat_str (length next) @ '' route preview'' @ (if length next = 1 then '''' else ''s'') @ '' loaded.'')"

definition route_settled :: "route_request \<Rightarrow> fetch_outcome \<Rightarrow> 'k home_view \<Rightarrow> 'k home_view" where
  "route_settled rq outcome v =
     (let answer = fetchRouteToHome outcome (rq_zones rq) (rq_mode rq);
          v1 = v\<lparr>hv_requests := remove1 rq (hv_requests v),
                 hv_panel := (if rq_mounted rq then (set_message (Some (settled_message answer)) (hv_panel v))\<lparr>pn_state := HP_Idle\<rparr>
                              else hv_panel v)\<rparr>
      in case answer of
           Inr (r # rs) \<Rightarrow>
             v1\<lparr>hv_ui := ui_reducer (hv_ui v) (HomeRoutesSet (r # rs)),
                hv_camera := preview (r # rs) 0 (Some (rq_from rq)) (Some (rq_home rq)) (hv_camera v)\<rparr>
         | _ \<Rightarrow> v1)"

definition selectRoute :: "nat \<Rightarrow> 'k home_view \<Rightarrow> 'k home_view" where
  "selectRoute i v =
     v\<lparr>hv_panel := (set_message (Some (''Route preview '' @ nat_str (i + 1) @ '' selected.'')) (hv_panel v))\<lparr>pn_selectedIndex := i\<rparr>,
       hv_ui := ui_reducer (hv_ui v) (HomeRouteSelect (int i)),
       hv_camera := preview (ui_homeRoutes (hv_ui v)) i (hv_location v) (ui_homeLocation (hv_ui v)) (hv_camera v)\<rparr>"

definition select_mode :: "travel_mode \<Rightarrow> 'k home_view \<Rightarrow> 'k home_view" where
  "select_mode m v = v\<lparr>hv_panel := (hv_panel v)\<lparr>pn_mode := m\<rparr>, hv_ui := ui_reducer (hv_ui v) HomeRoutesCleared\<rparr>"

text \<open>Saving and clearing the home as the panel's handlers do; the state of the panel ends idle after saving.\<close>

definition panel_confirm :: "'k web_crypto \<Rightarrow> 'k vault_entropy \<Rightarrow> 'k home_view \<Rightarrow> 'k home_view" where
  "panel_confirm wc ent v =
     (case confirmHome wc ent (hv_db v, hv_ui v, pn_home (hv_panel v)) of
        (db, ui, h) \<Rightarrow>
          v\<lparr>hv_db := db, hv_ui := ui,
            hv_panel := (if hm_pendingHome (pn_home (hv_panel v)) = None then hv_panel v
                         else (hv_panel v)\<lparr>pn_home := h, pn_state := HP_Idle\<rparr>)\<rparr>)"

definition panel_clear :: "'k home_view \<Rightarrow> 'k home_view" where
  "panel_clear v =
     (case clearSavedHome (hv_db v, hv_ui v, pn_home (hv_panel v)) of
        (db, ui, h) \<Rightarrow> v\<lparr>hv_db := db, hv_ui := ui, hv_panel := (hv_panel v)\<lparr>pn_home := h\<rparr>\<rparr>)"

definition panel_close :: "'k home_view \<Rightarrow> 'k home_view" where
  "panel_close v = v\<lparr>hv_open := False, hv_ui := ui_reducer (hv_ui v) HomeRoutesCleared, hv_panel := panel_initial,
     hv_requests := map (\<lambda>rq. rq\<lparr>rq_mounted := False\<rparr>) (hv_requests v)\<rparr>"

datatype 'k home_event =
    Panel_open
  | Panel_close
  | Home_query string
  | Home_timer
  | Home_found "nat \<times> string \<times> bool"
  | Choose_home home_location
  | Cancel_home
  | Confirm_home "'k vault_entropy"
  | Clear_home
  | Select_mode travel_mode
  | Request_route
  | Route_settled route_request fetch_outcome
  | Select_route nat
  | Moved "lat_lng option"
  | Items "safety_event list"
  | Home_loaded home_location

text \<open>
  What a user can do depends on what is rendered: everything in the panel while it is open, the buttons
  of the alternatives there are, the route button unless it is disabled.
\<close>

fun panel_step :: "'k web_crypto \<Rightarrow> (string \<Rightarrow> home_location list result) \<Rightarrow> 'k home_view \<Rightarrow> 'k home_event \<Rightarrow> 'k home_view" where
  "panel_step wc service v Panel_close = panel_close v"
| "panel_step wc service v (Home_query q) = v\<lparr>hv_panel := home_query q (hv_panel v)\<rparr>"
| "panel_step wc service v Home_timer = v\<lparr>hv_panel := home_timer (hv_panel v)\<rparr>"
| "panel_step wc service v (Home_found f) =
     (if f \<in> set (pn_searches (hv_panel v)) then v\<lparr>hv_panel := home_found f (service (fst (snd f))) (hv_panel v)\<rparr> else v)"
| "panel_step wc service v (Choose_home s) =
     (if s \<in> set (pn_suggestions (hv_panel v)) then v\<lparr>hv_panel := choose_home s (hv_panel v)\<rparr> else v)"
| "panel_step wc service v Cancel_home =
     v\<lparr>hv_panel := (hv_panel v)\<lparr>pn_home := (pn_home (hv_panel v))\<lparr>hm_pendingHome := None\<rparr>\<rparr>\<rparr>"
| "panel_step wc service v (Confirm_home ent) = panel_confirm wc ent v"
| "panel_step wc service v Clear_home = (if ui_homeLocation (hv_ui v) = None then v else panel_clear v)"
| "panel_step wc service v (Select_mode m) = (if ui_homeLocation (hv_ui v) = None then v else select_mode m v)"
| "panel_step wc service v Request_route =
     (if hv_location v = None \<or> pn_state (hv_panel v) = HP_Routing then v else requestRoute v)"
| "panel_step wc service v (Select_route i) = (if i < length (ui_homeRoutes (hv_ui v)) then selectRoute i v else v)"
| "panel_step wc service v _ = v"

fun home_step :: "'k web_crypto \<Rightarrow> (string \<Rightarrow> home_location list result) \<Rightarrow> 'k home_view \<Rightarrow> 'k home_event \<Rightarrow> 'k home_view" where
  "home_step wc service v Panel_open = (if hv_open v then v else v\<lparr>hv_open := True, hv_panel := panel_initial\<rparr>)"
| "home_step wc service v (Route_settled rq outcome) =
     (if rq \<in> set (hv_requests v) then route_settled rq outcome v else v)"
| "home_step wc service v (Moved location) = v\<lparr>hv_location := location\<rparr>"
| "home_step wc service v (Items items) = v\<lparr>hv_items := items\<rparr>"
| "home_step wc service v (Home_loaded home) = v\<lparr>hv_ui := ui_reducer (hv_ui v) (SetHomeLocation home)\<rparr>"
| "home_step wc service v e = (if hv_open v then panel_step wc service v e else v)"

definition home_view_initial :: "'k identity_db \<Rightarrow> 'k home_view" where
  "home_view_initial db = \<lparr>hv_db = db, hv_ui = ui_initial, hv_items = [], hv_location = None, hv_open = False,
     hv_panel = panel_initial, hv_requests = [], hv_camera = []\<rparr>"

section \<open>The search\<close>

text \<open>
  Searches in flight are numbered as those of the map's search field; the panel is busy while a timer
  runs or the search of the current number is in flight, and otherwise shows its answer.
\<close>

definition home_busy :: "route_panel \<Rightarrow> bool" where
  "home_busy p \<longleftrightarrow> pn_timer p \<noteq> None \<or> pn_sequence p \<in> fst ` set (pn_searches p)"

definition home_shown :: "(string \<Rightarrow> home_location list result) \<Rightarrow> string \<Rightarrow> home_location list" where
  "home_shown service q = (if length q < 2 then [] else (case service q of Inr results \<Rightarrow> results | Inl _ \<Rightarrow> []))"

definition home_search_ok :: "(string \<Rightarrow> home_location list result) \<Rightarrow> route_panel \<Rightarrow> bool" where
  "home_search_ok service p \<longleftrightarrow>
     flights_ok (pn_sequence p) (pn_query p) True (pn_searches p)
     \<and> (pn_timer p \<noteq> None \<longrightarrow> pn_timer p = Some (pn_sequence p, pn_query p) \<and> 2 \<le> length (pn_query p)
          \<and> pn_sequence p \<notin> fst ` set (pn_searches p))
     \<and> (\<not> home_busy p \<longrightarrow> pn_suggestions p = home_shown service (pn_query p))"

lemma set_message_facts [simp]:
  "pn_sequence (set_message m p) = pn_sequence p" "pn_query (set_message m p) = pn_query p"
  "pn_searches (set_message m p) = pn_searches p" "pn_timer (set_message m p) = pn_timer p"
  "pn_suggestions (set_message m p) = pn_suggestions p" "pn_mode (set_message m p) = pn_mode p"
  "pn_selectedIndex (set_message m p) = pn_selectedIndex p" "pn_state (set_message m p) = pn_state p"
  "hm_pendingHome (pn_home (set_message m p)) = hm_pendingHome (pn_home p)"
  by (simp_all add: set_message_def)

lemma search_ok_updates [simp]:
  "home_search_ok service (p\<lparr>pn_home := h\<rparr>) = home_search_ok service p"
  "home_search_ok service (p\<lparr>pn_mode := m\<rparr>) = home_search_ok service p"
  "home_search_ok service (p\<lparr>pn_selectedIndex := i\<rparr>) = home_search_ok service p"
  "home_search_ok service (p\<lparr>pn_state := st\<rparr>) = home_search_ok service p"
  "home_search_ok service (set_message msg p) = home_search_ok service p"
  by (simp_all add: home_search_ok_def home_busy_def)

lemma home_query_ok:
  assumes "flights_ok (pn_sequence p) (pn_query p) True (pn_searches p)"
  shows "home_search_ok service (home_query q p)"
proof -
  let ?ab = "map (\<lambda>(r, q, _). (r, q, True)) (pn_searches p)"
  have twice: "map (\<lambda>(r, q, _). (r, q, True)) ?ab = ?ab" by (simp add: comp_def split_def)
  from flights_abort [OF assms] have "flights_ok (Suc (pn_sequence p)) (trim q) True ?ab" by blast
  note ab = flights_abort [OF this, unfolded twice]
  then show ?thesis
    by (simp add: home_search_ok_def home_query_def search_effect_def search_cleanup_def Let_def home_busy_def home_shown_def)
qed

lemma home_timer_ok:
  assumes "home_search_ok service p"
  shows "home_search_ok service (home_timer p)"
proof (cases "pn_timer p")
  case (Some t)
  with assms have t: "t = (pn_sequence p, pn_query p)" "2 \<le> length (pn_query p)" "pn_sequence p \<notin> fst ` set (pn_searches p)"
    and "flights_ok (pn_sequence p) (pn_query p) True (pn_searches p)" by (simp_all add: home_search_ok_def)
  then have "flights_ok (pn_sequence p) (pn_query p) True (pn_searches p @ [(pn_sequence p, pn_query p, False)])"
    unfolding flights_ok_def by auto
  with Some t show ?thesis by (simp add: home_search_ok_def home_timer_def home_busy_def)
qed (use assms in \<open>simp add: home_timer_def\<close>)

lemma home_found_ok:
  assumes "home_search_ok service p" "f \<in> set (pn_searches p)"
  shows "home_search_ok service (home_found f (service (fst (snd f))) p)"
proof -
  have fl: "flights_ok (pn_sequence p) (pn_query p) True (pn_searches p)" using assms(1) by (simp add: home_search_ok_def)
  note rm = flights_remove [OF fl assms(2)]
  have fl': "flights_ok (pn_sequence p) (pn_query p) True (remove1 f (pn_searches p))"
    using fl rm unfolding flights_ok_def by auto
  show ?thesis
  proof (cases "fst f = pn_sequence p")
    case True
    with fl assms(2) have f: "f = (pn_sequence p, pn_query p, False)" "2 \<le> length (pn_query p)" by (auto simp: flights_ok_def)
    have "pn_sequence p \<in> fst ` set (pn_searches p)" using True assms(2) by force
    with assms(1) have "pn_timer p = None" unfolding home_search_ok_def by blast
    with fl' f show ?thesis
      by (cases "service (pn_query p)") (simp_all add: home_search_ok_def home_found_def Let_def home_shown_def)
  next
    case False
    then have p': "home_found f (service (fst (snd f))) p = p\<lparr>pn_searches := remove1 f (pn_searches p)\<rparr>"
      by (cases f; cases "service (fst (snd f))") (simp_all add: home_found_def)
    have "pn_sequence p \<in> fst ` set (remove1 f (pn_searches p)) \<longleftrightarrow> pn_sequence p \<in> fst ` set (pn_searches p)"
      using False unfolding rm(2) by auto
    with fl' assms(1) show ?thesis unfolding p' home_search_ok_def home_busy_def by simp
  qed
qed

lemma panel_initial_ok: "home_search_ok service panel_initial"
  by (simp add: home_search_ok_def panel_initial_def search_effect_def home_busy_def home_shown_def flights_ok_def)

lemma search_flights: "home_search_ok service p \<Longrightarrow> flights_ok (pn_sequence p) (pn_query p) True (pn_searches p)"
  by (simp add: home_search_ok_def)

lemma choose_ok: "home_search_ok service p \<Longrightarrow> home_search_ok service (choose_home s p)"
  unfolding choose_home_def by (rule home_query_ok) (use search_flights in simp)

lemmas panel_ops = panel_close_def panel_confirm_def panel_clear_def clearSavedHome_def select_mode_def requestRoute_def selectRoute_def

lemma panel_search_step:
  "home_search_ok service (hv_panel v) \<Longrightarrow> home_search_ok service (hv_panel (panel_step wc service v e))"
  by (cases e) (simp_all add: panel_ops panel_initial_ok home_query_ok search_flights home_timer_ok home_found_ok choose_ok
    split: option.split prod.split)

lemma home_search_step:
  "home_search_ok service (hv_panel v) \<Longrightarrow> home_search_ok service (hv_panel (home_step wc service v e))"
  by (cases e) (simp_all add: panel_search_step panel_initial_ok route_settled_def Let_def del: panel_step.simps
    split: sum.split list.split)

interpretation home_search: reducer "home_view_initial db" "home_step wc service" "\<lambda>v. home_search_ok service (hv_panel v)"
  for db wc service
  by unfold_locales (simp add: home_view_initial_def panel_initial_ok, rule home_search_step)

section \<open>The marked alternative\<close>

definition marked_drawn :: "'k home_view \<Rightarrow> bool" where
  "marked_drawn v \<longleftrightarrow>
     (if ui_homeRoutes (hv_ui v) = [] then ui_homeRoute (hv_ui v) = None
      else pn_selectedIndex (hv_panel v) < length (ui_homeRoutes (hv_ui v))
        \<and> ui_homeRoute (hv_ui v) = Some (ui_homeRoutes (hv_ui v) ! pn_selectedIndex (hv_panel v)))"

definition selection_ok :: "'k home_view \<Rightarrow> bool" where
  "selection_ok v \<longleftrightarrow> marked_drawn v \<and> (\<not> hv_open v \<longrightarrow> hv_panel v = panel_initial \<and> (\<forall>rq\<in>set (hv_requests v). \<not> rq_mounted rq))
     \<and> length (hv_requests v) \<le> 1
     \<and> (hv_requests v \<noteq> [] \<longrightarrow> ui_homeRoutes (hv_ui v) = [] \<and> pn_selectedIndex (hv_panel v) = 0)"

text \<open>A run in which routes are requested only when no request is pending.\<close>

fun orderly :: "'k web_crypto \<Rightarrow> (string \<Rightarrow> home_location list result) \<Rightarrow> 'k home_view \<Rightarrow> 'k home_event list \<Rightarrow> bool" where
  "orderly wc service v [] = True"
| "orderly wc service v (e # es) =
     ((case e of Request_route \<Rightarrow> hv_requests v = [] | _ \<Rightarrow> True) \<and> orderly wc service (home_step wc service v e) es)"

lemma cleared_routes [simp]:
  "ui_homeRoutes (ui_reducer ui HomeRoutesCleared) = []" "ui_homeRoute (ui_reducer ui HomeRoutesCleared) = None"
  by simp_all

lemma panel_selection:
  "pn_selectedIndex (home_query q p) = pn_selectedIndex p" "pn_selectedIndex (home_timer p) = pn_selectedIndex p"
  "pn_selectedIndex (home_found f answer p) = pn_selectedIndex p" "pn_selectedIndex (choose_home s p) = pn_selectedIndex p"
  "pn_selectedIndex panel_initial = 0"
  by (simp_all add: home_query_def search_effect_def search_cleanup_def Let_def home_timer_def home_found_def choose_home_def
      panel_initial_def split: option.split prod.split sum.split)

lemma confirm_routes:
  assumes "confirmHome wc ent (db, ui, h) = (db', ui', h')"
  shows "ui' = ui \<or> (ui_homeRoutes ui' = [] \<and> ui_homeRoute ui' = None)"
  using assms by (auto simp: confirmHome_def split: option.splits sum.splits)

lemma select_kept:
  assumes "selection_ok v" "hv_open v" "hv_requests v' = hv_requests v" "hv_open v' = hv_open v"
    "pn_selectedIndex (hv_panel v') = pn_selectedIndex (hv_panel v)"
    "hv_ui v' = hv_ui v \<or> (ui_homeRoutes (hv_ui v') = [] \<and> ui_homeRoute (hv_ui v') = None)"
  shows "selection_ok v'"
  using assms by (auto simp: selection_ok_def marked_drawn_def)

lemma selection_panel_step:
  assumes "selection_ok v" "hv_open v" "e = Request_route \<longrightarrow> hv_requests v = []"
  shows "selection_ok (panel_step wc service v e)"
proof (cases e)
  case (Confirm_home ent)
  obtain db ui h where c: "confirmHome wc ent (hv_db v, hv_ui v, pn_home (hv_panel v)) = (db, ui, h)" by (metis surj_pair)
  show ?thesis unfolding Confirm_home panel_step.simps
    by (rule select_kept [OF assms(1,2)]) (use confirm_routes [OF c] in \<open>auto simp: panel_confirm_def c\<close>)
next
  case Request_route
  then show ?thesis using assms
    by (auto simp: requestRoute_def selection_ok_def marked_drawn_def split: option.split)
next
  case (Select_route i)
  then show ?thesis using assms(1,2)
    by (auto simp: selectRoute_def selection_ok_def marked_drawn_def homeRouteSelect_def)
next
  case Panel_close
  then show ?thesis using assms(1) by (auto simp: panel_close_def selection_ok_def marked_drawn_def panel_selection)
qed (use assms in \<open>auto simp: panel_selection panel_clear_def clearSavedHome_def select_mode_def intro: select_kept\<close>)

lemma selection_step:
  assumes "selection_ok v" "e = Request_route \<longrightarrow> hv_requests v = []"
  shows "selection_ok (home_step wc service v e)"
proof (cases "e = Panel_open \<or> (\<exists>rq out. e = Route_settled rq out) \<or> (\<exists>l. e = Moved l) \<or> (\<exists>is. e = Items is)
    \<or> (\<exists>h. e = Home_loaded h)")
  case True
  then consider "e = Panel_open" | rq out where "e = Route_settled rq out" | l where "e = Moved l" | items where "e = Items items"
    | h where "e = Home_loaded h" by blast
  then show ?thesis
  proof cases
    case 2
    show ?thesis
    proof (cases "rq \<in> set (hv_requests v)")
      case True
      with assms(1) have "hv_requests v = [rq]" by (cases "hv_requests v") (auto simp: selection_ok_def)
      with 2 assms(1) show ?thesis
        by (auto simp: route_settled_def Let_def selection_ok_def marked_drawn_def panel_selection split: sum.split list.split)
    qed (use 2 assms in simp)
  qed (use assms in \<open>auto simp: selection_ok_def marked_drawn_def panel_selection\<close>)
next
  case False
  then have "home_step wc service v e = (if hv_open v then panel_step wc service v e else v)" by (cases e) auto
  with selection_panel_step [OF assms(1) _ assms(2)] assms(1) show ?thesis by simp
qed

lemma selection_run: "selection_ok v \<Longrightarrow> orderly wc service v es \<Longrightarrow> selection_ok (foldl (home_step wc service) v es)"
proof (induction es arbitrary: v)
  case (Cons e es)
  then have "e = Request_route \<longrightarrow> hv_requests v = []" "orderly wc service (home_step wc service v e) es" by auto
  with Cons.IH [OF selection_step [OF Cons.prems(1)]] show ?case by simp
qed simp

section \<open>Properties\<close>

lemma pos_of_zone: "zone_hit coords \<lparr>dz_lat = a, dz_lng = b, dz_radiusKm = r\<rparr> = at_most (pointToLineDistance \<lparr>ll_lat = a, ll_lng = b\<rparr> coords) r"
  by (simp add: zone_hit_def)

lemma danger_hits:
  "length (filter (zone_hit coords) (danger_zones events)) =
     length (filter (\<lambda>e. ev_is_active e \<and> at_most (pointToLineDistance \<lparr>ll_lat = ev_lat e, ll_lng = ev_lng e\<rparr> coords) (alert_radius e)) events)"
  by (simp add: danger_zones_def filter_map comp_def pos_of_zone conj_commute)

lemma routes_answered:
  assumes "getRoute outcome = ok results" "results \<noteq> []"
  obtains r rs where "fetchRouteToHome outcome zones mode = ok (r # rs)"
    "r # rs = map (\<lambda>(i, r). to_home_route zones mode i r) (enumerate 0 (take 3 results))"
proof -
  have ne: "map (\<lambda>(i, r). to_home_route zones mode i r) (enumerate 0 (take 3 results)) \<noteq> []"
    using assms(2) by (cases results) simp_all
  then obtain r rs where "map (\<lambda>(i, r). to_home_route zones mode i r) (enumerate 0 (take 3 results)) = r # rs"
    by (meson list.exhaust)
  with assms(1) show thesis using that by (simp add: fetchRouteToHome_def)
qed

lemma to_home_route_fields [simp]:
  "hm_coordinates (to_home_route zones mode i r) = rt_coordinates r" "hm_mode (to_home_route zones mode i r) = mode"
  by (simp_all add: to_home_route_def Let_def)


definition sample_place :: home_location where
  "sample_place = \<lparr>hl_lat = Dec 0 0, hl_lng = Dec 1 0, hl_label = ''Home''\<rparr>"

definition sample_view :: "safety_event list \<Rightarrow> (bytes \<times> bool) home_view" where
  "sample_view items = (home_view_initial (cs_vault sample_circle_state))\<lparr>hv_open := True, hv_items := items,
     hv_location := Some \<lparr>ll_lat = 0, ll_lng = 0\<rparr>, hv_ui := ui_reducer ui_initial (SetHomeLocation sample_place)\<rparr>"

definition sample_route :: "string \<Rightarrow> json" where
  "sample_route i = JObj [(''id'', JStr i), (''coordinates'', JArr [JArr [JInt 0, JInt 0], JArr [JInt 1, JInt 0]]),
     (''distance_m'', JInt 900), (''duration_s'', JInt 600), (''warnings'', JArr []), (''degraded'', JBool False)]"

definition sample_answer :: "string list \<Rightarrow> fetch_outcome" where
  "sample_answer ids = Fetch_Replied 200 (Some (JObj [(''routes'', JArr (map sample_route ids))]))"

definition sample_result :: "string \<Rightarrow> route_result" where
  "sample_result i = \<lparr>rt_id = i, rt_coordinates = [(0, 0), (1, 0)], rt_distance = 900, rt_duration = 600, rt_warnings = [], rt_degraded = False\<rparr>"

lemma sample_read: "i \<noteq> '''' \<Longrightarrow> read_route (sample_route i) = Some (sample_result i)"
  by (simp add: sample_route_def sample_result_def read_route_def jget_def jnum_val_def)

lemma sample_routes: "\<forall>i\<in>set ids. i \<noteq> '''' \<Longrightarrow> getRoute (sample_answer ids) = ok (map sample_result ids)"
proof -
  assume "\<forall>i\<in>set ids. i \<noteq> ''''"
  then have "read_routes (map sample_route ids) = Some (map sample_result ids)"
    by (induction ids) (simp_all add: sample_read)
  then show ?thesis by (simp add: sample_answer_def getRoute_def reply_ok_def jget_def)
qed

lemma sample_view_facts:
  "hv_open (sample_view items)" "pn_state (hv_panel (sample_view items)) = HP_Idle"
  "ui_homeLocation (hv_ui (sample_view items)) = Some sample_place" "hv_location (sample_view items) = Some \<lparr>ll_lat = 0, ll_lng = 0\<rparr>"
  "hv_requests (sample_view items) = []" "hv_items (sample_view items) = items" "pn_mode (hv_panel (sample_view items)) = Walking"
  by (simp_all add: sample_view_def home_view_initial_def panel_initial_def search_effect_def)


text \<open>
  The alternative the panel marks is the route the map draws, after every sequence of actions and
  answers in which routes are requested only when no request is pending; and the map draws every
  route that was found exactly once, provided the provider gives them different ids.
\<close>

theorem marked_route_drawn:
  fixes db :: "'k identity_db"
  assumes "orderly wc service (home_view_initial db) events"
  shows "let v = foldl (home_step wc service) (home_view_initial db) events; routes = ui_homeRoutes (hv_ui v)
    in marked_drawn v \<and> (distinct (map hm_id routes) \<longrightarrow>
         mset (alternatives (hv_ui v)) + (case ui_homeRoute (hv_ui v) of Some r \<Rightarrow> {#r#} | None \<Rightarrow> {#}) = mset routes)"
proof -
  define v where "v = foldl (home_step wc service) (home_view_initial db) events"
  have "selection_ok (home_view_initial db :: 'k home_view)"
    by (simp add: selection_ok_def marked_drawn_def home_view_initial_def ui_initial_def)
  then have m: "marked_drawn v" using selection_run [OF _ assms] by (simp add: v_def selection_ok_def)
  have "mset (alternatives (hv_ui v)) + (case ui_homeRoute (hv_ui v) of Some r \<Rightarrow> {#r#} | None \<Rightarrow> {#}) = mset (ui_homeRoutes (hv_ui v))"
    if d: "distinct (map hm_id (ui_homeRoutes (hv_ui v)))"
  proof (cases "ui_homeRoute (hv_ui v)")
    case None
    then show ?thesis by (simp add: alternatives_def)
  next
    case (Some h)
    with m have h: "h \<in> set (ui_homeRoutes (hv_ui v))" by (auto simp: marked_drawn_def split: if_splits)
    have "filter (\<lambda>r. hm_id r \<noteq> hm_id h) (ui_homeRoutes (hv_ui v)) = filter (\<lambda>r. r \<noteq> h) (ui_homeRoutes (hv_ui v))"
      by (rule filter_cong) (use d h in \<open>auto simp: distinct_map inj_on_def\<close>)
    moreover have "distinct (ui_homeRoutes (hv_ui v))" using d by (simp add: distinct_map)
    ultimately have "alternatives (hv_ui v) = remove1 h (ui_homeRoutes (hv_ui v))"
      by (simp add: alternatives_def Some distinct_remove1_removeAll removeAll_filter_not_eq eq_commute [of h])
    with Some h show ?thesis by simp
  qed
  with m show ?thesis by (simp add: Let_def v_def)
qed

definition sample_run :: "(bytes \<times> bool) home_event list" where
  "sample_run = [Home_loaded sample_place, Moved (Some \<lparr>ll_lat = 0, ll_lng = 0\<rparr>), Panel_open, Request_route,
     Route_settled \<lparr>rq_zones = [], rq_mode = Walking, rq_from = \<lparr>ll_lat = 0, ll_lng = 0\<rparr>, rq_home = sample_place, rq_mounted = True\<rparr>
       (sample_answer [''a'', ''b'']), Select_route 1]"

lemma sample_fetch:
  "\<forall>i\<in>set ids. i \<noteq> '''' \<Longrightarrow> fetchRouteToHome (sample_answer ids) zones mode =
     ok (map (\<lambda>(i, r). to_home_route zones mode i r) (enumerate 0 (take 3 (map sample_result ids))))"
  by (simp add: fetchRouteToHome_def sample_routes)

theorem marked_route_drawn_witness:
  "let v = foldl (home_step plain_crypto (\<lambda>_. ok [])) (home_view_initial (cs_vault sample_circle_state)) sample_run
   in marked_drawn v \<and> map_option hm_id (ui_homeRoute (hv_ui v)) = Some ''b'' \<and> pn_selectedIndex (hv_panel v) = 1"
proof -
  let ?v = "home_view_initial (cs_vault sample_circle_state) :: (bytes \<times> bool) home_view"
  have o: "orderly plain_crypto (\<lambda>_. ok []) ?v sample_run"
    by (simp add: sample_run_def home_view_initial_def)
  have "map_option hm_id (ui_homeRoute (hv_ui (foldl (home_step plain_crypto (\<lambda>_. ok [])) ?v sample_run))) = Some ''b''
      \<and> pn_selectedIndex (hv_panel (foldl (home_step plain_crypto (\<lambda>_. ok [])) ?v sample_run)) = 1"
    by (simp add: sample_run_def home_view_initial_def panel_initial_def search_effect_def requestRoute_def danger_zones_def
        route_settled_def sample_fetch to_home_route_def Let_def selectRoute_def homeRouteSelect_def ui_initial_def sample_result_def)
  with marked_route_drawn [OF o] show ?thesis by (simp add: Let_def)
qed

text \<open>
  Requests that overlap mark the wrong route. Typing in the search field takes the panel out of its
  routing state, which enables the route button again: a second request made so is answered after an
  alternative of the first was chosen, and the panel then marks the second of the new routes while
  the map draws the first.
\<close>

theorem overlapping_requests_mark_wrong_route:
  fixes v :: "'k home_view"
  assumes "hv_open v" "pn_state (hv_panel v) = HP_Idle" "ui_homeLocation (hv_ui v) = Some home" "hv_location v = Some loc"
    and "getRoute first = ok (a # b # as)" "getRoute second = ok (c # d # cs)"
    and "2 \<le> length (trim q)"
    and "rq = \<lparr>rq_zones = danger_zones (hv_items v), rq_mode = pn_mode (hv_panel v), rq_from = loc, rq_home = home, rq_mounted = True\<rparr>"
  shows "let v' = foldl (home_step wc service) v
            [Request_route, Home_query q, Request_route, Route_settled rq first, Select_route 1, Route_settled rq second]
    in pn_selectedIndex (hv_panel v') = 1 \<and> \<not> marked_drawn v' \<and> 2 \<le> length (ui_homeRoutes (hv_ui v'))
       \<and> map_option hm_coordinates (ui_homeRoute (hv_ui v')) = Some (rt_coordinates c)
       \<and> hm_coordinates (ui_homeRoutes (hv_ui v') ! 1) = rt_coordinates d"
proof -
  let ?T = "\<lambda>i r. to_home_route (rq_zones rq) (rq_mode rq) i r"
  have f: "fetchRouteToHome first (rq_zones rq) (rq_mode rq) =
        ok (?T 0 a # ?T 1 b # map (\<lambda>(i, r). ?T i r) (enumerate 2 (take 1 as)))"
    and g: "fetchRouteToHome second (rq_zones rq) (rq_mode rq) =
        ok (?T 0 c # ?T 1 d # map (\<lambda>(i, r). ?T i r) (enumerate 2 (take 1 cs)))"
    using assms(5,6) by (simp_all add: fetchRouteToHome_def numeral_2_eq_2 numeral_3_eq_3)
  define v1 where "v1 = foldl (home_step wc service) v [Request_route, Home_query q, Request_route]"
  have v1: "hv_open v1" "rq \<in> set (hv_requests v1)" "rq \<in> set (remove1 rq (hv_requests v1))"
    using assms(1-4,7,8) by (simp_all add: v1_def requestRoute_def home_query_def search_effect_def search_cleanup_def Let_def
        remove1_append)
  have lab: "?T 0 c \<noteq> ?T 1 d" by (simp add: to_home_route_def Let_def route_label_def ROUTE_LABELS_def)
  define v2 where "v2 = home_step wc service v1 (Route_settled rq first)"
  define v3 where "v3 = home_step wc service v2 (Select_route 1)"
  have v2: "hv_open v2" "rq \<in> set (hv_requests v2)" "2 \<le> length (ui_homeRoutes (hv_ui v2))"
    unfolding v2_def using v1 by (simp_all add: route_settled_def f)
  then have "v3 = selectRoute 1 v2" unfolding v3_def by simp
  then have v3: "rq \<in> set (hv_requests v3)" "pn_selectedIndex (hv_panel v3) = 1" using v2(2) by (simp_all add: selectRoute_def)
  have v4: "home_step wc service v3 (Route_settled rq second) = route_settled rq second v3" using v3(1) by simp
  have run: "foldl (home_step wc service) v
      [Request_route, Home_query q, Request_route, Route_settled rq first, Select_route 1, Route_settled rq second]
      = route_settled rq second v3"
    using v4 unfolding v3_def v2_def v1_def by (simp only: foldl_Cons foldl_Nil)
  show ?thesis unfolding run Let_def using v3(2) lab by (simp add: route_settled_def g marked_drawn_def)
qed

theorem overlapping_requests_mark_wrong_route_witness:
  "\<exists>v' :: (bytes \<times> bool) home_view. pn_selectedIndex (hv_panel v') = 1 \<and> \<not> marked_drawn v' \<and> 2 \<le> length (ui_homeRoutes (hv_ui v'))"
proof -
  have g: "getRoute (sample_answer [''a'', ''b'']) = ok [sample_result ''a'', sample_result ''b'']" by (simp add: sample_routes)
  have t: "2 \<le> length (trim ''oslo'')" by (simp add: trim_def js_whitespace_def)
  from overlapping_requests_mark_wrong_route [where wc = plain_crypto and service = "\<lambda>_. ok []" and v = "sample_view []",
      OF sample_view_facts(1-4) g g t refl]
  show ?thesis unfolding Let_def by blast
qed

text \<open>
  C39: a request outlives what it was made for. When the answer comes after the travel mode was changed,
  the panel shows routes of the old mode under the new one; after the home was cleared, the map draws
  routes to a home that is no longer saved; after the panel was closed, it draws routes nobody asked
  for any more.
\<close>

theorem stale_route_preview:
  fixes v :: "'k home_view"
  assumes "hv_open v" "pn_state (hv_panel v) = HP_Idle" "ui_homeLocation (hv_ui v) = Some home" "hv_location v = Some loc"
    and "getRoute outcome = ok results" "results \<noteq> []"
    and "rq = \<lparr>rq_zones = danger_zones (hv_items v), rq_mode = pn_mode (hv_panel v), rq_from = loc, rq_home = home, rq_mounted = True\<rparr>"
    and "hv_requests v = []"
  shows "(let v' = foldl (home_step wc service) v [Request_route, Select_mode m, Route_settled rq outcome]
      in pn_mode (hv_panel v') = m \<and> ui_homeRoutes (hv_ui v') \<noteq> [] \<and> (\<forall>r\<in>set (ui_homeRoutes (hv_ui v')). hm_mode r = pn_mode (hv_panel v)))
    \<and> (let v' = foldl (home_step wc service) v [Request_route, Clear_home, Route_settled rq outcome]
      in ui_homeLocation (hv_ui v') = None \<and> ui_homeRoute (hv_ui v') \<noteq> None)
    \<and> (let v' = foldl (home_step wc service) v [Request_route, Panel_close, Route_settled (rq\<lparr>rq_mounted := False\<rparr>) outcome]
      in \<not> hv_open v' \<and> ui_homeRoute (hv_ui v') \<noteq> None)"
proof -
  obtain r rs where f: "fetchRouteToHome outcome (rq_zones rq) (rq_mode rq) = ok (r # rs)"
    and rs: "r # rs = map (\<lambda>(i, r). to_home_route (rq_zones rq) (rq_mode rq) i r) (enumerate 0 (take 3 results))"
    by (rule routes_answered [OF assms(5,6)])
  have modes: "\<forall>q\<in>set (r # rs). hm_mode q = pn_mode (hv_panel v)" unfolding rs by (auto simp: assms(7))
  have req: "requestRoute v = v\<lparr>hv_ui := ui_reducer (hv_ui v) HomeRoutesCleared,
      hv_panel := (set_message None (hv_panel v))\<lparr>pn_state := HP_Routing, pn_selectedIndex := 0\<rparr>, hv_requests := [rq]\<rparr>"
    using assms(3,4,7,8) by (simp add: requestRoute_def)
  have step: "home_step wc service v Request_route = requestRoute v" using assms(1,2,4) by simp
  have f': "fetchRouteToHome outcome (rq_zones (rq\<lparr>rq_mounted := False\<rparr>)) (rq_mode (rq\<lparr>rq_mounted := False\<rparr>)) = ok (r # rs)"
    using f by simp
  show ?thesis
  proof (intro conjI)
    show "let v' = foldl (home_step wc service) v [Request_route, Select_mode m, Route_settled rq outcome]
      in pn_mode (hv_panel v') = m \<and> ui_homeRoutes (hv_ui v') \<noteq> [] \<and> (\<forall>r\<in>set (ui_homeRoutes (hv_ui v')). hm_mode r = pn_mode (hv_panel v))"
      unfolding foldl_Cons step req using assms(1,3) modes by (simp add: select_mode_def route_settled_def f Let_def)
    show "let v' = foldl (home_step wc service) v [Request_route, Clear_home, Route_settled rq outcome]
      in ui_homeLocation (hv_ui v') = None \<and> ui_homeRoute (hv_ui v') \<noteq> None"
      unfolding foldl_Cons step req using assms(1,3) by (simp add: panel_clear_def clearSavedHome_def route_settled_def f Let_def)
    show "let v' = foldl (home_step wc service) v [Request_route, Panel_close, Route_settled (rq\<lparr>rq_mounted := False\<rparr>) outcome]
      in \<not> hv_open v' \<and> ui_homeRoute (hv_ui v') \<noteq> None"
      unfolding foldl_Cons step req using assms(1,3) by (simp add: panel_close_def route_settled_def f [simplified] Let_def)
  qed
qed

theorem stale_route_preview_witness:
  "\<exists>v' :: (bytes \<times> bool) home_view. pn_mode (hv_panel v') = Driving \<and> ui_homeRoutes (hv_ui v') \<noteq> []
     \<and> (\<forall>r\<in>set (ui_homeRoutes (hv_ui v')). hm_mode r = Walking)"
proof -
  have g: "getRoute (sample_answer [''a'']) = ok [sample_result ''a'']" by (simp add: sample_routes)
  show ?thesis
    using stale_route_preview [where wc = plain_crypto and service = "\<lambda>_. ok []" and v = "sample_view []" and m = Driving,
        OF sample_view_facts(1-4) g _ refl sample_view_facts(5)]
    unfolding Let_def sample_view_facts(7) by blast
qed

text \<open>
  An alert without a radius counts within 400 metres and is drawn with 500. A route that passes between
  the two runs through the zone on the map and is not flagged.
\<close>

theorem drawn_zone_not_counted:
  assumes "radius_field e = None" "ev_is_active e" "ev_severity e \<noteq> ''LOW''"
    and "pointToLineDistance \<lparr>ll_lat = ev_lat e, ll_lng = ev_lng e\<rparr> coords = Some d" "4 / 10 < d" "d \<le> 5 / 10"
  shows "(\<exists>z\<in>set (zone_features [e]). zf_id z = ev_id e \<and> (\<exists>m. zf_radius_m z = JNum m \<and> d * 1000 \<le> jnum_val m))
    \<and> hm_alertIntersections (to_home_route (danger_zones [e]) mode i \<lparr>rt_id = x, rt_coordinates = coords, rt_distance = l,
        rt_duration = t, rt_warnings = [], rt_degraded = False\<rparr>) = 0"
proof -
  have "\<not> zone_hit coords \<lparr>dz_lat = ev_lat e, dz_lng = ev_lng e, dz_radiusKm = alert_radius e\<rparr>"
    using assms(1,4,5) by (simp add: pos_of_zone alert_radius_def js_number_def at_most_def)
  then have "count_hits coords (danger_zones [e]) 0 = 0" using assms(2) by (simp add: count_hits_filter danger_zones_def)
  moreover have "d * 1000 \<le> jnum_val (Dec 500 0)" using assms(6) by (simp add: jnum_val_def)
  ultimately show ?thesis using assms(1-3) by (auto simp: to_home_route_def Let_def zone_features_def)
qed

theorem drawn_zone_not_counted_witness:
  "\<exists>lng. hm_alertIntersections (to_home_route (danger_zones [sample_event ''a'' 0 lng]) Walking 0
     \<lparr>rt_id = ''r'', rt_coordinates = [(0, 0)], rt_distance = 0, rt_duration = 0, rt_warnings = [], rt_degraded = False\<rparr>) = 0"
proof -
  let ?x = "45 / 100 / (EARTH_RADIUS_KM * DEG_TO_RAD)"
  have pos: "EARTH_RADIUS_KM * DEG_TO_RAD > 1" "EARTH_RADIUS_KM > 0" "DEG_TO_RAD > 0"
    using pi_ge_two by (simp_all add: EARTH_RADIUS_KM_def DEG_TO_RAD_def)
  then have "\<bar>?x\<bar> \<le> 180" by (simp add: field_simps)
  from haversine_equator [of ?x 0] this pos have d: "pointToLineDistance \<lparr>ll_lat = 0, ll_lng = ?x\<rparr> [(0, 0)] = Some (45 / 100)"
    by (simp add: pointToLineDistance_def coord_def abs_mult)
  show ?thesis
    using drawn_zone_not_counted [of "sample_event ''a'' 0 ?x" "[(0, 0)]" "45 / 100" Walking 0 "''r''" 0 0] d
    by (intro exI [of _ ?x]) (simp add: sample_event_def radius_field_def)
qed

text \<open>
  The suggestions are those of the query in the field whenever the search is not busy, whatever the
  order of the answers: none for a query that is too short or that the service failed on.
\<close>

theorem home_suggestions_current:
  "let v = foldl (home_step wc service) (home_view_initial db) events
   in \<not> home_busy (hv_panel v) \<longrightarrow> pn_suggestions (hv_panel v) = home_shown service (pn_query (hv_panel v))"
  using home_search.inv_reachable [where wc = wc and service = service and db = db]
  by (simp add: Let_def home_search_ok_def)

theorem home_suggestions_current_witness:
  "pn_suggestions (hv_panel (foldl (home_step plain_crypto (\<lambda>_. ok [sample_place])) (home_view_initial (cs_vault sample_circle_state))
     [Panel_open, Home_query ''oslo'', Home_timer, Home_found (3, ''oslo'', False)])) = [sample_place]"
proof -
  have t: "trim ''oslo'' = ''oslo''" by (simp add: trim_def js_whitespace_def)
  show ?thesis
    using home_suggestions_current [of plain_crypto "\<lambda>_. ok [sample_place]" "cs_vault sample_circle_state"
        "[Panel_open, Home_query ''oslo'', Home_timer, Home_found (3, ''oslo'', False)]"]
    by (simp add: Let_def home_view_initial_def panel_initial_def search_effect_def home_query_def search_cleanup_def
        home_timer_def home_found_def t home_busy_def)
qed

end
