(* ===== verification/SettingsPanels.thy ===== *)
theory SettingsPanels
  imports Pages
begin

text \<open>
  Two panels of the settings page: the alert perimeter (\<open>components/AlertPerimeter.tsx\<close>) on top of the
  push hook of \<open>Pages\<close>, and the identity dialog of \<open>pages/SettingsPage.tsx\<close> with the secret key it can
  reveal.

  The lemmas show that a perimeter enabled in the panel is the one shown and sent again after a reload,
  that nothing is sent before a place was chosen, and that the secret key is neither drawn nor copied
  unless it was revealed; and that closing the dialog does not hide it again.
\<close>

section \<open>The perimeter panel\<close>

record perimeter_panel =
  pr_preferences :: push_preferences
  pr_locationError :: "string option"
  pr_hook :: push_hook

text \<open>The panel of a page that is loaded, and the hook's effect with the answers it gets.\<close>

definition perimeter_mount :: "bool \<Rightarrow> bool \<Rightarrow> unit result \<Rightarrow> push_hook \<Rightarrow> perimeter_panel" where
  "perimeter_mount supported denied reply h =
     (let h0 = h\<lparr>ph_state := if supported then P_Idle else P_Unsupported, ph_error := None\<rparr>
      in \<lparr>pr_preferences = loadPushPreferences (ph_ls h), pr_locationError = None, pr_hook = push_mount supported denied reply h0\<rparr>)"

definition locate :: "(jnum \<times> jnum) result \<Rightarrow> perimeter_panel \<Rightarrow> perimeter_panel" where
  "locate position s =
     (case position of
        Inr center \<Rightarrow> s\<lparr>pr_locationError := None, pr_preferences := (pr_preferences s)\<lparr>pp_center := Some center\<rparr>\<rparr>
      | Inl _ \<Rightarrow> s\<lparr>pr_locationError := Some ''Location access is needed to build a private alert perimeter.''\<rparr>)"

definition can_enable :: "perimeter_panel \<Rightarrow> bool" where
  "can_enable s \<longleftrightarrow> pp_center (pr_preferences s) \<noteq> None \<and> ph_state (pr_hook s) \<notin> {P_Working, P_Unsupported}"

datatype perimeter_event =
    Located_answer "(jnum \<times> jnum) result"
  | Severity_chosen string
  | Radius_moved nat
  | Enable_clicked permission "json result" "unit result"
  | Disable_clicked string "unit result"

text \<open>The choices of the list, the range of the slider, and the buttons that are drawn and enabled.\<close>

fun perimeter_step :: "bool \<Rightarrow> perimeter_panel \<Rightarrow> perimeter_event \<Rightarrow> perimeter_panel" where
  "perimeter_step supported s (Located_answer position) = locate position s"
| "perimeter_step supported s (Severity_chosen v) =
     (if v \<in> {''MEDIUM'', ''HIGH'', ''CRITICAL''} then s\<lparr>pr_preferences := (pr_preferences s)\<lparr>pp_minSeverity := v\<rparr>\<rparr> else s)"
| "perimeter_step supported s (Radius_moved r) =
     (if 2 \<le> r \<and> r \<le> 50 then s\<lparr>pr_preferences := (pr_preferences s)\<lparr>pp_radiusKm := Dec (int r) 0\<rparr>\<rparr> else s)"
| "perimeter_step supported s (Enable_clicked permission subscribe reply) =
     (if can_enable s then s\<lparr>pr_hook := push_enable supported permission subscribe reply (pr_preferences s) (pr_hook s)\<rparr> else s)"
| "perimeter_step supported s (Disable_clicked endpoint reply) =
     (if ph_state (pr_hook s) = P_Enabled then s\<lparr>pr_hook := push_disable supported endpoint reply (pr_hook s)\<rparr> else s)"

text \<open>The line under the panel: the location error first.\<close>

definition perimeter_error :: "perimeter_panel \<Rightarrow> string option" where
  "perimeter_error s =
     (if truthy (pr_locationError s) \<or> truthy (ph_error (pr_hook s))
      then (case pr_locationError s of Some e \<Rightarrow> Some e | None \<Rightarrow> ph_error (pr_hook s)) else None)"

section \<open>The identity dialog\<close>

datatype manage_tab = Signing_tab | Recovery_tab

text \<open>The dialog, and what the page last wrote to the clipboard.\<close>

record identity_dialog =
  dg_open :: bool
  dg_tab :: manage_tab
  dg_showNsec :: bool
  dg_copiedNsec :: bool
  dg_copiedNpub :: bool
  dg_clipboard :: "string option"

definition dialog_initial :: identity_dialog where
  "dialog_initial = \<lparr>dg_open = False, dg_tab = Signing_tab, dg_showNsec = False, dg_copiedNsec = False, dg_copiedNpub = False, dg_clipboard = None\<rparr>"

text \<open>The key that is drawn in the recovery tab; \<open>hidden\<close> is the row of dots.\<close>

definition secret_row :: "string \<Rightarrow> string \<Rightarrow> identity_dialog \<Rightarrow> string option" where
  "secret_row nsec hidden d =
     (if dg_open d \<and> dg_tab d = Recovery_tab then Some (if dg_showNsec d then nsec else hidden) else None)"

datatype dialog_event =
  Manage manage_tab | Close_dialog | Tab_clicked manage_tab | Reveal_clicked | Copy_nsec bool | Copy_npub bool | Nsec_timeout | Npub_timeout

fun dialog_step :: "string \<Rightarrow> string \<Rightarrow> identity_dialog \<Rightarrow> dialog_event \<Rightarrow> identity_dialog" where
  "dialog_step npub nsec d (Manage t) = d\<lparr>dg_tab := t, dg_open := True\<rparr>"
| "dialog_step npub nsec d Close_dialog = d\<lparr>dg_open := False\<rparr>"
| "dialog_step npub nsec d (Tab_clicked t) = (if dg_open d then d\<lparr>dg_tab := t\<rparr> else d)"
| "dialog_step npub nsec d Reveal_clicked =
     (if dg_open d \<and> dg_tab d = Recovery_tab then d\<lparr>dg_showNsec := \<not> dg_showNsec d\<rparr> else d)"
| "dialog_step npub nsec d (Copy_nsec written) =
     (if dg_open d \<and> dg_tab d = Recovery_tab \<and> dg_showNsec d \<and> written then d\<lparr>dg_clipboard := Some nsec, dg_copiedNsec := True\<rparr> else d)"
| "dialog_step npub nsec d (Copy_npub written) =
     (if npub \<noteq> '''' \<and> written then d\<lparr>dg_clipboard := Some npub, dg_copiedNpub := True\<rparr> else d)"
| "dialog_step npub nsec d Nsec_timeout = d\<lparr>dg_copiedNsec := False\<rparr>"
| "dialog_step npub nsec d Npub_timeout = d\<lparr>dg_copiedNpub := False\<rparr>"

section \<open>The perimeter is kept\<close>

definition in_world :: "jnum \<times> jnum \<Rightarrow> bool" where
  "in_world c \<longleftrightarrow> \<bar>jnum_val (fst c)\<bar> \<le> 90 \<and> \<bar>jnum_val (snd c)\<bar> \<le> 180"

lemma coarse_bound:
  assumes "\<bar>jnum_val x\<bar> \<le> real n"
  shows "\<bar>jnum_val (coarse x)\<bar> \<le> real n"
proof -
  obtain k :: int where k: "jnum_val (coarse x) = of_int k / 100" using coarse_hundredths [of x] by (auto simp: hundredths_def)
  have "\<bar>of_int k / 100\<bar> \<le> real n + 5 / 1000" using coarse_near [of x] assms unfolding k by linarith
  then have "\<bar>of_int k\<bar> < real (100 * n) + 1" by simp
  then have "\<bar>k\<bar> \<le> int (100 * n)" by linarith
  then have "\<bar>real_of_int k\<bar> \<le> real (100 * n)" by linarith
  then show ?thesis by (simp add: k)
qed

text \<open>What the panel can hold: a severity and a radius that are accepted when they are read back.\<close>

definition panel_ok :: "perimeter_panel \<Rightarrow> bool" where
  "panel_ok s \<longleftrightarrow>
     matchesSeverity (pp_minSeverity (pr_preferences s)) \<and> 1 \<le> jnum_val (pp_radiusKm (pr_preferences s)) \<and> jnum_val (pp_radiusKm (pr_preferences s)) \<le> 100
     \<and> (\<forall>c. pp_center (pr_preferences s) = Some c \<longrightarrow> in_world c)"

fun real_position :: "perimeter_event \<Rightarrow> bool" where
  "real_position (Located_answer (Inr c)) = in_world c"
| "real_position e = True"

lemma loaded_ok: "let p = loadPushPreferences ls in matchesSeverity (pp_minSeverity p) \<and> 1 \<le> jnum_val (pp_radiusKm p) \<and> jnum_val (pp_radiusKm p) \<le> 100
    \<and> (\<forall>c. pp_center p = Some c \<longrightarrow> in_world c)"
  by (auto simp: loadPushPreferences_def default_preferences_def matchesSeverity_def in_world_def jnum_val_def Let_def split: option.splits if_splits)

lemma panel_ok_mount: "panel_ok (perimeter_mount supported denied reply h)"
  using loaded_ok [of "ph_ls h"] by (simp add: panel_ok_def perimeter_mount_def Let_def)

lemma panel_ok_step: "real_position e \<Longrightarrow> panel_ok s \<Longrightarrow> panel_ok (perimeter_step supported s e)"
  by (cases e rule: real_position.cases) (auto simp: panel_ok_def locate_def matchesSeverity_def jnum_val_def)

lemma panel_ok_run: "list_all real_position es \<Longrightarrow> panel_ok s \<Longrightarrow> panel_ok (foldl (perimeter_step supported) s es)"
  by (induction es arbitrary: s) (simp_all add: panel_ok_step)

lemma preferences_read_back:
  assumes "matchesSeverity (pp_minSeverity p)" "1 \<le> jnum_val (pp_radiusKm p)" "jnum_val (pp_radiusKm p) \<le> 100" "pp_center p = Some c" "in_world c"
  shows "loadPushPreferences (idb_put ls PREFERENCES_KEY (stringify (preferences_json p))) = p"
proof -
  have parse: "json_parse (stringify (preferences_json p)) = Some (preferences_json p)"
    by (rule json_roundtrip) (simp add: preferences_json_def center_json_def split: option.splits)
  have "Option.bind (idb_get (idb_put ls PREFERENCES_KEY (stringify (preferences_json p))) PREFERENCES_KEY) json_parse = Some (preferences_json p)"
    by (simp add: parse del: stringify.simps)
  then show ?thesis using assms
    unfolding loadPushPreferences_def by (simp add: preferences_json_def center_json_def jstr_def jnum_field_def in_world_def del: stringify.simps)
qed

text \<open>
  A perimeter that was enabled is kept: when the service accepts what the panel shows, the page loaded
  again shows the same severity and radius around the coarse place, and, with the browser's
  subscription still there, sends exactly the request that was accepted.
\<close>

theorem perimeter_survives_reload:
  assumes run: "s = foldl (perimeter_step True) (perimeter_mount True denied0 reply0 h0) es" "list_all real_position es"
    and ready: "can_enable s" "subscribe = ok sub" "ph_subscription (pr_hook s) = None"
  shows "let s1 = perimeter_step True s (Enable_clicked Granted subscribe (ok ())); s2 = perimeter_mount True False (ok ()) (pr_hook s1)
    in ph_state (pr_hook s1) = P_Enabled \<and> ph_state (pr_hook s2) = P_Enabled
       \<and> pr_preferences s2 = (pr_preferences s)\<lparr>pp_center := map_option coarse_center (pp_center (pr_preferences s))\<rparr>
       \<and> last (ph_requests (pr_hook s2)) = last (ph_requests (pr_hook s1))"
proof -
  have ok: "panel_ok s" unfolding run(1) by (intro panel_ok_run run(2) panel_ok_mount)
  obtain c where c: "pp_center (pr_preferences s) = Some c" using ready(1) by (auto simp: can_enable_def)
  let ?p = "(pr_preferences s)\<lparr>pp_center := Some (coarse_center c)\<rparr>"
  have "in_world (coarse_center c)" using ok c coarse_bound [of "fst c" 90] coarse_bound [of "snd c" 180]
    by (auto simp: panel_ok_def in_world_def coarse_center_def)
  then have reread: "loadPushPreferences (idb_put ls PREFERENCES_KEY (stringify (preferences_json ?p))) = ?p" for ls
    using ok by (intro preferences_read_back [where c = "coarse_center c"]) (simp_all add: panel_ok_def)
  have "stringify (preferences_json ?p) \<noteq> ''''" by (simp add: preferences_json_def)
  then show ?thesis using ready c reread
    by (simp add: Let_def push_enable_def perimeter_mount_def push_mount_def truthy_def del: stringify.simps)
qed

theorem perimeter_survives_reload_witness:
  "let s = foldl (perimeter_step True) (perimeter_mount True False (ok ()) (push_initial True)) [Radius_moved 7, Located_answer (ok (Dec 12345 3, Dec 368172 4))];
       s1 = perimeter_step True s (Enable_clicked Granted (ok JNull) (ok ())); s2 = perimeter_mount True False (ok ()) (pr_hook s1)
   in pp_center (pr_preferences s2) = Some (Dec 1235 2, Dec 3682 2) \<and> pp_radiusKm (pr_preferences s2) = Dec 7 0"
proof -
  let ?es = "[Radius_moved 7, Located_answer (ok (Dec 12345 3, Dec 368172 4))]"
  let ?s = "foldl (perimeter_step True) (perimeter_mount True False (ok ()) (push_initial True)) ?es"
  have prefs: "pr_preferences ?s = \<lparr>pp_minSeverity = ''HIGH'', pp_radiusKm = Dec 7 0, pp_center = Some (Dec 12345 3, Dec 368172 4)\<rparr>"
    by (simp add: perimeter_mount_def push_initial_def loadPushPreferences_def default_preferences_def locate_def idb_get_def Let_def)
  have real: "list_all real_position ?es" by (simp add: in_world_def jnum_val_def)
  have hook: "ph_state (pr_hook ?s) = P_Idle" "ph_subscription (pr_hook ?s) = None"
    by (simp_all add: perimeter_mount_def push_initial_def push_mount_def loadPushPreferences_def default_preferences_def locate_def idb_get_def Let_def)
  have can: "can_enable ?s" by (simp add: can_enable_def prefs hook del: foldl_Cons foldl_Nil)
  have "coarse (Dec 12345 3) = Dec 1235 2" "coarse (Dec 368172 4) = Dec 3682 2"
    by (simp_all add: coarse_def fixed_abs_def jnum_val_def numeral_2_eq_2)
  with perimeter_survives_reload [OF refl real can refl hook(2)] show ?thesis
    unfolding Let_def prefs by (simp add: coarse_center_def del: foldl_Cons foldl_Nil)
qed

text \<open>Nothing is sent before a place was chosen or stored, whatever is pressed.\<close>

theorem perimeter_silent_until_placed:
  assumes "ph_ls h = []" "ph_requests h = []" "\<forall>e\<in>set es. \<forall>c. e \<noteq> Located_answer (ok c)" "ph_subscription h = None"
  shows "let s = foldl (perimeter_step supported) (perimeter_mount supported denied reply h) es
    in ph_requests (pr_hook s) = [] \<and> \<not> can_enable s"
proof -
  define quiet where "quiet s \<longleftrightarrow> pp_center (pr_preferences s) = None \<and> ph_requests (pr_hook s) = [] \<and> ph_subscription (pr_hook s) = None" for s :: perimeter_panel
  have start: "quiet (perimeter_mount supported denied reply h)"
    using assms by (simp add: quiet_def perimeter_mount_def push_mount_def loadPushPreferences_def default_preferences_def idb_get_def Let_def)
  have step: "quiet s \<Longrightarrow> \<forall>c. e \<noteq> Located_answer (ok c) \<Longrightarrow> quiet (perimeter_step supported s e)" for s e
    by (cases e) (auto simp: quiet_def locate_def can_enable_def push_disable_def split: sum.splits)
  have "\<forall>e\<in>set es. \<forall>c. e \<noteq> Located_answer (ok c) \<Longrightarrow> quiet s \<Longrightarrow> quiet (foldl (perimeter_step supported) s es)" for s es
    by (induction es arbitrary: s) (simp_all add: step)
  with start assms(3) have "quiet (foldl (perimeter_step supported) (perimeter_mount supported denied reply h) es)" by blast
  then show ?thesis by (simp add: Let_def quiet_def can_enable_def)
qed

theorem perimeter_silent_until_placed_witness:
  "\<not> can_enable (foldl (perimeter_step True) (perimeter_mount True False (ok ()) (push_initial True))
     [Severity_chosen ''HIGH'', Located_answer (throw ''denied''), Enable_clicked Granted (ok JNull) (ok ())])"
  using perimeter_silent_until_placed [of "push_initial True" "[Severity_chosen ''HIGH'', Located_answer (throw ''denied''), Enable_clicked Granted (ok JNull) (ok ())]"
      True False "ok ()"]
  by (simp add: push_initial_def Let_def del: foldl_Cons foldl_Nil)

section \<open>The secret key\<close>

text \<open>
  The secret key is neither drawn nor copied unless it was revealed: as long as the button was not
  pressed, whatever else is done, the dialog draws the row of dots and the clipboard never holds the
  key.
\<close>

theorem secret_hidden_until_revealed:
  assumes "Reveal_clicked \<notin> set es" "npub \<noteq> nsec"
  shows "let d = foldl (dialog_step npub nsec) dialog_initial es
    in secret_row nsec hidden d \<in> {None, Some hidden} \<and> dg_clipboard d \<noteq> Some nsec"
proof -
  have step: "\<not> dg_showNsec (dialog_step npub nsec d e) \<and> dg_clipboard (dialog_step npub nsec d e) \<noteq> Some nsec"
    if "\<not> dg_showNsec d" "dg_clipboard d \<noteq> Some nsec" "e \<noteq> Reveal_clicked" for d e
    using that assms(2) by (cases e) auto
  have "Reveal_clicked \<notin> set es \<Longrightarrow> \<not> dg_showNsec d \<Longrightarrow> dg_clipboard d \<noteq> Some nsec \<Longrightarrow>
      \<not> dg_showNsec (foldl (dialog_step npub nsec) d es) \<and> dg_clipboard (foldl (dialog_step npub nsec) d es) \<noteq> Some nsec" for d es
  proof (induction es arbitrary: d)
    case (Cons e es)
    then show ?case using step [of d e] by auto
  qed simp
  from this [OF assms(1), of dialog_initial] show ?thesis by (simp add: Let_def secret_row_def dialog_initial_def)
qed

theorem secret_hidden_until_revealed_witness:
  "secret_row ''nsec'' ''dots'' (foldl (dialog_step ''npub'' ''nsec'') dialog_initial [Manage Recovery_tab, Copy_nsec True]) \<in> {None, Some ''dots''}"
  using secret_hidden_until_revealed [of "[Manage Recovery_tab, Copy_nsec True]" "''npub''" "''nsec''" "''dots''"]
  by (simp add: Let_def del: foldl_Cons foldl_Nil)

text \<open>
  Revealed, it stays so: closing the dialog, or leaving the tab, does not hide it, and it is drawn
  again as soon as the recovery tab is opened, however long after.
\<close>

theorem revealed_secret_reappears:
  assumes "dg_open d" "dg_tab d = Recovery_tab" "\<not> dg_showNsec d" "Reveal_clicked \<notin> set es"
  shows "let d' = foldl (dialog_step npub nsec) d (Reveal_clicked # Close_dialog # es)
    in secret_row nsec hidden (dialog_step npub nsec d' (Manage Recovery_tab)) = Some nsec"
proof -
  have "Reveal_clicked \<notin> set es \<Longrightarrow> dg_showNsec (foldl (dialog_step npub nsec) d es) = dg_showNsec d" for d es
  proof (induction es arbitrary: d)
    case (Cons e es)
    moreover from Cons.prems have "dg_showNsec (dialog_step npub nsec d e) = dg_showNsec d" by (cases e) auto
    ultimately show ?case by simp
  qed simp
  with assms show ?thesis by (simp add: Let_def secret_row_def)
qed

theorem revealed_secret_reappears_witness:
  "secret_row ''nsec'' ''dots'' (dialog_step ''npub'' ''nsec''
     (foldl (dialog_step ''npub'' ''nsec'') (dialog_initial\<lparr>dg_open := True, dg_tab := Recovery_tab\<rparr>) (Reveal_clicked # Close_dialog # [Npub_timeout]))
     (Manage Recovery_tab)) = Some ''nsec''"
  using revealed_secret_reappears [of "dialog_initial\<lparr>dg_open := True, dg_tab := Recovery_tab\<rparr>" "[Npub_timeout]" "''npub''" "''nsec''" "''dots''"]
  by (simp add: Let_def dialog_initial_def del: foldl_Cons foldl_Nil)

end
