(* ===== verification/CirclePanels.thy ===== *)
theory CirclePanels
  imports CircleAdmin
begin

text \<open>
  The circle screens: the sidebar (\<open>components/CircleSidebar.tsx\<close>, \<open>MemberChip.tsx\<close>), the markers of
  the members (\<open>CircleMapLayer.tsx\<close>), the alert banner and log (\<open>AlertBanner.tsx\<close>,
  \<open>ProximityAlertLog.tsx\<close>), the announcement of \<open>shell/AppShell.tsx\<close>, the invite window
  (\<open>InviteModal.tsx\<close>), and the state of \<open>FamilyCircleDashboard.tsx\<close> around the handlers of
  \<open>CircleAdmin\<close>: the forms of the empty state, the selection of the active circle, and what is offered
  to whom. Colours and layout are left out.

  The lemmas show that the map draws exactly the latest location received from each member since they
  were removed or the circle was left, that an invite made on one device and pasted on another makes
  that device trust the right owner, that an alert reaches every place that shows it, and what the
  screens do not do: expired locations stay, and a pending request does not block a second one.
\<close>

section \<open>The sidebar\<close>

definition ellipsis :: string where "ellipsis = [CHR 0xE2, CHR 0x80, CHR 0xA6]"

definition truncated :: "string \<Rightarrow> string" where
  "truncated pubkey = (if 10 < length pubkey then take 8 pubkey @ ellipsis else pubkey)"

definition status_of :: "(string \<times> member_status) list \<Rightarrow> circle_member \<Rightarrow> member_status" where
  "status_of memberStatuses m = or_else (map_of memberStatuses (or_else (cm_pubkey m) '''')) Member_Offline"

fun STATUS_LABEL :: "member_status \<Rightarrow> string" where
  "STATUS_LABEL Online = [CHR 0xE2, CHR 0x97, CHR 0x8F] @ '' Sharing location''"
| "STATUS_LABEL Ghost = [CHR 0xE2, CHR 0x97, CHR 0x90] @ '' Ghost mode''"
| "STATUS_LABEL Member_Offline = [CHR 0xE2, CHR 0x97, CHR 0x8B] @ '' Offline''"

definition displayName :: "circle_member \<Rightarrow> string" where
  "displayName m = or_else (cm_label m) (or_else (cm_pubkey m) ''unknown member'')"

definition member_rows :: "(string \<times> member_status) list \<Rightarrow> circle_member list \<Rightarrow> (string \<times> string) list" where
  "member_rows memberStatuses members = map (\<lambda>m. (displayName m, STATUS_LABEL (status_of memberStatuses m))) members"

definition member_chips :: "(string \<times> member_status) list \<Rightarrow> circle_member list \<Rightarrow> (string \<times> member_status) list" where
  "member_chips memberStatuses members =
     map (\<lambda>m. (truncated (or_else (cm_pubkey m) (or_else (cm_token m) ''member'')), status_of memberStatuses m)) members"

text \<open>The field that adds a member; \<open>af_sent\<close> is what \<open>onAddMember\<close> has been called with.\<close>

record add_form =
  af_input :: string
  af_adding :: bool
  af_error :: "string option"
  af_success :: bool
  af_sent :: "string list"

definition add_form_initial :: add_form where
  "add_form_initial = \<lparr>af_input = '''', af_adding = False, af_error = None, af_success = False, af_sent = []\<rparr>"

definition handleAdd :: "add_form \<Rightarrow> add_form" where
  "handleAdd f =
     (if trim (af_input f) = '''' then f
      else f\<lparr>af_adding := True, af_error := None, af_sent := af_sent f @ [trim (af_input f)]\<rparr>)"

definition add_settled :: "string option \<Rightarrow> add_form \<Rightarrow> add_form" where
  "add_settled err f =
     (let f1 = f\<lparr>af_adding := False\<rparr>
      in if truthy err then f1\<lparr>af_error := err\<rparr> else f1\<lparr>af_input := '''', af_success := True\<rparr>)"

datatype add_event = Add_Typed string | Add_Enter | Add_Clicked | Add_Settled "string option" | Success_Timeout

fun add_step :: "add_form \<Rightarrow> add_event \<Rightarrow> add_form" where
  "add_step f (Add_Typed v) = f\<lparr>af_input := v, af_error := None\<rparr>"
| "add_step f Add_Enter = handleAdd f"
| "add_step f Add_Clicked = (if af_adding f \<or> trim (af_input f) = '''' then f else handleAdd f)"
| "add_step f (Add_Settled err) = add_settled err f"
| "add_step f Success_Timeout = f\<lparr>af_success := False\<rparr>"

section \<open>The map layer\<close>

text \<open>\<open>getTime\<close> reads a date; an unreadable one is \<open>NaN\<close> (\<open>None\<close>), for which both comparisons are false.\<close>

definition ageLabel :: "(string \<Rightarrow> int option) \<Rightarrow> int \<Rightarrow> string \<Rightarrow> string \<times> bool" where
  "ageLabel getTime now ts =
     (case getTime ts of
        None \<Rightarrow> (''NaNm ago'', True)
      | Some t \<Rightarrow>
          (let mins = (now - t) div 60000
           in if mins < 1 then (''just now'', False) else if mins < 5 then (int_str mins @ ''m ago'', False)
              else (int_str mins @ ''m ago'', True)))"

definition labelFor :: "circle_member list \<Rightarrow> string option \<Rightarrow> string \<Rightarrow> string" where
  "labelFor members myPubkey pubkey =
     (let normalized = toLowerCase pubkey
      in if truthy myPubkey \<and> normalized = toLowerCase (the myPubkey) then ''You''
         else case find (\<lambda>m. truthy (cm_pubkey m) \<and> toLowerCase (the (cm_pubkey m)) = normalized) members of
                Some m \<Rightarrow> if truthy (cm_label m) then the (cm_label m) else ''Member''
              | None \<Rightarrow> ''Member'')"

record circle_marker =
  cmk_pubkey :: string
  cmk_lat :: real
  cmk_lng :: real
  cmk_label :: string
  cmk_approximate :: bool
  cmk_age :: "string \<times> bool"

definition circle_markers ::
  "(string \<Rightarrow> int option) \<Rightarrow> int \<Rightarrow> circle_member list \<Rightarrow> string option \<Rightarrow> circles_state \<Rightarrow> circle_marker list" where
  "circle_markers getTime now members myPubkey s =
     map (\<lambda>(pubkey, loc). \<lparr>cmk_pubkey = pubkey, cmk_lat = dl_lat loc, cmk_lng = dl_lng loc, cmk_label = labelFor members myPubkey pubkey,
            cmk_approximate = (dl_precision loc = Some Approximate), cmk_age = ageLabel getTime now (dl_ts loc)\<rparr>)
       (filter (\<lambda>(pubkey, loc). map_of (cs_memberStatuses s) pubkey = Some Online) (cs_decryptedLocations s))"

section \<open>Alerts\<close>

definition alert_banner :: "proximity_alert option \<Rightarrow> (string \<times> string) option" where
  "alert_banner alert = map_option (\<lambda>a. (truncated (pa_member_pubkey a), pa_zone_name a)) alert"

text \<open>\<open>formatTime\<close>: the time of day in the user's locale, or dashes.\<close>

definition formatTime :: "(string \<Rightarrow> int option) \<Rightarrow> (int \<Rightarrow> string) \<Rightarrow> string \<Rightarrow> string" where
  "formatTime getTime toLocaleTime t = (case getTime t of None \<Rightarrow> ''--:--'' | Some d \<Rightarrow> toLocaleTime d)"

definition alert_rows ::
  "(string \<Rightarrow> int option) \<Rightarrow> (int \<Rightarrow> string) \<Rightarrow> proximity_alert list \<Rightarrow> (string \<times> string \<times> string \<times> string) list" where
  "alert_rows getTime toLocaleTime alerts =
     map (\<lambda>a. (formatTime getTime toLocaleTime (pa_triggered_at a), truncated (pa_member_pubkey a), pa_zone_name a, pa_severity a)) alerts"

text \<open>The effect that sets the text read out to users of assistive technology.\<close>

definition announce :: "proximity_alert list \<Rightarrow> string \<Rightarrow> string" where
  "announce proximityAlerts announcement =
     (case proximityAlerts of [] \<Rightarrow> announcement | latest # _ \<Rightarrow> pa_severity latest @ '' alert: '' @ pa_zone_name latest)"

section \<open>The dashboard\<close>

definition active_circle :: "circles_state \<Rightarrow> circle option" where
  "active_circle s = (case cs_activeCircleId s of None \<Rightarrow> None | Some i \<Rightarrow> find (\<lambda>c. ci_id c = i) (cs_circles s))"

definition dashboard_members :: "circles_state \<Rightarrow> circle_member list" where
  "dashboard_members s =
     (if truthy (cs_activeCircleId s) then or_else (map_of (cs_members s) (the (cs_activeCircleId s))) [] else [])"

definition myPendingMembership :: "string \<Rightarrow> circle_member list \<Rightarrow> circle_member option" where
  "myPendingMembership myPubkey members =
     find (\<lambda>m. truthy (cm_pubkey m) \<and> toLowerCase (the (cm_pubkey m)) = toLowerCase myPubkey \<and> cm_state m = Some Pending) members"

text \<open>Which of the two bars is shown above the map: the invitation, or the owner's activation button.\<close>

definition accept_offered :: "string \<Rightarrow> circles_state \<Rightarrow> bool" where
  "accept_offered myPubkey s \<longleftrightarrow> active_circle s \<noteq> None \<and> myPendingMembership myPubkey (dashboard_members s) \<noteq> None"

definition activate_offered :: "string \<Rightarrow> circles_state \<Rightarrow> bool" where
  "activate_offered myPubkey s \<longleftrightarrow>
     (case active_circle s of
        None \<Rightarrow> False
      | Some c \<Rightarrow> ci_is_owner c \<and> \<not> epoch_ready (Some c) \<and> myPendingMembership myPubkey (dashboard_members s) = None)"

record dashboard =
  db_inviteOpen :: bool
  db_inviteString :: string
  db_copied :: bool
  db_sidebarOpen :: bool

definition dashboard_initial :: dashboard where
  "dashboard_initial = \<lparr>db_inviteOpen = False, db_inviteString = '''', db_copied = False, db_sidebarOpen = False\<rparr>"

definition invite_clicked :: "string \<Rightarrow> circles_state \<Rightarrow> dashboard \<Rightarrow> dashboard" where
  "invite_clicked pubkey s d =
     (case handleInvite (cs_activeCircleId s) (active_circle s) pubkey of
        None \<Rightarrow> d | Some str \<Rightarrow> d\<lparr>db_inviteString := str, db_inviteOpen := True\<rparr>)"

definition handleLeave :: "bool \<Rightarrow> circles_state \<Rightarrow> circles_state" where
  "handleLeave confirmed s = (if confirmed then circles_reducer s CircleLeft else s)"

datatype dashboard_event =
  Invite_Clicked | Invite_Closed | Copy_Settled bool | Copied_Timeout | Sidebar_Toggled | Leave_Clicked bool | Alert_Dismissed

fun dashboard_step :: "string \<Rightarrow> dashboard \<times> circles_state \<Rightarrow> dashboard_event \<Rightarrow> dashboard \<times> circles_state" where
  "dashboard_step pubkey (d, s) Invite_Clicked = (invite_clicked pubkey s d, s)"
| "dashboard_step pubkey (d, s) Invite_Closed = (d\<lparr>db_inviteOpen := False\<rparr>, s)"
| "dashboard_step pubkey (d, s) (Copy_Settled written) = (if written then d\<lparr>db_copied := True\<rparr> else d, s)"
| "dashboard_step pubkey (d, s) Copied_Timeout = (d\<lparr>db_copied := False\<rparr>, s)"
| "dashboard_step pubkey (d, s) Sidebar_Toggled = (d\<lparr>db_sidebarOpen := \<not> db_sidebarOpen d\<rparr>, s)"
| "dashboard_step pubkey (d, s) (Leave_Clicked confirmed) = (d, handleLeave confirmed s)"
| "dashboard_step pubkey (d, s) Alert_Dismissed = (d, circles_reducer s ActiveAlertDismissed)"

section \<open>The empty state\<close>

definition CIRCLE_PRESETS :: "string list" where
  "CIRCLE_PRESETS = [''Family'', ''Friends'', ''Neighborhood Watch'', ''School Circle'', ''Work Team'']"

record empty_form =
  ef_name :: string
  ef_preset :: "nat option"
  ef_creating :: bool
  ef_createError :: "string option"
  ef_invite :: string
  ef_parsed :: "parsed_invite option"
  ef_joinError :: "string option"
  ef_created :: "string list"

definition empty_form_initial :: empty_form where
  "empty_form_initial = \<lparr>ef_name = '''', ef_preset = None, ef_creating = False, ef_createError = None, ef_invite = '''',
     ef_parsed = None, ef_joinError = None, ef_created = []\<rparr>"

definition effectiveCircleName :: "empty_form \<Rightarrow> string" where
  "effectiveCircleName f = (case ef_preset f of Some i \<Rightarrow> CIRCLE_PRESETS ! i | None \<Rightarrow> trim (ef_name f))"

text \<open>The start of \<open>handleCreate\<close>; \<open>ef_created\<close> is the names it has been run with.\<close>

definition create_start :: "empty_form \<Rightarrow> empty_form" where
  "create_start f =
     (if effectiveCircleName f = '''' then f
      else f\<lparr>ef_creating := True, ef_createError := None, ef_created := ef_created f @ [effectiveCircleName f]\<rparr>)"

definition handleInviteChange :: "string \<Rightarrow> empty_form \<Rightarrow> empty_form" where
  "handleInviteChange v f = f\<lparr>ef_invite := v, ef_joinError := None, ef_parsed := parseInviteString v\<rparr>"

datatype empty_event =
  Preset_Chosen nat | Name_Typed string | Create_Enter | Create_Clicked | Create_Settled "string option" | Invite_Typed string

text \<open>A preset is one of the buttons.\<close>

fun empty_step :: "empty_form \<Rightarrow> empty_event \<Rightarrow> empty_form" where
  "empty_step f (Preset_Chosen i) =
     (if i < length CIRCLE_PRESETS then f\<lparr>ef_preset := if ef_preset f = Some i then None else Some i, ef_name := ''''\<rparr> else f)"
| "empty_step f (Name_Typed v) = f\<lparr>ef_preset := None, ef_name := v\<rparr>"
| "empty_step f Create_Enter = create_start f"
| "empty_step f Create_Clicked = (if ef_creating f \<or> effectiveCircleName f = '''' then f else create_start f)"
| "empty_step f (Create_Settled err) = f\<lparr>ef_creating := False, ef_createError := if err = None then ef_createError f else err\<rparr>"
| "empty_step f (Invite_Typed v) = handleInviteChange v f"

text \<open>The button of a valid invite; it is only drawn then.\<close>

definition track_clicked :: "empty_form \<Rightarrow> 'k circle_state \<Rightarrow> 'k circle_state result" where
  "track_clicked f st = (case ef_parsed f of None \<Rightarrow> ok st | Some invite \<Rightarrow> track_invite invite st)"

section \<open>What the map draws\<close>

text \<open>
  The specification: the latest location received from each member, forgotten when the member is
  removed by key or the circle is left. \<open>dispatched\<close> are the actions the client dispatches: no code
  dispatches \<open>locationsPruned\<close> or \<open>memberStatusUpdated\<close>.
\<close>

fun latest_step :: "(string \<Rightarrow> decrypted_location option) \<Rightarrow> circles_action \<Rightarrow> string \<Rightarrow> decrypted_location option" where
  "latest_step m (LocationReceived p loc) = m(p \<mapsto> loc)"
| "latest_step m (MemberRemoved i (Some p) t) = (if p = '''' then m else m(p := None))"
| "latest_step m CircleLeft = Map.empty"
| "latest_step m a = m"

fun dispatched :: "circles_action \<Rightarrow> bool" where
  "dispatched (LocationsPruned now) = False"
| "dispatched (MemberStatusUpdated p st) = False"
| "dispatched a = True"

definition located :: "circles_state \<Rightarrow> string \<Rightarrow> decrypted_location option" where
  "located s = map_of (cs_decryptedLocations s)"

definition located_ok :: "circles_state \<Rightarrow> bool" where
  "located_ok s \<longleftrightarrow> distinct (map fst (cs_decryptedLocations s)) \<and> (\<forall>p\<in>dom (located s). map_of (cs_memberStatuses s) p = Some Online)"

lemma offline_keeps_known: "map_of st p = Some x \<Longrightarrow> map_of (foldl offline_unless_known st ms) p = Some x"
proof (induction ms arbitrary: st)
  case (Cons m ms)
  then have "map_of (offline_unless_known st m) p = Some x" by (auto simp: offline_unless_known_def)
  then show ?case using Cons.IH by simp
qed simp

lemma located_step:
  assumes "dispatched a" "located_ok s"
  shows "located (circles_reducer s a) = latest_step (located s) a \<and> located_ok (circles_reducer s a)"
proof (cases a)
  case (CircleLoaded c ms)
  with assms offline_keeps_known show ?thesis by (fastforce simp: located_ok_def located_def circleLoaded_def Let_def)
next
  case (MemberRemoved i p t)
  with assms show ?thesis
    by (cases p) (auto simp: located_ok_def located_def memberRemoved_def Let_def truthy_def split: option.splits if_splits)
qed (use assms in \<open>auto simp: located_ok_def located_def circleEpochChanged_def locationReceived_def memberAccepted_def
    proximityAlertAdded_def activeAlertDismissed_def circleDecryptError_def circleLeft_def circles_initial_def split: option.splits if_splits\<close>)

lemma located_run:
  assumes "list_all dispatched as" "located_ok s"
  shows "located (foldl circles_reducer s as) = foldl latest_step (located s) as \<and> located_ok (foldl circles_reducer s as)"
  using assms by (induction as arbitrary: s) (auto simp: located_step)

lemma located_ok_initial: "located_ok circles_initial" "located circles_initial = Map.empty"
  by (simp_all add: located_ok_def located_def circles_initial_def)

lemma located_reachable:
  assumes "list_all dispatched as"
  shows "located (foldl circles_reducer circles_initial as) = foldl latest_step Map.empty as"
    "located_ok (foldl circles_reducer circles_initial as)"
  using located_run [OF assms located_ok_initial(1)] by (simp_all add: located_ok_initial(2))

lemma markers_located:
  assumes "located_ok s"
  shows "map cmk_pubkey (circle_markers getTime now members my s) = map fst (cs_decryptedLocations s)"
    "(\<lambda>m. (cmk_pubkey m, cmk_lat m, cmk_lng m)) ` set (circle_markers getTime now members my s) = {(p, dl_lat l, dl_lng l) | p l. located s p = Some l}"
proof -
  have known: "map_of (cs_memberStatuses s) p = Some Online" if "(p, l) \<in> set (cs_decryptedLocations s)" for p l
    using assms that by (force simp: located_ok_def located_def)
  then have all: "filter (\<lambda>(p, l). map_of (cs_memberStatuses s) p = Some Online) (cs_decryptedLocations s) = cs_decryptedLocations s"
    by (auto intro: filter_True)
  show "map cmk_pubkey (circle_markers getTime now members my s) = map fst (cs_decryptedLocations s)"
    by (auto simp: circle_markers_def all)
  show "(\<lambda>m. (cmk_pubkey m, cmk_lat m, cmk_lng m)) ` set (circle_markers getTime now members my s) = {(p, dl_lat l, dl_lng l) | p l. located s p = Some l}"
  proof -
    have "(\<lambda>m. (cmk_pubkey m, cmk_lat m, cmk_lng m)) ` set (circle_markers getTime now members my s)
        = (\<lambda>(p, l). (p, dl_lat l, dl_lng l)) ` set (cs_decryptedLocations s)"
      unfolding circle_markers_def all by (force simp: image_image)
    also have "\<dots> = {(p, dl_lat l, dl_lng l) | p l. (p, l) \<in> set (cs_decryptedLocations s)}" by auto
    also have "\<dots> = {(p, dl_lat l, dl_lng l) | p l. located s p = Some l}"
      using assms by (simp add: located_def located_ok_def map_of_eq_Some_iff)
    finally show ?thesis .
  qed
qed

lemma labelFor_cases: "labelFor members my p \<in> {''You'', ''Member''} \<union> {l. \<exists>m\<in>set members. cm_label m = Some l}"
proof (cases "find (\<lambda>m. truthy (cm_pubkey m) \<and> toLowerCase (the (cm_pubkey m)) = toLowerCase p) members")
  case (Some m)
  then have "m \<in> set members" by (auto simp: find_Some_iff)
  with Some show ?thesis by (cases "cm_label m") (auto simp: labelFor_def Let_def truthy_def)
qed (simp add: labelFor_def Let_def)


definition sample_location :: decrypted_location where
  "sample_location = \<lparr>dl_lat = 1, dl_lng = 2, dl_ts = ''t'', dl_event_id = Some ''e'', dl_expires_at = Some 100,
     dl_accuracy_m = None, dl_precision = Some Approximate\<rparr>"


text \<open>
  The slice can drop expired locations, but nothing asks it to: a location that has expired stays on the
  map, at every later time, until the member moves, is removed by key, or the circle is left.
\<close>

fun concerns :: "string \<Rightarrow> circles_action \<Rightarrow> bool" where
  "concerns p (LocationReceived q loc) = (q = p)"
| "concerns p (MemberRemoved i q t) = (q = Some p)"
| "concerns p CircleLeft = True"
| "concerns p a = False"

lemma latest_frame: "\<not> concerns p a \<Longrightarrow> latest_step m a p = m p"
  by (cases "(m, a)" rule: latest_step.cases) auto

lemma latest_run: "list_all (\<lambda>a. \<not> concerns p a) as \<Longrightarrow> foldl latest_step m as p = m p"
  by (induction as arbitrary: m) (auto simp: latest_frame)

lemma markers_subset: "cmk_pubkey ` set (circle_markers getTime now members my s) \<subseteq> fst ` set (cs_decryptedLocations s)"
  by (force simp: circle_markers_def)

lemma pruned_not_drawn:
  assumes "located_ok s" "located s p = Some loc" "dl_expires_at loc = Some t" "t \<le> now"
  shows "p \<notin> cmk_pubkey ` set (circle_markers getTime ms members my (locationsPruned s now))"
proof -
  have "l = loc" if "(p, l) \<in> set (cs_decryptedLocations s)" for l
    using assms(1,2) that map_of_is_SomeI by (fastforce simp: located_def located_ok_def)
  then have "p \<notin> fst ` set (cs_decryptedLocations (locationsPruned s now))"
    using assms(3,4) by (auto simp: locationsPruned_def)
  then show ?thesis using markers_subset by blast
qed

theorem expired_location_stays_drawn:
  assumes "list_all dispatched (before @ after)" "list_all (\<lambda>a. \<not> concerns p a) after"
    and "dl_expires_at loc = Some t" "t \<le> now"
  shows "let s = foldl circles_reducer circles_initial (before @ LocationReceived p loc # after)
    in (\<exists>m\<in>set (circle_markers getTime (1000 * now) members my s). cmk_pubkey m = p \<and> cmk_lat m = dl_lat loc \<and> cmk_lng m = dl_lng loc)
       \<and> p \<notin> cmk_pubkey ` set (circle_markers getTime (1000 * now) members my (circles_reducer s (LocationsPruned now)))"
proof -
  let ?as = "before @ LocationReceived p loc # after"
  let ?s = "foldl circles_reducer circles_initial ?as"
  have "list_all dispatched ?as" using assms(1) by simp
  note s = located_reachable [OF this]
  have p: "located ?s p = Some loc" unfolding s(1) by (simp add: latest_run [OF assms(2)])
  then have "(p, dl_lat loc, dl_lng loc) \<in> (\<lambda>m. (cmk_pubkey m, cmk_lat m, cmk_lng m)) ` set (circle_markers getTime (1000 * now) members my ?s)"
    using markers_located(2) [OF s(2)] by auto
  moreover have "p \<notin> cmk_pubkey ` set (circle_markers getTime (1000 * now) members my (circles_reducer ?s (LocationsPruned now)))"
    using pruned_not_drawn [OF s(2) p assms(3,4)] by simp
  ultimately show ?thesis unfolding Let_def by (blast intro: sym)
qed

theorem expired_location_stays_drawn_witness:
  "\<exists>m\<in>set (circle_markers Map.empty 100000 [] None (foldl circles_reducer circles_initial
       ([] @ LocationReceived ''a'' sample_location # [CircleDecryptError ''e'']))). cmk_pubkey m = ''a'' \<and> cmk_lat m = 1"
  using expired_location_stays_drawn [of "[]" "[CircleDecryptError ''e'']" "''a''" sample_location 100 100 Map.empty "[]" None]
  by (simp add: Let_def sample_location_def) blast

section \<open>Invitations\<close>

text \<open>
  C14: an invitation made on the owner's screen and pasted, with any white space around it, into the join
  form of another device is recognised there, and tracking it makes that device remember the circle and
  trust exactly the owner's key for it: the key from which circle keys will be accepted.
\<close>

theorem join_by_invite:
  assumes owner: "active_circle s = Some c" "cs_activeCircleId s = Some i" "or_else (ci_name c) ''(circle)'' \<noteq> ''''"
    and shape: "length i = 36" "list_all id_char i" "length pubkey = 64" "list_all is_lower_hex pubkey"
    and ws: "list_all js_whitespace pre" "list_all js_whitespace post"
    and device: "cs_local st = Some l" "owner_store_ok l"
  shows "let d = fst (dashboard_step pubkey (dashboard_initial, s) Invite_Clicked);
             f = empty_step form (Invite_Typed (pre @ db_inviteString d @ post))
    in db_inviteOpen d \<and> (\<exists>st'. track_clicked f st = ok st' \<and> i \<in> set (getCircleIds (cs_local st')) \<and> getCircleOwnerKey (cs_local st') i = Some pubkey)"
proof -
  let ?name = "or_else (ci_name c) ''(circle)''"
  let ?code = "buildInviteString i pubkey ?name"
  have code: "handleInvite (Some i) (Some c) pubkey = Some ?code" by (simp add: handleInvite_def)
  have parsed: "parseInviteString (pre @ ?code @ post) = Some \<lparr>pi_circleId = i, pi_ownerPubkey = pubkey, pi_circleName = ?name\<rparr>"
    by (rule invite_parses [OF shape owner(3) ws])
  have hex: "isHex64_ci pubkey" "toLowerCase pubkey = pubkey" using shape(3,4) hex64_toLowerCase [of pubkey] by (simp_all add: isHex64_ci_def isLowercaseHex64_def)
  let ?ids = "idb_put l CIRCLE_IDS_KEY (stringify (JArr (map JStr (set_add (set_of_array (getCircleIds (Some l))) i))))"
  have "owner_store_ok ?ids" using device(2) by (simp add: owner_store_ok_def CIRCLE_IDS_KEY_def OWNER_KEYS_KEY_def del: stringify.simps)
  from owner_key_saved [OF hex(1) this, of i] obtain l' where l':
    "saveCircleOwnerKey (Some ?ids) i pubkey = ok (Some l')" "getCircleOwnerKey (Some l') i = Some pubkey"
    "idb_get l' CIRCLE_IDS_KEY = idb_get ?ids CIRCLE_IDS_KEY" using hex(2) by (auto simp: CIRCLE_IDS_KEY_def OWNER_KEYS_KEY_def)
  have "getCircleIds (Some l') = getCircleIds (Some ?ids)" using l'(3) by (simp add: getCircleIds_def del: stringify.simps)
  then have "i \<in> set (getCircleIds (Some l'))" by (simp add: circle_ids_write set_add_def del: stringify.simps)
  moreover have "pubkey \<noteq> ''''" using shape(3) by auto
  ultimately show ?thesis using owner(1,2) device(1) parsed l'(1,2)
    by (simp add: invite_clicked_def code handleInviteChange_def track_clicked_def track_invite_def addCircleId_def dashboard_initial_def
        del: stringify.simps)
qed

theorem join_by_invite_witness:
  "let c = sample_active\<lparr>ci_id := replicate 36 (CHR ''a''), ci_name := Some ''Mum & Dad''\<rparr>;
       s = circles_reducer circles_initial (CircleLoaded c []);
       d = fst (dashboard_step (replicate 64 (CHR ''0'')) (dashboard_initial, s) Invite_Clicked);
       f = empty_step empty_form_initial (Invite_Typed ('' '' @ db_inviteString d @ ''''));
       st = (undefined :: nat circle_state)\<lparr>cs_local := Some []\<rparr>
   in \<exists>st'. track_clicked f st = ok st' \<and> getCircleOwnerKey (cs_local st') (replicate 36 (CHR ''a'')) = Some (replicate 64 (CHR ''0''))"
proof -
  let ?c = "sample_active\<lparr>ci_id := replicate 36 (CHR ''a''), ci_name := Some ''Mum & Dad''\<rparr>"
  let ?s = "circles_reducer circles_initial (CircleLoaded ?c [])"
  have s: "active_circle ?s = Some ?c" "cs_activeCircleId ?s = Some (replicate 36 (CHR ''a''))"
    by (simp_all add: active_circle_def circleLoaded_def circles_initial_def Let_def)
  from join_by_invite [OF s, of "replicate 64 (CHR ''0'')" "'' ''" "''''" "(undefined :: nat circle_state)\<lparr>cs_local := Some []\<rparr>" "[]" empty_form_initial]
  show ?thesis
    by (simp add: Let_def list_all_iff id_char_def is_lower_hex_def is_digit_def char_le_iff js_whitespace_def owner_store_ok_def idb_get_def or_else_def
        del: dashboard_step.simps empty_step.simps) blast
qed

text \<open>
  Accepting an invitation ends it. When the server accepts, the bar that offers the invitation is
  gone, and no other member's entry has changed.
\<close>

theorem accept_ends_invitation:
  assumes "reply_ok status" "cs_activeCircleId (ad_store s) = Some i" "i \<noteq> ''''" "map_of (cs_members (ad_store s)) i = Some ms"
  shows "let s' = ad_store (handleAcceptInvite (Some i) my status s)
    in \<not> accept_offered my s' \<and> ad_error (handleAcceptInvite (Some i) my status s) = ad_error s
       \<and> list_all2 (\<lambda>m m'. m' = m \<or> (truthy (cm_pubkey m) \<and> toLowerCase (the (cm_pubkey m)) = toLowerCase my \<and> m' = m\<lparr>cm_state := Some Active\<rparr>))
           ms (dashboard_members s')"
proof -
  let ?f = "\<lambda>m. if truthy (cm_pubkey m) \<and> toLowerCase (the (cm_pubkey m)) = toLowerCase my then m\<lparr>cm_state := Some Active\<rparr> else m"
  let ?s = "handleAcceptInvite (Some i) my status s"
  have members: "dashboard_members (ad_store ?s) = map ?f ms"
    using assms by (simp add: handleAcceptInvite_def memberAccepted_def dashboard_members_def or_else_def truthy_def)
  then have "\<not> accept_offered my (ad_store ?s)" by (auto simp: accept_offered_def myPendingMembership_def find_None_iff split: if_splits)
  moreover have "list_all2 (\<lambda>m m'. m' = m \<or> (truthy (cm_pubkey m) \<and> toLowerCase (the (cm_pubkey m)) = toLowerCase my
      \<and> m' = m\<lparr>cm_state := Some Active\<rparr>)) ms (map ?f ms)" by (simp add: list_all2_map2 list_all2_same)
  moreover have "ad_error ?s = ad_error s" using assms(1) by (simp add: handleAcceptInvite_def)
  ultimately show ?thesis unfolding Let_def members by blast
qed

theorem accept_ends_invitation_witness:
  "let s = \<lparr>ad_keys = (undefined :: nat circle_state), ad_store = circles_reducer circles_initial (CircleLoaded sample_active
        [sample_member\<lparr>cm_pubkey := Some ''AB'', cm_state := Some Pending\<rparr>]), ad_error = None\<rparr>
   in accept_offered ''ab'' (ad_store s) \<and> \<not> accept_offered ''ab'' (ad_store (handleAcceptInvite (Some ''c'') ''ab'' 200 s))"
proof -
  let ?s = "\<lparr>ad_keys = (undefined :: nat circle_state), ad_store = circles_reducer circles_initial (CircleLoaded sample_active
        [sample_member\<lparr>cm_pubkey := Some ''AB'', cm_state := Some Pending\<rparr>]), ad_error = None\<rparr>"
  have "accept_offered ''ab'' (ad_store ?s)" by code_simp
  moreover have "\<not> accept_offered ''ab'' (ad_store (handleAcceptInvite (Some ''c'') ''ab'' 200 ?s))"
    using accept_ends_invitation [of 200 ?s "''c''" "[sample_member\<lparr>cm_pubkey := Some ''AB'', cm_state := Some Pending\<rparr>]" "''ab''"]
    by (simp add: reply_ok_def circleLoaded_def circles_initial_def Let_def sample_active_def)
  ultimately show ?thesis by (simp add: Let_def)
qed

section \<open>Alerts\<close>

text \<open>
  A new proximity alert reaches every place that shows alerts: the banner names its member and zone,
  it is the first line of the log, and it is the announcement that is read out; dismissing the banner
  takes only the banner away.
\<close>

theorem alert_reaches_every_surface:
  assumes "\<not> list_ex (\<lambda>b. pa_id b = pa_id a) (cs_proximityAlerts s)"
  shows "let s' = circles_reducer s (ProximityAlertAdded a); s'' = snd (dashboard_step my (d, s') Alert_Dismissed)
    in alert_banner (cs_activeAlert s') = Some (truncated (pa_member_pubkey a), pa_zone_name a)
       \<and> alert_rows getTime toLocaleTime (cs_proximityAlerts s')
           = hd (alert_rows getTime toLocaleTime [a]) # alert_rows getTime toLocaleTime (cs_proximityAlerts s)
       \<and> announce (cs_proximityAlerts s') old = pa_severity a @ '' alert: '' @ pa_zone_name a
       \<and> alert_banner (cs_activeAlert s'') = None \<and> cs_proximityAlerts s'' = cs_proximityAlerts s'"
  using assms by (simp add: proximityAlertAdded_def activeAlertDismissed_def alert_banner_def alert_rows_def announce_def Let_def)

theorem alert_reaches_every_surface_witness:
  "let a = \<lparr>pa_id = ''1'', pa_member_pubkey = ''0123456789abcdef'', pa_zone_name = ''Fire'', pa_event_id = None, pa_severity = ''HIGH'', pa_triggered_at = ''t''\<rparr>;
       s' = circles_reducer circles_initial (ProximityAlertAdded a)
   in alert_banner (cs_activeAlert s') = Some (''01234567'' @ ellipsis, ''Fire'') \<and> announce (cs_proximityAlerts s') '''' = ''HIGH alert: Fire''"
  using alert_reaches_every_surface [of "\<lparr>pa_id = ''1'', pa_member_pubkey = ''0123456789abcdef'', pa_zone_name = ''Fire'', pa_event_id = None,
      pa_severity = ''HIGH'', pa_triggered_at = ''t''\<rparr>" circles_initial "''''" dashboard_initial Map.empty "\<lambda>_. ''''" "''''"]
  by (simp add: Let_def circles_initial_def truncated_def del: circles_reducer.simps dashboard_step.simps)

section \<open>The forms\<close>

text \<open>
  The invite form is consistent: in every state it can reach, the invite shown as valid is the one
  the text of the field contains; and a circle is only created under a name that is not blank.
\<close>

definition empty_ok :: "empty_form \<Rightarrow> bool" where
  "empty_ok f \<longleftrightarrow> ef_parsed f = parseInviteString (ef_invite f) \<and> '''' \<notin> set (ef_created f)
     \<and> (\<forall>i. ef_preset f = Some i \<longrightarrow> i < length CIRCLE_PRESETS \<and> ef_name f = '''')"

lemma empty_ok_step: "empty_ok f \<Longrightarrow> empty_ok (empty_step f e)"
  by (cases e) (auto simp: empty_ok_def create_start_def handleInviteChange_def split: if_splits)

lemma empty_ok_initial: "empty_ok empty_form_initial"
  by (simp add: empty_ok_def empty_form_initial_def parseInviteString_def match_invite_def trim_def startsWith_def)

interpretation empty: reducer empty_form_initial empty_step empty_ok
  by unfold_locales (auto intro: empty_ok_initial empty_ok_step)

theorem empty_form_consistent:
  "let f = foldl empty_step empty_form_initial events
   in ef_parsed f = parseInviteString (ef_invite f) \<and> '''' \<notin> set (ef_created f)
      \<and> (\<forall>i. ef_preset f = Some i \<longrightarrow> effectiveCircleName f \<in> set CIRCLE_PRESETS)"
  using empty.inv_reachable [of events] by (auto simp: Let_def empty_ok_def effectiveCircleName_def)

theorem empty_form_consistent_witness:
  "effectiveCircleName (foldl empty_step empty_form_initial [Name_Typed ''x'', Preset_Chosen 1]) = ''Friends''
   \<and> ef_parsed (foldl empty_step empty_form_initial [Name_Typed ''x'', Preset_Chosen 1]) = None"
  using empty_form_consistent [of "[Name_Typed ''x'', Preset_Chosen 1]"]
  by (simp add: Let_def effectiveCircleName_def CIRCLE_PRESETS_def empty_form_initial_def)

text \<open>What the member field sends is never blank and carries no white space around it.\<close>

definition add_ok :: "add_form \<Rightarrow> bool" where
  "add_ok f \<longleftrightarrow> list_all (\<lambda>t. t \<noteq> '''' \<and> trim t = t) (af_sent f)"

lemma trim_ends: "trim s \<noteq> '''' \<Longrightarrow> \<not> js_whitespace (hd (trim s)) \<and> \<not> js_whitespace (last (trim s))"
proof -
  let ?t = "dropWhile js_whitespace s" let ?u = "dropWhile js_whitespace (rev ?t)"
  assume "trim s \<noteq> ''''"
  then have u: "?u \<noteq> []" by (simp add: trim_def)
  then have t: "?t \<noteq> []" by (metis dropWhile.simps(1) rev.simps(1))
  have "\<not> js_whitespace (hd ?u)" using u by (rule hd_dropWhile)
  moreover have "rev ?t = takeWhile js_whitespace (rev ?t) @ ?u" by simp
  then have "last ?u = hd ?t" using u t by (metis last_appendR last_rev)
  moreover have "\<not> js_whitespace (hd ?t)" using t by (rule hd_dropWhile)
  ultimately show ?thesis using u by (simp add: trim_def hd_rev last_rev)
qed

lemma trim_idem: "trim (trim s) = trim s"
proof (cases "trim s = ''''")
  case False
  with trim_ends [of s] trim_around [of "[]" "[]" "trim s"] show ?thesis by simp
next
  case True
  then show ?thesis by (simp only: True) (simp add: trim_def)
qed

lemma add_ok_step: "add_ok f \<Longrightarrow> add_ok (add_step f e)"
  by (cases e) (auto simp: add_ok_def handleAdd_def add_settled_def trim_idem Let_def)

interpretation add_member: reducer add_form_initial add_step add_ok
  by unfold_locales (simp add: add_ok_def add_form_initial_def, rule add_ok_step)

text \<open>
  Nothing blank is ever sent, and the button is dead while a request is pending; but \<open>Enter\<close> is not
  blocked: pressed twice it sends the same key twice, and when the first answer arrives the field is
  emptied of whatever was typed since. The form that creates a circle has the same gap: two circles
  of one name are created.
\<close>

theorem pending_form_not_blocked:
  assumes "trim v \<noteq> ''''"
  shows "let f = foldl add_step add_form_initial events; g = foldl add_step f [Add_Typed v, Add_Enter, Add_Enter]
    in list_all (\<lambda>t. t \<noteq> '''' \<and> trim t = t) (af_sent f)
       \<and> af_sent g = af_sent f @ [trim v, trim v] \<and> add_step g Add_Clicked = g
       \<and> af_input (foldl add_step g [Add_Typed w, Add_Settled None]) = ''''
       \<and> ef_created (foldl empty_step empty_form_initial [Name_Typed v, Create_Enter, Create_Enter]) = [trim v, trim v]"
  using add_member.inv_reachable [of events] assms
  by (simp add: Let_def add_ok_def handleAdd_def add_settled_def truthy_def create_start_def effectiveCircleName_def empty_form_initial_def)

theorem pending_form_not_blocked_witness:
  "af_sent (foldl add_step (foldl add_step add_form_initial []) [Add_Typed '' ab '', Add_Enter, Add_Enter]) = [''ab'', ''ab'']"
  using pending_form_not_blocked [of "'' ab ''" "[]" "''''"]
  by (simp add: Let_def add_form_initial_def trim_def js_whitespace_def del: add_step.simps empty_step.simps)

text \<open>
  A member who was just added is listed without a name: the entry built from the server's answer has no
  key and no label, so the row reads \<open>unknown member\<close> and offline until the circle is loaded again, and
  the map, should they share, would not know them.
\<close>

theorem added_member_unnamed:
  assumes "reply_ok status" "status \<noteq> 403" "ci_id active \<noteq> ''''" "map_of (cs_memberStatuses store) '''' = None"
  shows "let s = fst (add_member_done active members (ok (status, raw)) store)
    in \<exists>rows. member_rows (cs_memberStatuses s) (dashboard_members s) = rows @ [(''unknown member'', STATUS_LABEL Member_Offline)]"
proof -
  let ?ms = "members @ [toMember raw]"
  let ?s = "circleLoaded store active ?ms"
  have s: "fst (add_member_done active members (ok (status, raw)) store) = ?s" using assms(1,2) by (simp add: add_member_done_def)
  have "map_of (foldl offline_unless_known st ms) '''' = map_of st ''''" for st ms
    by (induction ms arbitrary: st) (auto simp: offline_unless_known_def truthy_def)
  then have "map_of (cs_memberStatuses ?s) '''' = None" using assms(4) by (simp add: circleLoaded_def Let_def del: foldl_append)
  moreover have "dashboard_members ?s = ?ms" using assms(3) by (simp add: dashboard_members_def circleLoaded_def Let_def truthy_def or_else_def)
  ultimately show ?thesis by (simp add: s member_rows_def displayName_def status_of_def toMember_def or_else_def)
qed

theorem added_member_unnamed_witness:
  "\<exists>raw rows. member_rows (cs_memberStatuses (fst (add_member_done sample_active [sample_member] (ok (201, raw)) circles_initial)))
     (dashboard_members (fst (add_member_done sample_active [sample_member] (ok (201, raw)) circles_initial)))
       = rows @ [(''unknown member'', STATUS_LABEL Member_Offline)]"
  using added_member_unnamed [of 201 sample_active circles_initial "[sample_member]"]
  by (simp add: Let_def reply_ok_def sample_active_def circles_initial_def)

end
