(* ===== verification/SignerPages.thy ===== *)
theory SignerPages
  imports Identity
begin

text \<open>
  The signer as the user manages it: the remote-signer handlers of \<open>pages/SettingsPage.tsx\<close>, the
  NIP-05 section (\<open>components/Nip05IdentitySection.tsx\<close>), and what the pages allow for the active
  signer (\<open>pages/CirclesPage.tsx\<close>, \<open>components/shell/Sidebar.tsx\<close>). The handlers run the operations
  of \<open>services/signerService.ts\<close> through all their phases; the NIP-05 section is a state machine with
  a step per answer.

  The lemmas show the life of a remote signer from connecting over a reload to disconnecting, and that
  the NIP-05 section shows the name of the current key however often the key changes, unless a
  verification of an earlier key is still pending.
\<close>

section \<open>The remote signer on the settings page\<close>

record signer_panel =
  sp_bunkerInput :: string
  sp_signerMsg :: "(string \<times> bool) option"

text \<open>
  \<open>open\<close> run to its end: \<open>signer\<close> is the session the library makes, \<open>meanwhile\<close> what other operations
  do while it is awaited, then the three answers.
\<close>

record 'k open_world =
  ow_signer :: nostr_signer
  ow_meanwhile :: "'k signer_state \<Rightarrow> 'k signer_state"
  ow_connect :: "unit result"
  ow_answer :: "string result"
  ow_ping :: "unit result"
  ow_entropy :: "'k vault_entropy"

definition run_open :: "'k web_crypto \<Rightarrow> 'k open_world \<Rightarrow> nat \<Rightarrow> 'k signer_state \<Rightarrow> 'k signer_state \<times> active_identity result" where
  "run_open wc w i s =
     open_finish wc (ow_entropy w) i (ow_connect w) (ow_answer w) (ow_ping w) (ow_meanwhile w (open_session i (ow_signer w) s))"

definition signer_result :: "string \<Rightarrow> active_identity result \<Rightarrow> string \<times> bool" where
  "signer_result done_text r = (case r of Inr _ \<Rightarrow> (done_text, True) | Inl message \<Rightarrow> (message, False))"

definition handleConnectBunker ::
  "'k web_crypto \<Rightarrow> (string \<Rightarrow> full_url option) \<Rightarrow> bytes \<Rightarrow> 'k open_world \<Rightarrow> signer_panel \<times> 'k signer_state
     \<Rightarrow> signer_panel \<times> 'k signer_state" where
  "handleConnectBunker wc URL clientSecretKey w = (\<lambda>(p, s).
     if trim (sp_bunkerInput p) = '''' then (p, s)
     else
       (case connectBunker URL clientSecretKey (sp_bunkerInput p) s of
          Inl message \<Rightarrow> (p\<lparr>sp_signerMsg := Some (message, False)\<rparr>, s)
        | Inr s1 \<Rightarrow>
            (case run_open wc w (length (sv_opens s)) s1 of
               (s2, r) \<Rightarrow>
                 (p\<lparr>sp_bunkerInput := (case r of Inr _ \<Rightarrow> '''' | Inl _ \<Rightarrow> sp_bunkerInput p),
                    sp_signerMsg := Some (signer_result ''Remote signer connected. Signing now uses the remote identity.'' r)\<rparr>, s2))))"

definition handleReconnectBunker ::
  "'k web_crypto \<Rightarrow> 'k open_world \<Rightarrow> signer_panel \<times> 'k signer_state \<Rightarrow> signer_panel \<times> 'k signer_state" where
  "handleReconnectBunker wc w = (\<lambda>(p, s).
     case reconnectBunker wc s of
       Inl message \<Rightarrow> (p\<lparr>sp_signerMsg := Some (message, False)\<rparr>, s)
     | Inr s1 \<Rightarrow>
         (case run_open wc w (length (sv_opens s)) s1 of
            (s2, r) \<Rightarrow> (p\<lparr>sp_signerMsg := Some (signer_result ''Remote signer reconnected.'' r)\<rparr>, s2)))"

definition handleDisconnectBunker ::
  "nostr_tools \<Rightarrow> bytes \<Rightarrow> ('k signer_state \<Rightarrow> 'k signer_state) \<Rightarrow> bool \<Rightarrow> signer_panel \<times> 'k signer_state
     \<Rightarrow> signer_panel \<times> 'k signer_state" where
  "handleDisconnectBunker lib fresh meanwhile confirmed = (\<lambda>(p, s).
     if \<not> confirmed then (p, s)
     else (p\<lparr>sp_signerMsg := Some (''Remote signer removed. Signing now uses the local identity.'', True)\<rparr>,
           disconnectBunker lib fresh meanwhile s))"

text \<open>The pages that need the local key.\<close>

definition circles_page_open :: "active_identity \<Rightarrow> bool" where
  "circles_page_open a \<longleftrightarrow> ai_mode a \<noteq> Bunker"

definition sidebar_paths :: "bool \<Rightarrow> active_identity \<Rightarrow> string list" where
  "sidebar_paths chatEnabled a =
     filter (\<lambda>path. path \<noteq> ''/circles'' \<or> ai_mode a = Local)
       ([''/map'', ''/alerts'', ''/reports'', ''/circles''] @ (if chatEnabled then [''/chat''] else []) @ [''/settings''])"

section \<open>The NIP-05 section\<close>

text \<open>\<open>/^[A-Za-z0-9_.-]+@[^\s/@]+\.[^\s/@]+$/\<close>.\<close>

definition name_char :: "char \<Rightarrow> bool" where
  "name_char c \<longleftrightarrow> (CHR ''A'' \<le> c \<and> c \<le> CHR ''Z'') \<or> (CHR ''a'' \<le> c \<and> c \<le> CHR ''z'') \<or> is_digit c
     \<or> c \<in> {CHR ''_'', CHR ''.'', CHR ''-''}"

definition domain_char :: "char \<Rightarrow> bool" where
  "domain_char c \<longleftrightarrow> \<not> js_whitespace c \<and> c \<noteq> CHR ''/'' \<and> c \<noteq> CHR ''@''"

definition nip05_valid :: "string \<Rightarrow> bool" where
  "nip05_valid s =
     (let l = takeWhile (\<lambda>c. c \<noteq> CHR ''@'') s; d = drop (Suc (length l)) s
      in length l < length s \<and> l \<noteq> [] \<and> list_all name_char l \<and> list_all domain_char d
         \<and> list_ex (\<lambda>i. d ! i = CHR ''.'') [1..<length d - 1])"

text \<open>
  A pending load knows the key it was started for and whether its effect is still the current one;
  a verification or a removal is signed with the key of its start.
\<close>

datatype nip05_pending = Load string bool | Verify string string | Remove string

record nip05_section =
  ns_pubkey :: string
  ns_identity :: "nip05_status option"
  ns_identifier :: string
  ns_loading :: bool
  ns_message :: "(string \<times> bool) option"
  ns_pending :: "nip05_pending list"

definition nip05_mount :: "string \<Rightarrow> nip05_section" where
  "nip05_mount k = \<lparr>ns_pubkey = k, ns_identity = None, ns_identifier = '''', ns_loading = True, ns_message = None,
     ns_pending = [Load k True]\<rparr>"

text \<open>A new key: the cleanup of the effect and the effect.\<close>

fun retire :: "nip05_pending \<Rightarrow> nip05_pending" where
  "retire (Load k current) = Load k False"
| "retire p = p"

definition key_changed :: "string \<Rightarrow> nip05_section \<Rightarrow> nip05_section" where
  "key_changed k s =
     (if k = ns_pubkey s then s
      else s\<lparr>ns_pubkey := k, ns_loading := True, ns_message := None, ns_pending := map retire (ns_pending s) @ [Load k True]\<rparr>)"

definition load_settled :: "bool \<Rightarrow> nip05_status option result \<Rightarrow> nip05_section \<Rightarrow> nip05_section" where
  "load_settled current r s =
     (if \<not> current then s
      else (case r of
              Inr n \<Rightarrow> s\<lparr>ns_identity := n, ns_identifier := (case n of Some i \<Rightarrow> n5_identifier i | None \<Rightarrow> ''''), ns_loading := False\<rparr>
            | Inl message \<Rightarrow> s\<lparr>ns_message := Some (message, False), ns_loading := False\<rparr>))"

definition verify_clicked :: "nip05_section \<Rightarrow> nip05_section" where
  "verify_clicked s =
     (if \<not> nip05_valid (trim (ns_identifier s)) then s\<lparr>ns_message := Some (''Enter a valid name@domain identifier.'', False)\<rparr>
      else s\<lparr>ns_loading := True, ns_message := None, ns_pending := ns_pending s @ [Verify (ns_pubkey s) (trim (ns_identifier s))]\<rparr>)"

definition verify_settled :: "nip05_status result \<Rightarrow> nip05_section \<Rightarrow> nip05_section" where
  "verify_settled r s =
     (case r of
        Inr n \<Rightarrow> s\<lparr>ns_identity := Some n, ns_identifier := n5_identifier n,
                   ns_message := Some (''NIP-05 identity verified for the active key.'', True), ns_loading := False\<rparr>
      | Inl message \<Rightarrow> s\<lparr>ns_message := Some (message, False), ns_loading := False\<rparr>)"

definition remove_clicked :: "bool \<Rightarrow> nip05_section \<Rightarrow> nip05_section" where
  "remove_clicked confirmed s =
     (if \<not> confirmed then s else s\<lparr>ns_loading := True, ns_message := None, ns_pending := ns_pending s @ [Remove (ns_pubkey s)]\<rparr>)"

definition remove_settled :: "unit result \<Rightarrow> nip05_section \<Rightarrow> nip05_section" where
  "remove_settled r s =
     (case r of
        Inr _ \<Rightarrow> s\<lparr>ns_identity := None, ns_identifier := '''',
                   ns_message := Some (''NIP-05 identity removed. Your signing key is unchanged.'', True), ns_loading := False\<rparr>
      | Inl message \<Rightarrow> s\<lparr>ns_message := Some (message, False), ns_loading := False\<rparr>)"

datatype nip05_event =
    Key_changed string
  | Typed string
  | Verify_clicked
  | Remove_clicked bool
  | Load_settled string bool
  | Verify_settled string string
  | Remove_settled string

text \<open>
  The server answers with the functions of \<open>services/nip05Service.ts\<close>: the identity of a key, the
  verification of a name for it, the removal. The field and the buttons are disabled while loading.
\<close>

record nip05_server =
  nv_get :: "string \<Rightarrow> nip05_status option result"
  nv_verify :: "string \<Rightarrow> string \<Rightarrow> nip05_status result"
  nv_remove :: "string \<Rightarrow> unit result"

fun nip05_step :: "nip05_server \<Rightarrow> nip05_section \<Rightarrow> nip05_event \<Rightarrow> nip05_section" where
  "nip05_step v s (Key_changed k) = key_changed k s"
| "nip05_step v s (Typed t) = (if ns_loading s then s else s\<lparr>ns_identifier := t\<rparr>)"
| "nip05_step v s Verify_clicked = (if ns_loading s then s else verify_clicked s)"
| "nip05_step v s (Remove_clicked confirmed) = (if ns_loading s \<or> ns_identity s = None then s else remove_clicked confirmed s)"
| "nip05_step v s (Load_settled k current) =
     (if Load k current \<in> set (ns_pending s)
      then load_settled current (nv_get v k) (s\<lparr>ns_pending := remove1 (Load k current) (ns_pending s)\<rparr>) else s)"
| "nip05_step v s (Verify_settled k name) =
     (if Verify k name \<in> set (ns_pending s)
      then verify_settled (nv_verify v k name) (s\<lparr>ns_pending := remove1 (Verify k name) (ns_pending s)\<rparr>) else s)"
| "nip05_step v s (Remove_settled k) =
     (if Remove k \<in> set (ns_pending s)
      then remove_settled (nv_remove v k) (s\<lparr>ns_pending := remove1 (Remove k) (ns_pending s)\<rparr>) else s)"

section \<open>Opening a session\<close>

text \<open>Nothing but approval prompts happens while the session opens.\<close>

definition undisturbed :: "'k open_world \<Rightarrow> bool" where
  "undisturbed w \<longleftrightarrow> (\<forall>s. sv_remote (ow_meanwhile w s) = sv_remote s \<and> sv_store (ow_meanwhile w s) = sv_store s
     \<and> map po_stored (sv_opens (ow_meanwhile w s)) = map po_stored (sv_opens s)
     \<and> map po_persist (sv_opens (ow_meanwhile w s)) = map po_persist (sv_opens s)
     \<and> map po_phase (sv_opens (ow_meanwhile w s)) = map po_phase (sv_opens s))"

lemma map_nth_eq: "map f xs = map f ys \<Longrightarrow> i < length ys \<Longrightarrow> f (xs ! i) = f (ys ! i)"
  by (metis length_map nth_map)

definition open_outcome :: "'k open_world \<Rightarrow> string \<Rightarrow> string result" where
  "open_outcome w expected =
     bind_result (ow_connect w) (\<lambda>_. bind_result (ow_answer w) (\<lambda>pubkey.
       throw_if (\<not> isLowercaseHex64 pubkey) ''Remote signer returned an invalid identity''
       (throw_if (expected \<noteq> '''' \<and> expected \<noteq> pubkey) ''Remote signer identity changed''
       (bind_result (ow_ping w) (\<lambda>_. ok pubkey)))))"

lemma open_outcome_ok:
  "open_outcome w expected = ok pubkey \<longleftrightarrow>
     ow_connect w = ok () \<and> ow_answer w = ok pubkey \<and> isLowercaseHex64 pubkey \<and> (expected = '''' \<or> expected = pubkey) \<and> ow_ping w = ok ()"
  by (cases "ow_connect w"; cases "ow_answer w"; cases "ow_ping w") (auto simp: open_outcome_def throw_if_def)

lemma run_open_result:
  assumes "undisturbed w" "run_open wc w (length (sv_opens s)) (open_start stored persist s) = (s2, r)"
  shows "case open_outcome w (bc_expectedPubkey stored) of
      Inl message \<Rightarrow> r = throw message \<and> sv_remote s2 = None \<and> ai_mode (sv_identity s2) = Bunker \<and> ai_status (sv_identity s2) = Error
        \<and> sv_store s2 = sv_store s
    | Inr pubkey \<Rightarrow> r = ok (sv_identity s2) \<and> ai_mode (sv_identity s2) = Bunker \<and> ai_pubkey (sv_identity s2) = pubkey
        \<and> ai_status (sv_identity s2) = Ready \<and> map_option rs_signer (sv_remote s2) = Some (ow_signer w)
        \<and> sv_store s2 = (if persist then saveBunkerConnection wc (ow_entropy w) (sv_store s) (stored\<lparr>bc_expectedPubkey := pubkey\<rparr>)
                         else sv_store s)"
proof -
  let ?i = "length (sv_opens s)"
  define s1 where "s1 = open_session ?i (ow_signer w) (open_start stored persist s)"
  define s1' where "s1' = ow_meanwhile w s1"
  have op: "sv_opens s1 = sv_opens s @ [\<lparr>po_stored = stored, po_persist = persist, po_phase = Connected (sv_generation s + 1), po_approvalUrl = None\<rparr>]"
    and rem: "sv_remote s1 = Some \<lparr>rs_object = sv_allocated s, rs_signer = ow_signer w, rs_generation = sv_generation s + 1\<rparr>"
    and store: "sv_store s1 = sv_store s"
    by (simp_all add: s1_def open_session_def open_start_def closeRemote_def publish_identity_def set_open_def Let_def)
  have m: "sv_remote s1' = sv_remote s1" "sv_store s1' = sv_store s1" "map po_stored (sv_opens s1') = map po_stored (sv_opens s1)"
    "map po_persist (sv_opens s1') = map po_persist (sv_opens s1)" "map po_phase (sv_opens s1') = map po_phase (sv_opens s1)"
    using assms(1) by (simp_all add: undisturbed_def s1'_def)
  have i: "?i < length (sv_opens s1)" by (simp add: op)
  have p: "po_stored (sv_opens s1' ! ?i) = stored" "po_persist (sv_opens s1' ! ?i) = persist"
    "po_phase (sv_opens s1' ! ?i) = Connected (sv_generation s + 1)"
    using map_nth_eq [OF m(3) i] map_nth_eq [OF m(4) i] map_nth_eq [OF m(5) i] by (simp_all add: op)
  have same: "same_session s1' (sv_generation s + 1)" by (simp add: same_session_def m(1) rem)
  have fin: "open_finish wc (ow_entropy w) ?i (ow_connect w) (ow_answer w) (ow_ping w) s1' = (s2, r)"
    using assms(2) by (simp add: run_open_def s1_def s1'_def)
  have "bind_result (ow_connect w) (\<lambda>_. bind_result (ow_answer w) (\<lambda>pubkey.
       throw_if (\<not> isLowercaseHex64 pubkey) ''Remote signer returned an invalid identity''
       (throw_if (bc_expectedPubkey stored \<noteq> '''' \<and> bc_expectedPubkey stored \<noteq> pubkey) ''Remote signer identity changed''
       (bind_result (ow_ping w) (\<lambda>_. throw_if (\<not> same_session s1' (sv_generation s + 1)) ''Remote signer session changed'' (ok pubkey))))))
     = open_outcome w (bc_expectedPubkey stored)"
    using same by (simp add: open_outcome_def)
  with fin show ?thesis
    by (cases "open_outcome w (bc_expectedPubkey stored)")
      (auto simp: open_finish_def p Let_def publish_identity_def closeRemote_def set_open_def bunker_identity_def getActiveIdentity_def
        m rem store)
qed

section \<open>Properties\<close>

lemma connect_reported:
  assumes "crypto_laws wc" "undisturbed w" "handleConnectBunker wc URL sk w (p, s) = (p', s')" "trim (sp_bunkerInput p) \<noteq> ''''"
    and "sp_signerMsg p' = Some (message, True)"
  obtains pubkey conn where "isLowercaseHex64 pubkey" "ow_answer w = ok pubkey" "ai_mode (sv_identity s') = Bunker"
    "ai_pubkey (sv_identity s') = pubkey" "ai_status (sv_identity s') = Ready"
    "loadBunkerConnection wc (sv_store s') = Some conn" "bc_expectedPubkey conn = pubkey"
proof -
  obtain pointer where ptr: "parsePointer URL (trim (sp_bunkerInput p)) = ok pointer"
    using assms(3-5) by (cases "parsePointer URL (trim (sp_bunkerInput p))") (auto simp: handleConnectBunker_def connectBunker_def)
  define stored where "stored = \<lparr>bc_clientSecretKey = sk, bc_bunkerPubkey = bp_pubkey pointer, bc_relays = bp_relays pointer,
    bc_secret = bp_secret pointer, bc_expectedPubkey = ''''\<rparr>"
  have e0: "bc_expectedPubkey stored = ''''" by (simp add: stored_def)
  obtain s2 r where run: "run_open wc w (length (sv_opens s)) (open_start stored True s) = (s2, r)" by (metis surj_pair)
  have s': "s' = s2" and msg: "sp_signerMsg p' = Some (signer_result ''Remote signer connected. Signing now uses the remote identity.'' r)"
    using assms(3,4) ptr run by (auto simp: handleConnectBunker_def connectBunker_def stored_def split: sum.splits)
  note res = run_open_result [OF assms(2) run, unfolded e0]
  from msg assms(5) obtain pubkey where o: "open_outcome w '''' = ok pubkey"
    using res by (cases "open_outcome w ''''") (auto simp: signer_result_def)
  show thesis
    using that [of pubkey "stored\<lparr>bc_expectedPubkey := pubkey\<rparr>"] res [unfolded o] o
    by (simp add: s' open_outcome_ok bunker_saved_loads [OF assms(1)])
qed

lemma reconnect_reported:
  assumes "undisturbed w" "loadBunkerConnection wc (sv_store s) = Some conn" "bc_expectedPubkey conn = pubkey" "isLowercaseHex64 pubkey"
    and "handleReconnectBunker wc w (p, s) = (q, again)"
  shows "(sp_signerMsg q = Some (''Remote signer reconnected.'', True) \<longleftrightarrow>
       ow_connect w = ok () \<and> ow_answer w = ok pubkey \<and> ow_ping w = ok ())
    \<and> (ai_status (sv_identity again) = Ready \<longrightarrow> ai_pubkey (sv_identity again) = pubkey)"
proof -
  obtain s2 r where run: "run_open wc w (length (sv_opens s)) (open_start conn False s) = (s2, r)" by (metis surj_pair)
  have q: "sp_signerMsg q = Some (signer_result ''Remote signer reconnected.'' r)" "again = s2"
    using assms(5) by (auto simp: handleReconnectBunker_def reconnectBunker_def assms(2) run)
  have ne: "pubkey \<noteq> ''''" using assms(4) by (auto simp: isLowercaseHex64_def)
  note res = run_open_result [OF assms(1) run, unfolded assms(3)] and out = open_outcome_ok [of w pubkey]
  show ?thesis
  proof (cases "open_outcome w pubkey")
    case (Inl m)
    with res have "r = throw m" "ai_status (sv_identity again) = Error" by (simp_all add: q)
    moreover have "\<not> (ow_connect w = ok () \<and> ow_answer w = ok pubkey \<and> ow_ping w = ok ())"
      using Inl out [of pubkey] assms(4) by auto
    ultimately show ?thesis by (simp add: q signer_result_def)
  next
    case (Inr k)
    with out [of k] ne have "k = pubkey" "ow_connect w = ok ()" "ow_answer w = ok pubkey" "ow_ping w = ok ()" by auto
    with res Inr show ?thesis by (simp add: q signer_result_def)
  qed
qed

lemma disconnected_local:
  assumes "gone = disconnectBunker lib fresh id s"
  shows "ai_mode (sv_identity gone) = Local" "sv_remote gone = None"
    "ai_mode (sv_identity (initializeActiveSigner wc lib fresh (initial_signer (sv_store gone)))) = Local"
  by (simp_all add: assms disconnectBunker_def disconnect_done_def publish_local_def publish_identity_def local_identity_def
      closeRemote_def loadBunkerConnection_def clearBunkerConnection_def initializeActiveSigner_def initial_signer_def
      split: prod.split option.split)

text \<open>
  C23: the life of a remote signer. When the settings page reports a connection, the active identity is the
  key the signer gave and every signature made from then on verifies under it. After a reload the same
  key is active but offline, so that nothing is signed, in particular not with the local key, until
  the user reconnects; reconnecting succeeds exactly when the signer answers with the same key.
  Disconnecting makes the local identity active and forgets the connection, also after a reload.
\<close>

theorem remote_signer_lifecycle:
  assumes "crypto_laws wc" "finalizes lib" "undisturbed w" "undisturbed w'"
    and "handleConnectBunker wc URL sk w (p, s) = (p', s')" "trim (sp_bunkerInput p) \<noteq> ''''"
    and "sp_signerMsg p' = Some (message, True)"
    and "loaded = initializeActiveSigner wc lib fresh (initial_signer (sv_store s'))"
    and "handleReconnectBunker wc w' (p', loaded) = (q, again)"
    and "handleDisconnectBunker lib fresh id True (p', s') = (d, gone)"
  shows "\<exists>pubkey. isLowercaseHex64 pubkey \<and> ow_answer w = ok pubkey
    \<and> ai_mode (sv_identity s') = Bunker \<and> ai_pubkey (sv_identity s') = pubkey \<and> ai_status (sv_identity s') = Ready
    \<and> (\<forall>ext f m t s2 e. signWithActiveIdentity lib ext f m t s' = (s2, ok e) \<longrightarrow> tl_verifyEvent lib e = Some True \<and> ne_pubkey e = pubkey)
    \<and> ai_mode (sv_identity loaded) = Bunker \<and> ai_pubkey (sv_identity loaded) = pubkey \<and> ai_status (sv_identity loaded) = Offline
    \<and> (\<forall>ext f m t. snd (signWithActiveIdentity lib ext f m t loaded) = throw ''Remote signer is offline'')
    \<and> (sp_signerMsg q = Some (''Remote signer reconnected.'', True) \<longleftrightarrow>
         ow_connect w' = ok () \<and> ow_answer w' = ok pubkey \<and> ow_ping w' = ok ())
    \<and> (ai_status (sv_identity again) = Ready \<longrightarrow> ai_pubkey (sv_identity again) = pubkey)
    \<and> ai_mode (sv_identity gone) = Local \<and> sv_remote gone = None
    \<and> ai_mode (sv_identity (initializeActiveSigner wc lib fresh (initial_signer (sv_store gone)))) = Local"
proof -
  obtain pubkey conn where c: "isLowercaseHex64 pubkey" "ow_answer w = ok pubkey" "ai_mode (sv_identity s') = Bunker"
    "ai_pubkey (sv_identity s') = pubkey" "ai_status (sv_identity s') = Ready"
    and load: "loadBunkerConnection wc (sv_store s') = Some conn" "bc_expectedPubkey conn = pubkey"
    by (rule connect_reported [OF assms(1,3,5-7)])
  have signs: "tl_verifyEvent lib e = Some True \<and> ne_pubkey e = pubkey"
    if "signWithActiveIdentity lib ext f m t s' = (s2, ok e)" for ext f m t s2 e
    using sign_ok [OF assms(2) that] c by simp
  have l: "ai_mode (sv_identity loaded) = Bunker" "ai_pubkey (sv_identity loaded) = pubkey" "ai_status (sv_identity loaded) = Offline"
    "sv_remote loaded = None" "sv_store loaded = sv_store s'"
    using load by (simp_all add: assms(8) initializeActiveSigner_def initial_signer_def publish_identity_def)
  then have offline: "snd (signWithActiveIdentity lib ext f m t loaded) = throw ''Remote signer is offline''" for ext f m t
    by (simp add: signWithActiveIdentity_def getActiveIdentity_def)
  from load(1) have "loadBunkerConnection wc (sv_store loaded) = Some conn" by (simp add: l(5))
  note rec = reconnect_reported [OF assms(4) this load(2) c(1) assms(9)]
  have "gone = disconnectBunker lib fresh id s'" using assms(10) by (simp add: handleDisconnectBunker_def)
  note d = disconnected_local [OF this]
  show ?thesis using c signs l(1-3) offline rec d by blast
qed

definition sample_key :: string where
  "sample_key = key_of (CHR ''a'')"

definition sample_url :: "string \<Rightarrow> full_url option" where
  "sample_url s =
     (if s = ''bunker://k'' then
        Some \<lparr>pu_pathname = '''', pu_username = '''', pu_password = '''', pu_toString = s, pu_protocol = ''bunker:'',
          pu_hostname = sample_key, pu_port = '''', pu_hash = '''', pu_search = [(''relay'', ''wss://r'')]\<rparr>
      else Some \<lparr>pu_pathname = '''', pu_username = '''', pu_password = '''', pu_toString = s, pu_protocol = ''wss:'',
          pu_hostname = ''r'', pu_port = '''', pu_hash = '''', pu_search = []\<rparr>)"

definition sample_world :: "(bytes \<times> bool) open_world" where
  "sample_world = \<lparr>ow_signer = plain_signer sample_key, ow_meanwhile = id, ow_connect = ok (), ow_answer = ok sample_key, ow_ping = ok (),
     ow_entropy = sample_vault_entropy\<rparr>"

lemma sample_key_hex: "isLowercaseHex64 sample_key" "toLowerCase sample_key = sample_key"
  using sample_keys(1) by (simp_all add: sample_key_def)

theorem remote_signer_lifecycle_witness:
  "\<exists>p' s'. handleConnectBunker plain_crypto sample_url [1] sample_world
       (\<lparr>sp_bunkerInput = ''bunker://k'', sp_signerMsg = None\<rparr>, initial_signer sample_store) = (p', s')
     \<and> ai_pubkey (sv_identity s') = sample_key \<and> ai_status (sv_identity s') = Ready"
proof -
  let ?p = "\<lparr>sp_bunkerInput = ''bunker://k'', sp_signerMsg = None\<rparr>"
  obtain p' s' where c: "handleConnectBunker plain_crypto sample_url [1] sample_world (?p, initial_signer sample_store) = (p', s')"
    by (metis surj_pair)
  have t: "trim ''bunker://k'' = ''bunker://k''" by (simp add: trim_def js_whitespace_def)
  have ptr: "parsePointer sample_url ''bunker://k'' = ok \<lparr>bp_pubkey = sample_key, bp_relays = [''wss://r''], bp_secret = None\<rparr>"
    by (simp add: parsePointer_def sample_url_def startsWith_def url_or_throw_def param_values_def sample_key_hex check_relay_def
        set_of_array_def set_add_def)
  have w: "undisturbed sample_world" by (simp add: undisturbed_def sample_world_def)
  obtain s2 r where run: "run_open plain_crypto sample_world (length (sv_opens (initial_signer sample_store)))
      (open_start \<lparr>bc_clientSecretKey = [1], bc_bunkerPubkey = sample_key, bc_relays = [''wss://r''], bc_secret = None,
         bc_expectedPubkey = ''''\<rparr> True (initial_signer sample_store)) = (s2, r)" by (metis surj_pair)
  have "open_outcome sample_world '''' = ok sample_key" by (simp add: open_outcome_ok sample_world_def sample_key_hex)
  with run_open_result [OF w run] have "r = ok (sv_identity s2)" by simp
  with c run have "sp_signerMsg p' = Some (''Remote signer connected. Signing now uses the remote identity.'', True)"
    by (auto simp: handleConnectBunker_def t connectBunker_def ptr signer_result_def)
  note msg = this
  obtain q again where rec: "handleReconnectBunker plain_crypto sample_world
      (p', initializeActiveSigner plain_crypto plain_tools [1] (initial_signer (sv_store s'))) = (q, again)" by (metis surj_pair)
  obtain d gone where dis: "handleDisconnectBunker plain_tools [1] id True (p', s') = (d, gone)" by (metis surj_pair)
  from remote_signer_lifecycle [OF plain_crypto_laws plain_laws(2) w w c _ msg refl rec dis] c
  show ?thesis by (auto simp: t sample_world_def)
qed

text \<open>Runs without verifications and removals: the effect of the key alone.\<close>

definition load_ok :: "nip05_server \<Rightarrow> nip05_section \<Rightarrow> bool" where
  "load_ok v s \<longleftrightarrow>
     (\<forall>p\<in>set (ns_pending s). \<exists>k current. p = Load k current)
     \<and> length (filter (\<lambda>p. p = Load (ns_pubkey s) True) (ns_pending s)) = (if ns_loading s then 1 else 0)
     \<and> (\<forall>k. Load k True \<in> set (ns_pending s) \<longrightarrow> k = ns_pubkey s)
     \<and> (\<not> ns_loading s \<longrightarrow>
          (case nv_get v (ns_pubkey s) of
             Inr n \<Rightarrow> ns_identity s = n
           | Inl message \<Rightarrow> ns_message s = Some (message, False)))"

fun key_event :: "nip05_event \<Rightarrow> bool" where
  "key_event (Key_changed k) = True"
| "key_event (Load_settled k current) = True"
| "key_event e = False"

lemma retired:
  assumes "\<forall>p\<in>set ps. \<exists>k c. p = Load k c" "p \<in> set (map retire ps)"
  shows "\<exists>k. p = Load k False"
proof -
  from assms(2) obtain q where q: "q \<in> set ps" "p = retire q" by auto
  with assms(1) obtain k c where "q = Load k c" by blast
  with q show ?thesis by simp
qed

lemma load_mount: "load_ok v (nip05_mount k)"
  by (auto simp: load_ok_def nip05_mount_def)

lemma load_key_changed:
  assumes "load_ok v s"
  shows "load_ok v (key_changed k s)"
proof (cases "k = ns_pubkey s")
  case False
  have "\<forall>p\<in>set (ns_pending s). \<exists>k c. p = Load k c" using assms by (simp add: load_ok_def)
  note r = retired [OF this]
  have none: "Load k' True \<notin> set (map retire (ns_pending s))" for k' using r by blast
  then have "filter (\<lambda>p. p = Load k True) (map retire (ns_pending s)) = []" by (auto simp: filter_empty_conv simp del: set_map)
  moreover have "\<forall>p\<in>set (map retire (ns_pending s) @ [Load k True]). \<exists>k c. p = Load k c"
    using r by (simp del: set_map) blast
  moreover have "key_changed k s = s\<lparr>ns_pubkey := k, ns_loading := True, ns_message := None,
      ns_pending := map retire (ns_pending s) @ [Load k True]\<rparr>" using False by (simp add: key_changed_def)
  ultimately show ?thesis using none by (simp add: load_ok_def del: set_map)
qed (use assms in \<open>simp add: key_changed_def\<close>)

lemma load_settled_ok:
  assumes "load_ok v s" "Load k c \<in> set (ns_pending s)"
  shows "load_ok v (load_settled c (nv_get v k) (s\<lparr>ns_pending := remove1 (Load k c) (ns_pending s)\<rparr>))"
proof (cases c)
  case True
  with assms have k: "k = ns_pubkey s" by (simp add: load_ok_def)
  have "filter (\<lambda>p. p = Load k True) (ns_pending s) \<noteq> []" using assms(2) True by (auto simp: filter_empty_conv)
  then have one: "length (filter (\<lambda>p. p = Load k True) (ns_pending s)) = 1" using assms(1) k by (simp add: load_ok_def split: if_splits)
  have "filter (\<lambda>p. p = Load k True) (remove1 (Load k True) (ns_pending s)) = remove1 (Load k True) (filter (\<lambda>p. p = Load k True) (ns_pending s))"
    by (simp add: filter_remove1)
  also have "length \<dots> = 0" using one assms(2) True by (simp add: length_remove1)
  finally have none: "filter (\<lambda>p. p = Load k True) (remove1 (Load k True) (ns_pending s)) = []" by simp
  then have "Load k True \<notin> set (remove1 (Load k True) (ns_pending s))" by (auto simp: filter_empty_conv)
  with assms(1) True k none set_remove1_subset [of "Load k True" "ns_pending s"] show ?thesis
    by (cases "nv_get v k") (auto simp: load_ok_def load_settled_def)
next
  case False
  have "filter (\<lambda>p. p = Load (ns_pubkey s) True) (remove1 (Load k False) (ns_pending s)) = filter (\<lambda>p. p = Load (ns_pubkey s) True) (ns_pending s)"
    by (simp add: filter_remove1 remove1_idem)
  with assms(1) False set_remove1_subset [of "Load k False" "ns_pending s"] show ?thesis
    by (auto simp: load_ok_def load_settled_def split: sum.split)
qed

lemma load_run: "load_ok v s \<Longrightarrow> list_all key_event es \<Longrightarrow> load_ok v (foldl (nip05_step v) s es)"
proof (induction es arbitrary: s)
  case (Cons e es)
  have "load_ok v (nip05_step v s e)"
    using Cons.prems by (cases e) (simp_all add: load_key_changed load_settled_ok)
  with Cons show ?case by simp
qed simp

text \<open>
  The NIP-05 section shows the current key's name. However often the active key changes and in whatever
  order the server answers, once nothing is loading the identity shown is the one the server has for
  the current key, or the failure of that very request is shown.
\<close>

theorem nip05_shows_current_key:
  assumes "list_all key_event events" "s = foldl (nip05_step v) (nip05_mount k) events" "\<not> ns_loading s"
  shows "case nv_get v (ns_pubkey s) of Inr n \<Rightarrow> ns_identity s = n | Inl message \<Rightarrow> ns_message s = Some (message, False)"
  using load_run [OF load_mount assms(1), of v k, folded assms(2)] assms(3) by (simp add: load_ok_def)

definition sample_server :: nip05_server where
  "sample_server = \<lparr>nv_get = (\<lambda>k. ok (if k = ''new'' then None else Some \<lparr>n5_identifier = k, n5_verified = True, n5_verified_at = '''', n5_valid_until = ''''\<rparr>)),
     nv_verify = (\<lambda>k name. ok \<lparr>n5_identifier = name, n5_verified = True, n5_verified_at = '''', n5_valid_until = ''''\<rparr>), nv_remove = (\<lambda>k. ok ())\<rparr>"

theorem nip05_shows_current_key_witness:
  "ns_identity (foldl (nip05_step sample_server) (nip05_mount ''old'')
     [Key_changed ''new'', Load_settled ''new'' True, Load_settled ''old'' False]) = None"
proof -
  let ?es = "[Key_changed ''new'', Load_settled ''new'' True, Load_settled ''old'' False]"
  have "\<not> ns_loading (foldl (nip05_step sample_server) (nip05_mount ''old'') ?es)
      \<and> ns_pubkey (foldl (nip05_step sample_server) (nip05_mount ''old'') ?es) = ''new''"
    by (simp add: nip05_mount_def key_changed_def load_settled_def sample_server_def)
  with nip05_shows_current_key [of ?es _ sample_server "''old''", OF _ refl] show ?thesis by (simp add: sample_server_def)
qed

text \<open>
  A verification that is pending when the key changes is shown for the new key. The answer of the server
  for the old key replaces whatever was loaded for the new one, with the message that it was verified
  for the active key.
\<close>

theorem nip05_verified_for_wrong_key:
  assumes "\<not> ns_loading s" "nip05_valid (trim (ns_identifier s))" "k \<noteq> ns_pubkey s"
    and "nv_verify v (ns_pubkey s) (trim (ns_identifier s)) = ok n" "nv_get v k = ok m"
  shows "let s' = foldl (nip05_step v) s
      [Verify_clicked, Key_changed k, Load_settled k True, Verify_settled (ns_pubkey s) (trim (ns_identifier s))]
    in ns_pubkey s' = k \<and> ns_identity s' = Some n \<and> ns_message s' = Some (''NIP-05 identity verified for the active key.'', True)"
proof -
  let ?vf = "Verify (ns_pubkey s) (trim (ns_identifier s))"
  define s2 where "s2 = key_changed k (verify_clicked s)"
  have s2: "ns_pending s2 = map retire (ns_pending s) @ [?vf, Load k True]" "ns_pubkey s2 = k"
    using assms(2,3) by (simp_all add: s2_def key_changed_def verify_clicked_def)
  have vf: "?vf \<in> set (remove1 (Load k True) (ns_pending s2))" by (simp add: s2(1) in_set_remove1)
  have "foldl (nip05_step v) s [Verify_clicked, Key_changed k, Load_settled k True, Verify_settled (ns_pubkey s) (trim (ns_identifier s))]
      = nip05_step v (load_settled True (ok m) (s2\<lparr>ns_pending := remove1 (Load k True) (ns_pending s2)\<rparr>)) (Verify_settled (ns_pubkey s) (trim (ns_identifier s)))"
    using assms(1,5) s2(1) by (simp add: s2_def [symmetric])
  then show ?thesis using vf s2(2) assms(4) by (simp add: load_settled_def verify_settled_def Let_def)
qed

definition sample_section :: nip05_section where
  "sample_section = \<lparr>ns_pubkey = ''old'', ns_identity = None, ns_identifier = ''a@b.c'', ns_loading = False, ns_message = None, ns_pending = []\<rparr>"

theorem nip05_verified_for_wrong_key_witness:
  "\<exists>s' :: nip05_section. ns_pubkey s' = ''new'' \<and> map_option n5_identifier (ns_identity s') = Some ''a@b.c''"
proof -
  have t: "trim (ns_identifier sample_section) = ''a@b.c''" "\<not> ns_loading sample_section" "''new'' \<noteq> ns_pubkey sample_section"
    by (simp_all add: sample_section_def trim_def js_whitespace_def)
  have valid: "nip05_valid (trim (ns_identifier sample_section))"
    unfolding t by (simp add: nip05_valid_def name_char_def domain_char_def js_whitespace_def upt_rec)
  have n: "nv_verify sample_server (ns_pubkey sample_section) (trim (ns_identifier sample_section)) =
      ok \<lparr>n5_identifier = ''a@b.c'', n5_verified = True, n5_verified_at = [], n5_valid_until = []\<rparr>" "nv_get sample_server ''new'' = ok None"
    by (simp_all add: sample_server_def t)
  from nip05_verified_for_wrong_key [OF t(2) valid t(3) n] show ?thesis unfolding Let_def by (metis nip05_status.select_convs(1) option.map(2))
qed

end
