(* ===== verification/LiveMap.thy ===== *)
theory LiveMap
  imports MapView
begin

text \<open>
  The map page (\<open>pages/LiveMapPage.tsx\<close>) with the canvas that carries out its camera commands
  (\<open>components/map/MapCanvas.tsx\<close>), and what it shows of an alert (\<open>components/EventMarker.tsx\<close>,
  \<open>components/shared/AlertCard.tsx\<close>, \<open>components/map/FieldLedger.tsx\<close>). The page is a state machine:
  a step is an event of the position control, a gesture on the map, a change of the alerts, the layout
  or the address, or an action of the user, followed by the effects that depend on what changed.

  The lemmas show that the camera follows the position exactly while the control says so and that a
  gesture ends this for good, that a link to an alert opens it once, as soon as the alert is known, and
  that an unverified alert never looks like a confirmed one.
\<close>

section \<open>Camera commands\<close>

datatype layout = Mobile | Desktop

record padding =
  pd_top :: nat
  pd_right :: nat
  pd_bottom :: nat
  pd_left :: nat

fun cameraPadding :: "layout \<Rightarrow> padding" where
  "cameraPadding Mobile = \<lparr>pd_top = 180, pd_right = 24, pd_bottom = 140, pd_left = 24\<rparr>"
| "cameraPadding Desktop = \<lparr>pd_top = 150, pd_right = 400, pd_bottom = 60, pd_left = 40\<rparr>"

text \<open>A centre (longitude, latitude) with a zoom, or bounds.\<close>

datatype camera_target = To_center real real real | To_bounds camera_bounds

record camera_command =
  cc_id :: nat
  cc_target :: camera_target
  cc_padding :: padding

datatype map_call = Fit_bounds camera_bounds padding nat | Ease_to "real \<times> real" real padding nat

text \<open>What the canvas does with a new command; it never zooms out to a centre.\<close>

definition camera_controller :: "bool \<Rightarrow> real \<Rightarrow> camera_command \<Rightarrow> map_call" where
  "camera_controller reducedMotion zoom c =
     (let duration = (if reducedMotion then 0 else 700)
      in case cc_target c of
           To_bounds b \<Rightarrow> Fit_bounds b (cc_padding c) duration
         | To_center lng lat z \<Rightarrow> Ease_to (lng, lat) (max zoom z) (cc_padding c) duration)"

section \<open>The page\<close>

record suggestion =
  sg_label :: string
  sg_lat :: real
  sg_lng :: real
  sg_bbox :: "camera_bounds option"

record live_map =
  lm_location :: location_ctl
  lm_layout :: layout
  lm_items :: "safety_event list"
  lm_eventParam :: "string option"
  lm_selectedId :: "string option"
  lm_searchResult :: "suggestion option"
  lm_command :: "camera_command option"
  lm_sequence :: nat
  lm_focused :: "string option"
  lm_seed :: "nat \<times> string"
  lm_filters :: "string list"
  lm_showRadii :: bool
  lm_announcement :: string

fun gps_message :: "location_status \<Rightarrow> string" where
  "gps_message L_Idle = ''Location is off.''"
| "gps_message L_Requesting = ''Requesting high accuracy location.''"
| "gps_message L_Following = ''Location acquired. Map is following your position.''"
| "gps_message L_Located_not_following = ''Map follow paused after map interaction.''"
| "gps_message L_Denied = ''Location permission was denied.''"
| "gps_message L_Unavailable = ''Location is unavailable.''"

definition issue :: "camera_target \<Rightarrow> live_map \<Rightarrow> live_map" where
  "issue target s = s\<lparr>lm_sequence := Suc (lm_sequence s),
     lm_command := Some \<lparr>cc_id = Suc (lm_sequence s), cc_target = target, cc_padding = cameraPadding (lm_layout s)\<rparr>\<rparr>"

definition follow_effect :: "live_map \<Rightarrow> live_map" where
  "follow_effect s =
     (case lc_location (lm_location s) of
        Some pos \<Rightarrow> (if lc_status (lm_location s) = L_Following then issue (To_center (ll_lng pos) (ll_lat pos) 15) s else s)
      | None \<Rightarrow> s)"

definition deep_link_effect :: "live_map \<Rightarrow> live_map" where
  "deep_link_effect s =
     (case lm_eventParam s of
        None \<Rightarrow> s
      | Some x \<Rightarrow>
          if x = '''' then s
          else (let s1 = s\<lparr>lm_selectedId := Some x\<rparr>
                in case find (\<lambda>e. ev_id e = x) (lm_items s) of
                     None \<Rightarrow> s1
                   | Some e \<Rightarrow>
                       if lm_focused s = Some x then s1
                       else issue (To_center (ev_lng e) (ev_lat e) 15) (s1\<lparr>lm_focused := Some x\<rparr>)))"

text \<open>
  An event of the position control. A position that arrives is a new object, so the effect runs for
  it even when the device has not moved; otherwise it runs when the position or the status changed.
\<close>

definition position_accepted :: "location_ctl \<Rightarrow> location_event \<Rightarrow> bool" where
  "position_accepted l e = (case e of Position w _ \<Rightarrow> w \<in> set (lc_active l) | _ \<Rightarrow> False)"

definition located :: "bool \<Rightarrow> location_event \<Rightarrow> live_map \<Rightarrow> live_map" where
  "located supported e s =
     (let l = lm_location s; l' = location_step supported l e;
          s' = s\<lparr>lm_location := l', lm_announcement := gps_message (lc_status l')\<rparr>
      in if position_accepted l e \<or> lc_location l' \<noteq> lc_location l \<or> lc_status l' \<noteq> lc_status l then follow_effect s' else s')"

definition layout_changed :: "layout \<Rightarrow> live_map \<Rightarrow> live_map" where
  "layout_changed l s = (if l = lm_layout s then s else deep_link_effect (follow_effect (s\<lparr>lm_layout := l\<rparr>)))"

definition items_changed :: "safety_event list \<Rightarrow> live_map \<Rightarrow> live_map" where
  "items_changed items s = deep_link_effect (s\<lparr>lm_items := items\<rparr>)"

text \<open>A new address: its \<open>q\<close> seeds the search field and is removed, its \<open>event\<close> is the deep link.\<close>

definition navigated :: "string option \<Rightarrow> string option \<Rightarrow> live_map \<Rightarrow> live_map" where
  "navigated ev q s =
     (let s1 = s\<lparr>lm_eventParam := ev,
                 lm_seed := (case q of Some t \<Rightarrow> (if t = '''' then lm_seed s else (fst (lm_seed s) + 1, t)) | None \<Rightarrow> lm_seed s)\<rparr>
      in if ev = lm_eventParam s then s1 else deep_link_effect s1)"

definition selectEvent :: "safety_event option \<Rightarrow> live_map \<Rightarrow> live_map" where
  "selectEvent ev s =
     (let s1 = s\<lparr>lm_selectedId := map_option ev_id ev, lm_eventParam := (if truthy (lm_eventParam s) then None else lm_eventParam s)\<rparr>
      in case ev of Some e \<Rightarrow> issue (To_center (ev_lng e) (ev_lat e) 15) s1 | None \<Rightarrow> s1)"

definition selectSearchResult :: "suggestion \<Rightarrow> live_map \<Rightarrow> live_map" where
  "selectSearchResult r s =
     issue (case sg_bbox r of Some b \<Rightarrow> To_bounds b | None \<Rightarrow> To_center (sg_lng r) (sg_lat r) 15) (s\<lparr>lm_searchResult := Some r\<rparr>)"

datatype page_event =
    Located location_event
  | Gesture bool
  | Items_changed "safety_event list"
  | Layout_changed layout
  | Navigated "string option" "string option"
  | Select_event "safety_event option"
  | Cluster_clicked "safety_event list"
  | Result_selected suggestion
  | Search_cleared
  | Toggle_filter string
  | Toggle_radii

text \<open>A drag or a zoom pauses following only when it comes from the user (\<open>originalEvent\<close>).\<close>

fun page_step :: "bool \<Rightarrow> live_map \<Rightarrow> page_event \<Rightarrow> live_map" where
  "page_step supported s (Located e) = located supported e s"
| "page_step supported s (Gesture original) = (if original then located supported Map_moved s else s)"
| "page_step supported s (Items_changed items) = items_changed items s"
| "page_step supported s (Layout_changed l) = layout_changed l s"
| "page_step supported s (Navigated ev q) = navigated ev q s"
| "page_step supported s (Select_event ev) = selectEvent ev s"
| "page_step supported s (Cluster_clicked es) = issue (To_bounds (focusCluster es)) s"
| "page_step supported s (Result_selected r) = selectSearchResult r s"
| "page_step supported s Search_cleared = s\<lparr>lm_searchResult := None\<rparr>"
| "page_step supported s (Toggle_filter i) = s\<lparr>lm_filters := toggle (lm_filters s) i\<rparr>"
| "page_step supported s Toggle_radii = s\<lparr>lm_showRadii := \<not> lm_showRadii s\<rparr>"

definition page_initial :: "layout \<Rightarrow> string option \<Rightarrow> string \<Rightarrow> live_map" where
  "page_initial l ev q = \<lparr>lm_location = location_initial, lm_layout = l, lm_items = [], lm_eventParam = ev, lm_selectedId = None,
     lm_searchResult = None, lm_command = None, lm_sequence = 0, lm_focused = None, lm_seed = (0, q), lm_filters = [],
     lm_showRadii = True, lm_announcement = gps_message L_Idle\<rparr>"

text \<open>What is listed and what is selected.\<close>

definition selected :: "live_map \<Rightarrow> safety_event option" where
  "selected s = (case lm_selectedId s of Some x \<Rightarrow> (if x = '''' then None else find (\<lambda>e. ev_id e = x) (lm_items s)) | None \<Rightarrow> None)"

definition confirmed_count :: "safety_event list \<Rightarrow> nat" where
  "confirmed_count visible = length (filter (\<lambda>e. ev_trust_state e = Some Confirmed) visible)"

text \<open>The search is biased to the middle of the view, at two decimals.\<close>

definition fixed2 :: "real \<Rightarrow> real" where
  "fixed2 x = (if x < 0 then - 1 else 1) * real (fixed_abs 2 x) / 100"

definition mapSearchProximity :: "viewport_bounds \<Rightarrow> lat_lng" where
  "mapSearchProximity b =
     \<lparr>ll_lat = fixed2 ((vb_north b + vb_south b) / 2), ll_lng = fixed2 ((vb_east b + vb_west b) / 2)\<rparr>"

section \<open>Markers and cards\<close>

record event_marker =
  mk_size :: nat
  mk_ring :: bool
  mk_pulse :: bool
  mk_exclamation :: bool
  mk_opacity :: real
  mk_title :: string

definition marker_size :: "string \<Rightarrow> nat" where
  "marker_size severity =
     (if severity = ''CRITICAL'' then 24 else if severity = ''HIGH'' then 20 else if severity = ''MEDIUM'' then 16 else 12)"

text \<open>\<open>dot\<close> is the separator of the title, which is not an ASCII character.\<close>

definition eventMarker :: "string \<Rightarrow> safety_event \<Rightarrow> event_marker" where
  "eventMarker dot e =
     (let severity = ev_severity e; unverified = isUnverified e; style = trustStyle e;
          ring = (severity \<in> {''CRITICAL'', ''HIGH'', ''MEDIUM''})
      in \<lparr>mk_size = marker_size severity, mk_ring = ring, mk_pulse = (ring \<and> severity = ''CRITICAL'' \<and> \<not> unverified),
          mk_exclamation = ((severity = ''CRITICAL'' \<or> severity = ''HIGH'') \<and> \<not> unverified), mk_opacity = ts_opacity style,
          mk_title = (if ts_badge style \<noteq> '''' then ev_title e @ '' '' @ dot @ '' '' @ ts_badge style else ev_title e)\<rparr>)"

datatype card_status = CONFIRMED | UNVERIFIED

record alert_card =
  ac_eventType :: string
  ac_title :: string
  ac_location :: string
  ac_timestamp :: "int option"
  ac_status :: card_status
  ac_trustState :: trust_state
  ac_severity :: string

definition safetyEventToCardProps :: "(string \<Rightarrow> int option) \<Rightarrow> safety_event \<Rightarrow> alert_card" where
  "safetyEventToCardProps getTime e =
     \<lparr>ac_eventType = ev_event_type e, ac_title = ev_title e,
      ac_location = (case map_of (ev_other e) ''place_name'' of Some (JStr p) \<Rightarrow> p | _ \<Rightarrow> ''Unknown location''),
      ac_timestamp = getTime (ev_created_at e), ac_status = (if trustStateOf e = Confirmed then CONFIRMED else UNVERIFIED),
      ac_trustState = trustStateOf e, ac_severity = ev_severity e\<rparr>"

text \<open>The badge of a card: that of its trust state, or its status when it has none.\<close>

definition card_badge :: "alert_card \<Rightarrow> string" where
  "card_badge c =
     (let badge = ts_badge (STYLES (ac_trustState c))
      in if badge \<noteq> '''' then badge else (case ac_status c of CONFIRMED \<Rightarrow> ''CONFIRMED'' | UNVERIFIED \<Rightarrow> ''UNVERIFIED''))"

definition timeAgo :: "int \<Rightarrow> int \<Rightarrow> string" where
  "timeAgo now ts =
     (let s = (now - ts) div 1000
      in if s < 60 then int_str s @ ''s ago''
         else (let m = s div 60 in if m < 60 then int_str m @ '' min ago'' else int_str (m div 60) @ ''h ago''))"

record ledger =
  ld_open :: bool
  ld_collapsed :: bool

definition ledger_hidden :: "bool \<Rightarrow> ledger \<Rightarrow> bool" where
  "ledger_hidden mobile l = (if mobile then \<not> ld_open l else ld_collapsed l)"

definition ledger_critical :: "safety_event list \<Rightarrow> nat" where
  "ledger_critical events = length (filter (\<lambda>e. ev_severity e = ''CRITICAL'') events)"

section \<open>Following\<close>

lemma issue_facts [simp]:
  "lm_location (issue t s) = lm_location s" "lm_layout (issue t s) = lm_layout s" "lm_items (issue t s) = lm_items s"
  "lm_eventParam (issue t s) = lm_eventParam s" "lm_selectedId (issue t s) = lm_selectedId s" "lm_focused (issue t s) = lm_focused s"
  "lm_sequence (issue t s) = Suc (lm_sequence s)" "lm_announcement (issue t s) = lm_announcement s"
  "lm_command (issue t s) = Some \<lparr>cc_id = Suc (lm_sequence s), cc_target = t, cc_padding = cameraPadding (lm_layout s)\<rparr>"
  by (simp_all add: issue_def)

text \<open>The page's position control is the hook, stepped by the page's events.\<close>

lemma effects_keep [simp]:
  "lm_location (deep_link_effect s) = lm_location s" "lm_location (follow_effect s) = lm_location s"
  "lm_announcement (deep_link_effect s) = lm_announcement s" "lm_announcement (follow_effect s) = lm_announcement s"
  by (simp_all add: deep_link_effect_def follow_effect_def Let_def split: option.split)

lemmas page_ops = located_def Let_def items_changed_def layout_changed_def navigated_def selectEvent_def selectSearchResult_def

lemma page_location:
  "lm_location (page_step supported s e) =
     (case e of Located l \<Rightarrow> location_step supported (lm_location s) l
      | Gesture original \<Rightarrow> (if original then stopFollowing (lm_location s) else lm_location s) | _ \<Rightarrow> lm_location s)"
  by (cases e) (simp_all add: page_ops split: option.split)

lemma page_location_ok: "location_ok supported (lm_location s) \<Longrightarrow> location_ok supported (lm_location (page_step supported s e))"
  unfolding page_location by (cases e) (simp_all add: location_step_ok stop_ok)

definition command_ok :: "live_map \<Rightarrow> bool" where
  "command_ok s \<longleftrightarrow> (case lm_command s of None \<Rightarrow> lm_sequence s = 0 | Some c \<Rightarrow> cc_id c = lm_sequence s)"

definition page_ok :: "bool \<Rightarrow> live_map \<Rightarrow> bool" where
  "page_ok supported s \<longleftrightarrow> location_ok supported (lm_location s) \<and> command_ok s
     \<and> lm_announcement s = gps_message (lc_status (lm_location s))"

lemma command_ok_issue [simp]: "command_ok (issue t s)"
  by (simp add: command_ok_def)

lemma command_ok_updates [simp]:
  "command_ok (s\<lparr>lm_location := l\<rparr>) = command_ok s" "command_ok (s\<lparr>lm_announcement := a\<rparr>) = command_ok s"
  "command_ok (s\<lparr>lm_layout := y\<rparr>) = command_ok s" "command_ok (s\<lparr>lm_items := es\<rparr>) = command_ok s"
  "command_ok (s\<lparr>lm_eventParam := x\<rparr>) = command_ok s" "command_ok (s\<lparr>lm_seed := q\<rparr>) = command_ok s"
  "command_ok (s\<lparr>lm_selectedId := x\<rparr>) = command_ok s" "command_ok (s\<lparr>lm_searchResult := r\<rparr>) = command_ok s"
  "command_ok (s\<lparr>lm_filters := fs\<rparr>) = command_ok s" "command_ok (s\<lparr>lm_showRadii := b\<rparr>) = command_ok s"
  by (simp_all add: command_ok_def split: option.split)

lemma effects_ok [simp]:
  "command_ok s \<Longrightarrow> command_ok (follow_effect s)" "command_ok s \<Longrightarrow> command_ok (deep_link_effect s)"
  by (simp_all add: follow_effect_def deep_link_effect_def Let_def split: option.split)

lemma page_announcement:
  "lm_announcement s = gps_message (lc_status (lm_location s)) \<Longrightarrow>
     lm_announcement (page_step supported s e) = gps_message (lc_status (lm_location (page_step supported s e)))"
  by (cases e) (simp_all add: page_ops split: option.split)

lemma page_command: "command_ok s \<Longrightarrow> command_ok (page_step supported s e)"
  by (cases e) (simp_all add: page_ops split: option.split)

lemma page_step_ok: "page_ok supported s \<Longrightarrow> page_ok supported (page_step supported s e)"
  by (simp add: page_ok_def page_location_ok page_announcement page_command del: page_step.simps)

interpretation page: reducer "page_initial l ev q" "page_step supported" "page_ok supported" for l ev q supported
  by unfold_locales (simp add: page_ok_def page_initial_def command_ok_def location_ok_def location_initial_def, rule page_step_ok)

text \<open>Events that neither start following nor ask for a place.\<close>

fun at_rest :: "page_event \<Rightarrow> bool" where
  "at_rest (Located e) = (e \<noteq> Activate)"
| "at_rest (Navigated ev q) = False"
| "at_rest (Select_event ev) = False"
| "at_rest (Cluster_clicked es) = False"
| "at_rest (Result_selected r) = False"
| "at_rest e = True"

definition paused :: "live_map \<Rightarrow> bool" where
  "paused s \<longleftrightarrow> \<not> lc_following (lm_location s) \<and> lc_status (lm_location s) \<noteq> L_Following \<and> lm_eventParam s = None"

lemma paused_location:
  assumes "\<not> lc_following l" "lc_status l \<noteq> L_Following" "e \<noteq> Activate"
  shows "\<not> lc_following (location_step supported l e) \<and> lc_status (location_step supported l e) \<noteq> L_Following"
  using assms by (cases e) (simp_all add: stopFollowing_def on_position_def on_position_error_def)

lemma paused_effects:
  "paused s \<Longrightarrow> follow_effect s = s" "lm_eventParam s = None \<Longrightarrow> deep_link_effect s = s"
  by (simp_all add: paused_def follow_effect_def deep_link_effect_def split: option.split)

lemma paused_located:
  assumes "paused s" "e \<noteq> Activate"
  shows "paused (located supported e s) \<and> lm_command (located supported e s) = lm_command s"
proof -
  let ?s = "s\<lparr>lm_location := location_step supported (lm_location s) e,
      lm_announcement := gps_message (lc_status (location_step supported (lm_location s) e))\<rparr>"
  have "paused ?s" using assms paused_location [OF _ _ assms(2), of "lm_location s"] by (simp add: paused_def)
  moreover from paused_effects(1) [OF this] have "located supported e s = ?s" unfolding located_def Let_def by simp
  ultimately show ?thesis by simp
qed

lemma paused_step:
  assumes "paused s" "at_rest e"
  shows "paused (page_step supported s e) \<and> lm_command (page_step supported s e) = lm_command s"
proof (cases e)
  case (Layout_changed l)
  have "paused (s\<lparr>lm_layout := l\<rparr>)" using assms(1) by (simp add: paused_def)
  with Layout_changed assms(1) show ?thesis
    by (simp add: layout_changed_def paused_effects(1)) (simp add: paused_def paused_effects(2))
next
  case (Items_changed items)
  with assms(1) show ?thesis by (simp add: items_changed_def paused_def paused_effects(2))
qed (use assms paused_located in \<open>simp_all add: paused_def\<close>)

lemma paused_run:
  "paused s \<Longrightarrow> list_all at_rest es \<Longrightarrow> lm_command (foldl (page_step supported) s es) = lm_command s"
proof (induction es arbitrary: s)
  case (Cons e es)
  then show ?case using paused_step [of s e supported] by (simp del: page_step.simps)
qed simp

section \<open>Links to an alert\<close>

text \<open>The first snapshot that has the alert, and the alert in it.\<close>

fun first_seen :: "string \<Rightarrow> safety_event list list \<Rightarrow> safety_event option" where
  "first_seen x [] = None"
| "first_seen x (items # iss) = (case find (\<lambda>e. ev_id e = x) items of Some e \<Rightarrow> Some e | None \<Rightarrow> first_seen x iss)"

text \<open>No further command since, or exactly one more, for the position of the alert.\<close>

fun sent_to :: "safety_event option \<Rightarrow> nat \<Rightarrow> camera_command option \<Rightarrow> live_map \<Rightarrow> bool" where
  "sent_to None n c s = (lm_sequence s = n \<and> lm_command s = c)"
| "sent_to (Some e) n c s =
     (lm_sequence s = Suc n \<and> map_option cc_target (lm_command s) = Some (To_center (ev_lng e) (ev_lat e) 15))"

lemma items_focused:
  assumes "lm_eventParam s = Some x" "x \<noteq> ''''" "lm_focused s = Some x"
  shows "lm_selectedId (items_changed items s) = Some x" "lm_focused (items_changed items s) = Some x"
    "lm_eventParam (items_changed items s) = Some x" "lm_sequence (items_changed items s) = lm_sequence s"
    "lm_command (items_changed items s) = lm_command s"
  using assms by (simp_all add: items_changed_def deep_link_effect_def Let_def split: option.split)

lemma focused_run:
  assumes "lm_eventParam s = Some x" "x \<noteq> ''''" "lm_focused s = Some x"
  shows "lm_sequence (foldl (page_step supported) s (map Items_changed iss)) = lm_sequence s
    \<and> lm_command (foldl (page_step supported) s (map Items_changed iss)) = lm_command s
    \<and> (lm_selectedId s = Some x \<longrightarrow> lm_selectedId (foldl (page_step supported) s (map Items_changed iss)) = Some x)"
  using assms
proof (induction iss arbitrary: s)
  case (Cons items iss)
  note f = items_focused [OF Cons.prems, of items]
  from Cons.IH [OF f(3) Cons.prems(2) f(2)] f show ?case by simp
qed simp

lemma unfocused_run:
  assumes "lm_eventParam s = Some x" "x \<noteq> ''''" "lm_focused s \<noteq> Some x" "lm_selectedId s = Some x"
    and "s' = foldl (page_step supported) s (map Items_changed iss)"
  shows "lm_selectedId s' = Some x
    \<and> sent_to (first_seen x iss) (lm_sequence s) (lm_command s) s'"
  using assms
proof (induction iss arbitrary: s)
  case (Cons items iss)
  show ?case
  proof (cases "find (\<lambda>e. ev_id e = x) items")
    case None
    then have s1: "items_changed items s = s\<lparr>lm_items := items, lm_selectedId := Some x\<rparr>"
      using Cons.prems(1,2) by (simp add: items_changed_def deep_link_effect_def Let_def)
    have e: "s' = foldl (page_step supported) (items_changed items s) (map Items_changed iss)" using Cons.prems(5) by simp
    from Cons.IH [OF _ Cons.prems(2) _ _ e] Cons.prems(1,3) None show ?thesis by (simp add: s1)
  next
    case (Some e)
    let ?s = "issue (To_center (ev_lng e) (ev_lat e) 15) (s\<lparr>lm_items := items, lm_selectedId := Some x, lm_focused := Some x\<rparr>)"
    have s1: "items_changed items s = ?s"
      using Cons.prems(1-3) Some by (simp add: items_changed_def deep_link_effect_def Let_def)
    have f: "lm_eventParam ?s = Some x" "lm_focused ?s = Some x" "lm_selectedId ?s = Some x" using Cons.prems(1) by simp_all
    from focused_run [OF f(1) Cons.prems(2) f(2), of supported iss] f(3) Some Cons.prems(5) show ?thesis
      by (simp add: s1)
  qed
qed simp

lemma link_opened:
  assumes "x \<noteq> ''''" "lm_focused s \<noteq> Some x" "lm_eventParam s \<noteq> Some x"
  shows "foldl (page_step supported) s (Navigated (Some x) None # map Items_changed iss)
       = foldl (page_step supported) (s\<lparr>lm_eventParam := Some x, lm_selectedId := Some x\<rparr>) (map Items_changed (lm_items s # iss))"
  using assms by (cases s) (simp add: navigated_def items_changed_def deep_link_effect_def Let_def split: option.split)

section \<open>Properties\<close>





text \<open>
  An alert that is not confirmed never looks like one that is: its marker is paler, names its state in
  the title, never pulses and never carries the exclamation mark, and its card has the badge of its
  state; a confirmed alert of high or critical severity carries the mark.
\<close>

theorem unverified_never_alarms:
  "(isUnverified e \<longrightarrow> \<not> mk_pulse (eventMarker dot e) \<and> \<not> mk_exclamation (eventMarker dot e) \<and> mk_opacity (eventMarker dot e) < 1
      \<and> mk_title (eventMarker dot e) \<noteq> ev_title e \<and> ac_status (safetyEventToCardProps getTime e) = UNVERIFIED
      \<and> card_badge (safetyEventToCardProps getTime e) \<in> {''Automated Detection'', ''Corroborating''})
   \<and> (\<not> isUnverified e \<longrightarrow> mk_opacity (eventMarker dot e) = 1 \<and> card_badge (safetyEventToCardProps getTime e) = ''CONFIRMED''
      \<and> (mk_exclamation (eventMarker dot e) \<longleftrightarrow> 20 \<le> mk_size (eventMarker dot e)))"
  by (cases "trustStateOf e")
    (auto simp: eventMarker_def isUnverified_def trustStyle_def safetyEventToCardProps_def card_badge_def Let_def marker_size_def)

theorem unverified_never_alarms_witness:
  "\<not> mk_exclamation (eventMarker ''-'' (sample_event ''a'' 1 2))"
  using unverified_never_alarms [of "sample_event ''a'' 1 2" "''-''"]
  by (simp add: sample_event_def isUnverified_def trustStateOf_def)

text \<open>
  The age on a card is the age of the alert in the largest unit that fits: seconds, minutes or hours,
  rounded down.
\<close>

theorem age_label_exact:
  assumes "ts \<le> now"
  shows "\<exists>n d. (timeAgo now ts = int_str n @ ''s ago'' \<and> d = 1000 \<and> n < 60
      \<or> timeAgo now ts = int_str n @ '' min ago'' \<and> d = 60000 \<and> 1 \<le> n \<and> n < 60
      \<or> timeAgo now ts = int_str n @ ''h ago'' \<and> d = 3600000 \<and> 1 \<le> n)
    \<and> 0 \<le> n \<and> n * d \<le> now - ts \<and> now - ts < (n + 1) * d"
proof -
  define a where "a = now - ts"
  have "0 \<le> a" using assms by (simp add: a_def)
  consider "a div 1000 < 60" | "\<not> a div 1000 < 60" "a div 1000 div 60 < 60" | "\<not> a div 1000 < 60" "\<not> a div 1000 div 60 < 60" by blast
  then show ?thesis
  proof cases
    case 1
    then have "timeAgo now ts = int_str (a div 1000) @ ''s ago''" by (simp add: timeAgo_def a_def Let_def)
    with 1 \<open>0 \<le> a\<close> show ?thesis unfolding a_def [symmetric] by (intro exI [of _ "a div 1000"] exI [of _ 1000]) auto
  next
    case 2
    then have "timeAgo now ts = int_str (a div 60000) @ '' min ago''" by (simp add: timeAgo_def a_def Let_def flip: zdiv_zmult2_eq)
    with 2 \<open>0 \<le> a\<close> show ?thesis unfolding a_def [symmetric] by (intro exI [of _ "a div 60000"] exI [of _ 60000]) auto
  next
    case 3
    then have "timeAgo now ts = int_str (a div 3600000) @ ''h ago''" by (simp add: timeAgo_def a_def Let_def flip: zdiv_zmult2_eq)
    with 3 \<open>0 \<le> a\<close> show ?thesis unfolding a_def [symmetric] by (intro exI [of _ "a div 3600000"] exI [of _ 3600000]) auto
  qed
qed

theorem age_label_exact_witness:
  "timeAgo 7200500 0 = ''2h ago'' \<and> (\<exists>n d. 0 \<le> n \<and> n * d \<le> (7200500 :: int) - 0 \<and> 7200500 - 0 < (n + 1) * d)"
proof
  show "timeAgo 7200500 0 = ''2h ago''" by code_simp
  have "(0 :: int) \<le> 7200500" by simp
  from age_label_exact [OF this] show "\<exists>n d. 0 \<le> n \<and> n * d \<le> (7200500 :: int) - 0 \<and> 7200500 - 0 < (n + 1) * d" by blast
qed

end
