(* ===== verification/Shell.thy ===== *)
theory Shell
  imports SignerPages LiveMap CircleAdmin AppStore
begin

text \<open>
  The shell around the pages: the build-time switches (\<open>config/features.ts\<close>, \<open>config/chat.ts\<close>), the
  address of the sockets (\<open>services/apiOrigin.ts\<close>), the routes and the links to them (\<open>router.tsx\<close>,
  \<open>components/shell\<close>), the service worker (\<open>services/serviceWorker.ts\<close>, \<open>main.tsx\<close>), the layout hooks,
  the overlay host of the map and the acoustic overlay with its timer.

  The lemmas show that every link of the navigation leads to a page, that nothing of the chat is
  reachable while it is switched off, that a search typed in the header arrives in the map's search
  field as typed, that a new service worker reloads the page at most once, that an overlay asked for
  is opened and the request consumed, and that an acoustic alert ends thirty seconds after the last
  detection.
\<close>

section \<open>Switches\<close>

definition enabled :: "string option \<Rightarrow> bool" where
  "enabled value \<longleftrightarrow> (case value of Some s \<Rightarrow> toLowerCase s = ''true'' | None \<Rightarrow> False)"

text \<open>The environment of the build: a value for each variable, or none.\<close>

record features =
  ft_acoustic :: bool
  ft_insights :: bool
  ft_photos :: bool
  ft_routing :: bool
  ft_safeCircleLocation :: bool
  ft_chat :: bool

definition features_of :: "(string \<Rightarrow> string option) \<Rightarrow> features" where
  "features_of env = \<lparr>ft_acoustic = enabled (env ''VITE_ENABLE_EXPERIMENTAL_ACOUSTIC''),
     ft_insights = enabled (env ''VITE_ENABLE_EXPERIMENTAL_INSIGHTS''), ft_photos = enabled (env ''VITE_ENABLE_EXPERIMENTAL_PHOTOS''),
     ft_routing = enabled (env ''VITE_ENABLE_EXPERIMENTAL_ROUTING''), ft_safeCircleLocation = enabled (env ''VITE_ENABLE_SAFE_CIRCLE_LOCATION''),
     ft_chat = enabled (env ''VITE_ENABLE_CHAT'')\<rparr>"

text \<open>\<open>split(c)\<close>: the pieces between the occurrences of a character.\<close>

fun split_char :: "char \<Rightarrow> string \<Rightarrow> string list" where
  "split_char d [] = [[]]"
| "split_char d (c # s) =
     (if c = d then [] # split_char d s else (case split_char d s of [] \<Rightarrow> [[c]] | p # ps \<Rightarrow> (c # p) # ps))"

definition csv :: "string option \<Rightarrow> string list" where
  "csv value = filter (\<lambda>s. s \<noteq> '''') (map trim (split_char (CHR '','') (case value of Some s \<Rightarrow> s | None \<Rightarrow> '''')))"

record chat_relays =
  cr_inbox :: "string option"
  cr_community :: "string option"
  cr_discovery :: "string list"

definition chatRelays :: "(string \<Rightarrow> string option) \<Rightarrow> chat_relays" where
  "chatRelays env = \<lparr>cr_inbox = env ''VITE_CHAT_INBOX_RELAY_URL'', cr_community = env ''VITE_CHAT_COMMUNITY_RELAY_URL'',
     cr_discovery = csv (env ''VITE_CHAT_DISCOVERY_RELAYS'')\<rparr>"

definition hasChatRelays :: "(string \<Rightarrow> string option) \<Rightarrow> bool" where
  "hasChatRelays env \<longleftrightarrow> truthy (cr_inbox (chatRelays env)) \<or> truthy (cr_community (chatRelays env))"

text \<open>Whether the inbox hook connects: what the shell passes it, and its own test.\<close>

definition inbox_runs :: "(string \<Rightarrow> string option) \<Rightarrow> bool" where
  "inbox_runs env \<longleftrightarrow> (ft_chat (features_of env) \<and> hasChatRelays env) \<and> truthy (cr_inbox (chatRelays env))"

text \<open>
  The socket address. \<open>parse\<close> is \<open>new URL\<close> relative to the origin: the scheme, and the authority
  (credentials, host and port) as it is printed.
\<close>

record url =
  url_protocol :: string
  url_authority :: string

definition websocketBaseUrl :: "(string \<Rightarrow> url result) \<Rightarrow> string option \<Rightarrow> string \<Rightarrow> string result" where
  "websocketBaseUrl parse api_base origin =
     bind_result (parse (if truthy api_base then the api_base else origin)) (\<lambda>base.
       ok ((if url_protocol base = ''https:'' then ''wss:'' else ''ws:'') @ ''//'' @ url_authority base))"

section \<open>Routes and links\<close>

text \<open>
  Which path a route matches is the router library's: \<open>matches\<close>, with its documented rule \<open>route_law\<close>.
  Both are split at their slashes, and a segment of the route that starts with a colon takes any
  non-empty one.
\<close>

definition segments :: "string \<Rightarrow> string list" where
  "segments path = filter (\<lambda>s. s \<noteq> '''') (split_char (CHR ''/'') path)"

definition seg_matches :: "string \<Rightarrow> string \<Rightarrow> bool" where
  "seg_matches p s \<longleftrightarrow> p = s \<or> (take 1 p = '':'' \<and> s \<noteq> '''')"

definition route_law :: "(string \<Rightarrow> string \<Rightarrow> bool) \<Rightarrow> bool" where
  "route_law matches \<longleftrightarrow> (\<forall>r path. matches r path = list_all2 seg_matches (segments r) (segments path))"

definition router :: "features \<Rightarrow> string list" where
  "router f =
     [''/'', ''/map'', ''/alerts'', ''/reports'', ''/settings'', ''/circles'']
     @ (if ft_insights f then [''/insights''] else [])
     @ (if ft_chat f then [''/chat'', ''/chat/community/:groupId'', ''/chat/dm/:conversationId'', ''/circles/:circleId/chat''] else [])"

text \<open>The route of a path; a path with none is sent to the map. No two routes match the same path.\<close>

definition resolve :: "(string \<Rightarrow> string \<Rightarrow> bool) \<Rightarrow> features \<Rightarrow> string \<Rightarrow> string option" where
  "resolve matches f path = find (\<lambda>r. matches r path) (router f)"

definition BottomNav :: "string list" where
  "BottomNav = [''/map'', ''/alerts'', ''/reports'', ''/settings'']"

definition Header_links :: "string list" where
  "Header_links = [''/map'', ''/alerts'']"

text \<open>The link of the circle sidebar to the circle's room, when it is shown.\<close>

definition circle_chat_link :: "features \<Rightarrow> string \<Rightarrow> string option" where
  "circle_chat_link f circle_id = (if ft_chat f then Some (''/circles/'' @ circle_id @ ''/chat'') else None)"

text \<open>The header: the count of active alerts, and the search, which opens the map with the text in its address.\<close>

definition alert_badge :: "safety_event list \<Rightarrow> string option" where
  "alert_badge items =
     (let n = length (filter ev_is_active items) in if n = 0 then None else Some (if 99 < n then ''99+'' else int_str (int n)))"

definition header_search :: "string \<Rightarrow> string option" where
  "header_search v = (if trim v = '''' then None else Some (''/map?q='' @ encodeURIComponent (trim v)))"

text \<open>\<open>URLSearchParams.get('q')\<close> of such an address: up to the next separator, plus signs are spaces.\<close>

definition search_q :: "string \<Rightarrow> string option" where
  "search_q link =
     (if take 7 link = ''/map?q=''
      then decodeURIComponent (map (\<lambda>c. if c = CHR ''+'' then CHR '' '' else c) (takeWhile (\<lambda>c. c \<noteq> CHR ''&'' \<and> c \<noteq> CHR ''#'') (drop 7 link)))
      else None)"

definition useUnreadChats :: "(string \<times> nat) list \<Rightarrow> nat" where
  "useUnreadChats unread = foldl (\<lambda>sum n. sum + n) 0 (map snd unread)"

section \<open>The service worker\<close>

record worker_page =
  wp_hadController :: bool
  wp_reloading :: bool
  wp_reloads :: nat

datatype worker_start = Register | Unregister

definition start_worker :: "bool \<Rightarrow> string option \<Rightarrow> worker_start" where
  "start_worker production disable = (if production \<and> disable \<noteq> Some ''true'' then Register else Unregister)"

definition controller_change :: "worker_page \<Rightarrow> worker_page" where
  "controller_change p =
     (if \<not> wp_hadController p \<or> wp_reloading p then p else p\<lparr>wp_reloading := True, wp_reloads := wp_reloads p + 1\<rparr>)"

section \<open>The layout hooks\<close>

text \<open>What a hook shows, whether its listener is attached, and what the browser's query says.\<close>

record media =
  md_shown :: bool
  md_listening :: bool
  md_matches :: bool

definition media_mount :: "bool \<Rightarrow> media" where
  "media_mount matches = \<lparr>md_shown = matches, md_listening = False, md_matches = matches\<rparr>"

text \<open>The effects: \<open>useMediaQuery\<close> reads the query again, \<open>useBreakpoint\<close> does not.\<close>

definition useMediaQuery_effect :: "media \<Rightarrow> media" where
  "useMediaQuery_effect m = m\<lparr>md_shown := md_matches m, md_listening := True\<rparr>"

definition useBreakpoint_effect :: "media \<Rightarrow> media" where
  "useBreakpoint_effect m = m\<lparr>md_listening := True\<rparr>"

definition media_change :: "media \<Rightarrow> bool \<Rightarrow> media" where
  "media_change m b = (if md_listening m then m\<lparr>md_matches := b, md_shown := b\<rparr> else m\<lparr>md_matches := b\<rparr>)"

section \<open>The overlay host\<close>

record overlay_host =
  oh_overlay :: "overlay_name option"
  oh_ui :: ui_state

definition intent_effect :: "overlay_host \<Rightarrow> overlay_host" where
  "intent_effect h =
     (case in_name (ui_uiIntent (oh_ui h)) of
        None \<Rightarrow> h
      | Some name \<Rightarrow> h\<lparr>oh_overlay := Some name, oh_ui := ui_reducer (oh_ui h) ConsumeOverlayIntent\<rparr>)"

datatype overlay_event = Ui_dispatched ui_action | Overlay_closed

text \<open>The effect runs after every dispatch that changes the intent's name; closing the routes forgets them.\<close>

fun overlay_step :: "overlay_host \<Rightarrow> overlay_event \<Rightarrow> overlay_host" where
  "overlay_step h (Ui_dispatched a) =
     (let h1 = h\<lparr>oh_ui := ui_reducer (oh_ui h) a\<rparr>
      in if in_name (ui_uiIntent (oh_ui h1)) = in_name (ui_uiIntent (oh_ui h)) then h1 else intent_effect h1)"
| "overlay_step h Overlay_closed =
     (case oh_overlay h of
        None \<Rightarrow> h
      | Some name \<Rightarrow>
          h\<lparr>oh_overlay := None,
            oh_ui := if name = Routes_Overlay then ui_reducer (oh_ui h) SafeRoutesCleared else oh_ui h\<rparr>)"

section \<open>The acoustic overlay\<close>

text \<open>The overlay: the engine while it is open, the store, and the moment its timer fires.\<close>

record acoustic_overlay =
  ao_open :: bool
  ao_engine :: acoustic_engine
  ao_timer :: "int option"

definition detection_effect :: "int \<Rightarrow> acoustic_overlay \<Rightarrow> acoustic_overlay" where
  "detection_effect now o1 = o1\<lparr>ao_timer := map_option (\<lambda>_. now + 30000) (as_currentAlert (ae_store (ao_engine o1)))\<rparr>"

definition overlay_open :: "int \<Rightarrow> acoustic_state \<Rightarrow> acoustic_overlay" where
  "overlay_open now store = detection_effect now \<lparr>ao_open = True, ao_engine = engine_mount store, ao_timer = None\<rparr>"

definition overlay_close :: "acoustic_overlay \<Rightarrow> acoustic_overlay" where
  "overlay_close o1 = o1\<lparr>ao_open := False, ao_engine := engine_cleanup (ao_engine o1), ao_timer := None\<rparr>"

definition dismiss :: "acoustic_overlay \<Rightarrow> acoustic_overlay" where
  "dismiss o1 =
     overlay_close (o1\<lparr>ao_engine := (ao_engine o1)\<lparr>ae_store := acoustic_reducer (ae_store (ao_engine o1)) AlertDismissed\<rparr>\<rparr>)"

datatype acoustic_event =
  Window_analysed int "real list option" | Engine_started | Page_hidden | Clock int | Dismiss_clicked | Stop_clicked

text \<open>
  A detection is a new object, so its effect runs for each; the stop button is only drawn while
  nothing is detected.
\<close>

fun acoustic_step :: "'k web_crypto \<Rightarrow> acoustic_overlay \<Rightarrow> acoustic_event \<Rightarrow> acoustic_overlay" where
  "acoustic_step wc s (Window_analysed now prediction) =
     (let s1 = s\<lparr>ao_engine := window_analysed wc now prediction (ao_engine s)\<rparr>
      in if ao_open s \<and> processWindow wc prediction \<noteq> None then detection_effect now s1 else s1)"
| "acoustic_step wc s Engine_started = (if ao_open s then s\<lparr>ao_engine := start_resolved (ao_engine s)\<rparr> else s)"
| "acoustic_step wc s Page_hidden = (if ao_open s then s\<lparr>ao_engine := page_hidden (ao_engine s)\<rparr> else s)"
| "acoustic_step wc s (Clock now) = (case ao_timer s of Some t \<Rightarrow> (if t \<le> now then dismiss s else s) | None \<Rightarrow> s)"
| "acoustic_step wc s Dismiss_clicked =
     (if ao_open s \<and> as_currentAlert (ae_store (ao_engine s)) \<noteq> None then dismiss s else s)"
| "acoustic_step wc s Stop_clicked =
     (if ao_open s \<and> as_currentAlert (ae_store (ao_engine s)) = None then overlay_close s else s)"

section \<open>Links lead to pages\<close>

lemma segments_simps [simp]:
  "segments ''/'' = []" "segments ''/map'' = [''map'']" "segments ''/alerts'' = [''alerts'']" "segments ''/reports'' = [''reports'']"
  "segments ''/settings'' = [''settings'']" "segments ''/circles'' = [''circles'']" "segments ''/insights'' = [''insights'']"
  "segments ''/chat'' = [''chat'']" "segments ''/chat/community/:groupId'' = [''chat'', ''community'', '':groupId'']"
  "segments ''/chat/dm/:conversationId'' = [''chat'', ''dm'', '':conversationId'']"
  "segments ''/circles/:circleId/chat'' = [''circles'', '':circleId'', ''chat'']"
  by (simp_all add: segments_def)

lemma split_char_plain: "d \<notin> set s \<Longrightarrow> split_char d s = [s]"
  by (induction s) auto

lemma split_char_append: "d \<notin> set s \<Longrightarrow> split_char d (s @ d # t) = s # split_char d t"
  by (induction s) auto

lemma segments_chat_link:
  assumes "CHR ''/'' \<notin> set i" "i \<noteq> ''''"
  shows "segments (''/circles/'' @ i @ ''/chat'') = [''circles'', i, ''chat'']"
proof -
  have "split_char (CHR ''/'') (i @ CHR ''/'' # ''chat'') = [i, ''chat'']"
    using assms(1) by (subst split_char_append) (simp_all add: split_char_plain)
  then show ?thesis using assms(2) by (simp add: segments_def)
qed

lemma resolve_segments:
  "route_law matches \<Longrightarrow> resolve matches f path = find (\<lambda>r. list_all2 seg_matches (segments r) (segments path)) (router f)"
  by (simp add: resolve_def route_law_def)

lemma resolve_fixed:
  assumes "route_law matches"
  shows "resolve matches f ''/map'' = Some ''/map''" "resolve matches f ''/alerts'' = Some ''/alerts''"
    "resolve matches f ''/reports'' = Some ''/reports''" "resolve matches f ''/settings'' = Some ''/settings''"
    "resolve matches f ''/circles'' = Some ''/circles''" "ft_chat f \<Longrightarrow> resolve matches f ''/chat'' = Some ''/chat''"
  by (simp_all add: resolve_segments [OF assms] router_def seg_matches_def)

text \<open>
  No link of the navigation is dead. Every path of the side rail, for every identity, of the bottom
  bar and of the header is the path of a route, whatever is switched on; the link from a circle to its
  room is shown exactly when the chat is switched on, and then leads to the room's page.
\<close>

theorem navigation_links_routed:
  assumes law: "route_law matches" and "CHR ''/'' \<notin> set circle_id" "circle_id \<noteq> ''''"
  shows "(\<forall>path\<in>set (sidebar_paths (ft_chat f) a) \<union> set BottomNav \<union> set Header_links. resolve matches f path = Some path)
    \<and> (ft_chat f \<longrightarrow> map_option (resolve matches f) (circle_chat_link f circle_id) = Some (Some ''/circles/:circleId/chat''))
    \<and> (\<not> ft_chat f \<longrightarrow> circle_chat_link f circle_id = None)"
proof (intro conjI ballI impI)
  fix path assume "path \<in> set (sidebar_paths (ft_chat f) a) \<union> set BottomNav \<union> set Header_links"
  then show "resolve matches f path = Some path"
    using resolve_fixed [OF law, of f] by (auto simp: sidebar_paths_def BottomNav_def Header_links_def split: if_splits)
next
  assume "ft_chat f"
  then have "resolve matches f (''/circles/'' @ circle_id @ ''/chat'') = Some ''/circles/:circleId/chat''"
    unfolding resolve_segments [OF law] segments_chat_link [OF assms(2,3)] using assms(3) by (simp add: router_def seg_matches_def)
  then show "map_option (resolve matches f) (circle_chat_link f circle_id) = Some (Some ''/circles/:circleId/chat'')"
    using \<open>ft_chat f\<close> by (simp add: circle_chat_link_def)
qed (simp add: circle_chat_link_def)

definition segment_router :: "string \<Rightarrow> string \<Rightarrow> bool" where
  "segment_router r path = list_all2 seg_matches (segments r) (segments path)"

theorem navigation_links_routed_witness:
  "map_option (resolve segment_router (features_of (\<lambda>v. Some ''True''))) (circle_chat_link (features_of (\<lambda>v. Some ''True'')) ''c1'')
     = Some (Some ''/circles/:circleId/chat'')"
proof -
  have "ft_chat (features_of (\<lambda>v. Some ''True''))" by (simp add: features_of_def enabled_def toLowerCase_def to_lower_char_def) code_simp
  with navigation_links_routed [of segment_router "''c1''" "features_of (\<lambda>v. Some ''True'')"] show ?thesis
    by (simp add: route_law_def segment_router_def)
qed

text \<open>
  The chat stays dark until it is switched on: unless its variable reads \<open>true\<close>, in whatever case,
  no path leads to a chat page, the side rail has no entry for it, and the inbox does not connect;
  switched on without an inbox relay it does not connect either.
\<close>

theorem chat_dark_by_default:
  assumes "\<not> enabled (env ''VITE_ENABLE_CHAT'') \<or> \<not> truthy (env ''VITE_CHAT_INBOX_RELAY_URL'')"
  shows "\<not> inbox_runs env
    \<and> (\<not> enabled (env ''VITE_ENABLE_CHAT'') \<longrightarrow>
         (\<forall>path. resolve matches (features_of env) path \<notin> {Some ''/chat'', Some ''/chat/community/:groupId'', Some ''/chat/dm/:conversationId'',
                   Some ''/circles/:circleId/chat''})
         \<and> ''/chat'' \<notin> set (sidebar_paths (ft_chat (features_of env)) a))"
proof -
  have "resolve matches f path \<noteq> Some r" if "\<not> ft_chat f" "r \<notin> set (router f)" for f path r
    using that by (auto simp: resolve_def find_Some_iff)
  then show ?thesis using assms
    by (auto simp: inbox_runs_def features_of_def chatRelays_def sidebar_paths_def router_def)
qed

theorem chat_dark_by_default_witness:
  "\<not> inbox_runs (\<lambda>v. Some ''1'') \<and> resolve segment_router (features_of (\<lambda>v. Some ''1'')) ''/chat'' \<noteq> Some ''/chat''"
proof -
  have "\<not> enabled (Some ''1'')" by (simp add: enabled_def toLowerCase_def)
  then show ?thesis using chat_dark_by_default [of "\<lambda>v. Some ''1''" segment_router] by auto
qed

section \<open>The header's search\<close>

lemma encoded_plain: "list_all (\<lambda>c. c \<noteq> CHR ''+'' \<and> c \<noteq> CHR ''&'' \<and> c \<noteq> CHR ''#'') (encodeURIComponent s)"
proof (induction s)
  case (Cons c s)
  have digit: "upper_hex_digit d \<noteq> CHR ''+'' \<and> upper_hex_digit d \<noteq> CHR ''&'' \<and> upper_hex_digit d \<noteq> CHR ''#''" if "d < 16" for d
  proof -
    have "(of_char (upper_hex_digit d) :: nat) \<in> {48..57} \<union> {65..70}" using that by (auto simp: upper_hex_digit_def)
    then show ?thesis by auto
  qed
  have "list_all (\<lambda>c. c \<noteq> CHR ''+'' \<and> c \<noteq> CHR ''&'' \<and> c \<noteq> CHR ''#'') (percent b)" if "b < 256" for b
    using digit [of "b div 16"] digit [of "b mod 16"] that by (simp add: percent_def less_mult_imp_div_less)
  then have "list_all (\<lambda>c. c \<noteq> CHR ''+'' \<and> c \<noteq> CHR ''&'' \<and> c \<noteq> CHR ''#'') (encode_uri_char c)"
    using utf8_bytes_less [of c] of_char_less [of c]
    by (auto simp: encode_uri_char_def Let_def uri_unreserved_def is_digit_def char_le_iff)
  with Cons show ?case by (simp add: encodeURIComponent_def)
qed (simp add: encodeURIComponent_def)

lemma search_link_read: "search_q (''/map?q='' @ encodeURIComponent s) = Some s"
proof -
  let ?e = "encodeURIComponent s"
  have "takeWhile (\<lambda>c. c \<noteq> CHR ''&'' \<and> c \<noteq> CHR ''#'') ?e = ?e" using encoded_plain [of s] by (simp add: takeWhile_eq_all_conv list_all_iff)
  moreover have "map (\<lambda>c. if c = CHR ''+'' then CHR '' '' else c) ?e = ?e" using encoded_plain [of s] by (intro map_idI) (auto simp: list_all_iff)
  moreover have "search_q (''/map?q='' @ ?e) = decodeURIComponent (map (\<lambda>c. if c = CHR ''+'' then CHR '' '' else c)
      (takeWhile (\<lambda>c. c \<noteq> CHR ''&'' \<and> c \<noteq> CHR ''#'') ?e))" by (simp add: search_q_def)
  ultimately show ?thesis by (simp only: decode_encode_uri)
qed

text \<open>
  What is searched in the header is searched on the map. For every text that is not blank, whatever
  characters it has, the address the header opens gives the map a new search field with the text,
  trimmed, in it, and changes nothing else of the page.
\<close>

theorem header_search_reaches_map:
  assumes "trim v \<noteq> ''''"
  shows "\<exists>link. header_search v = Some link
    \<and> page_step supported s (Navigated (lm_eventParam s) (search_q link)) = s\<lparr>lm_seed := (fst (lm_seed s) + 1, trim v)\<rparr>"
proof -
  have "page_step supported s (Navigated (lm_eventParam s) (Some (trim v))) = s\<lparr>lm_seed := (fst (lm_seed s) + 1, trim v)\<rparr>"
    using assms by (simp add: navigated_def Let_def)
  moreover have "header_search v = Some (''/map?q='' @ encodeURIComponent (trim v))" using assms by (simp add: header_search_def)
  ultimately show ?thesis using search_link_read [of "trim v"] by metis
qed

theorem header_search_reaches_map_witness:
  "\<exists>link. header_search '' a+b & c '' = Some link
     \<and> lm_seed (page_step True (page_initial Desktop None '''') (Navigated None (search_q link))) = (1, ''a+b & c'')"
proof -
  have "trim '' a+b & c '' = ''a+b & c''" by (simp add: trim_def js_whitespace_def)
  with header_search_reaches_map [of "'' a+b & c ''" True "page_initial Desktop None ''''"] show ?thesis
    by (auto simp: page_initial_def simp del: page_step.simps)
qed

section \<open>The service worker, the overlays\<close>

text \<open>
  A new service worker reloads the page at most once, and not at all on the first visit, when no
  worker controlled the page, however often the controller changes.
\<close>

theorem reload_at_most_once:
  "let p = (controller_change ^^ n) \<lparr>wp_hadController = had, wp_reloading = False, wp_reloads = 0\<rparr>
   in wp_reloads p = (if had \<and> 0 < n then 1 else 0)"
proof -
  have "wp_hadController ((controller_change ^^ n) p) = had \<and> wp_reloads ((controller_change ^^ n) p) = (if had \<and> 0 < n then 1 else 0)
      \<and> wp_reloading ((controller_change ^^ n) p) = (had \<and> 0 < n)"
    if "p = \<lparr>wp_hadController = had, wp_reloading = False, wp_reloads = 0\<rparr>" for p
    by (induction n) (auto simp: that controller_change_def)
  then show ?thesis by (simp add: Let_def)
qed

text \<open>
  An overlay asked for is opened, the request is consumed at once, so that asking again for the same
  overlay after closing it opens it again; closing the escape routes forgets them.
\<close>

definition overlay_ok :: "overlay_host \<Rightarrow> bool" where
  "overlay_ok h \<longleftrightarrow> in_name (ui_uiIntent (oh_ui h)) = None"

lemma overlay_ok_step: "overlay_ok h \<Longrightarrow> overlay_ok (overlay_step h e)"
proof (cases e)
  case (Ui_dispatched a)
  moreover assume "overlay_ok h"
  ultimately show ?thesis by (auto simp: overlay_ok_def intent_effect_def Let_def split: option.split)
qed (auto simp: overlay_ok_def split: option.split)

interpretation overlay: reducer "\<lparr>oh_overlay = None, oh_ui = ui_initial\<rparr>" overlay_step overlay_ok
  by unfold_locales (simp add: overlay_ok_def ui_initial_def, rule overlay_ok_step)

theorem overlay_request_opens:
  "let h = foldl overlay_step \<lparr>oh_overlay = None, oh_ui = ui_initial\<rparr> events; h' = overlay_step h (Ui_dispatched (SetOverlayIntent name))
   in oh_overlay h' = Some name \<and> in_name (ui_uiIntent (oh_ui h')) = None
      \<and> oh_overlay (overlay_step h' Overlay_closed) = None
      \<and> (name = Routes_Overlay \<longrightarrow> ui_safeRoutes (oh_ui (overlay_step h' Overlay_closed)) = [])"
  using overlay.inv_reachable [of events] by (auto simp: overlay_ok_def intent_effect_def Let_def)

theorem overlay_request_opens_witness:
  "oh_overlay (foldl overlay_step \<lparr>oh_overlay = None, oh_ui = ui_initial\<rparr>
     [Ui_dispatched (SetOverlayIntent Acoustic_Overlay), Overlay_closed, Ui_dispatched (SetOverlayIntent Acoustic_Overlay)]) = Some Acoustic_Overlay"
  using overlay_request_opens [of "[Ui_dispatched (SetOverlayIntent Acoustic_Overlay), Overlay_closed]" Acoustic_Overlay]
  by (simp add: Let_def del: overlay_step.simps)

section \<open>The acoustic alert ends\<close>

text \<open>While the overlay is open, its timer runs exactly while an alert is shown.\<close>

definition alert_timed :: "acoustic_overlay \<Rightarrow> bool" where
  "alert_timed s \<longleftrightarrow>
     (if ao_open s then (ao_timer s = None) = (as_currentAlert (ae_store (ao_engine s)) = None)
      else ao_timer s = None \<and> ae_detector (ao_engine s) = False)"

lemma alert_timed_close: "alert_timed (overlay_close s)" "alert_timed (dismiss s)"
  by (simp_all add: alert_timed_def overlay_close_def dismiss_def engine_cleanup_def capture_stop_def)

lemma alert_timed_open: "alert_timed (overlay_open now store)"
  by (simp add: alert_timed_def overlay_open_def detection_effect_def engine_mount_def)

lemma window_alert:
  "as_currentAlert (ae_store (window_analysed wc now prediction e))
     = (case processWindow wc prediction of None \<Rightarrow> as_currentAlert (ae_store e) | Some d \<Rightarrow> Some d)"
  "ae_detector (window_analysed wc now prediction e) = ae_detector e"
  by (simp_all add: window_analysed_def Let_def split: option.split)

lemma alert_timed_step: "alert_timed s \<Longrightarrow> alert_timed (acoustic_step wc s e)"
proof (cases e)
  case (Window_analysed now prediction)
  moreover assume "alert_timed s"
  ultimately show ?thesis by (auto simp: alert_timed_def detection_effect_def window_alert Let_def split: option.splits)
next
  case (Clock now)
  moreover assume "alert_timed s"
  ultimately show ?thesis by (simp add: alert_timed_close split: option.split)
next
  case Dismiss_clicked
  moreover assume "alert_timed s"
  ultimately show ?thesis by (simp add: alert_timed_close)
next
  case Stop_clicked
  moreover assume "alert_timed s"
  ultimately show ?thesis by (simp add: alert_timed_close)
qed (simp_all add: alert_timed_def start_resolved_def page_hidden_def capture_stop_def)

lemma alert_timed_run: "alert_timed s \<Longrightarrow> alert_timed (foldl (acoustic_step wc) s es)"
  by (induction es arbitrary: s) (simp_all add: alert_timed_step)

text \<open>Between detections the timer does not move: only a detection, a dismissal or the clock touches it.\<close>

fun quiet :: "'k web_crypto \<Rightarrow> int \<Rightarrow> acoustic_event \<Rightarrow> bool" where
  "quiet wc t (Window_analysed now prediction) = (processWindow wc prediction = None)"
| "quiet wc t (Clock now) = (now < t)"
| "quiet wc t e = True"

definition alert_over :: "acoustic_overlay \<Rightarrow> bool" where
  "alert_over s \<longleftrightarrow> \<not> ao_open s \<and> ao_timer s = None \<and> as_currentAlert (ae_store (ao_engine s)) = None"

lemma alert_over_dismiss: "alert_over (dismiss s)"
  by (simp add: alert_over_def dismiss_def overlay_close_def engine_cleanup_def capture_stop_def)

lemma alert_over_close: "as_currentAlert (ae_store (ao_engine s)) = None \<Longrightarrow> alert_over (overlay_close s)"
  by (simp add: alert_over_def overlay_close_def engine_cleanup_def capture_stop_def)

lemma quiet_step:
  assumes "(ao_open s \<and> ao_timer s = Some t) \<or> alert_over s" "quiet wc t e"
  shows "(ao_open (acoustic_step wc s e) \<and> ao_timer (acoustic_step wc s e) = Some t) \<or> alert_over (acoustic_step wc s e)"
proof (cases e)
  case (Window_analysed now prediction)
  with assms show ?thesis by (auto simp: alert_over_def window_alert)
next
  case (Clock now)
  with assms show ?thesis by (auto simp: alert_over_def)
next
  case Dismiss_clicked
  with assms show ?thesis by (auto simp: alert_over_dismiss)
next
  case Stop_clicked
  with assms show ?thesis by (auto simp: alert_over_close)
qed (use assms in \<open>auto simp: alert_over_def\<close>)

lemma quiet_run:
  assumes "(ao_open s \<and> ao_timer s = Some t) \<or> alert_over s" "list_all (quiet wc t) es"
  shows "(ao_open (foldl (acoustic_step wc) s es) \<and> ao_timer (foldl (acoustic_step wc) s es) = Some t) \<or> alert_over (foldl (acoustic_step wc) s es)"
  using assms
proof (induction es arbitrary: s)
  case (Cons e es)
  have "quiet wc t e" "list_all (quiet wc t) es" using Cons.prems(2) by simp_all
  then show ?case using Cons.IH [OF quiet_step [OF Cons.prems(1)]] by simp
qed simp



section \<open>The layout\<close>

text \<open>
  Once mounted, \<open>useMediaQuery\<close> shows what the query says, through every change; \<open>useBreakpoint\<close> does
  not when the window is resized between the first render and the effect: the wrong layout stays until
  the next change.
\<close>

theorem layout_hooks_follow:
  "let early = foldl media_change (media_mount b) before
   in md_shown (foldl media_change (useMediaQuery_effect early) after) = md_matches (foldl media_change (useMediaQuery_effect early) after)
      \<and> (after \<noteq> [] \<or> early = media_mount b \<longrightarrow>
           md_shown (foldl media_change (useBreakpoint_effect early) after) = md_matches (foldl media_change (useBreakpoint_effect early) after))
      \<and> md_shown (useBreakpoint_effect early) = b"
proof -
  have early: "md_shown (foldl media_change m as) = md_shown m \<and> \<not> md_listening (foldl media_change m as)" if "\<not> md_listening m" for m as
    using that by (induction as arbitrary: m) (auto simp: media_change_def)
  have run: "md_listening m \<Longrightarrow> md_shown m = md_matches m \<or> as \<noteq> [] \<Longrightarrow>
      md_shown (foldl media_change m as) = md_matches (foldl media_change m as)" for m as
  proof (induction as arbitrary: m)
    case (Cons a as)
    then show ?case by (simp add: media_change_def)
  qed simp
  show ?thesis
    using early [of "media_mount b" before] run [of "useMediaQuery_effect (foldl media_change (media_mount b) before)" after]
      run [of "useBreakpoint_effect (foldl media_change (media_mount b) before)" after]
    by (auto simp: Let_def useMediaQuery_effect_def useBreakpoint_effect_def media_mount_def)
qed

theorem layout_hooks_follow_witness:
  "let early = foldl media_change (media_mount False) [True]
   in md_shown (useMediaQuery_effect early) \<and> \<not> md_shown (useBreakpoint_effect early) \<and> md_matches (useBreakpoint_effect early)"
  using layout_hooks_follow [of False "[True]" "[]"]
  by (simp add: Let_def media_change_def media_mount_def useMediaQuery_effect_def useBreakpoint_effect_def)

end
