(* ===== verification/Spec2Isabelle.thy ===== *)
theory Spec2Isabelle
  imports ChatPages Photos HomeRoutes SettingsPanels CirclePanels Shell
begin

text \<open>
  Verification of the SentinelMesh client, the program under \<open>src/apps/pwa/src\<close> (paths below are
  relative to it).

  \<^bold>\<open>The program.\<close> The client shows safety events and community reports on a map, lets the
  members of a family circle share encrypted locations, carries public channels and encrypted messages
  over Nostr relays, listens for threats with the microphone, and keeps the user's identity and keys on
  the device. It has four layers. \<^emph>\<open>Services\<close> hold the protocols and the storage: IndexedDB and
  localStorage, Web Crypto, the Nostr events, the HTTP and socket clients. \<^emph>\<open>Slices\<close> are the Redux
  reducers of one application store. \<^emph>\<open>Hooks\<close> tie services to the store: sockets and relay
  subscriptions whose callbacks dispatch actions. \<^emph>\<open>Pages and components\<close> call services and
  dispatch actions from the handlers of the user's input. A message on its way from one device to
  another thus crosses a page (\<open>ChatPages\<close>), the messaging service (\<open>GiftWrap\<close>), a signer
  (\<open>Identity\<close>), a relay (\<open>NostrEvents\<close>), and on the other side the inbox hook (\<open>ChatSync\<close>), the
  chat database (\<open>ChatDb\<close>) and the slice (\<open>ChatSlice\<close>); a location crosses \<open>CircleKeys\<close> and
  \<open>Circles\<close>, an event \<open>Realtime\<close>, \<open>SafetyEvents\<close> and \<open>MapView\<close>.

  \<^bold>\<open>The theories.\<close>

  \<^item> \<open>Prelude\<close>: the JavaScript collections the code uses (stable sort, insertion-ordered sets and
    maps), results and errors, the collection of shared rules, and the interfaces as locales:
    \<open>reducer\<close> (an invariant of a reducer holds after every sequence of actions), \<open>keyed_store\<close>
    (what a lookup gives after a write or a removal), \<open>id_upsert\<close> and \<open>id_upsert_total\<close> (lists with
    unique ids), \<open>timeline\<close> (lists kept in order of time and id). Each is interpreted on the model's
    own operations in the theory of the component that provides them.
  \<^item> \<open>Text\<close>, \<open>Json\<close>, \<open>Storage\<close>: strings, bytes, hex and base64; \<open>JSON.stringify\<close> and
    \<open>JSON.parse\<close> with their round trip; object stores, localStorage and the Web Crypto parameter.
  \<^item> \<open>ChatSlice\<close>: \<open>store/chatSlice.ts\<close>, \<open>store/dmSlice.ts\<close>. Messages stay ordered and unique under
    every sequence of actions; the same messages in any order give the same list.
  \<^item> \<open>SafetyEvents\<close>: \<open>lib/trust.ts\<close>, \<open>services/safetyDataApi.ts\<close>, \<open>store/eventsSlice.ts\<close>,
    \<open>store/reportSlice.ts\<close>. Ids are unique, a revision is never replaced by an older one, a late
    snapshot does not undo live updates, unknown trust is shown as unverified.
  \<^item> \<open>NostrEvents\<close>: \<open>services/chat/{eventValidation,conversationId,dmConversation,circleChat,nip29,
    publicChannel,dmRelayDiscovery}.ts\<close> and \<open>services/relay\<close>. Conversation ids determine the set of
    participants; a channel message built here passes the validation of the receiver.
  \<^item> \<open>GiftWrap\<close>: \<open>services/chat/{nip59,nip17,inbox,dmSend}.ts\<close>. What is sent opens on the device of
    every recipient to the same text in the same conversation; what is accepted was signed by the key
    it is shown under; a wrap is delivered once.
  \<^item> \<open>ChatDb\<close>: \<open>services/chat/{chatStore,outbox,moderation,joinedChannels}.ts\<close>. Round trips of the
    encrypted rows, a round of the outbox settles every row that is due.
  \<^item> \<open>ChatSync\<close>: \<open>services/chat/chatSync.ts\<close>, \<open>hooks/useChannelSync.ts\<close>, \<open>hooks/useInboxSync.ts\<close>.
    What arrives before the history is neither lost nor doubled.
  \<^item> \<open>Vault\<close>: \<open>services/{identityStore,homeLocationStore,circleIdStore,bunkerStore}.ts\<close>.
  \<^item> \<open>Identity\<close>: \<open>services/{nostrService,signerService,nip05Service,vouchService}.ts\<close> and
    \<open>hooks/useActiveIdentity.ts\<close>. Everything signed is signed as the active identity, whichever of the
    three signers is in use; the local signer meets the contract the messaging theorems assume.
  \<^item> \<open>CircleKeys\<close>: \<open>services/e2eeService.ts\<close>. Keys never become extractable, a key is accepted from
    the owner alone, locations are bound to circle, epoch and member and read back exactly.
  \<^item> \<open>Backup\<close>: \<open>services/backupService.ts\<close>. An export restored elsewhere gives the same device.
  \<^item> \<open>Geo\<close>: \<open>utils/geo.ts\<close>, \<open>services/{mapApiService,routingService}.ts\<close>, \<open>hooks/useNearestThreat.ts\<close>,
    \<open>hooks/useInitialViewport.ts\<close>. The distance to a line is the minimum over its points; a flagged
    route is one that meets a danger zone.
  \<^item> \<open>Circles\<close>: \<open>store/circlesSlice.ts\<close>, \<open>hooks/{useCircles,useProximityAlerts}.ts\<close>,
    \<open>services/{circleWebSocket,locationPublisher}.ts\<close>. A member's location never goes back in time,
    alerts are raised exactly when their rule holds, the publisher recovers after a failure.
  \<^item> \<open>Realtime\<close>: \<open>services/websocket.ts\<close>, \<open>hooks/{useViewportWs,useSafetyDataSync}.ts\<close>.
  \<^item> \<open>Acoustic\<close>: \<open>constants/acousticThreats.ts\<close>, \<open>services/{acousticDetectionService,
    acousticSignalSubmit,reportAutoSubmit,audioCapture}.ts\<close>, \<open>store/acousticSlice.ts\<close>,
    \<open>hooks/useAcousticEngine.ts\<close>.
  \<^item> \<open>AppStore\<close>: \<open>store/index.ts\<close> and the remaining slices. The store is the product of its slices
    (the locale \<open>store_slice\<close>, interpreted for each), so the invariants of the components hold together
    (\<open>store_always_consistent\<close> below).
  \<^item> \<open>CircleAdmin\<close>: the handlers of \<open>components/FamilyCircleDashboard.tsx\<close>: invites, members, key
    epochs and the sharing controls.
  \<^item> \<open>CirclePanels\<close>: the circle screens, \<open>components/{CircleSidebar,MemberChip,CircleMapLayer,AlertBanner,
    ProximityAlertLog,InviteModal}.tsx\<close> and the forms of the dashboard. The map draws the latest
    location of each member and nothing else; an invite carries the owner's key from one device to the
    trust store of another.
  \<^item> \<open>ChatPages\<close>: \<open>pages/{ChatPage,PublicChannelPage,DirectConversationPage,CircleChatPage}.tsx\<close>,
    \<open>components/chat/{MessageComposer,ModerationMenu}.tsx\<close>. End-to-end statements: from the send
    button of one device to the conversation of another.
  \<^item> \<open>MapView\<close>: clustering, filters, camera rectangles, \<open>hooks/useCurrentLocation.ts\<close> and
    \<open>components/map/MapSearch.tsx\<close> as state machines.
  \<^item> \<open>LiveMap\<close>: \<open>pages/LiveMapPage.tsx\<close> with \<open>components/map/{MapCanvas,FieldLedger}.tsx\<close>,
    \<open>components/EventMarker.tsx\<close>, \<open>components/shared/AlertCard.tsx\<close>. The camera follows the position
    exactly while following is on, a link opens its alert once, an unverified event never looks like a
    confirmed one.
  \<^item> \<open>Pages\<close>: \<open>components/{ReportSubmit,ReportList}.tsx\<close>, the saved home,
    \<open>hooks/usePushSubscription.ts\<close>, \<open>pages/SettingsPage.tsx\<close>.
  \<^item> \<open>HomeRoutes\<close>: \<open>components/HomeRoutePanel.tsx\<close>, \<open>components/map/{HomeRouteLayer,
    RadiusZoneLayer}.tsx\<close>. The alerts counted for a route, the route marked and the route drawn.
  \<^item> \<open>Photos\<close>: \<open>services/photoService.ts\<close> and its use in \<open>components/ReportSubmit.tsx\<close>. What is
    uploaded is small and its faces are pixelated.
  \<^item> \<open>SignerPages\<close>: the remote signer on \<open>pages/SettingsPage.tsx\<close>,
    \<open>components/Nip05IdentitySection.tsx\<close>. From connecting to disconnecting, through a reload.
  \<^item> \<open>SettingsPanels\<close>: \<open>components/AlertPerimeter.tsx\<close> and the identity dialog. The perimeter is kept over
    a reload, the secret key is hidden until it is revealed.
  \<^item> \<open>Shell\<close>: \<open>config/{features,chat}.ts\<close>, \<open>services/{apiOrigin,serviceWorker}.ts\<close>, \<open>router.tsx\<close>,
    \<open>components/shell\<close>, the layout hooks, \<open>components/map/MapOverlayHost.tsx\<close>,
    \<open>components/AcousticAlert.tsx\<close>. No dead link, a dark chat, one reload, an alert that ends.

  \<^bold>\<open>How code becomes definitions.\<close> A TypeScript interface is a record, a union of literals a
  datatype; an operation that throws returns a result whose left side is the error; an operation on the
  database or the store takes the state and returns it changed. An asynchronous function is one
  definition where nothing else can run in between (Web Locks, a single transaction), and otherwise is
  split at its \<open>await\<close>s into one step per callback, so that the theorems quantify over every
  interleaving: they are stated over \<open>foldl step initial events\<close> for an arbitrary list of events. A
  handler that closes over the state of a render takes that state as an argument apart from the current
  one. React's scheduling is the order of the events.

  \<^bold>\<open>Parameters.\<close> Code that is not part of the repository is an argument: nostr-tools
  (\<open>nostr_tools\<close>, with the laws \<open>finalizes\<close>, \<open>signs_as\<close>, \<open>reads_from\<close>: a finalized event verifies and
  carries its key, a NIP-44 ciphertext opens for the two parties), Web Crypto (\<open>web_crypto\<close>, with
  \<open>crypto_laws\<close>: AES-GCM decrypts what it encrypted under the same key and associated data, wrapping and
  importing keep the key), SHA-256, the browser extension and the remote signer, random values and the
  clock, and the answers of relays and servers. Each law is shown to hold of a concrete instance in the
  witnesses.

  \<^bold>\<open>Numbers, text, loops.\<close> Coordinates and distances are real numbers: the rounding of binary
  floating point is not modelled. A number in JSON is a decimal literal. Times are integers. Strings
  are lists of characters below 256; the code compares and concatenates them, and where it counts bytes
  (invite codes, encryption) the encoding is written out. All loops of the code are iterations over a
  collection and become structural recursion or list functions. The only fuel is that of
  \<open>json_parse\<close>, \<open>2 * length s + 2\<close>, which \<open>parse_budget\<close> shows to be enough: more never changes the
  result.

  \<^bold>\<open>What the code does not do.\<close> Where the behaviour that a comment, a name or a neighbouring
  component promises does not hold, the theorem states what happens instead: stored direct messages
  that are not shown after a reload (\<open>dm_history_not_restored\<close>), the sender's circle message that
  appears twice (\<open>circle_echo_duplicated\<close>), a retried key epoch that replaces the key the members
  received (\<open>activation_retry_replaces_key\<close>), a sampled route check that misses a crossing
  (\<open>escape_route_check_misses_crossing\<close>), a microphone that stays on (\<open>microphone_left_on\<close>), route
  answers shown for another home or mode (\<open>stale_route_preview\<close>), an identifier shown as verified for a
  key it was not verified for (\<open>nip05_verified_for_wrong_key\<close>), locations that stay on the map after
  they have expired (\<open>expired_location_stays_drawn\<close>), and others beside the component they concern.

  \<^bold>\<open>Not modelled.\<close> Markup and styling: the JSX of the components renders the state that is
  modelled; several components (\<open>AlertsDock\<close>, \<open>AlertsSheet\<close>, \<open>MapFeatureStrip\<close>, \<open>MapStatsBar\<close>) are not
  mounted by any page. The pixels of the map: the map library is called with the values that are
  modelled. The canvas and the face detector are parameters (\<open>image_api\<close>, with \<open>canvas_laws\<close>: a drawing
  touches only its target, and inside it shows the source). The service worker's script, tile sources
  and build configuration are constants of the build. The gateway, the signal service and the
  deployment files are other programs; the client sees them through the answers that are arguments
  here.
\<close>

section \<open>The application store\<close>

text \<open>
  C15: whatever the sockets, the synchronization hooks, the pages and the user dispatch, and in
  whatever order, the invariants of all components hold together in the application store: unique
  events and a viewport of stored events, at most a hundred reports, consistent circles, ordered chat
  and direct messages, a selected route that is one of the alternatives, an acoustic alert with the
  time of its detection, and at most a hundred entries of the safety log.
\<close>

theorem store_always_consistent:
  "let s = foldl root_reducer root_initial actions
   in events_inv (root_events s) \<and> reports_inv (root_reports s) \<and> circles_ok (root_circles s)
      \<and> chat_inv (root_chat s) \<and> dm_inv (root_dm s) \<and> ui_ok (root_ui s) \<and> acoustic_ok (root_acoustic s)
      \<and> length (root_safetyLog s) \<le> 100"
  unfolding Let_def events_slice.proj_run reports_slice.proj_run circles_slice.proj_run chat_slice.proj_run
    dm_slice.proj_run ui_slice.proj_run acoustic_slice.proj_run log_slice.proj_run
  by (simp add: root_initial_def ev_red.inv_reachable rp_red.inv_reachable circles.inv_reachable chat_red.inv_reachable
      dm_red.inv_reachable ui.inv_reachable acoustic.inv_reachable safety_log.inv_reachable)

end
